(* ===== verification/Prelude.thy ===== *)
theory Prelude
  imports
    Main
    "HOL-Library.Word"
    "HOL-Library.List_Lexorder"
    "HOL-Library.Product_Lexorder"
begin

text \<open>
  Shared vocabulary of the development.

  \<^item> \<open>Result\<close>: Rust's \<open>Result<T, E>\<close> is the sum \<open>'e + 'a\<close>, with \<open>Inl\<close> for \<open>Err\<close>;
    \<open>res_bind\<close> is the \<open>?\<close> operator, \<open>try_all\<close>, \<open>try_fold\<close>, \<open>try_map\<close> and
    \<open>try_filter\<close> are loops whose body may return early.
  \<^item> \<open>Operations\<close>: a method that changes its state and may fail afterwards is an \<open>op\<close>, which returns
    its result with the state it leaves behind; \<open>op_bind\<close> is the \<open>?\<close> operator on operations.
  \<^item> \<open>Bytes\<close>: \<open>u8\<close> is \<open>8 word\<close>; a fixed array \<open>[u8; 32]\<close> is the \<open>256 word\<close> whose big-endian
    bytes it holds, so that Rust's lexicographic order of arrays is the order of words
    (\<open>arr32_bytes_less\<close>).  \<open>String\<close> is \<open>string\<close>, one \<open>char\<close> per UTF-8 byte, so \<open>length\<close> is
    Rust's \<open>len()\<close>.
  \<^item> \<open>Collections\<close>: a \<open>BTreeSet\<close> is a finite set, iterated through \<open>sorted_list_of_set\<close>; a
    \<open>BTreeMap\<close> is an association list with strictly increasing keys (\<open>bt_ok\<close>), which is the
    order in which Rust iterates it.
  \<^item> \<open>codec\<close>: a pair of \<open>serde_json\<close> functions for one type.  \<open>serde_json\<close> is not part of the
    repository, so codecs are parameters of every definition that encodes or decodes.
\<close>

section \<open>Collections of proof rules\<close>

named_theorems res_simps \<open>characterisation of successful results\<close>
named_theorems bt_simps \<open>lookup, key and order facts of ordered maps\<close>
named_theorems inv_intros \<open>preservation of the components' invariants\<close>


section \<open>Results\<close>

definition res_bind :: "'e + 'a \<Rightarrow> ('a \<Rightarrow> 'e + 'b) \<Rightarrow> 'e + 'b" where
  "res_bind m f = (case m of Inl e \<Rightarrow> Inl e | Inr x \<Rightarrow> f x)"

definition map_err :: "('e \<Rightarrow> 'd) \<Rightarrow> 'e + 'a \<Rightarrow> 'd + 'a" where
  "map_err f m = (case m of Inl e \<Rightarrow> Inl (f e) | Inr x \<Rightarrow> Inr x)"

definition ok_or :: "'a option \<Rightarrow> 'e \<Rightarrow> 'e + 'a" where
  "ok_or m e = (case m of None \<Rightarrow> Inl e | Some x \<Rightarrow> Inr x)"

definition ensure :: "bool \<Rightarrow> 'e \<Rightarrow> 'e + unit" where
  "ensure b e = (if b then Inr () else Inl e)"

definition is_ok :: "'e + 'a \<Rightarrow> bool" where
  "is_ok m = (case m of Inl _ \<Rightarrow> False | Inr _ \<Rightarrow> True)"

definition res_ok :: "'e + 'a \<Rightarrow> 'a option" where
  "res_ok m = (case m of Inl _ \<Rightarrow> None | Inr x \<Rightarrow> Some x)"

lemma res_bind_simps [simp]:
  "res_bind (Inl e) f = Inl e"
  "res_bind (Inr x) f = f x"
  by (simp_all add: res_bind_def)

lemma map_err_simps [simp]:
  "map_err f (Inl e) = Inl (f e)"
  "map_err f (Inr x) = Inr x"
  by (simp_all add: map_err_def)

lemma ok_or_simps [simp]:
  "ok_or None e = Inl e"
  "ok_or (Some x) e = Inr x"
  by (simp_all add: ok_or_def)

lemma ensure_simps [simp]:
  "ensure True e = Inr ()"
  "ensure False e = Inl e"
  by (simp_all add: ensure_def)

lemma is_ok_simps [simp]:
  "is_ok (Inl e) = False"
  "is_ok (Inr x) = True"
  by (simp_all add: is_ok_def)

lemma res_ok_simps [simp]:
  "res_ok (Inl e) = None"
  "res_ok (Inr x) = Some x"
  by (simp_all add: res_ok_def)

lemma res_bind_cong [fundef_cong]:
  "m = m' \<Longrightarrow> (\<And>x. m' = Inr x \<Longrightarrow> f x = g x) \<Longrightarrow> res_bind m f = res_bind m' g"
  by (cases m') auto

lemma res_bind_Inr_iff [res_simps]:
  "res_bind m f = Inr y \<longleftrightarrow> (\<exists>x. m = Inr x \<and> f x = Inr y)"
  by (cases m) auto

lemma res_bind_Inl_iff:
  "res_bind m f = Inl e \<longleftrightarrow> m = Inl e \<or> (\<exists>x. m = Inr x \<and> f x = Inl e)"
  by (cases m) auto

lemma map_err_Inr_iff [res_simps]: "map_err f m = Inr x \<longleftrightarrow> m = Inr x"
  by (cases m) auto

lemma map_err_Inl_iff: "map_err f m = Inl d \<longleftrightarrow> (\<exists>e. m = Inl e \<and> d = f e)"
  by (cases m) auto

lemma ok_or_Inr_iff [res_simps]: "ok_or m e = Inr x \<longleftrightarrow> m = Some x"
  by (cases m) auto

lemma ok_or_Inl_iff: "ok_or m e = Inl d \<longleftrightarrow> m = None \<and> d = e"
  by (cases m) auto

lemma ensure_Inr_iff [res_simps]: "ensure b e = Inr u \<longleftrightarrow> b"
  by (cases b) auto

lemma is_ok_iff: "is_ok m \<longleftrightarrow> (\<exists>x. m = Inr x)"
  by (cases m) auto

text \<open>Loops with early return.\<close>

primrec try_all :: "('a \<Rightarrow> 'e + unit) \<Rightarrow> 'a list \<Rightarrow> 'e + unit" where
  "try_all f [] = Inr ()"
| "try_all f (x # xs) = res_bind (f x) (\<lambda>_. try_all f xs)"

primrec try_fold :: "('s \<Rightarrow> 'a \<Rightarrow> 'e + 's) \<Rightarrow> 'a list \<Rightarrow> 's \<Rightarrow> 'e + 's" where
  "try_fold f [] s = Inr s"
| "try_fold f (x # xs) s = res_bind (f s x) (try_fold f xs)"

primrec try_map :: "('a \<Rightarrow> 'e + 'b) \<Rightarrow> 'a list \<Rightarrow> 'e + 'b list" where
  "try_map f [] = Inr []"
| "try_map f (x # xs) = res_bind (f x) (\<lambda>y. res_bind (try_map f xs) (\<lambda>ys. Inr (y # ys)))"

primrec try_filter :: "('a \<Rightarrow> 'e + bool) \<Rightarrow> 'a list \<Rightarrow> 'e + 'a list" where
  "try_filter f [] = Inr []"
| "try_filter f (x # xs) =
     res_bind (f x) (\<lambda>b. res_bind (try_filter f xs) (\<lambda>ys. Inr (if b then x # ys else ys)))"

lemma try_filter_filter: "(\<And>x. x \<in> set xs \<Longrightarrow> f x = Inr (P x)) \<Longrightarrow> try_filter f xs = Inr (filter P xs)"
  by (induction xs) auto

lemma try_all_Inr_iff [res_simps]: "try_all f xs = Inr u \<longleftrightarrow> (\<forall>x \<in> set xs. f x = Inr ())"
  by (induction xs) (auto simp: res_simps)

lemma try_map_Inr_iff [res_simps]:
  "try_map f xs = Inr ys \<longleftrightarrow> list_all2 (\<lambda>x y. f x = Inr y) xs ys"
proof (induction xs arbitrary: ys)
  case Nil
  then show ?case by auto
next
  case (Cons x xs)
  then show ?case by (cases ys) (auto simp: res_simps)
qed

lemma try_map_total:
  "\<forall>x \<in> set xs. \<exists>y. f x = Inr y \<Longrightarrow> \<exists>ys. try_map f xs = Inr ys"
  by (induction xs) auto

lemma try_map_map: "(\<And>x. x \<in> set xs \<Longrightarrow> f x = Inr (g x)) \<Longrightarrow> try_map f xs = Inr (map g xs)"
  by (induction xs) auto

lemma try_fold_append:
  "try_fold f (xs @ ys) s = res_bind (try_fold f xs s) (try_fold f ys)"
proof (induction xs arbitrary: s)
  case Nil
  then show ?case by simp
next
  case (Cons x xs)
  then show ?case by (cases "f s x") auto
qed

text \<open>An invariant kept by the body of a \<open>try_fold\<close> loop holds for its result.\<close>

lemma try_fold_invariant:
  assumes "try_fold f xs s = Inr t" and "I s"
    and "\<And>s x t. x \<in> set xs \<Longrightarrow> I s \<Longrightarrow> f s x = Inr t \<Longrightarrow> I t"
  shows "I t"
  using assms
proof (induction xs arbitrary: s)
  case Nil
  then show ?case by simp
next
  case (Cons x xs)
  then obtain s' where s': "f s x = Inr s'" "try_fold f xs s' = Inr t"
    by (auto simp: res_simps)
  show ?case
    by (rule Cons.IH [OF s'(2)]) (use Cons.prems s'(1) in auto)
qed

text \<open>A failing \<open>try_fold\<close> loop failed at one element, after the elements before it.\<close>

lemma try_fold_error:
  "try_fold f xs s = Inl e \<Longrightarrow> \<exists>ys x zs t. xs = ys @ x # zs \<and> try_fold f ys s = Inr t \<and> f t x = Inl e"
proof (induction xs arbitrary: s)
  case Nil
  then show ?case by simp
next
  case (Cons x xs)
  show ?case
  proof (cases "f s x")
    case (Inl d)
    then show ?thesis using Cons.prems by (intro exI [of _ "[]"] exI [of _ x] exI [of _ xs] exI [of _ s]) simp
  next
    case (Inr s')
    then obtain ys y zs t where "xs = ys @ y # zs" "try_fold f ys s' = Inr t" "f t y = Inl e"
      using Cons.IH [of s'] Cons.prems by auto
    then show ?thesis
      using Inr by (intro exI [of _ "x # ys"] exI [of _ y] exI [of _ zs] exI [of _ t]) simp
  qed
qed


section \<open>Operations that change a state and may fail\<close>

type_synonym ('e, 's, 'a) op = "'s \<Rightarrow> ('e + 'a) \<times> 's"

definition op_return :: "'a \<Rightarrow> ('e, 's, 'a) op" where
  "op_return x s = (Inr x, s)"

definition op_fail :: "'e \<Rightarrow> ('e, 's, 'a) op" where
  "op_fail e s = (Inl e, s)"

definition op_lift :: "'e + 'a \<Rightarrow> ('e, 's, 'a) op" where
  "op_lift r s = (r, s)"

definition op_modify :: "('s \<Rightarrow> 's) \<Rightarrow> ('e, 's, unit) op" where
  "op_modify f s = (Inr (), f s)"

definition op_bind :: "('e, 's, 'a) op \<Rightarrow> ('a \<Rightarrow> ('e, 's, 'b) op) \<Rightarrow> ('e, 's, 'b) op" where
  "op_bind m f s = (case m s of (Inl e, t) \<Rightarrow> (Inl e, t) | (Inr x, t) \<Rightarrow> f x t)"

lemma op_bind_Inr_iff:
  "op_bind m f s = (Inr y, t) \<longleftrightarrow> (\<exists>x u. m s = (Inr x, u) \<and> f x u = (Inr y, t))"
  by (cases "m s"; cases "fst (m s)") (auto simp: op_bind_def)

primrec op_each :: "('a \<Rightarrow> ('e, 's, unit) op) \<Rightarrow> 'a list \<Rightarrow> ('e, 's, unit) op" where
  "op_each f [] = op_return ()"
| "op_each f (x # xs) = op_bind (f x) (\<lambda>_. op_each f xs)"

text \<open>A relation between a state and a later one, and the rules for sequences and loops of operations.\<close>

locale op_preorder =
  fixes R :: "'s \<Rightarrow> 's \<Rightarrow> bool"
  assumes refl: "R s s"
    and trans: "R s t \<Longrightarrow> R t u \<Longrightarrow> R s u"
begin

lemma op_bind: "R s (snd (m s)) \<Longrightarrow> (\<And>x t. R t (snd (f x t))) \<Longrightarrow> R s (snd (op_bind m f s))"
  by (cases "m s"; cases "fst (m s)") (auto simp: op_bind_def intro: trans)

lemma op_return: "R s (snd (op_return x s))"
  by (simp add: op_return_def refl)

lemma op_fail: "R s (snd (op_fail err s))"
  by (simp add: op_fail_def refl)

lemma op_lift: "R s (snd (op_lift r s))"
  by (simp add: op_lift_def refl)

lemma op_each: "(\<And>x t. x \<in> set xs \<Longrightarrow> R t (snd (f x t))) \<Longrightarrow> R s (snd (op_each f xs s))"
  by (induction xs arbitrary: s) (auto intro: op_bind op_return)

end


section \<open>Bytes, words and fixed arrays\<close>

type_synonym byte = "8 word"
type_synonym bytes = "byte list"
type_synonym u16 = "16 word"
type_synonym u32 = "32 word"
type_synonym u64 = "64 word"
type_synonym i64 = "64 word" \<comment> \<open>two's complement, read with \<open>sint\<close>\<close>
type_synonym arr32 = "256 word" \<comment> \<open>\<open>[u8; 32]\<close>\<close>
type_synonym arr64 = "512 word" \<comment> \<open>\<open>[u8; 64]\<close>\<close>

text \<open>\<open>be_bytes k n\<close> is the big-endian encoding of \<open>n\<close> in \<open>k\<close> bytes, \<open>be_nat\<close> reads it back.\<close>

primrec be_bytes :: "nat \<Rightarrow> nat \<Rightarrow> bytes" where
  "be_bytes 0 n = []"
| "be_bytes (Suc k) n = word_of_nat (n div 256 ^ k) # be_bytes k n"

definition be_nat :: "bytes \<Rightarrow> nat" where
  "be_nat bs = foldl (\<lambda>a b. a * 256 + unat b) 0 bs"

lemma length_be_bytes [simp]: "length (be_bytes k n) = k"
  by (induction k) auto

lemma foldl_be_nat: "foldl (\<lambda>a b. a * 256 + unat (b :: byte)) a bs = a * 256 ^ length bs + be_nat bs"
proof (induction bs arbitrary: a)
  case Nil
  then show ?case by (simp add: be_nat_def)
next
  case (Cons b bs)
  have "be_nat (b # bs) = unat b * 256 ^ length bs + be_nat bs"
    using Cons [of "unat b"] by (simp add: be_nat_def)
  then show ?case using Cons [of "a * 256 + unat b"] by (simp add: algebra_simps)
qed

lemma be_nat_Nil [simp]: "be_nat [] = 0"
  by (simp add: be_nat_def)

lemma be_nat_Cons [simp]: "be_nat (b # bs) = unat b * 256 ^ length bs + be_nat bs"
  using foldl_be_nat [of "unat b" bs] by (simp add: be_nat_def)

lemma unat_byte_less [simp]: "unat (b :: byte) < 256"
  using unsigned_less [of b] by simp

lemma be_nat_less: "be_nat bs < 256 ^ length bs"
proof (induction bs)
  case Nil
  then show ?case by simp
next
  case (Cons b bs)
  have "unat b * 256 ^ length bs + be_nat bs < Suc (unat b) * 256 ^ length bs"
    using Cons by simp
  also have "\<dots> \<le> 256 * 256 ^ length bs"
    by (rule mult_le_mono1) (use unat_byte_less [of b] in linarith)
  finally show ?case by simp
qed

lemma unat_byte_of_nat: "unat (word_of_nat n :: byte) = n mod 256"
  by (simp add: unat_of_nat)

lemma be_nat_be_bytes: "be_nat (be_bytes k n) = n mod 256 ^ k"
proof (induction k)
  case 0
  then show ?case by simp
next
  case (Suc k)
  have "n mod 256 ^ Suc k = 256 ^ k * (n div 256 ^ k mod 256) + n mod 256 ^ k"
    by (metis mod_mult2_eq mult.commute power_Suc)
  then show ?case using Suc by (simp add: unat_byte_of_nat algebra_simps)
qed

lemma be_bytes_mod: "be_bytes k (n mod 256 ^ k') = be_bytes k n" if "k \<le> k'"
  using that
proof (induction k)
  case 0
  then show ?case by simp
next
  case (Suc k)
  have "(n mod 256 ^ k') div 256 ^ k mod 256 = n div 256 ^ k mod 256"
  proof -
    obtain j where j: "k' = Suc k + j" using Suc.prems le_Suc_ex by blast
    have "n mod 256 ^ k' = 256 ^ k * (n div 256 ^ k mod 256 ^ Suc j) + n mod 256 ^ k"
      using mod_mult2_eq [of n "256 ^ k" "256 ^ Suc j"] by (simp add: j power_add mult.assoc mult.left_commute)
    then have "(n mod 256 ^ k') div 256 ^ k = n div 256 ^ k mod 256 ^ Suc j"
      by simp
    moreover have "n div 256 ^ k mod 256 ^ Suc j mod 256 = n div 256 ^ k mod 256"
      by (simp add: mod_mod_cancel)
    ultimately show ?thesis by simp
  qed
  then have "(word_of_nat ((n mod 256 ^ k') div 256 ^ k) :: byte) = word_of_nat (n div 256 ^ k)"
    by (simp add: word_of_nat_eq_iff take_bit_eq_mod)
  then show ?case using Suc by simp
qed

lemma be_bytes_be_nat: "be_bytes (length bs) (be_nat bs) = bs"
proof (induction bs)
  case Nil
  then show ?case by simp
next
  case (Cons b bs)
  have "be_nat (b # bs) div 256 ^ length bs = unat b"
    using be_nat_less [of bs] by simp
  moreover have "be_bytes (length bs) (be_nat (b # bs)) = bs"
  proof -
    have "be_bytes (length bs) (be_nat (b # bs)) = be_bytes (length bs) (be_nat (b # bs) mod 256 ^ length bs)"
      by (simp only: be_bytes_mod [OF order_refl])
    also have "\<dots> = be_bytes (length bs) (be_nat bs)"
      using be_nat_less [of bs] by simp
    finally show ?thesis using Cons by simp
  qed
  ultimately show ?case by simp
qed

lemma be_bytes_inject:
  assumes "m < 256 ^ k" and "n < 256 ^ k"
  shows "be_bytes k m = be_bytes k n \<longleftrightarrow> m = n"
proof
  assume "be_bytes k m = be_bytes k n"
  then have "be_nat (be_bytes k m) = be_nat (be_bytes k n)" by simp
  then show "m = n" using assms by (simp only: be_nat_be_bytes mod_less)
qed simp

text \<open>Lexicographic order of equally long byte strings is the order of their values.\<close>

lemma be_nat_less_iff:
  "length xs = length ys \<Longrightarrow> xs < ys \<longleftrightarrow> be_nat xs < be_nat ys"
proof (induction xs ys rule: list_induct2)
  case Nil
  then show ?case by simp
next
  case (Cons x xs y ys)
  have lt: "be_nat (a # as) < be_nat (b # bs)"
    if "a < b" and "length as = length bs" for a b :: byte and as bs :: bytes
  proof -
    have "unat a < unat b" using that(1) by (simp add: word_less_nat_alt)
    then have "Suc (unat a) * 256 ^ length bs \<le> unat b * 256 ^ length bs"
      by (intro mult_le_mono1) simp
    then show ?thesis using be_nat_less [of as] that(2) by simp
  qed
  show ?case
  proof (cases x y rule: linorder_cases)
    case less
    then show ?thesis using lt [of x y xs ys] Cons.hyps by (simp del: be_nat_Cons)
  next
    case equal
    then show ?thesis using Cons by simp
  next
    case greater
    then show ?thesis using lt [of y x ys xs] Cons.hyps by (auto simp del: be_nat_Cons)
  qed
qed

text \<open>Fixed arrays and their conversions to and from vectors.\<close>

definition arr32_bytes :: "arr32 \<Rightarrow> bytes" where
  "arr32_bytes a = be_bytes 32 (unat a)"

definition arr64_bytes :: "arr64 \<Rightarrow> bytes" where
  "arr64_bytes a = be_bytes 64 (unat a)"

text \<open>\<open><[u8; 32]>::try_from\<close> and \<open><[u8; 64]>::try_from\<close> on a slice.\<close>

definition to_arr32 :: "bytes \<Rightarrow> arr32 option" where
  "to_arr32 bs = (if length bs = 32 then Some (word_of_nat (be_nat bs)) else None)"

definition to_arr64 :: "bytes \<Rightarrow> arr64 option" where
  "to_arr64 bs = (if length bs = 64 then Some (word_of_nat (be_nat bs)) else None)"

lemma length_arr32_bytes [simp]: "length (arr32_bytes a) = 32"
  by (simp add: arr32_bytes_def)

lemma length_arr64_bytes [simp]: "length (arr64_bytes a) = 64"
  by (simp add: arr64_bytes_def)

lemma unat_arr32_less: "unat (a :: arr32) < 256 ^ 32"
  using unsigned_less [of a] by simp

lemma unat_arr64_less: "unat (a :: arr64) < 256 ^ 64"
  using unsigned_less [of a] by simp

lemma arr32_bytes_inject [simp]: "arr32_bytes a = arr32_bytes b \<longleftrightarrow> a = b"
  by (simp only: arr32_bytes_def be_bytes_inject [OF unat_arr32_less unat_arr32_less] word_unat_eq_iff [symmetric])

lemma arr64_bytes_inject [simp]: "arr64_bytes a = arr64_bytes b \<longleftrightarrow> a = b"
  by (simp only: arr64_bytes_def be_bytes_inject [OF unat_arr64_less unat_arr64_less] word_unat_eq_iff [symmetric])

lemma arr32_bytes_less: "arr32_bytes a < arr32_bytes b \<longleftrightarrow> a < b"
proof -
  have "arr32_bytes a < arr32_bytes b \<longleftrightarrow> be_nat (arr32_bytes a) < be_nat (arr32_bytes b)"
    by (rule be_nat_less_iff) simp
  also have "\<dots> \<longleftrightarrow> unat a < unat b"
    by (simp only: arr32_bytes_def be_nat_be_bytes mod_less [OF unat_arr32_less])
  finally show ?thesis by (simp add: word_less_nat_alt)
qed

lemma to_arr32_arr32_bytes [simp]: "to_arr32 (arr32_bytes a) = Some a"
  by (simp add: to_arr32_def) (simp only: arr32_bytes_def be_nat_be_bytes mod_less [OF unat_arr32_less] of_nat_unat ucast_id)

lemma to_arr64_arr64_bytes [simp]: "to_arr64 (arr64_bytes a) = Some a"
  by (simp add: to_arr64_def) (simp only: arr64_bytes_def be_nat_be_bytes mod_less [OF unat_arr64_less] of_nat_unat ucast_id)

lemma arr32_bytes_to_arr32: "to_arr32 bs = Some a \<Longrightarrow> arr32_bytes a = bs"
proof -
  assume "to_arr32 bs = Some a"
  then have len: "length bs = 32" and a: "a = word_of_nat (be_nat bs)"
    by (auto simp: to_arr32_def split: if_splits)
  have "be_nat bs < 2 ^ 256" using be_nat_less [of bs] len by simp
  then have "unat a = be_nat bs" by (simp add: a unat_of_nat)
  then show ?thesis using be_bytes_be_nat [of bs] len by (simp add: arr32_bytes_def)
qed

lemma arr64_bytes_to_arr64: "to_arr64 bs = Some a \<Longrightarrow> arr64_bytes a = bs"
proof -
  assume "to_arr64 bs = Some a"
  then have len: "length bs = 64" and a: "a = word_of_nat (be_nat bs)"
    by (auto simp: to_arr64_def split: if_splits)
  have "be_nat bs < 2 ^ 512" using be_nat_less [of bs] len by simp
  then have "unat a = be_nat bs" by (simp add: a unat_of_nat)
  then show ?thesis using be_bytes_be_nat [of bs] len by (simp add: arr64_bytes_def)
qed

lemma to_arr32_length: "to_arr32 bs = Some a \<Longrightarrow> length bs = 32"
  by (simp add: to_arr32_def split: if_splits)

lemma to_arr64_length: "to_arr64 bs = Some a \<Longrightarrow> length bs = 64"
  by (simp add: to_arr64_def split: if_splits)

lemma to_arr32_None_iff: "to_arr32 bs = None \<longleftrightarrow> length bs \<noteq> 32"
  by (simp add: to_arr32_def)

lemma to_arr64_None_iff: "to_arr64 bs = None \<longleftrightarrow> length bs \<noteq> 64"
  by (simp add: to_arr64_def)

lemma to_arr32_inject: "to_arr32 bs = Some a \<Longrightarrow> to_arr32 cs = Some a \<Longrightarrow> bs = cs"
  using arr32_bytes_to_arr32 by blast

text \<open>\<open>to_be_bytes\<close> of the integer types.\<close>

definition u16_be :: "u16 \<Rightarrow> bytes" where
  "u16_be w = be_bytes 2 (unat w)"

definition u32_be :: "u32 \<Rightarrow> bytes" where
  "u32_be w = be_bytes 4 (unat w)"

definition i64_be :: "i64 \<Rightarrow> bytes" where
  "i64_be w = be_bytes 8 (unat w)"

lemma length_int_be [simp]:
  "length (u16_be a) = 2" "length (u32_be b) = 4" "length (i64_be c) = 8"
  by (simp_all add: u16_be_def u32_be_def i64_be_def)

lemma u16_be_inject [simp]: "u16_be a = u16_be b \<longleftrightarrow> a = b"
proof -
  have "unat a < 256 ^ 2" and "unat b < 256 ^ 2"
    using unsigned_less [of a] unsigned_less [of b] by simp_all
  then show ?thesis by (simp only: u16_be_def be_bytes_inject word_unat_eq_iff [symmetric])
qed

lemma u32_be_inject [simp]: "u32_be a = u32_be b \<longleftrightarrow> a = b"
proof -
  have "unat a < 256 ^ 4" and "unat b < 256 ^ 4"
    using unsigned_less [of a] unsigned_less [of b] by simp_all
  then show ?thesis by (simp only: u32_be_def be_bytes_inject word_unat_eq_iff [symmetric])
qed

lemma i64_be_inject [simp]: "i64_be a = i64_be b \<longleftrightarrow> a = b"
proof -
  have "unat a < 256 ^ 8" and "unat b < 256 ^ 8"
    using unsigned_less [of a] unsigned_less [of b] by simp_all
  then show ?thesis by (simp only: i64_be_def be_bytes_inject word_unat_eq_iff [symmetric])
qed

text \<open>Rust's checked addition of \<open>u64\<close>.\<close>

definition checked_add_u64 :: "u64 \<Rightarrow> u64 \<Rightarrow> u64 option" where
  "checked_add_u64 a b = (if unat a + unat b < 2 ^ 64 then Some (a + b) else None)"

lemma checked_add_u64_Some:
  "checked_add_u64 a b = Some c \<Longrightarrow> unat c = unat a + unat b"
  by (auto simp: checked_add_u64_def unat_word_ariths split: if_splits)

lemma checked_add_u64_None:
  "checked_add_u64 a b = None \<longleftrightarrow> 2 ^ 64 \<le> unat a + unat b"
  by (simp add: checked_add_u64_def)

text \<open>\<open>str::as_bytes\<close>, one byte per character of the UTF-8 text.\<close>

definition string_bytes :: "string \<Rightarrow> bytes" where
  "string_bytes s = map of_char s"

lemma length_string_bytes [simp]: "length (string_bytes s) = length s"
  by (simp add: string_bytes_def)

lemma of_char_byte_inject: "(of_char c :: byte) = of_char d \<longleftrightarrow> c = d"
proof
  assume "(of_char c :: byte) = of_char d"
  then have "unat (word_of_nat (of_char c) :: byte) = unat (word_of_nat (of_char d) :: byte)"
    by (simp add: of_nat_of_char)
  then show "c = d" by (simp only: unat_byte_of_nat of_char_mod_256 of_char_eq_iff)
qed simp

lemma string_bytes_inject [simp]: "string_bytes s = string_bytes t \<longleftrightarrow> s = t"
proof -
  have "inj (of_char :: char \<Rightarrow> byte)" by (rule injI) (simp only: of_char_byte_inject)
  then show ?thesis by (simp only: string_bytes_def inj_map_eq_map)
qed


section \<open>Strictly sorted slices and chunks\<close>

text \<open>\<open>values.windows(2).all(|pair| pair[0] < pair[1])\<close>.\<close>

fun strictly_sorted :: "'a::linorder list \<Rightarrow> bool" where
  "strictly_sorted [] = True"
| "strictly_sorted [x] = True"
| "strictly_sorted (x # y # zs) = (x < y \<and> strictly_sorted (y # zs))"

lemma strictly_sorted_iff: "strictly_sorted xs \<longleftrightarrow> sorted_wrt (<) xs"
  by (induction xs rule: strictly_sorted.induct) (auto intro: less_trans)

lemma strictly_sorted_distinct: "strictly_sorted xs \<Longrightarrow> distinct xs"
  by (simp add: strictly_sorted_iff strict_sorted_iff)

lemma strictly_sorted_filter: "strictly_sorted xs \<Longrightarrow> strictly_sorted (filter P xs)"
  by (simp add: strictly_sorted_iff sorted_wrt_filter)

lemma strictly_sorted_take_drop:
  "strictly_sorted xs \<Longrightarrow> strictly_sorted (take n xs)"
  "strictly_sorted xs \<Longrightarrow> strictly_sorted (drop n xs)"
  by (simp_all add: strictly_sorted_iff sorted_wrt_take sorted_wrt_drop)

lemma strictly_sorted_sorted_list_of_set [simp]: "strictly_sorted (sorted_list_of_set A)"
  by (simp add: strictly_sorted_iff)

lemma strictly_sorted_unique:
  "strictly_sorted xs \<Longrightarrow> strictly_sorted ys \<Longrightarrow> set xs = set ys \<Longrightarrow> xs = ys"
  by (simp add: strictly_sorted_iff strict_sorted_equal)

lemma strictly_sorted_remdups_adj_sort: "strictly_sorted (remdups_adj (sort xs))"
proof -
  have "strictly_sorted (remdups_adj ys)" if "sorted ys" for ys :: "'a list"
    using that
  proof (induction ys rule: remdups_adj.induct)
    case (3 x y ys)
    show ?case
    proof (cases "x = y")
      case True
      then show ?thesis using 3 by simp
    next
      case False
      then have "\<forall>z \<in> set (remdups_adj (y # ys)). x < z"
        using "3.prems" by (force simp: remdups_adj_set)
      then show ?thesis using False 3 by (simp add: strictly_sorted_iff)
    qed
  qed auto
  then show ?thesis by simp
qed

text \<open>\<open>slice::chunks\<close>, for the positive chunk sizes the code uses.\<close>

function chunks :: "nat \<Rightarrow> 'a list \<Rightarrow> 'a list list" where
  "chunks n xs = (if n = 0 \<or> xs = [] then [] else take n xs # chunks n (drop n xs))"
  by pat_completeness auto
termination
  by (relation "measure (\<lambda>(n, xs). length xs)") auto

declare chunks.simps [simp del]

lemma chunks_Nil [simp]: "chunks n [] = []"
  by (simp add: chunks.simps)

lemma chunks_step: "0 < n \<Longrightarrow> xs \<noteq> [] \<Longrightarrow> chunks n xs = take n xs # chunks n (drop n xs)"
  by (simp add: chunks.simps [of n xs])

lemma concat_chunks: "0 < n \<Longrightarrow> concat (chunks n xs) = xs"
proof (induction n xs rule: chunks.induct)
  case (1 n xs)
  then show ?case by (cases "xs = []") (auto simp: chunks_step)
qed

lemma chunks_member:
  "c \<in> set (chunks n xs) \<Longrightarrow> \<exists>k. c = take n (drop k xs) \<and> k < length xs"
proof (induction n xs rule: chunks.induct)
  case (1 n xs)
  show ?case
  proof (cases "n = 0 \<or> xs = []")
    case True
    then show ?thesis using "1.prems" by (auto simp: chunks.simps [of n xs])
  next
    case False
    then consider "c = take n xs" | "c \<in> set (chunks n (drop n xs))"
      using "1.prems" by (auto simp: chunks_step)
    then show ?thesis
    proof cases
      case 1
      then show ?thesis using False by (intro exI [of _ 0]) auto
    next
      case 2
      then obtain k where "c = take n (drop k (drop n xs))" "k < length (drop n xs)"
        using "1.IH" [OF False] by blast
      then show ?thesis using False by (intro exI [of _ "k + n"]) auto
    qed
  qed
qed

lemma chunks_length: "c \<in> set (chunks n xs) \<Longrightarrow> length c \<le> n"
  using chunks_member by fastforce

lemma chunks_nonempty: "c \<in> set (chunks n xs) \<Longrightarrow> 0 < n \<Longrightarrow> c \<noteq> []"
  using chunks_member by fastforce

lemma chunks_strictly_sorted:
  "c \<in> set (chunks n xs) \<Longrightarrow> strictly_sorted xs \<Longrightarrow> strictly_sorted c"
  using chunks_member strictly_sorted_take_drop by metis


section \<open>Ordered maps\<close>

type_synonym ('k, 'v) btree = "('k \<times> 'v) list"

definition bt_ok :: "('k::linorder, 'v) btree \<Rightarrow> bool" where
  "bt_ok m = strictly_sorted (map fst m)"

definition bt_get :: "('k, 'v) btree \<Rightarrow> 'k \<Rightarrow> 'v option" where
  "bt_get m = map_of m"

definition bt_keys :: "('k, 'v) btree \<Rightarrow> 'k list" where
  "bt_keys m = map fst m"

definition bt_values :: "('k, 'v) btree \<Rightarrow> 'v list" where
  "bt_values m = map snd m"

definition bt_contains_key :: "('k, 'v) btree \<Rightarrow> 'k \<Rightarrow> bool" where
  "bt_contains_key m k = (k \<in> set (bt_keys m))"

fun bt_insert :: "'k::linorder \<Rightarrow> 'v \<Rightarrow> ('k, 'v) btree \<Rightarrow> ('k, 'v) btree" where
  "bt_insert k v [] = [(k, v)]"
| "bt_insert k v ((k', v') # m) =
     (if k < k' then (k, v) # (k', v') # m
      else if k = k' then (k, v) # m
      else (k', v') # bt_insert k v m)"

text \<open>\<open>entry(k).or_insert(v)\<close>: an existing value is kept.\<close>

definition bt_or_insert :: "'k::linorder \<Rightarrow> 'v \<Rightarrow> ('k, 'v) btree \<Rightarrow> ('k, 'v) btree" where
  "bt_or_insert k v m = (if bt_contains_key m k then m else bt_insert k v m)"

definition bt_remove :: "'k \<Rightarrow> ('k, 'v) btree \<Rightarrow> ('k, 'v) btree" where
  "bt_remove k m = filter (\<lambda>p. fst p \<noteq> k) m"

definition bt_retain :: "('k \<Rightarrow> 'v \<Rightarrow> bool) \<Rightarrow> ('k, 'v) btree \<Rightarrow> ('k, 'v) btree" where
  "bt_retain P m = filter (\<lambda>p. P (fst p) (snd p)) m"

text \<open>\<open>collect\<close> into a map: later pairs overwrite earlier ones.\<close>

definition bt_of_list :: "('k::linorder \<times> 'v) list \<Rightarrow> ('k, 'v) btree" where
  "bt_of_list ps = fold (\<lambda>p m. bt_insert (fst p) (snd p) m) ps []"

lemma bt_get_Nil [simp]: "bt_get [] k = None"
  by (simp add: bt_get_def)

lemma bt_keys_simps [simp]:
  "bt_keys [] = []"
  "bt_keys (p # m) = fst p # bt_keys m"
  by (simp_all add: bt_keys_def)

lemma bt_ok_Nil [simp, inv_intros]: "bt_ok []"
  by (simp add: bt_ok_def)

lemma bt_ok_keys: "bt_ok m \<Longrightarrow> strictly_sorted (bt_keys m)"
  by (simp add: bt_ok_def bt_keys_def)

lemma bt_ok_distinct: "bt_ok m \<Longrightarrow> distinct (bt_keys m)"
  by (simp add: bt_ok_keys strictly_sorted_distinct)

lemma bt_get_insert [bt_simps]: "bt_get (bt_insert k v m) = (bt_get m)(k \<mapsto> v)"
  by (induction k v m rule: bt_insert.induct) (auto simp: bt_get_def)

lemma bt_keys_insert [bt_simps]: "set (bt_keys (bt_insert k v m)) = insert k (set (bt_keys m))"
  by (induction k v m rule: bt_insert.induct) auto

lemma bt_ok_insert [inv_intros]: "bt_ok m \<Longrightarrow> bt_ok (bt_insert k v m)"
proof (induction k v m rule: bt_insert.induct)
  case (1 k v)
  then show ?case by (simp add: bt_ok_def)
next
  case (2 k v k' v' m)
  have keys: "set (map fst (bt_insert k v m)) = insert k (set (map fst m))"
    using bt_keys_insert [of k v m] by (simp add: bt_keys_def)
  show ?case
    using 2 keys by (auto simp: bt_ok_def strictly_sorted_iff)
qed

lemma bt_contains_key_iff [bt_simps]: "bt_contains_key m k \<longleftrightarrow> (\<exists>v. bt_get m k = Some v)"
  by (metis bt_contains_key_def bt_get_def bt_keys_def domIff dom_map_of_conv_image_fst list.set_map not_Some_eq)

lemma bt_keys_iff_get: "k \<in> set (bt_keys m) \<longleftrightarrow> (\<exists>v. bt_get m k = Some v)"
  using bt_contains_key_iff [of m k] by (simp add: bt_contains_key_def)

lemma bt_get_None_iff: "bt_get m k = None \<longleftrightarrow> k \<notin> set (bt_keys m)"
  using bt_keys_iff_get [of k m] by (cases "bt_get m k") auto

lemma bt_get_or_insert [bt_simps]:
  "bt_get (bt_or_insert k v m) =
     (bt_get m)(k := Some (case bt_get m k of None \<Rightarrow> v | Some w \<Rightarrow> w))"
  by (auto simp: bt_or_insert_def bt_simps split: option.splits)

lemma bt_keys_or_insert [bt_simps]: "set (bt_keys (bt_or_insert k v m)) = insert k (set (bt_keys m))"
  by (auto simp: bt_or_insert_def bt_keys_insert bt_contains_key_def)

lemma bt_ok_or_insert [inv_intros]: "bt_ok m \<Longrightarrow> bt_ok (bt_or_insert k v m)"
  by (simp add: bt_or_insert_def bt_ok_insert)

lemma bt_get_remove [bt_simps]: "bt_get (bt_remove k m) = (bt_get m)(k := None)"
  by (induction m) (auto simp: bt_get_def bt_remove_def)

lemma bt_keys_remove [bt_simps]: "set (bt_keys (bt_remove k m)) = set (bt_keys m) - {k}"
  by (auto simp: bt_keys_def bt_remove_def)

lemma bt_ok_filter: "bt_ok m \<Longrightarrow> bt_ok (filter P m)"
  by (induction m) (auto simp: bt_ok_def strictly_sorted_iff)

lemma bt_ok_remove [inv_intros]: "bt_ok m \<Longrightarrow> bt_ok (bt_remove k m)"
  by (simp add: bt_remove_def bt_ok_filter)

lemma bt_ok_retain [inv_intros]: "bt_ok m \<Longrightarrow> bt_ok (bt_retain P m)"
  by (simp add: bt_retain_def bt_ok_filter)

lemma bt_get_retain [bt_simps]:
  "bt_ok m \<Longrightarrow>
     bt_get (bt_retain P m) k = (case bt_get m k of None \<Rightarrow> None | Some v \<Rightarrow> if P k v then Some v else None)"
proof (induction m)
  case Nil
  then show ?case by (simp add: bt_retain_def)
next
  case (Cons p m)
  have "bt_ok m" and p: "fst p \<notin> set (bt_keys m)"
    using Cons.prems bt_ok_distinct [OF Cons.prems] by (auto simp: bt_ok_def strictly_sorted_iff)
  moreover have "fst p \<notin> set (bt_keys (bt_retain P m))"
    using p by (auto simp: bt_keys_def bt_retain_def)
  ultimately show ?case
    using Cons.IH bt_get_None_iff [of m "fst p"] bt_get_None_iff [of "bt_retain P m" "fst p"]
    by (cases p) (auto simp: bt_retain_def bt_get_def split: option.splits)
qed

lemma bt_get_in_set: "bt_get m k = Some v \<Longrightarrow> (k, v) \<in> set m"
  by (simp add: bt_get_def map_of_SomeD)

lemma bt_get_eq_iff: "bt_ok m \<Longrightarrow> bt_get m k = Some v \<longleftrightarrow> (k, v) \<in> set m"
  using bt_ok_distinct [of m] by (simp add: bt_get_def bt_keys_def)

text \<open>An ordered map is determined by its lookups.\<close>

lemma bt_ext:
  assumes "bt_ok m" and "bt_ok n" and "bt_get m = bt_get n"
  shows "m = n"
proof -
  have inj: "inj_on fst (set m \<union> set n)"
    using assms by (auto simp: inj_on_def bt_get_eq_iff [symmetric])
  have "set m = set n"
    using assms bt_get_eq_iff [OF assms(1)] bt_get_eq_iff [OF assms(2)] by auto
  then have "map fst m = map fst n"
    using assms(1,2) by (intro strictly_sorted_unique) (auto simp: bt_ok_def)
  then show ?thesis by (rule map_inj_on [OF _ inj])
qed

lemma bt_of_list_snoc: "bt_of_list (ps @ [p]) = bt_insert (fst p) (snd p) (bt_of_list ps)"
  by (simp add: bt_of_list_def)

lemma bt_ok_of_list [simp, inv_intros]: "bt_ok (bt_of_list ps)"
  by (induction ps rule: rev_induct) (auto simp: bt_of_list_snoc bt_ok_insert, simp add: bt_of_list_def)

lemma bt_get_of_list [bt_simps]: "bt_get (bt_of_list ps) = map_of (rev ps)"
  by (induction ps rule: rev_induct) (auto simp: bt_of_list_snoc bt_get_insert, simp add: bt_of_list_def)

lemma bt_keys_of_list [bt_simps]: "set (bt_keys (bt_of_list ps)) = fst ` set ps"
  by (induction ps rule: rev_induct) (auto simp: bt_of_list_snoc bt_keys_insert, simp_all add: bt_of_list_def)

lemma length_bt_keys [simp]: "length (bt_keys m) = length m"
  by (simp add: bt_keys_def)

lemma length_bt_remove_less: "bt_contains_key m k \<Longrightarrow> length (bt_remove k m) < length m"
  by (auto simp: bt_contains_key_def bt_keys_def bt_remove_def intro!: length_filter_less)


section \<open>Codecs\<close>

text \<open>
  \<open>serde_json::to_vec\<close> and \<open>serde_json::from_slice\<close> at one type; \<open>None\<close> is \<open>serde_json::Error\<close>.
  \<open>codec_total\<close> and \<open>codec_lossless\<close> name the documented behaviour the code relies on: plain data
  serialises without an error, and what was serialised reads back as the same value.
\<close>

record 'a codec =
  to_vec :: "'a \<Rightarrow> bytes option"
  from_slice :: "bytes \<Rightarrow> 'a option"

definition codec_lossless :: "'a codec \<Rightarrow> bool" where
  "codec_lossless J \<longleftrightarrow> (\<forall>x bs. to_vec J x = Some bs \<longrightarrow> from_slice J bs = Some x)"

definition codec_total :: "'a codec \<Rightarrow> bool" where
  "codec_total J \<longleftrightarrow> (\<forall>x. \<exists>bs. to_vec J x = Some bs)"

lemma codec_losslessD: "codec_lossless J \<Longrightarrow> to_vec J x = Some bs \<Longrightarrow> from_slice J bs = Some x"
  by (simp add: codec_lossless_def)

lemma codec_lossless_inject:
  "codec_lossless J \<Longrightarrow> to_vec J x = Some bs \<Longrightarrow> to_vec J y = Some bs \<Longrightarrow> x = y"
  by (metis codec_losslessD option.inject)

end
