(* ===== verification/Crypto.thy ===== *)
theory Crypto
  imports Prelude
begin

text \<open>
  \<open>crates/crypto/src/lib.rs\<close>: identities and byte-level signature verification.

  Ed25519 (\<open>ed25519_dalek\<close>) and BLAKE3 (\<open>blake3\<close>) are not part of the repository: they are the
  fields of the parameter \<open>crypto\<close>, an argument of every definition that uses them.  A
  \<open>SigningKey\<close> is determined by its 32-byte seed.  \<open>ed25519_correct\<close> states the documented
  behaviour the code relies on: the public key of a seed is a valid key, and a signature made with
  the seed verifies under it.  Feeding a \<open>blake3::Hasher\<close> piecewise hashes the concatenation.
\<close>

record crypto =
  blake3 :: "bytes \<Rightarrow> arr32"
  ed_public_key :: "arr32 \<Rightarrow> arr32"             \<comment> \<open>\<open>SigningKey::from_bytes(seed).verifying_key().to_bytes()\<close>\<close>
  ed_sign :: "arr32 \<Rightarrow> bytes \<Rightarrow> arr64"         \<comment> \<open>\<open>SigningKey::from_bytes(seed).sign(bytes).to_bytes()\<close>\<close>
  ed_key_ok :: "arr32 \<Rightarrow> bool"                  \<comment> \<open>\<open>VerifyingKey::from_bytes(key).is_ok()\<close>\<close>
  ed_verify :: "arr32 \<Rightarrow> bytes \<Rightarrow> arr64 \<Rightarrow> bool" \<comment> \<open>\<open>verifying_key.verify(bytes, signature).is_ok()\<close>\<close>

definition ed25519_correct :: "crypto \<Rightarrow> bool" where
  "ed25519_correct C \<longleftrightarrow>
     (\<forall>seed. ed_key_ok C (ed_public_key C seed)) \<and>
     (\<forall>seed m. ed_verify C (ed_public_key C seed) m (ed_sign C seed m))"

definition PUBLIC_KEY_LEN :: nat where
  "PUBLIC_KEY_LEN = 32"

definition SIGNATURE_LEN :: nat where
  "SIGNATURE_LEN = 64"

datatype user_id = UserId (user_word: arr32)

instantiation user_id :: linorder
begin
definition less_eq_user_id :: "user_id \<Rightarrow> user_id \<Rightarrow> bool" where
  "less_eq_user_id a b = (user_word a \<le> user_word b)"
definition less_user_id :: "user_id \<Rightarrow> user_id \<Rightarrow> bool" where
  "less_user_id a b = (user_word a < user_word b)"
instance
  by intro_classes (auto simp: less_eq_user_id_def less_user_id_def user_id.expand)
end

definition user_from_public_key :: "crypto \<Rightarrow> arr32 \<Rightarrow> user_id" where
  "user_from_public_key C public_key = UserId (blake3 C (arr32_bytes public_key))"

definition user_bytes :: "user_id \<Rightarrow> bytes" where
  "user_bytes u = arr32_bytes (user_word u)"

datatype crypto_error =
    InvalidPublicKeyLength
  | InvalidSignatureLength
  | InvalidPublicKey
  | InvalidSignature

datatype identity = Identity (identity_seed: arr32)

definition identity_from_seed :: "arr32 \<Rightarrow> identity" where
  "identity_from_seed seed = Identity seed"

definition identity_public_key :: "crypto \<Rightarrow> identity \<Rightarrow> arr32" where
  "identity_public_key C i = ed_public_key C (identity_seed i)"

definition identity_user_id :: "crypto \<Rightarrow> identity \<Rightarrow> user_id" where
  "identity_user_id C i = user_from_public_key C (identity_public_key C i)"

definition identity_sign :: "crypto \<Rightarrow> identity \<Rightarrow> bytes \<Rightarrow> arr64" where
  "identity_sign C i bs = ed_sign C (identity_seed i) bs"

definition verify :: "crypto \<Rightarrow> bytes \<Rightarrow> bytes \<Rightarrow> bytes \<Rightarrow> crypto_error + unit" where
  "verify C public_key bs signature =
     res_bind (ok_or (to_arr32 public_key) InvalidPublicKeyLength) (\<lambda>pk.
     res_bind (ok_or (to_arr64 signature) InvalidSignatureLength) (\<lambda>sig.
     res_bind (ensure (ed_key_ok C pk) InvalidPublicKey) (\<lambda>_.
     ensure (ed_verify C pk bs sig) InvalidSignature)))"

lemma user_bytes_inject [simp]: "user_bytes a = user_bytes b \<longleftrightarrow> a = b"
  by (cases a; cases b) (simp add: user_bytes_def)

lemma length_user_bytes [simp]: "length (user_bytes a) = 32"
  by (simp add: user_bytes_def)

text \<open>Every outcome of \<open>verify\<close>, in the order in which the code decides it.\<close>

lemma verify_Inr_iff [res_simps]:
  "verify C pk m sig = Inr u \<longleftrightarrow>
     (\<exists>k s. to_arr32 pk = Some k \<and> to_arr64 sig = Some s \<and> ed_key_ok C k \<and> ed_verify C k m s)"
  by (auto simp: verify_def res_simps)

lemma verify_errors:
  "verify C pk m sig = Inl InvalidPublicKeyLength \<longleftrightarrow> length pk \<noteq> PUBLIC_KEY_LEN"
  "verify C pk m sig = Inl InvalidSignatureLength \<longleftrightarrow>
     length pk = PUBLIC_KEY_LEN \<and> length sig \<noteq> SIGNATURE_LEN"
  by (auto simp: verify_def PUBLIC_KEY_LEN_def SIGNATURE_LEN_def res_bind_Inl_iff ok_or_Inl_iff
      to_arr32_None_iff to_arr64_None_iff to_arr32_def to_arr64_def ensure_def split: if_splits)

text \<open>A signature made by an identity verifies under the identity's public key.\<close>

lemma identity_sign_verify:
  assumes "ed25519_correct C"
  shows "verify C (arr32_bytes (identity_public_key C i)) m (arr64_bytes (identity_sign C i m)) = Inr ()"
  using assms by (simp add: verify_def identity_public_key_def identity_sign_def ed25519_correct_def)

end
