(* ===== verification/Protocol.thy ===== *)
theory Protocol
  imports Crypto
begin

text \<open>
  \<open>crates/protocol/src/lib.rs\<close>: the signed event envelope.

  The two \<open>id_type!\<close> newtypes, \<open>EventContent\<close>, \<open>SignedEvent\<close>, the hand-written canonical encoding,
  event creation and validation.  The lemmas show that the canonical encoding determines the
  content it encodes, that an event made by \<open>create_signed\<close> from content within the limits
  validates, and that two valid events with the same identifier are the same event unless BLAKE3
  collides on them.
\<close>

section \<open>Identifiers\<close>

datatype event_id = EventId (event_word: arr32)

datatype community_id = CommunityId (community_word: arr32)

instantiation event_id :: linorder
begin
definition less_eq_event_id :: "event_id \<Rightarrow> event_id \<Rightarrow> bool" where
  "less_eq_event_id a b = (event_word a \<le> event_word b)"
definition less_event_id :: "event_id \<Rightarrow> event_id \<Rightarrow> bool" where
  "less_event_id a b = (event_word a < event_word b)"
instance
  by intro_classes (auto simp: less_eq_event_id_def less_event_id_def event_id.expand)
end

instantiation community_id :: linorder
begin
definition less_eq_community_id :: "community_id \<Rightarrow> community_id \<Rightarrow> bool" where
  "less_eq_community_id a b = (community_word a \<le> community_word b)"
definition less_community_id :: "community_id \<Rightarrow> community_id \<Rightarrow> bool" where
  "less_community_id a b = (community_word a < community_word b)"
instance
  by intro_classes (auto simp: less_eq_community_id_def less_community_id_def community_id.expand)
end

definition event_bytes :: "event_id \<Rightarrow> bytes" where
  "event_bytes e = arr32_bytes (event_word e)"

definition community_bytes :: "community_id \<Rightarrow> bytes" where
  "community_bytes c = arr32_bytes (community_word c)"

definition community_from_event :: "event_id \<Rightarrow> community_id" where
  "community_from_event e = CommunityId (event_word e)"

section \<open>Events\<close>

definition PROTOCOL_VERSION :: u16 where
  "PROTOCOL_VERSION = 2"

definition MAX_EVENT_JSON_BYTES :: nat where
  "MAX_EVENT_JSON_BYTES = 256 * 1024"

definition MAX_PARENTS :: nat where
  "MAX_PARENTS = 32"

definition MAX_EVENT_TYPE_BYTES :: nat where
  "MAX_EVENT_TYPE_BYTES = 64"

definition MAX_PAYLOAD_BYTES :: nat where
  "MAX_PAYLOAD_BYTES = 64 * 1024"

record event_content =
  protocol_version :: u16
  community_id :: "community_id option"
  parents :: "event_id list"
  timestamp_ms :: i64
  event_type :: string
  payload :: bytes

record signed_event =
  content :: event_content
  public_key :: bytes
  signature :: bytes
  event_id :: event_id

datatype parse_error = ParseTooLarge | ParseJson

datatype protocol_error =
    UnsupportedVersion
  | InvalidEventType
  | PayloadTooLarge
  | TooManyParents
  | InvalidParents
  | InvalidGenesis
  | InvalidCommunityReference
  | EventPublicKeyLength
  | EventSignatureLength
  | EventInvalidSignature
  | EventIdMismatch

section \<open>Canonical encoding\<close>

definition put_bytes :: "bytes \<Rightarrow> bytes" where
  "put_bytes value_bytes = u32_be (word_of_nat (length value_bytes)) @ value_bytes"

definition canonical_content :: "event_content \<Rightarrow> bytes" where
  "canonical_content c =
     string_bytes ''chatcommons:content:v2'' @ [0] @
     u16_be (protocol_version c) @
     (case community_id c of
        Some i \<Rightarrow> 1 # community_bytes i
      | None \<Rightarrow> [0]) @
     u32_be (word_of_nat (length (parents c))) @
     concat (map event_bytes (parents c)) @
     i64_be (timestamp_ms c) @
     put_bytes (string_bytes (event_type c)) @
     put_bytes (payload c)"

definition event_preimage :: "bytes \<Rightarrow> bytes \<Rightarrow> bytes \<Rightarrow> bytes" where
  "event_preimage canonical pk sig =
     string_bytes ''chatcommons:event:v2'' @ [0] @ canonical @ pk @ sig"

definition calculate_event_id :: "crypto \<Rightarrow> bytes \<Rightarrow> arr32 \<Rightarrow> arr64 \<Rightarrow> event_id" where
  "calculate_event_id C canonical pk sig =
     EventId (blake3 C (event_preimage canonical (arr32_bytes pk) (arr64_bytes sig)))"

section \<open>Creation, parsing and validation\<close>

definition create_signed :: "crypto \<Rightarrow> event_content \<Rightarrow> identity \<Rightarrow> signed_event" where
  "create_signed C c0 identity =
     (let c = c0\<lparr>parents := remdups_adj (sort (parents c0))\<rparr>;
          canonical = canonical_content c;
          pk = identity_public_key C identity;
          sig = identity_sign C identity canonical
      in \<lparr>content = c, public_key = arr32_bytes pk, signature = arr64_bytes sig,
          event_id = calculate_event_id C canonical pk sig\<rparr>)"

definition create_genesis :: "crypto \<Rightarrow> identity \<Rightarrow> string \<Rightarrow> bytes \<Rightarrow> i64 \<Rightarrow> signed_event" where
  "create_genesis C identity ty pl ts =
     create_signed C
       \<lparr>protocol_version = PROTOCOL_VERSION, community_id = None, parents = [],
        timestamp_ms = ts, event_type = ty, payload = pl\<rparr> identity"

definition validate_event :: "crypto \<Rightarrow> signed_event \<Rightarrow> protocol_error + unit" where
  "validate_event C e =
     (let c = content e in
      if protocol_version c \<noteq> PROTOCOL_VERSION then Inl UnsupportedVersion
      else if event_type c = [] \<or> length (event_type c) > MAX_EVENT_TYPE_BYTES then Inl InvalidEventType
      else if length (payload c) > MAX_PAYLOAD_BYTES then Inl PayloadTooLarge
      else if length (parents c) > MAX_PARENTS then Inl TooManyParents
      else if \<not> strictly_sorted (parents c) then Inl InvalidParents
      else
        res_bind
          (case community_id c of
             None \<Rightarrow> ensure (parents c = []) InvalidGenesis
           | Some _ \<Rightarrow> ensure (parents c \<noteq> []) InvalidCommunityReference) (\<lambda>_.
        res_bind (ok_or (to_arr32 (public_key e)) EventPublicKeyLength) (\<lambda>pk.
        res_bind (ok_or (to_arr64 (signature e)) EventSignatureLength) (\<lambda>sig.
        let canonical = canonical_content c in
        res_bind
          (map_err (\<lambda>_. EventInvalidSignature)
            (verify C (arr32_bytes pk) canonical (arr64_bytes sig))) (\<lambda>_.
        if calculate_event_id C canonical pk sig \<noteq> event_id e then Inl EventIdMismatch
        else Inr ())))))"

definition community_id_of :: "crypto \<Rightarrow> signed_event \<Rightarrow> protocol_error + community_id" where
  "community_id_of C genesis =
     res_bind (validate_event C genesis) (\<lambda>_.
     if community_id (content genesis) \<noteq> None then Inl InvalidGenesis
     else Inr (community_from_event (event_id genesis)))"

definition author_id :: "crypto \<Rightarrow> signed_event \<Rightarrow> protocol_error + user_id" where
  "author_id C e =
     res_bind (ok_or (to_arr32 (public_key e)) EventPublicKeyLength) (\<lambda>pk.
     Inr (user_from_public_key C pk))"

definition parse_json :: "signed_event codec \<Rightarrow> bytes \<Rightarrow> parse_error + signed_event" where
  "parse_json J bs =
     (if length bs > MAX_EVENT_JSON_BYTES then Inl ParseTooLarge
      else ok_or (from_slice J bs) ParseJson)"

definition to_json :: "signed_event codec \<Rightarrow> signed_event \<Rightarrow> bytes option" where
  "to_json J e = to_vec J e"

text \<open>\<open>ParsedEvent::validate\<close>: the parsed event is handed out only once it validates.\<close>

definition parsed_event_validate :: "crypto \<Rightarrow> signed_event \<Rightarrow> protocol_error + signed_event" where
  "parsed_event_validate C e = res_bind (validate_event C e) (\<lambda>_. Inr e)"


section \<open>The canonical encoding determines the content\<close>

lemma event_bytes_inject [simp]: "event_bytes a = event_bytes b \<longleftrightarrow> a = b"
  by (cases a; cases b) (simp add: event_bytes_def)

lemma community_bytes_inject [simp]: "community_bytes a = community_bytes b \<longleftrightarrow> a = b"
  by (cases a; cases b) (simp add: community_bytes_def)

lemma length_id_bytes [simp]:
  "length (event_bytes a) = 32" "length (community_bytes b) = 32"
  by (simp_all add: event_bytes_def community_bytes_def)

lemma community_from_event_inject [simp]:
  "community_from_event a = community_from_event b \<longleftrightarrow> a = b"
  by (cases a; cases b) (simp add: community_from_event_def)

text \<open>The order of identifiers is the lexicographic order of their bytes, as derived in Rust.\<close>

lemma event_id_less_bytes: "a < b \<longleftrightarrow> event_bytes a < event_bytes b"
  by (simp add: less_event_id_def event_bytes_def arr32_bytes_less)

definition encodable :: "event_content \<Rightarrow> bool" where
  "encodable c \<longleftrightarrow>
     length (parents c) < 2 ^ 32 \<and> length (event_type c) < 2 ^ 32 \<and> length (payload c) < 2 ^ 32"

lemma u32_of_nat_inject:
  "m < 2 ^ 32 \<Longrightarrow> n < 2 ^ 32 \<Longrightarrow> (word_of_nat m :: u32) = word_of_nat n \<longleftrightarrow> m = n"
  by (simp add: word_of_nat_eq_iff take_bit_nat_eq_self)

lemma put_bytes_prefix_free:
  assumes "put_bytes a @ r = put_bytes b @ s"
    and "length a < 2 ^ 32" and "length b < 2 ^ 32"
  shows "a = b \<and> r = s"
proof -
  have "u32_be (word_of_nat (length a)) = u32_be (word_of_nat (length b))" and rest: "a @ r = b @ s"
    using assms(1) by (auto simp: put_bytes_def)
  then have "length a = length b"
    using assms(2,3) by (simp add: u32_of_nat_inject)
  then show ?thesis using rest by simp
qed

lemma concat_event_bytes_prefix_free:
  "length ps = length qs \<Longrightarrow>
   concat (map event_bytes ps) @ r = concat (map event_bytes qs) @ s \<Longrightarrow> ps = qs \<and> r = s"
  by (induction ps qs rule: list_induct2) auto

lemma canonical_content_prefix_free:
  assumes eq: "canonical_content c @ r = canonical_content d @ s"
    and c: "encodable c" and d: "encodable d"
  shows "c = d \<and> r = s"
proof -
  define tail where "tail = (\<lambda>c :: event_content. u32_be (word_of_nat (length (parents c))) @
     concat (map event_bytes (parents c)) @ i64_be (timestamp_ms c) @
     put_bytes (string_bytes (event_type c)) @ put_bytes (payload c))"
  have version: "protocol_version c = protocol_version d"
    and rest: "(case community_id c of Some i \<Rightarrow> 1 # community_bytes i | None \<Rightarrow> [0]) @ tail c @ r =
               (case community_id d of Some i \<Rightarrow> 1 # community_bytes i | None \<Rightarrow> [0]) @ tail d @ s"
    using eq by (auto simp: canonical_content_def tail_def)
  have community: "community_id c = community_id d" and tails: "tail c @ r = tail d @ s"
    using rest by (auto split: option.splits)
  then have len: "length (parents c) = length (parents d)"
    using c d by (auto simp: tail_def encodable_def u32_of_nat_inject)
  then have "concat (map event_bytes (parents c)) @ i64_be (timestamp_ms c) @
               put_bytes (string_bytes (event_type c)) @ put_bytes (payload c) @ r =
             concat (map event_bytes (parents d)) @ i64_be (timestamp_ms d) @
               put_bytes (string_bytes (event_type d)) @ put_bytes (payload d) @ s"
    using tails by (simp add: tail_def)
  then have ps: "parents c = parents d"
    and body: "i64_be (timestamp_ms c) @ put_bytes (string_bytes (event_type c)) @ put_bytes (payload c) @ r =
               i64_be (timestamp_ms d) @ put_bytes (string_bytes (event_type d)) @ put_bytes (payload d) @ s"
    using concat_event_bytes_prefix_free [OF len] by blast+
  then have ts: "timestamp_ms c = timestamp_ms d"
    and strs: "put_bytes (string_bytes (event_type c)) @ put_bytes (payload c) @ r =
               put_bytes (string_bytes (event_type d)) @ put_bytes (payload d) @ s"
    by auto
  have ty: "event_type c = event_type d" and pl: "put_bytes (payload c) @ r = put_bytes (payload d) @ s"
    using put_bytes_prefix_free [OF strs] c d by (auto simp: encodable_def)
  have "payload c = payload d" and "r = s"
    using put_bytes_prefix_free [OF pl] c d by (auto simp: encodable_def)
  then show ?thesis using version community ps ts ty by simp
qed

section \<open>Validation\<close>

lemma validate_event_Inr_iff [res_simps]:
  "validate_event C e = Inr u \<longleftrightarrow>
     protocol_version (content e) = PROTOCOL_VERSION \<and>
     event_type (content e) \<noteq> [] \<and> length (event_type (content e)) \<le> MAX_EVENT_TYPE_BYTES \<and>
     length (payload (content e)) \<le> MAX_PAYLOAD_BYTES \<and>
     length (parents (content e)) \<le> MAX_PARENTS \<and>
     strictly_sorted (parents (content e)) \<and>
     (community_id (content e) = None \<longleftrightarrow> parents (content e) = []) \<and>
     (\<exists>pk sig. to_arr32 (public_key e) = Some pk \<and> to_arr64 (signature e) = Some sig \<and>
        ed_key_ok C pk \<and> ed_verify C pk (canonical_content (content e)) sig \<and>
        event_id e = calculate_event_id C (canonical_content (content e)) pk sig)"
  by (auto simp: validate_event_def Let_def res_simps split: if_splits option.splits)

lemma valid_event_encodable: "validate_event C e = Inr () \<Longrightarrow> encodable (content e)"
  by (auto simp: res_simps encodable_def MAX_PARENTS_def MAX_EVENT_TYPE_BYTES_def MAX_PAYLOAD_BYTES_def)

lemma valid_event_author: "validate_event C e = Inr () \<Longrightarrow> \<exists>u. author_id C e = Inr u"
  by (auto simp: res_simps author_id_def)

lemma valid_event_genesis_iff:
  "validate_event C e = Inr () \<Longrightarrow> community_id (content e) = None \<longleftrightarrow> parents (content e) = []"
  by (simp add: res_simps)

text \<open>The bytes hashed into the identifier of an event.\<close>

definition signed_preimage :: "signed_event \<Rightarrow> bytes" where
  "signed_preimage e = event_preimage (canonical_content (content e)) (public_key e) (signature e)"

lemma valid_event_id:
  "validate_event C e = Inr () \<Longrightarrow> event_id e = EventId (blake3 C (signed_preimage e))"
  by (auto simp: res_simps calculate_event_id_def signed_preimage_def
      arr32_bytes_to_arr32 arr64_bytes_to_arr64)

lemma signed_preimage_inject:
  assumes "signed_preimage a = signed_preimage b"
    and a: "validate_event C a = Inr ()" and b: "validate_event C b = Inr ()"
    and "event_id a = event_id b"
  shows "a = b"
proof -
  have "canonical_content (content a) @ public_key a @ signature a =
        canonical_content (content b) @ public_key b @ signature b"
    using assms(1) by (simp add: signed_preimage_def event_preimage_def)
  then have "content a = content b" and "public_key a @ signature a = public_key b @ signature b"
    using canonical_content_prefix_free valid_event_encodable [OF a] valid_event_encodable [OF b] by blast+
  moreover have "length (public_key a) = length (public_key b)"
    using a b by (auto simp: res_simps dest!: to_arr32_length)
  ultimately show ?thesis using assms(4) by simp
qed

text \<open>
  \<open>collision_free C E\<close>: BLAKE3 does not collide on the preimages of the events in \<open>E\<close>.  (It cannot
  be injective on all byte strings, so the assumption always names the events at hand.)
\<close>

definition collision_free :: "crypto \<Rightarrow> signed_event set \<Rightarrow> bool" where
  "collision_free C E \<longleftrightarrow>
     (\<forall>a \<in> E. \<forall>b \<in> E. blake3 C (signed_preimage a) = blake3 C (signed_preimage b) \<longrightarrow>
        signed_preimage a = signed_preimage b)"

definition ids_unique :: "signed_event set \<Rightarrow> bool" where
  "ids_unique E \<longleftrightarrow> (\<forall>a \<in> E. \<forall>b \<in> E. event_id a = event_id b \<longrightarrow> a = b)"

lemma ids_uniqueD: "ids_unique E \<Longrightarrow> a \<in> E \<Longrightarrow> b \<in> E \<Longrightarrow> event_id a = event_id b \<Longrightarrow> a = b"
  by (simp add: ids_unique_def)

lemma ids_unique_subset: "ids_unique F \<Longrightarrow> E \<subseteq> F \<Longrightarrow> ids_unique E"
  by (auto simp: ids_unique_def)

lemma collision_free_ids_unique:
  assumes "collision_free C E" and "\<forall>e \<in> E. validate_event C e = Inr ()"
  shows "ids_unique E"
  unfolding ids_unique_def
proof (intro ballI impI)
  fix a b assume ab: "a \<in> E" "b \<in> E" "event_id a = event_id b"
  then have "signed_preimage a = signed_preimage b"
    using assms valid_event_id [of C a] valid_event_id [of C b] by (auto simp: collision_free_def)
  then show "a = b" using signed_preimage_inject assms(2) ab by blast
qed

section \<open>Creation\<close>

lemma create_signed_simps [simp]:
  "content (create_signed C c i) = c\<lparr>parents := remdups_adj (sort (parents c))\<rparr>"
  "public_key (create_signed C c i) = arr32_bytes (identity_public_key C i)"
  by (simp_all add: create_signed_def Let_def)

lemma create_signed_valid:
  assumes "ed25519_correct C"
    and "protocol_version c = PROTOCOL_VERSION"
    and "event_type c \<noteq> []" and "length (event_type c) \<le> MAX_EVENT_TYPE_BYTES"
    and "length (payload c) \<le> MAX_PAYLOAD_BYTES"
    and "card (set (parents c)) \<le> MAX_PARENTS"
    and "community_id c = None \<longleftrightarrow> parents c = []"
  shows "validate_event C (create_signed C c i) = Inr ()"
proof -
  let ?ps = "remdups_adj (sort (parents c))"
  have "length ?ps = card (set (parents c))"
    using strictly_sorted_distinct [OF strictly_sorted_remdups_adj_sort, of "parents c"]
    by (metis distinct_card remdups_adj_set set_sort)
  moreover have "?ps = [] \<longleftrightarrow> parents c = []"
    by (metis remdups_adj_set set_empty set_sort)
  ultimately show ?thesis
    using assms by (auto simp: res_simps create_signed_def Let_def strictly_sorted_remdups_adj_sort
        identity_public_key_def identity_sign_def ed25519_correct_def)
qed

lemma create_signed_author:
  "author_id C (create_signed C c i) = Inr (identity_user_id C i)"
  by (simp add: author_id_def identity_user_id_def)


section \<open>The parent relation\<close>

text \<open>
  Each event names its parents by identifier.  \<open>wf (parent_relation E)\<close> says that parents do not run
  in a circle, which a collision-resistant hash guarantees in practice.
\<close>

definition parent_relation :: "signed_event set \<Rightarrow> (event_id \<times> event_id) set" where
  "parent_relation E = {(p, event_id e) | p e. e \<in> E \<and> p \<in> set (parents (content e))}"

lemma parent_minimal:
  assumes "wf (parent_relation E)" and "S \<noteq> {}"
  shows "\<exists>i \<in> S. \<forall>e \<in> E. event_id e = i \<longrightarrow> (\<forall>q \<in> set (parents (content e)). q \<notin> S)"
proof -
  obtain j where j: "j \<in> S" using assms(2) by blast
  obtain i where i: "i \<in> S" "\<forall>q. (q, i) \<in> parent_relation E \<longrightarrow> q \<notin> S"
    by (rule wfE_min [OF assms(1) j]) blast
  have "q \<notin> S" if "e \<in> E" "event_id e = i" "q \<in> set (parents (content e))" for e q
    using i(2) that by (auto simp: parent_relation_def)
  then show ?thesis using i(1) by blast
qed

end
