(* ===== verification/Storage.thy ===== *)
theory Storage
  imports Protocol
begin

text \<open>
  \<open>crates/storage/src/lib.rs\<close>: the SQLite event store.

  The state is the \<open>events\<close> table, an ordered map from the primary key \<open>event_id\<close> to the other two
  columns, with the documented meaning of the five SQL statements the code issues.  SQLite itself is
  not part of the repository: \<open>sql_fails\<close> says which statements return an error, and a failed
  statement leaves the table as it was.  The JSON codec of events is a parameter.

  The abstract contract is the locale \<open>event_log\<close>: a store is a partial map from identifiers to
  events, insertion keeps an event that is already there, and lookup returns what the map holds.
  It is interpreted on the store below, and the node relies on that interpretation.
\<close>

datatype insert_outcome = Inserted | AlreadyPresent

datatype storage_error =
    Sqlite
  | Corrupt
  | StorageProtocol protocol_error
  | InvalidStoredSize

datatype sql_statement =
    SqlOpen
  | SqlInsert event_id
  | SqlCount
  | SqlSum
  | SqlSelect event_id
  | SqlSelectCommunity community_id

record event_row =
  row_community :: "community_id option"
  row_body :: bytes

record event_store =
  events_table :: "(event_id, event_row) btree"
  sql_fails :: "sql_statement \<Rightarrow> bool"

text \<open>\<open>EventStore::open\<close>: \<open>CREATE TABLE IF NOT EXISTS\<close> on an existing or a new database file.\<close>

definition store_open ::
  "(sql_statement \<Rightarrow> bool) \<Rightarrow> (event_id, event_row) btree option \<Rightarrow> storage_error + event_store" where
  "store_open fails database =
     (if fails SqlOpen then Inl Sqlite
      else Inr \<lparr>events_table = (case database of None \<Rightarrow> [] | Some t \<Rightarrow> t), sql_fails = fails\<rparr>)"

definition decode_stored :: "crypto \<Rightarrow> signed_event codec \<Rightarrow> bytes \<Rightarrow> storage_error + signed_event" where
  "decode_stored C J bs =
     res_bind (ok_or (from_slice J bs) Corrupt) (\<lambda>e.
     res_bind (map_err StorageProtocol (validate_event C e)) (\<lambda>_. Inr e))"

text \<open>\<open>INSERT OR IGNORE\<close> changes one row, or none when the key is taken.\<close>

definition store_insert ::
  "crypto \<Rightarrow> signed_event codec \<Rightarrow> event_store \<Rightarrow> signed_event \<Rightarrow>
     storage_error + (insert_outcome \<times> event_store)" where
  "store_insert C J s e =
     res_bind (map_err StorageProtocol (validate_event C e)) (\<lambda>_.
     res_bind (ok_or (to_vec J e) Corrupt) (\<lambda>body.
     if sql_fails s (SqlInsert (event_id e)) then Inl Sqlite
     else if bt_contains_key (events_table s) (event_id e) then Inr (AlreadyPresent, s)
     else Inr (Inserted, s\<lparr>events_table :=
            bt_insert (event_id e) \<lparr>row_community = community_id (content e), row_body = body\<rparr>
              (events_table s)\<rparr>)))"

definition store_is_empty :: "event_store \<Rightarrow> storage_error + bool" where
  "store_is_empty s =
     (if sql_fails s SqlCount then Inl Sqlite else Inr (length (events_table s) = 0))"

text \<open>\<open>SUM\<close> is a 64-bit signed sum and reports an overflow as an error.\<close>

definition stored_bytes :: "event_store \<Rightarrow> nat" where
  "stored_bytes s = sum_list (map (\<lambda>p. length (row_body (snd p))) (events_table s))"

definition stored_event_bytes :: "event_store \<Rightarrow> storage_error + u64" where
  "stored_event_bytes s =
     (if sql_fails s SqlSum \<or> stored_bytes s \<ge> 2 ^ 63 then Inl Sqlite
      else if int (stored_bytes s) < 0 then Inl InvalidStoredSize
      else Inr (word_of_nat (stored_bytes s)))"

definition store_get ::
  "crypto \<Rightarrow> signed_event codec \<Rightarrow> event_store \<Rightarrow> event_id \<Rightarrow> storage_error + signed_event option" where
  "store_get C J s i =
     (if sql_fails s (SqlSelect i) then Inl Sqlite
      else case bt_get (events_table s) i of
             None \<Rightarrow> Inr None
           | Some r \<Rightarrow> res_bind (decode_stored C J (row_body r)) (\<lambda>e. Inr (Some e)))"

text \<open>\<open>WHERE community_id=?1 OR (community_id IS NULL AND event_id=?1) ORDER BY event_id\<close>.\<close>

definition row_selected :: "community_id \<Rightarrow> event_id \<times> event_row \<Rightarrow> bool" where
  "row_selected c p =
     (case row_community (snd p) of
        Some c' \<Rightarrow> c' = c
      | None \<Rightarrow> event_bytes (fst p) = community_bytes c)"

definition store_events ::
  "crypto \<Rightarrow> signed_event codec \<Rightarrow> event_store \<Rightarrow> community_id \<Rightarrow> storage_error + signed_event list" where
  "store_events C J s c =
     (if sql_fails s (SqlSelectCommunity c) then Inl Sqlite
      else try_map (\<lambda>p. decode_stored C J (row_body (snd p)))
             (filter (row_selected c) (events_table s)))"


section \<open>The contract of an event log\<close>

locale event_log =
  fixes insert_op :: "'s \<Rightarrow> signed_event \<Rightarrow> 'err + (insert_outcome \<times> 's)"
    and get_op :: "'s \<Rightarrow> event_id \<Rightarrow> 'err + signed_event option"
    and abs :: "'s \<Rightarrow> event_id \<rightharpoonup> signed_event"
    and invar :: "'s \<Rightarrow> bool"
  assumes insert_invar: "invar s \<Longrightarrow> insert_op s e = Inr (out, s') \<Longrightarrow> invar s'"
    and insert_new: "invar s \<Longrightarrow> abs s (event_id e) = None \<Longrightarrow> insert_op s e = Inr (out, s') \<Longrightarrow>
        out = Inserted \<and> abs s' = (abs s)(event_id e \<mapsto> e)"
    and insert_old: "invar s \<Longrightarrow> abs s (event_id e) = Some d \<Longrightarrow> insert_op s e = Inr (out, s') \<Longrightarrow>
        out = AlreadyPresent \<and> s' = s"
    and get_abs: "invar s \<Longrightarrow> get_op s i = Inr r \<Longrightarrow> r = abs s i"
    and abs_key: "invar s \<Longrightarrow> abs s i = Some e \<Longrightarrow> event_id e = i"
begin

lemma insert_extends:
  assumes "invar s" and "insert_op s e = Inr (out, s')"
  shows "abs s \<subseteq>\<^sub>m abs s'"
  using assms insert_new [of s e out s'] insert_old [of s e _ out s']
  by (cases "abs s (event_id e)") (auto simp: map_le_def)

lemma insert_present:
  assumes "invar s" and "insert_op s e = Inr (out, s')"
  shows "\<exists>d. abs s' (event_id e) = Some d \<and> event_id d = event_id e"
  using assms insert_new [of s e out s'] insert_old [of s e _ out s'] abs_key [of s]
  by (cases "abs s (event_id e)") auto

lemma insert_ran:
  assumes "invar s" and "insert_op s e = Inr (out, s')"
  shows "ran (abs s') \<subseteq> Set.insert e (ran (abs s))"
  using assms insert_new [of s e out s'] insert_old [of s e _ out s']
  by (cases "abs s (event_id e)") (auto simp: ran_def)

text \<open>Where identifiers are unique, the stored event is the inserted one.\<close>

lemma insert_stores:
  assumes "invar s" and "insert_op s e = Inr (out, s')" and "ids_unique (Set.insert e (ran (abs s)))"
  shows "abs s' (event_id e) = Some e"
proof (cases "abs s (event_id e)")
  case None
  then show ?thesis using assms insert_new by simp
next
  case (Some d)
  then have "d \<in> ran (abs s)" "event_id d = event_id e"
    using assms(1) abs_key by (auto simp: ran_def)
  then have "d = e" using assms(3) by (auto simp: ids_unique_def)
  then show ?thesis using Some assms(1,2) insert_old by blast
qed

lemma insert_twice:
  assumes "invar s" and "insert_op s e = Inr (out, s')" and "insert_op s' e = Inr (out', s'')"
  shows "out' = AlreadyPresent \<and> s'' = s'"
  using insert_present [OF assms(1,2)] insert_old [OF insert_invar [OF assms(1,2)] _ assms(3)] by blast

lemma insert_get:
  assumes "invar s" and "insert_op s e = Inr (Inserted, s')" and "get_op s' (event_id e) = Inr r"
  shows "r = Some e"
proof (cases "abs s (event_id e)")
  case None
  then have "abs s' (event_id e) = Some e" using insert_new [OF assms(1) _ assms(2)] by simp
  then show ?thesis using get_abs [OF insert_invar [OF assms(1,2)] assms(3)] by simp
next
  case (Some d)
  then show ?thesis using insert_old [OF assms(1) _ assms(2)] by blast
qed

end


section \<open>The store is an event log\<close>

definition row_ok :: "crypto \<Rightarrow> signed_event codec \<Rightarrow> event_id \<Rightarrow> event_row \<Rightarrow> bool" where
  "row_ok C J i r \<longleftrightarrow>
     (case from_slice J (row_body r) of
        None \<Rightarrow> False
      | Some e \<Rightarrow> to_vec J e = Some (row_body r) \<and> validate_event C e = Inr () \<and> event_id e = i \<and>
                  row_community r = community_id (content e))"

definition store_ok :: "crypto \<Rightarrow> signed_event codec \<Rightarrow> event_store \<Rightarrow> bool" where
  "store_ok C J s \<longleftrightarrow>
     codec_lossless J \<and> bt_ok (events_table s) \<and> (\<forall>p \<in> set (events_table s). row_ok C J (fst p) (snd p))"

definition store_abs :: "signed_event codec \<Rightarrow> event_store \<Rightarrow> event_id \<rightharpoonup> signed_event" where
  "store_abs J s i = (case bt_get (events_table s) i of None \<Rightarrow> None | Some r \<Rightarrow> from_slice J (row_body r))"

lemma store_ok_row:
  "store_ok C J s \<Longrightarrow> bt_get (events_table s) i = Some r \<Longrightarrow> row_ok C J i r"
  by (fastforce simp: store_ok_def dest: bt_get_in_set)

lemma store_abs_Some:
  assumes "store_ok C J s" and "store_abs J s i = Some e"
  shows "event_id e = i \<and> validate_event C e = Inr ()"
  using assms store_ok_row by (fastforce simp: store_abs_def row_ok_def split: option.splits)

lemma store_abs_dom: "store_ok C J s \<Longrightarrow> dom (store_abs J s) = set (bt_keys (events_table s))"
  using store_ok_row by (fastforce simp: store_abs_def row_ok_def dom_def bt_keys_iff_get split: option.splits)

lemma decode_stored_row:
  "row_ok C J i r \<Longrightarrow> decode_stored C J (row_body r) = Inr (the (from_slice J (row_body r)))"
  by (auto simp: row_ok_def decode_stored_def split: option.splits)

lemma store_get_ok:
  assumes "store_ok C J s" and "\<not> sql_fails s (SqlSelect i)"
  shows "store_get C J s i = Inr (store_abs J s i)"
proof (cases "bt_get (events_table s) i")
  case None
  then show ?thesis using assms(2) by (simp add: store_get_def store_abs_def)
next
  case (Some r)
  then have row: "row_ok C J i r" using store_ok_row [OF assms(1)] by blast
  then have "from_slice J (row_body r) \<noteq> None" by (auto simp: row_ok_def split: option.splits)
  then show ?thesis
    using Some assms(2) decode_stored_row [OF row] by (auto simp: store_get_def store_abs_def)
qed

lemma store_insert_Inr:
  assumes "store_insert C J s e = Inr (out, s')"
  shows "validate_event C e = Inr ()"
    and "\<exists>body. to_vec J e = Some body \<and>
       (if bt_contains_key (events_table s) (event_id e) then out = AlreadyPresent \<and> s' = s
        else out = Inserted \<and> s' = s\<lparr>events_table :=
            bt_insert (event_id e) \<lparr>row_community = community_id (content e), row_body = body\<rparr>
              (events_table s)\<rparr>)"
  using assms by (auto simp: store_insert_def res_bind_Inr_iff map_err_Inr_iff ok_or_Inr_iff split: if_splits)

lemma store_insert_ok [inv_intros]:
  assumes s: "store_ok C J s" and ins: "store_insert C J s e = Inr (out, s')"
  shows "store_ok C J s'"
proof -
  obtain body where body: "to_vec J e = Some body"
    and s': "s' = s \<or> s' = s\<lparr>events_table :=
        bt_insert (event_id e) \<lparr>row_community = community_id (content e), row_body = body\<rparr> (events_table s)\<rparr>"
    using store_insert_Inr(2) [OF ins] by (auto split: if_splits)
  have lossless: "codec_lossless J" using s by (simp add: store_ok_def)
  have row: "row_ok C J (event_id e) \<lparr>row_community = community_id (content e), row_body = body\<rparr>"
    using body store_insert_Inr(1) [OF ins] codec_losslessD [OF lossless body] by (simp add: row_ok_def)
  have set: "set (bt_insert k v m) \<subseteq> insert (k, v) (set m)" for k :: event_id and v :: event_row and m
    by (induction k v m rule: bt_insert.induct) auto
  show ?thesis
    using s' s row set [of "event_id e" "\<lparr>row_community = community_id (content e), row_body = body\<rparr>" "events_table s"]
    by (auto simp: store_ok_def bt_ok_insert)
qed

lemma store_insert_new:
  assumes s: "store_ok C J s" and new: "store_abs J s (event_id e) = None"
    and ins: "store_insert C J s e = Inr (out, s')"
  shows "out = Inserted \<and> store_abs J s' = (store_abs J s)(event_id e \<mapsto> e)"
proof -
  have "\<not> bt_contains_key (events_table s) (event_id e)"
    using new store_abs_dom [OF s] by (auto simp: bt_contains_key_def)
  moreover have "codec_lossless J" using s by (simp add: store_ok_def)
  ultimately show ?thesis
    using store_insert_Inr(2) [OF ins] by (auto simp: store_abs_def fun_eq_iff bt_get_insert codec_losslessD)
qed

lemma store_insert_old:
  assumes s: "store_ok C J s" and old: "store_abs J s (event_id e) = Some d"
    and ins: "store_insert C J s e = Inr (out, s')"
  shows "out = AlreadyPresent \<and> s' = s"
proof -
  have "bt_contains_key (events_table s) (event_id e)"
    using old store_abs_dom [OF s] by (auto simp: bt_contains_key_def)
  then show ?thesis using store_insert_Inr(2) [OF ins] by auto
qed

interpretation log: event_log "store_insert C J" "store_get C J" "store_abs J" "store_ok C J" for C J
proof
  show "store_ok C J s'" if "store_ok C J s" "store_insert C J s e = Inr (out, s')" for s e out s'
    using that by (rule store_insert_ok)
  show "out = Inserted \<and> store_abs J s' = (store_abs J s)(event_id e \<mapsto> e)"
    if "store_ok C J s" "store_abs J s (event_id e) = None" "store_insert C J s e = Inr (out, s')" for s e out s'
    using that by (rule store_insert_new)
  show "out = AlreadyPresent \<and> s' = s"
    if "store_ok C J s" "store_abs J s (event_id e) = Some d" "store_insert C J s e = Inr (out, s')" for s e d out s'
    using that by (rule store_insert_old)
  show "r = store_abs J s i" if "store_ok C J s" "store_get C J s i = Inr r" for s i r
    using that store_get_ok [OF that(1), of i] by (auto simp: store_get_def split: if_splits)
  show "event_id e = i" if "store_ok C J s" "store_abs J s i = Some e" for s i e
    using that by (simp add: store_abs_Some)
qed

text \<open>The remaining reads.\<close>

lemma store_open_ok: "codec_lossless J \<Longrightarrow> store_open f None = Inr s \<Longrightarrow> store_ok C J s \<and> store_abs J s = Map.empty"
  by (auto simp: store_open_def store_ok_def store_abs_def fun_eq_iff split: if_splits)

lemma store_is_empty_iff:
  "store_ok C J s \<Longrightarrow> store_is_empty s = Inr b \<Longrightarrow> b \<longleftrightarrow> store_abs J s = Map.empty"
  using store_abs_dom [of C J s] by (auto simp: store_is_empty_def bt_keys_def split: if_splits)

definition in_community :: "community_id \<Rightarrow> signed_event \<Rightarrow> bool" where
  "in_community c e =
     (case community_id (content e) of
        None \<Rightarrow> community_from_event (event_id e) = c
      | Some i \<Rightarrow> i = c)"

lemma row_selected_iff:
  "row_ok C J i r \<Longrightarrow> row_selected c (i, r) \<longleftrightarrow> in_community c (the (from_slice J (row_body r)))"
  by (cases c) (auto simp: row_ok_def row_selected_def in_community_def community_from_event_def
      event_bytes_def community_bytes_def split: option.splits)

lemma store_events_ok:
  assumes s: "store_ok C J s" and ev: "store_events C J s c = Inr es"
  shows "es = map (\<lambda>p. the (from_slice J (row_body (snd p)))) (filter (row_selected c) (events_table s))"
    and "set es = {e. store_abs J s (event_id e) = Some e \<and> in_community c e}"
    and "strictly_sorted (map event_id es)"
proof -
  let ?dec = "\<lambda>p. the (from_slice J (row_body (snd p)))"
  let ?rows = "filter (row_selected c) (events_table s)"
  have row: "row_ok C J (fst p) (snd p)" if "p \<in> set (events_table s)" for p
    using s that by (simp add: store_ok_def)
  have "try_map (\<lambda>p. decode_stored C J (row_body (snd p))) ?rows = Inr (map ?dec ?rows)"
    by (rule try_map_map) (rule decode_stored_row, rule row, simp)
  then show es: "es = map ?dec ?rows"
    using ev by (auto simp: store_events_def split: if_splits)
  have key: "event_id (?dec p) = fst p" if "p \<in> set (events_table s)" for p
    using row [OF that] by (auto simp: row_ok_def split: option.splits)
  have abs: "store_abs J s (event_id e) = Some e \<longleftrightarrow> (\<exists>p \<in> set (events_table s). e = ?dec p)" for e
  proof
    assume "store_abs J s (event_id e) = Some e"
    then obtain r where r: "bt_get (events_table s) (event_id e) = Some r" "from_slice J (row_body r) = Some e"
      by (auto simp: store_abs_def split: option.splits)
    then show "\<exists>p \<in> set (events_table s). e = ?dec p"
      using bt_get_in_set [OF r(1)] by (intro bexI [of _ "(event_id e, r)"]) simp_all
  next
    assume "\<exists>p \<in> set (events_table s). e = ?dec p"
    then obtain p where p: "p \<in> set (events_table s)" "e = ?dec p" by blast
    moreover have "bt_get (events_table s) (fst p) = Some (snd p)"
      using s p(1) by (cases p) (simp add: store_ok_def bt_get_eq_iff)
    ultimately show "store_abs J s (event_id e) = Some e"
      using key [OF p(1)] row [OF p(1)] by (auto simp: store_abs_def row_ok_def split: option.splits)
  qed
  have sel: "row_selected c p \<longleftrightarrow> in_community c (?dec p)" if "p \<in> set (events_table s)" for p
    using row_selected_iff [OF row [OF that]] by simp
  show "set es = {e. store_abs J s (event_id e) = Some e \<and> in_community c e}"
    using sel by (auto simp: es abs)
  have "map event_id es = map fst ?rows"
    using key by (auto simp: es)
  moreover have "bt_ok ?rows" using s by (simp add: store_ok_def bt_ok_filter)
  ultimately show "strictly_sorted (map event_id es)"
    by (simp add: bt_ok_def)
qed

text \<open>A byte count is returned only when it is exact; the size check after it never fails.\<close>

lemma stored_event_bytes_exact:
  "stored_event_bytes s = Inr n \<Longrightarrow> unat n = stored_bytes s"
  "stored_event_bytes s \<noteq> Inl InvalidStoredSize"
  by (auto simp: stored_event_bytes_def unat_of_nat split: if_splits)

lemma stored_bytes_insert:
  assumes "store_insert C J s e = Inr (Inserted, s')"
  shows "\<exists>body. to_vec J e = Some body \<and> stored_bytes s' = stored_bytes s + length body"
proof -
  have sum: "sum_list (map (\<lambda>p. length (row_body (snd p))) (bt_insert k v m)) =
      sum_list (map (\<lambda>p. length (row_body (snd p))) m) + length (row_body v)"
    if "\<not> bt_contains_key m k" for k :: event_id and v m
    using that by (induction k v m rule: bt_insert.induct) (auto simp: bt_contains_key_def)
  show ?thesis
    using store_insert_Inr(2) [OF assms] by (auto simp: stored_bytes_def sum split: if_splits)
qed

end
