(* ===== verification/Archive.thy ===== *)
theory Archive
  imports Storage
begin

text \<open>
  \<open>crates/storage/src/archive.rs\<close>: the portable community archive.

  Validation of an archive decides exactly whether its events form one parent-closed community
  history (\<open>validate_wire_Inr_iff\<close>), and an archive that \<open>encode\<close> produced parses and validates back
  to the same community and events, in identifier order.
\<close>

definition ARCHIVE_VERSION :: u16 where
  "ARCHIVE_VERSION = 1"

definition MAX_ARCHIVE_BYTES :: nat where
  "MAX_ARCHIVE_BYTES = 64 * 1024 * 1024"

definition MAX_ARCHIVE_EVENTS :: nat where
  "MAX_ARCHIVE_EVENTS = 65536"

record archive_wire =
  wire_version :: u16
  wire_community :: community_id
  wire_events :: "signed_event list"

record validated_archive =
  archive_community :: community_id
  archive_events :: "signed_event list"

datatype archive_error =
    ArchiveTooLarge
  | ArchiveJson
  | ArchiveUnsupportedVersion
  | ArchiveEventLimit
  | ArchiveInvalidOrder
  | ArchiveInvalidGenesis
  | ArchiveWrongCommunity
  | ArchiveMissingParent
  | ArchiveProtocol protocol_error

definition archive_parse :: "archive_wire codec \<Rightarrow> bytes \<Rightarrow> archive_error + archive_wire" where
  "archive_parse J bs =
     (if length bs > MAX_ARCHIVE_BYTES then Inl ArchiveTooLarge
      else ok_or (from_slice J bs) ArchiveJson)"

definition validate_wire :: "crypto \<Rightarrow> archive_wire \<Rightarrow> archive_error + validated_archive" where
  "validate_wire C w =
     (let events = wire_events w in
      if wire_version w \<noteq> ARCHIVE_VERSION then Inl ArchiveUnsupportedVersion
      else if events = [] \<or> length events > MAX_ARCHIVE_EVENTS then Inl ArchiveEventLimit
      else if \<not> strictly_sorted (map event_id events) then Inl ArchiveInvalidOrder
      else
        res_bind (try_all (\<lambda>e. map_err ArchiveProtocol (validate_event C e)) events) (\<lambda>_.
        let genesis = filter (\<lambda>e. community_id (content e) = None) events in
        if \<not> (case genesis of [e] \<Rightarrow> community_from_event (event_id e) = wire_community w | _ \<Rightarrow> False)
        then Inl ArchiveInvalidGenesis
        else if \<exists>e \<in> set events. case community_id (content e) of
                  None \<Rightarrow> False | Some c \<Rightarrow> c \<noteq> wire_community w
        then Inl ArchiveWrongCommunity
        else let event_ids = set (map event_id events) in
          if \<exists>e \<in> set events. \<exists>p \<in> set (parents (content e)). p \<notin> event_ids
          then Inl ArchiveMissingParent
          else Inr \<lparr>archive_community = wire_community w, archive_events = events\<rparr>))"

definition archive_encode ::
  "crypto \<Rightarrow> archive_wire codec \<Rightarrow> community_id \<Rightarrow> signed_event list \<Rightarrow> archive_error + bytes" where
  "archive_encode C J c events =
     res_bind (validate_wire C
       \<lparr>wire_version = ARCHIVE_VERSION, wire_community = c, wire_events = sort_key event_id events\<rparr>)
       (\<lambda>validated.
     res_bind (ok_or (to_vec J
       \<lparr>wire_version = ARCHIVE_VERSION, wire_community = archive_community validated,
        wire_events = archive_events validated\<rparr>) ArchiveJson) (\<lambda>bs.
     if length bs > MAX_ARCHIVE_BYTES then Inl ArchiveTooLarge else Inr bs))"

text \<open>\<open>into_parts\<close>: the community and the events of a validated archive.\<close>

definition archive_into_parts :: "validated_archive \<Rightarrow> community_id \<times> signed_event list" where
  "archive_into_parts v = (archive_community v, archive_events v)"

section \<open>What a valid archive is\<close>

text \<open>One community history: one genesis that names the community, every event in it, closed under parents.\<close>

definition community_history :: "community_id \<Rightarrow> signed_event set \<Rightarrow> bool" where
  "community_history c E \<longleftrightarrow>
     (\<exists>!g. g \<in> E \<and> community_id (content g) = None) \<and>
     (\<forall>e \<in> E. in_community c e) \<and>
     (\<forall>e \<in> E. set (parents (content e)) \<subseteq> event_id ` E)"

lemma singleton_list: "set ys = {x} \<Longrightarrow> distinct ys \<Longrightarrow> ys = [x]"
proof (cases ys)
  case (Cons a zs)
  assume "set ys = {x}" "distinct ys"
  then have "a = x" "set zs \<subseteq> {x}" "a \<notin> set zs" using Cons by auto
  then show ?thesis using Cons by (cases zs) auto
qed simp

lemma filter_singleton_iff:
  assumes "distinct xs"
  shows "(\<exists>x. filter P xs = [x] \<and> Q x) \<longleftrightarrow> (\<exists>!x. x \<in> set xs \<and> P x) \<and> (\<forall>x \<in> set xs. P x \<longrightarrow> Q x)"
proof
  assume "\<exists>x. filter P xs = [x] \<and> Q x"
  then obtain x where "filter P xs = [x]" "Q x" by blast
  then have "{y \<in> set xs. P y} = {x}" by (metis set_filter list.set(1) list.set(2))
  then show "(\<exists>!x. x \<in> set xs \<and> P x) \<and> (\<forall>x \<in> set xs. P x \<longrightarrow> Q x)"
    using \<open>Q x\<close> by (metis (mono_tags, lifting) mem_Collect_eq singletonD singletonI)
next
  assume *: "(\<exists>!x. x \<in> set xs \<and> P x) \<and> (\<forall>x \<in> set xs. P x \<longrightarrow> Q x)"
  from conjunct1 [OF *] obtain x where x: "x \<in> set xs" "P x" "\<And>y. y \<in> set xs \<Longrightarrow> P y \<Longrightarrow> y = x"
    by (rule ex1E) blast
  have "set (filter P xs) = {x}"
  proof (intro equalityI subsetI)
    fix y assume "y \<in> set (filter P xs)"
    then have "y \<in> set xs" "P y" by simp_all
    then have "y = x" by (rule x(3))
    then show "y \<in> {x}" by simp
  qed (simp add: x(1,2))
  moreover have "distinct (filter P xs)" using assms by simp
  ultimately have "filter P xs = [x]" by (rule singleton_list)
  then show "\<exists>x. filter P xs = [x] \<and> Q x" using x(1,2) conjunct2 [OF *] by simp
qed

lemma case_singleton: "(case xs of [e] \<Rightarrow> P e | _ \<Rightarrow> False) \<longleftrightarrow> (\<exists>e. xs = [e] \<and> P e)"
  by (auto split: list.splits)

lemma validate_wire_Inr_iff [res_simps]:
  "validate_wire C w = Inr v \<longleftrightarrow>
     wire_version w = ARCHIVE_VERSION \<and>
     length (wire_events w) \<le> MAX_ARCHIVE_EVENTS \<and>
     strictly_sorted (map event_id (wire_events w)) \<and>
     (\<forall>e \<in> set (wire_events w). validate_event C e = Inr ()) \<and>
     community_history (wire_community w) (set (wire_events w)) \<and>
     v = \<lparr>archive_community = wire_community w, archive_events = wire_events w\<rparr>"
proof (cases "strictly_sorted (map event_id (wire_events w))")
  case False
  then show ?thesis by (auto simp: validate_wire_def Let_def)
next
  case True
  let ?es = "wire_events w"
  have "distinct ?es"
    using strictly_sorted_distinct [OF True] by (simp add: distinct_map)
  then have gen: "(case filter (\<lambda>e. community_id (content e) = None) ?es of
        [e] \<Rightarrow> community_from_event (event_id e) = wire_community w | _ \<Rightarrow> False) \<longleftrightarrow>
      (\<exists>!g. g \<in> set ?es \<and> community_id (content g) = None) \<and>
      (\<forall>e \<in> set ?es. community_id (content e) = None \<longrightarrow> community_from_event (event_id e) = wire_community w)"
    by (simp only: case_singleton filter_singleton_iff)
  have member: "in_community c e \<longleftrightarrow>
      (community_id (content e) = None \<longrightarrow> community_from_event (event_id e) = c) \<and>
      (case community_id (content e) of None \<Rightarrow> True | Some d \<Rightarrow> d = c)" for c e
    by (simp add: in_community_def split: option.splits)
  have foreign: "(\<exists>e \<in> set ?es. case community_id (content e) of None \<Rightarrow> False | Some c \<Rightarrow> c \<noteq> wire_community w) \<longleftrightarrow>
      \<not> (\<forall>e \<in> set ?es. case community_id (content e) of None \<Rightarrow> True | Some d \<Rightarrow> d = wire_community w)"
    by (metis (no_types, lifting) option.case_eq_if)
  have closed: "(\<exists>e \<in> set ?es. \<exists>p \<in> set (parents (content e)). p \<notin> set (map event_id ?es)) \<longleftrightarrow>
      \<not> (\<forall>e \<in> set ?es. set (parents (content e)) \<subseteq> event_id ` set ?es)"
    by auto
  have nonempty: "(\<exists>!g. g \<in> set ?es \<and> community_id (content g) = None) \<Longrightarrow> ?es \<noteq> []"
    by auto
  show ?thesis
    unfolding validate_wire_def Let_def gen foreign closed community_history_def member
    using True nonempty
    by (cases "\<exists>!g. g \<in> set ?es \<and> community_id (content g) = None") (auto simp: res_simps)
qed

lemma archive_encode_Inr:
  assumes "archive_encode C J c es = Inr bs"
  shows "\<exists>v. validate_wire C \<lparr>wire_version = ARCHIVE_VERSION, wire_community = c,
             wire_events = sort_key event_id es\<rparr> = Inr v \<and>
         to_vec J \<lparr>wire_version = ARCHIVE_VERSION, wire_community = c,
             wire_events = sort_key event_id es\<rparr> = Some bs \<and>
         length bs \<le> MAX_ARCHIVE_BYTES"
  using assms by (auto simp: archive_encode_def res_simps split: if_splits)

lemma archive_roundtrip:
  assumes "codec_lossless J" and "archive_encode C J c es = Inr bs"
  shows "res_bind (archive_parse J bs) (validate_wire C) =
           Inr \<lparr>archive_community = c, archive_events = sort_key event_id es\<rparr>"
proof -
  let ?w = "\<lparr>wire_version = ARCHIVE_VERSION, wire_community = c, wire_events = sort_key event_id es\<rparr>"
  obtain v where v: "validate_wire C ?w = Inr v" and bs: "to_vec J ?w = Some bs" "length bs \<le> MAX_ARCHIVE_BYTES"
    using archive_encode_Inr [OF assms(2)] by blast
  have "archive_parse J bs = Inr ?w"
    using bs codec_losslessD [OF assms(1) bs(1)] by (simp add: archive_parse_def)
  moreover have "v = \<lparr>archive_community = c, archive_events = sort_key event_id es\<rparr>"
    using v by (auto simp: validate_wire_Inr_iff)
  ultimately show ?thesis using v by simp
qed

end
