(* ===== verification/Node_Core.thy ===== *)
theory Node_Core
  imports Storage
begin

text \<open>
  \<open>crates/node-core/src/lib.rs\<close>: one community's event DAG on top of the store.

  \<open>CoreNode\<close> is the record \<open>core_node\<close>; \<open>ingest\<close> returns its result together with the node it
  leaves behind, because a storage error in the middle of a batch keeps the events stored before it.
  The ready-loop and the ancestry walk are total functions with termination proofs.

  The lemmas show that ingestion computes the least set of events whose ancestry is available
  (\<open>ingest_closure\<close>), whatever the order of the batch, and that a node's known set stays closed
  under parents; that the ancestry walk returns the ancestors of an event; and that the heads are the
  known events no known event refers to.
\<close>

definition MAX_PENDING_EVENTS :: nat where
  "MAX_PENDING_EVENTS = 1024"

datatype node_error =
    NodeProtocol protocol_error
  | NodeStorage storage_error
  | UnknownCommunity
  | NodeWrongCommunity
  | NodeMissingParent
  | PendingLimitExceeded
  | UnknownEvent
  | AncestryLimitExceeded

record ingest_report =
  report_inserted :: nat
  report_already_present :: nat
  report_unresolved :: "event_id list"

record core_node =
  node_store :: event_store
  node_community :: "community_id option"
  node_known :: "event_id set"

definition node_open ::
  "crypto \<Rightarrow> signed_event codec \<Rightarrow> event_store \<Rightarrow> community_id option \<Rightarrow> node_error + core_node" where
  "node_open C J s c =
     (let node = \<lparr>node_store = s, node_community = c, node_known = {}\<rparr> in
      case c of
        None \<Rightarrow> Inr node
      | Some i \<Rightarrow>
          res_bind (map_err NodeStorage (store_events C J s i)) (\<lambda>events.
          if events = [] then Inl UnknownCommunity
          else Inr (node\<lparr>node_known := node_known node \<union> set (map event_id events)\<rparr>)))"

section \<open>Ingestion\<close>

text \<open>The checks before anything is stored, and the community the batch is for.\<close>

definition ingest_check ::
  "crypto \<Rightarrow> core_node \<Rightarrow> signed_event list \<Rightarrow> node_error + community_id" where
  "ingest_check C node events =
     (if length events > MAX_PENDING_EVENTS then Inl PendingLimitExceeded
      else
        res_bind (try_all (\<lambda>e. map_err NodeProtocol (validate_event C e)) events) (\<lambda>_.
        res_bind
          (case node_community node of
             Some i \<Rightarrow> Inr i
           | None \<Rightarrow>
               (case find (\<lambda>e. community_id (content e) = None) events of
                  None \<Rightarrow> Inl UnknownCommunity
                | Some e \<Rightarrow> map_err NodeProtocol (community_id_of C e))) (\<lambda>c.
        if \<exists>e \<in> set events. \<not> in_community c e then Inl NodeWrongCommunity
        else Inr c)))"

record ingest_state =
  ing_node :: core_node
  ing_pending :: "(event_id, signed_event) btree"
  ing_inserted :: nat
  ing_already_present :: nat

text \<open>The body of \<open>for id in ready\<close>.\<close>

definition ingest_one ::
  "crypto \<Rightarrow> signed_event codec \<Rightarrow> community_id \<Rightarrow> ingest_state \<Rightarrow> event_id \<Rightarrow>
     (node_error \<times> core_node) + ingest_state" where
  "ingest_one C J c st i =
     (let node = ing_node st in
      case bt_get (ing_pending st) i of
        None \<Rightarrow> Inl (NodeMissingParent, node)
      | Some e \<Rightarrow>
          (case store_insert C J (node_store node) e of
             Inl err \<Rightarrow> Inl (NodeStorage err, node)
           | Inr (out, s) \<Rightarrow>
               Inr \<lparr>ing_node = \<lparr>node_store = s,
                      node_community = (if community_id (content e) = None then Some c else node_community node),
                      node_known = insert i (node_known node)\<rparr>,
                    ing_pending = bt_remove i (ing_pending st),
                    ing_inserted = (case out of Inserted \<Rightarrow> Suc (ing_inserted st) | AlreadyPresent \<Rightarrow> ing_inserted st),
                    ing_already_present =
                      (case out of Inserted \<Rightarrow> ing_already_present st | AlreadyPresent \<Rightarrow> Suc (ing_already_present st))\<rparr>))"

definition ingest_ready :: "ingest_state \<Rightarrow> event_id list" where
  "ingest_ready st =
     map fst (filter (\<lambda>p. \<forall>q \<in> set (parents (content (snd p))). q \<in> node_known (ing_node st)) (ing_pending st))"

lemma ingest_one_Inr:
  assumes "ingest_one C J c st i = Inr st'"
  obtains e out s where "bt_get (ing_pending st) i = Some e"
    and "store_insert C J (node_store (ing_node st)) e = Inr (out, s)"
    and "node_store (ing_node st') = s"
    and "node_community (ing_node st') =
        (if community_id (content e) = None then Some c else node_community (ing_node st))"
    and "node_known (ing_node st') = insert i (node_known (ing_node st))"
    and "ing_pending st' = bt_remove i (ing_pending st)"
    and "ing_inserted st' = ing_inserted st + (if out = Inserted then 1 else 0)"
    and "ing_already_present st' = ing_already_present st + (if out = Inserted then 0 else 1)"
proof -
  from assms obtain e where e: "bt_get (ing_pending st) i = Some e"
    by (auto simp: ingest_one_def Let_def split: option.splits)
  from assms e obtain out s where os: "store_insert C J (node_store (ing_node st)) e = Inr (out, s)"
    by (auto simp: ingest_one_def Let_def split: sum.splits)
  show thesis
    by (rule that [OF e os]) (use assms e os in \<open>auto simp: ingest_one_def Let_def split: insert_outcome.splits\<close>)
qed

lemma ingest_one_Inl:
  "ingest_one C J c st i = Inl (err, node) \<Longrightarrow> node = ing_node st"
  by (auto simp: ingest_one_def Let_def split: option.splits sum.splits)

lemma ingest_fold_pending_le:
  "try_fold (ingest_one C J c) ids st = Inr st' \<Longrightarrow> length (ing_pending st') \<le> length (ing_pending st)"
proof (induction ids arbitrary: st)
  case Nil
  then show ?case by simp
next
  case (Cons i ids)
  then obtain st1 where st1: "ingest_one C J c st i = Inr st1" "try_fold (ingest_one C J c) ids st1 = Inr st'"
    by (auto simp: res_simps)
  have "length (ing_pending st1) \<le> length (ing_pending st)"
    by (rule ingest_one_Inr [OF st1(1)]) (auto simp: bt_remove_def)
  then show ?case using Cons.IH [OF st1(2)] by simp
qed

lemma ingest_fold_pending_less:
  assumes "try_fold (ingest_one C J c) ids st = Inr st'" and "ids \<noteq> []"
  shows "length (ing_pending st') < length (ing_pending st)"
proof -
  obtain i rest where ids: "ids = i # rest" using assms(2) by (cases ids) auto
  then obtain st1 where st1: "ingest_one C J c st i = Inr st1" "try_fold (ingest_one C J c) rest st1 = Inr st'"
    using assms(1) by (auto simp: res_simps)
  have "length (ing_pending st1) < length (ing_pending st)"
    by (rule ingest_one_Inr [OF st1(1)]) (auto simp: bt_contains_key_iff intro!: length_bt_remove_less)
  then show ?thesis using ingest_fold_pending_le [OF st1(2)] by simp
qed

function ingest_loop ::
  "crypto \<Rightarrow> signed_event codec \<Rightarrow> community_id \<Rightarrow> ingest_state \<Rightarrow>
     (node_error \<times> core_node) + ingest_state" where
  "ingest_loop C J c st =
     (let ready = ingest_ready st in
      if ready = [] then Inr st
      else res_bind (try_fold (ingest_one C J c) ready st) (ingest_loop C J c))"
  by pat_completeness auto
termination
  by (relation "measure (\<lambda>(C, J, c, st). length (ing_pending st))") (auto dest: ingest_fold_pending_less)

declare ingest_loop.simps [simp del]

definition ingest ::
  "crypto \<Rightarrow> signed_event codec \<Rightarrow> core_node \<Rightarrow> signed_event list \<Rightarrow>
     (node_error + ingest_report) \<times> core_node" where
  "ingest C J node events =
     (case ingest_check C node events of
        Inl err \<Rightarrow> (Inl err, node)
      | Inr c \<Rightarrow>
          (case ingest_loop C J c
                  \<lparr>ing_node = node, ing_pending = bt_of_list (map (\<lambda>e. (event_id e, e)) events),
                   ing_inserted = 0, ing_already_present = 0\<rparr> of
             Inl (err, node') \<Rightarrow> (Inl err, node')
           | Inr st \<Rightarrow>
               (Inr \<lparr>report_inserted = ing_inserted st,
                     report_already_present = ing_already_present st,
                     report_unresolved = bt_keys (ing_pending st)\<rparr>, ing_node st)))"

section \<open>Reads\<close>

definition node_event ::
  "crypto \<Rightarrow> signed_event codec \<Rightarrow> core_node \<Rightarrow> event_id \<Rightarrow> node_error + signed_event option" where
  "node_event C J node i = map_err NodeStorage (store_get C J (node_store node) i)"

fun node_events ::
  "crypto \<Rightarrow> signed_event codec \<Rightarrow> core_node \<Rightarrow> event_id list \<Rightarrow> node_error + signed_event list" where
  "node_events C J node [] = Inr []"
| "node_events C J node (i # ids) =
     res_bind (map_err NodeStorage (store_get C J (node_store node) i)) (\<lambda>found.
     res_bind (node_events C J node ids) (\<lambda>events.
     Inr (case found of Some e \<Rightarrow> e # events | None \<Rightarrow> events)))"

definition all_events ::
  "crypto \<Rightarrow> signed_event codec \<Rightarrow> core_node \<Rightarrow> node_error + signed_event list" where
  "all_events C J node = node_events C J node (sorted_list_of_set (node_known node))"

definition node_stored_event_bytes :: "core_node \<Rightarrow> node_error + u64" where
  "node_stored_event_bytes node = map_err NodeStorage (stored_event_bytes (node_store node))"

text \<open>\<open>heads\<close>: what is known and not referenced as a parent by a known event.\<close>

definition heads :: "crypto \<Rightarrow> signed_event codec \<Rightarrow> core_node \<Rightarrow> node_error + event_id list" where
  "heads C J node =
     res_bind
       (try_fold (\<lambda>referenced i.
          res_bind (map_err NodeStorage (store_get C J (node_store node) i)) (\<lambda>found.
          Inr (case found of
                 Some e \<Rightarrow> referenced \<union> set (parents (content e))
               | None \<Rightarrow> referenced)))
         (sorted_list_of_set (node_known node)) {})
       (\<lambda>referenced. Inr (sorted_list_of_set (node_known node - referenced)))"

text \<open>
  The ancestry walk pops identifiers off a stack.  At most \<open>limit\<close> identifiers are discovered and
  every discovery pushes at most the parents of one event, so the walk ends: lexicographically,
  either an identifier is newly discovered or the stack shrinks.
\<close>

function ancestry_walk ::
  "crypto \<Rightarrow> signed_event codec \<Rightarrow> core_node \<Rightarrow> nat \<Rightarrow> event_id list \<Rightarrow> event_id set \<Rightarrow>
     (event_id, signed_event) btree \<Rightarrow> node_error + signed_event list" where
  "ancestry_walk C J node limit [] discovered events = Inr (bt_values events)"
| "ancestry_walk C J node limit (i # stack) discovered events =
     (if i \<in> discovered then ancestry_walk C J node limit stack discovered events
      else if card (insert i discovered) > limit \<or> infinite discovered then Inl AncestryLimitExceeded
      else
        res_bind (res_bind (node_event C J node i) (\<lambda>found. ok_or found UnknownEvent)) (\<lambda>e.
        ancestry_walk C J node limit (rev (parents (content e)) @ stack) (insert i discovered)
          (bt_insert i e events)))"
  by pat_completeness auto
termination
  by (relation "measures [\<lambda>(C, J, node, limit, stack, discovered, events). limit - card discovered,
        \<lambda>(C, J, node, limit, stack, discovered, events). length stack]") auto

definition ancestry ::
  "crypto \<Rightarrow> signed_event codec \<Rightarrow> core_node \<Rightarrow> event_id \<Rightarrow> nat \<Rightarrow> node_error + signed_event list" where
  "ancestry C J node i limit =
     (if limit = 0 then Inl AncestryLimitExceeded
      else ancestry_walk C J node limit [i] {} [])"


section \<open>The ready-loop\<close>

lemma ingest_ready_iff:
  assumes "bt_ok (ing_pending st)"
  shows "i \<in> set (ingest_ready st) \<longleftrightarrow>
    (\<exists>e. bt_get (ing_pending st) i = Some e \<and> set (parents (content e)) \<subseteq> node_known (ing_node st))"
  using bt_get_eq_iff [OF assms] by (force simp: ingest_ready_def)

text \<open>
  The proof rule of the loop: a property kept by storing one event whose parents are known holds at
  the end, where nothing is ready any more, and for the node left behind by an error.
\<close>

lemma ingest_fold_rule:
  assumes "\<And>st i e st'. I st \<Longrightarrow> bt_ok (ing_pending st) \<Longrightarrow> bt_get (ing_pending st) i = Some e \<Longrightarrow>
      set (parents (content e)) \<subseteq> node_known (ing_node st) \<Longrightarrow> ingest_one C J c st i = Inr st' \<Longrightarrow> I st'"
    and "I st0" and "bt_ok (ing_pending st0)" and "set ids \<subseteq> set (ingest_ready st0)"
    and "try_fold (ingest_one C J c) ids st0 = Inr st1"
  shows "I st1 \<and> bt_ok (ing_pending st1)"
proof -
  define I' where "I' = (\<lambda>st. I st \<and> bt_ok (ing_pending st) \<and>
    bt_get (ing_pending st) \<subseteq>\<^sub>m bt_get (ing_pending st0) \<and> node_known (ing_node st0) \<subseteq> node_known (ing_node st))"
  have "I' st1"
  proof (rule try_fold_invariant [OF assms(5)])
    show "I' st0" using assms(2,3) by (simp add: I'_def)
  next
    fix st i st' assume i: "i \<in> set ids" and st: "I' st" and one: "ingest_one C J c st i = Inr st'"
    from one show "I' st'"
    proof (rule ingest_one_Inr)
      fix e out s
      assume e: "bt_get (ing_pending st) i = Some e"
        and known: "node_known (ing_node st') = insert i (node_known (ing_node st))"
        and pend: "ing_pending st' = bt_remove i (ing_pending st)"
      have "bt_get (ing_pending st0) i = Some e"
        using st e by (auto simp: I'_def map_le_def dom_def)
      then have "set (parents (content e)) \<subseteq> node_known (ing_node st)"
        using i assms(4) st ingest_ready_iff [OF assms(3), of i] by (auto simp: I'_def)
      then have "I st'" using assms(1) [OF _ _ e _ one] st by (simp add: I'_def)
      then show "I' st'"
        using st known pend by (auto simp: I'_def bt_ok_remove bt_get_remove map_le_def dom_def)
    qed
  qed
  then show ?thesis by (simp add: I'_def)
qed

lemma ingest_loop_rule:
  assumes step: "\<And>st i e st'. I st \<Longrightarrow> bt_ok (ing_pending st) \<Longrightarrow> bt_get (ing_pending st) i = Some e \<Longrightarrow>
      set (parents (content e)) \<subseteq> node_known (ing_node st) \<Longrightarrow> ingest_one C J c st i = Inr st' \<Longrightarrow> I st'"
    and "I st0" and "bt_ok (ing_pending st0)"
  shows "case ingest_loop C J c st0 of
      Inl (err, node) \<Rightarrow> \<exists>st. I st \<and> node = ing_node st
    | Inr st \<Rightarrow> I st \<and> bt_ok (ing_pending st) \<and> ingest_ready st = []"
  using assms
proof (induction C J c st0 rule: ingest_loop.induct)
  case (1 C J c st)
  let ?ready = "ingest_ready st"
  have fold_ok: "I st1 \<and> bt_ok (ing_pending st1)"
    if "try_fold (ingest_one C J c) ids st = Inr st1" "set ids \<subseteq> set ?ready" for ids st1
    by (rule ingest_fold_rule [where I = I, OF "1.prems"(1-3) that(2,1)])
  show ?case
  proof (cases "?ready = []")
    case True
    then show ?thesis using "1.prems"(2,3) by (simp add: ingest_loop.simps [of C J c st])
  next
    case False
    show ?thesis
    proof (cases "try_fold (ingest_one C J c) ?ready st")
      case (Inl p)
      obtain ys x zs st1 where "?ready = ys @ x # zs"
        and st1: "try_fold (ingest_one C J c) ys st = Inr st1" and x: "ingest_one C J c st1 x = Inl p"
        using try_fold_error [OF Inl] by blast
      then have "I st1" using fold_ok [OF st1] by auto
      then show ?thesis
        using Inl False ingest_one_Inl x by (cases p) (auto simp: ingest_loop.simps [of C J c st])
    next
      case (Inr st1)
      then have "I st1 \<and> bt_ok (ing_pending st1)" using fold_ok by blast
      then show ?thesis
        using "1.IH" [OF refl False Inr "1.prems"(1)] False Inr by (simp add: ingest_loop.simps [of C J c st])
    qed
  qed
qed


section \<open>What ingestion computes\<close>

text \<open>The least set that holds the known events and every pending event all of whose parents it holds.\<close>

inductive_set ingest_closure :: "event_id set \<Rightarrow> (event_id \<rightharpoonup> signed_event) \<Rightarrow> event_id set"
  for K :: "event_id set" and P :: "event_id \<rightharpoonup> signed_event" where
  closure_known: "i \<in> K \<Longrightarrow> i \<in> ingest_closure K P"
| closure_ready: "P i = Some e \<Longrightarrow> \<forall>q \<in> set (parents (content e)). q \<in> ingest_closure K P \<Longrightarrow>
    i \<in> ingest_closure K P"

definition batch_map :: "signed_event list \<Rightarrow> event_id \<rightharpoonup> signed_event" where
  "batch_map events = bt_get (bt_of_list (map (\<lambda>e. (event_id e, e)) events))"

lemma batch_map_Some: "batch_map events i = Some e \<Longrightarrow> e \<in> set events \<and> event_id e = i"
  by (auto simp: batch_map_def bt_get_of_list dest!: map_of_SomeD)

lemma batch_map_dom: "dom (batch_map events) = event_id ` set events"
  by (auto simp: batch_map_def bt_get_of_list dom_map_of_conv_image_fst image_image)

lemma batch_map_unique:
  assumes "ids_unique (set events)" and "e \<in> set events"
  shows "batch_map events (event_id e) = Some e"
proof -
  obtain d where d: "batch_map events (event_id e) = Some d"
    using batch_map_dom [of events] assms(2) by (metis domD imageI)
  then show ?thesis using batch_map_Some [OF d] ids_uniqueD [OF assms(1)] assms(2) by metis
qed

text \<open>The part of the batch that cannot be connected to the known events.\<close>

definition unresolved_ids :: "event_id set \<Rightarrow> signed_event list \<Rightarrow> event_id set" where
  "unresolved_ids K events = event_id ` set events - ingest_closure K (batch_map events)"

definition node_ok :: "crypto \<Rightarrow> signed_event codec \<Rightarrow> core_node \<Rightarrow> bool" where
  "node_ok C J node \<longleftrightarrow>
     store_ok C J (node_store node) \<and> finite (node_known node) \<and>
     (\<forall>i \<in> node_known node. \<exists>e c. store_abs J (node_store node) i = Some e \<and>
        node_community node = Some c \<and> in_community c e \<and>
        set (parents (content e)) \<subseteq> node_known node)"

text \<open>The events a node may come to hold: its own and those of the batch.\<close>

definition universe :: "signed_event codec \<Rightarrow> core_node \<Rightarrow> signed_event list \<Rightarrow> signed_event set" where
  "universe J node events = set events \<union> ran (store_abs J (node_store node))"

text \<open>The invariant of the loop, relative to the node and the batch it started with.\<close>

definition loop_inv ::
  "crypto \<Rightarrow> signed_event codec \<Rightarrow> community_id \<Rightarrow> core_node \<Rightarrow> signed_event list \<Rightarrow> ingest_state \<Rightarrow> bool" where
  "loop_inv C J c node0 events st \<longleftrightarrow>
     (let node = ing_node st in
      node_ok C J node \<and>
      node_known node0 \<subseteq> node_known node \<and>
      node_known node \<subseteq> ingest_closure (node_known node0) (batch_map events) \<and>
      bt_get (ing_pending st) \<subseteq>\<^sub>m batch_map events \<and>
      (\<forall>i e. batch_map events i = Some e \<longrightarrow> bt_get (ing_pending st) i = Some e \<or> i \<in> node_known node) \<and>
      ran (store_abs J (node_store node)) \<subseteq> universe J node0 events \<and>
      (node_community node = None \<or> node_community node = Some c) \<and>
      (node_community node0 \<noteq> None \<longrightarrow> node_community node = node_community node0) \<and>
      ing_inserted st + ing_already_present st + length (ing_pending st) = card (event_id ` set events))"

lemma length_bt_remove:
  assumes "bt_ok m" and "bt_get m k = Some v"
  shows "Suc (length (bt_remove k m)) = length m"
proof -
  have "length (bt_keys (bt_remove k m)) = card (set (bt_keys m) - {k})"
    using bt_ok_distinct [OF bt_ok_remove [OF assms(1), of k]] bt_keys_remove [of k m] by (metis distinct_card)
  moreover have "k \<in> set (bt_keys m)" using assms(2) by (auto simp: bt_keys_iff_get)
  moreover have "card (set (bt_keys m)) = length (bt_keys m)" using bt_ok_distinct [OF assms(1)] by (rule distinct_card)
  ultimately show ?thesis by (metis card_Suc_Diff1 length_bt_keys List.finite_set)
qed

lemma node_ok_known:
  assumes "node_ok C J node" and "i \<in> node_known node"
  obtains e c where "store_abs J (node_store node) i = Some e" and "node_community node = Some c"
    and "in_community c e" and "set (parents (content e)) \<subseteq> node_known node"
  using assms unfolding node_ok_def by blast

text \<open>Storing one event whose parents are known keeps the node well-formed.\<close>

lemma node_ok_insert:
  assumes node: "node_ok C J node" and ins: "store_insert C J (node_store node) e = Inr (out, s)"
    and uniq: "ids_unique (insert e (ran (store_abs J (node_store node))))"
    and par: "set (parents (content e)) \<subseteq> node_known node" and c: "in_community c e"
    and comm: "node_community node = None \<or> node_community node = Some c"
  shows "node_ok C J \<lparr>node_store = s,
           node_community = (if community_id (content e) = None then Some c else node_community node),
           node_known = insert (event_id e) (node_known node)\<rparr>"
proof -
  have ok: "store_ok C J (node_store node)" using node by (simp add: node_ok_def)
  have ext: "store_abs J (node_store node) \<subseteq>\<^sub>m store_abs J s" by (rule log.insert_extends [OF ok ins])
  have new: "store_abs J s (event_id e) = Some e" by (rule log.insert_stores [OF ok ins uniq])
  have "validate_event C e = Inr ()" using store_insert_Inr(1) [OF ins] .
  then have gen: "community_id (content e) = None \<or> parents (content e) \<noteq> []"
    using valid_event_genesis_iff by blast
  have has: "node_community node = Some c" if sc: "community_id (content e) \<noteq> None"
  proof -
    obtain q where "q \<in> node_known node" using gen sc par by (cases "parents (content e)") auto
    then show ?thesis using node comm by (auto elim: node_ok_known)
  qed
  let ?com = "if community_id (content e) = None then Some c else node_community node"
  have com: "?com = Some c" using has by auto
  have "\<exists>d c'. store_abs J s i = Some d \<and> ?com = Some c' \<and> in_community c' d \<and>
      set (parents (content d)) \<subseteq> insert (event_id e) (node_known node)"
    if "i \<in> insert (event_id e) (node_known node)" for i
  proof (cases "i = event_id e")
    case True
    then show ?thesis using new com c par by (intro exI [of _ e] exI [of _ c]) auto
  next
    case False
    then have "i \<in> node_known node" using that by simp
    with node obtain d c' where d: "store_abs J (node_store node) i = Some d" "node_community node = Some c'"
        "in_community c' d" "set (parents (content d)) \<subseteq> node_known node"
      by (rule node_ok_known)
    moreover have "store_abs J s i = Some d" using ext d(1) by (auto simp: map_le_def dom_def)
    ultimately show ?thesis using com comm by (intro exI [of _ d] exI [of _ c]) auto
  qed
  moreover have "finite (node_known node)" using node by (simp add: node_ok_def)
  ultimately show ?thesis
    using log.insert_invar [OF ok ins] by (simp add: node_ok_def)
qed


lemma loop_inv_step:
  assumes uniq: "ids_unique (universe J node0 events)" and batch: "\<forall>e \<in> set events. in_community c e"
    and inv: "loop_inv C J c node0 events st" and ok: "bt_ok (ing_pending st)"
    and e: "bt_get (ing_pending st) i = Some e"
    and par: "set (parents (content e)) \<subseteq> node_known (ing_node st)"
    and one: "ingest_one C J c st i = Inr st'"
  shows "loop_inv C J c node0 events st'"
  using one
proof (rule ingest_one_Inr)
  fix e' out s
  assume "bt_get (ing_pending st) i = Some e'"
    and ins': "store_insert C J (node_store (ing_node st)) e' = Inr (out, s)"
    and store: "node_store (ing_node st') = s"
    and com: "node_community (ing_node st') =
        (if community_id (content e') = None then Some c else node_community (ing_node st))"
    and known: "node_known (ing_node st') = insert i (node_known (ing_node st))"
    and pend: "ing_pending st' = bt_remove i (ing_pending st)"
    and count: "ing_inserted st' = ing_inserted st + (if out = Inserted then 1 else 0)"
      "ing_already_present st' = ing_already_present st + (if out = Inserted then 0 else 1)"
  then have e': "e' = e" and ins: "store_insert C J (node_store (ing_node st)) e = Inr (out, s)"
    using e by simp_all
  have batch_i: "batch_map events i = Some e"
    using inv e by (auto simp: loop_inv_def Let_def map_le_def dom_def)
  then have e_in: "e \<in> set events" and id_e: "event_id e = i"
    using batch_map_Some by blast+
  have node: "node_ok C J (ing_node st)" and ran: "ran (store_abs J (node_store (ing_node st))) \<subseteq> universe J node0 events"
    and comm: "node_community (ing_node st) = None \<or> node_community (ing_node st) = Some c"
    using inv by (auto simp: loop_inv_def Let_def)
  have store_ok: "store_ok C J (node_store (ing_node st))" using node by (simp add: node_ok_def)
  have uniq_e: "ids_unique (insert e (ran (store_abs J (node_store (ing_node st)))))"
    by (rule ids_unique_subset [OF uniq]) (use e_in ran in \<open>auto simp: universe_def\<close>)
  have "ing_node st' = \<lparr>node_store = s,
      node_community = (if community_id (content e) = None then Some c else node_community (ing_node st)),
      node_known = insert (event_id e) (node_known (ing_node st))\<rparr>"
    using store com known e' id_e by simp
  then have "node_ok C J (ing_node st')"
    using node_ok_insert [OF node ins uniq_e par _ comm] batch e_in by simp
  moreover have "i \<in> ingest_closure (node_known node0) (batch_map events)"
    by (rule closure_ready [where P = "batch_map events", OF batch_i]) (use par inv in \<open>auto simp: loop_inv_def Let_def\<close>)
  moreover have "ran (store_abs J s) \<subseteq> universe J node0 events"
    using log.insert_ran [OF store_ok ins] ran e_in by (auto simp: universe_def)
  moreover have "Suc (length (ing_pending st')) = length (ing_pending st)"
    using length_bt_remove [OF ok e] pend by simp
  moreover have "node_community node0 \<noteq> None \<longrightarrow> node_community (ing_node st') = node_community node0"
    using inv com comm by (auto simp: loop_inv_def Let_def)
  moreover have "bt_get (ing_pending st') \<subseteq>\<^sub>m batch_map events"
    using inv pend by (auto simp: loop_inv_def Let_def bt_get_remove map_le_def dom_def)
  moreover have "\<forall>k d. batch_map events k = Some d \<longrightarrow>
      bt_get (ing_pending st') k = Some d \<or> k \<in> node_known (ing_node st')"
    using inv pend known by (auto simp: loop_inv_def Let_def bt_get_remove)
  moreover have "node_known node0 \<subseteq> node_known (ing_node st')"
    "ing_inserted st' + ing_already_present st' = Suc (ing_inserted st + ing_already_present st)"
    "ing_inserted st + ing_already_present st + length (ing_pending st) = card (event_id ` set events)"
    "node_known (ing_node st) \<subseteq> ingest_closure (node_known node0) (batch_map events)"
    using inv known count by (auto simp: loop_inv_def Let_def)
  ultimately show ?thesis
    using store com known comm by (simp add: loop_inv_def Let_def)
qed

lemma loop_inv_init:
  assumes "node_ok C J node" and "node_community node = None \<or> node_community node = Some c"
  shows "loop_inv C J c node events
    \<lparr>ing_node = node, ing_pending = bt_of_list (map (\<lambda>e. (event_id e, e)) events),
     ing_inserted = 0, ing_already_present = 0\<rparr>"
proof -
  let ?m = "bt_of_list (map (\<lambda>e. (event_id e, e)) events)"
  have "length ?m = card (set (bt_keys ?m))"
    using distinct_card [OF bt_ok_distinct, of ?m] by simp
  then have "length ?m = card (event_id ` set events)"
    by (simp add: bt_keys_of_list image_image)
  then show ?thesis
    using assms by (auto simp: loop_inv_def Let_def batch_map_def universe_def intro: closure_known)
qed

text \<open>At the end of the loop nothing is ready, so the closure has been reached.\<close>

lemma loop_inv_final:
  assumes inv: "loop_inv C J c node0 events st" and ok: "bt_ok (ing_pending st)"
    and uniq: "ids_unique (universe J node0 events)" and node0: "node_ok C J node0"
    and fin: "ingest_ready st = []"
  shows "node_known (ing_node st) = ingest_closure (node_known node0) (batch_map events)"
    and "set (bt_keys (ing_pending st)) = unresolved_ids (node_known node0) events"
proof -
  let ?K = "node_known (ing_node st)" and ?P = "batch_map events"
  have not_ready: "\<not> set (parents (content e)) \<subseteq> ?K" if "bt_get (ing_pending st) i = Some e" for i e
    using that fin ingest_ready_iff [OF ok, of i] by auto
  have pend: "bt_get (ing_pending st) \<subseteq>\<^sub>m ?P" and known0: "node_known node0 \<subseteq> ?K"
    and split: "\<And>i e. ?P i = Some e \<Longrightarrow> bt_get (ing_pending st) i = Some e \<or> i \<in> ?K"
    and sub: "?K \<subseteq> ingest_closure (node_known node0) ?P"
    using inv by (auto simp: loop_inv_def Let_def)
  have "i \<in> ?K" if "i \<in> ingest_closure (node_known node0) ?P" for i
    using that
  proof (induction rule: ingest_closure.induct)
    case (closure_known i)
    then show ?case using known0 by blast
  next
    case (closure_ready i e)
    then show ?case using split [of i e] not_ready [of i e] by blast
  qed
  then show K: "?K = ingest_closure (node_known node0) ?P" using sub by blast
  have "i \<notin> ?K" if i: "bt_get (ing_pending st) i = Some e" for i e
  proof
    assume "i \<in> ?K"
    moreover have node: "node_ok C J (ing_node st)" using inv by (simp add: loop_inv_def Let_def)
    ultimately obtain d where d: "store_abs J (node_store (ing_node st)) i = Some d"
        "set (parents (content d)) \<subseteq> ?K"
      by (auto elim: node_ok_known)
    have "e \<in> set events" "event_id e = i"
      using pend i batch_map_Some by (auto simp: map_le_def dom_def)
    moreover have "event_id d = i" using d(1) node store_abs_Some by (auto simp: node_ok_def)
    moreover have "d \<in> universe J node0 events"
      using d(1) inv by (auto simp: loop_inv_def Let_def ran_def)
    ultimately have "d = e" using uniq by (auto simp: ids_unique_def universe_def)
    then show False using not_ready [OF i] d(2) by simp
  qed
  then have "set (bt_keys (ing_pending st)) = dom ?P - ?K"
    using split pend by (fastforce simp: bt_keys_iff_get map_le_def dom_def)
  then show "set (bt_keys (ing_pending st)) = unresolved_ids (node_known node0) events"
    by (simp add: unresolved_ids_def K batch_map_dom)
qed


lemma ingest_check_Inr:
  assumes "ingest_check C node events = Inr c"
  shows "length events \<le> MAX_PENDING_EVENTS" and "\<forall>e \<in> set events. validate_event C e = Inr ()"
    and "\<forall>e \<in> set events. in_community c e"
    and "node_community node = None \<or> node_community node = Some c"
  using assms by (auto simp: ingest_check_def res_simps split: if_splits option.splits)

lemma ingest_Inr_loop:
  assumes "ingest C J node events = (Inr r, node')"
  obtains c st where "ingest_check C node events = Inr c"
    and "ingest_loop C J c \<lparr>ing_node = node, ing_pending = bt_of_list (map (\<lambda>e. (event_id e, e)) events),
           ing_inserted = 0, ing_already_present = 0\<rparr> = Inr st"
    and "node' = ing_node st" and "r = \<lparr>report_inserted = ing_inserted st,
           report_already_present = ing_already_present st, report_unresolved = bt_keys (ing_pending st)\<rparr>"
  using assms by (auto simp: ingest_def split: sum.splits)

lemma ingest_loop_inv:
  assumes "node_ok C J node" and "ids_unique (universe J node events)"
    and "ingest_check C node events = Inr c"
  shows "case ingest_loop C J c \<lparr>ing_node = node, ing_pending = bt_of_list (map (\<lambda>e. (event_id e, e)) events),
           ing_inserted = 0, ing_already_present = 0\<rparr> of
      Inl (err, node') \<Rightarrow> \<exists>st. loop_inv C J c node events st \<and> node' = ing_node st
    | Inr st \<Rightarrow> loop_inv C J c node events st \<and> bt_ok (ing_pending st) \<and> ingest_ready st = []"
proof (rule ingest_loop_rule)
  show "loop_inv C J c node events st'"
    if "loop_inv C J c node events st" "bt_ok (ing_pending st)" "bt_get (ing_pending st) i = Some e"
      "set (parents (content e)) \<subseteq> node_known (ing_node st)" "ingest_one C J c st i = Inr st'" for st i e st'
    by (rule loop_inv_step [OF assms(2) ingest_check_Inr(3) [OF assms(3)] that])
  show "loop_inv C J c node events \<lparr>ing_node = node, ing_pending = bt_of_list (map (\<lambda>e. (event_id e, e)) events),
           ing_inserted = 0, ing_already_present = 0\<rparr>"
    by (rule loop_inv_init [OF assms(1) ingest_check_Inr(4) [OF assms(3)]])
qed simp

text \<open>Whatever happens during ingestion, also when the store fails, the node stays well-formed and loses nothing.\<close>

lemma ingest_preserves:
  assumes "node_ok C J node" and "ids_unique (universe J node events)"
    and "ingest C J node events = (res, node')"
  shows "node_ok C J node' \<and> node_known node \<subseteq> node_known node' \<and>
    node_known node' \<subseteq> ingest_closure (node_known node) (batch_map events)"
proof (cases "ingest_check C node events")
  case (Inl err)
  then show ?thesis using assms(1,3) by (auto simp: ingest_def intro: closure_known)
next
  case (Inr c)
  have "\<exists>st. loop_inv C J c node events st \<and> node' = ing_node st"
    using ingest_loop_inv [OF assms(1,2) Inr] assms(3) Inr by (auto simp: ingest_def split: sum.splits)
  then show ?thesis by (auto simp: loop_inv_def Let_def)
qed

lemma ingest_computes_closure:
  assumes "node_ok C J node" and "ids_unique (universe J node events)"
    and "ingest C J node events = (Inr r, node')"
  shows "node_known node' = ingest_closure (node_known node) (batch_map events)"
    and "report_unresolved r = sorted_list_of_set (unresolved_ids (node_known node) events)"
    and "report_inserted r + report_already_present r + card (unresolved_ids (node_known node) events) =
           card (event_id ` set events)"
proof -
  obtain c st where c: "ingest_check C node events = Inr c"
    and st: "ingest_loop C J c \<lparr>ing_node = node, ing_pending = bt_of_list (map (\<lambda>e. (event_id e, e)) events),
           ing_inserted = 0, ing_already_present = 0\<rparr> = Inr st"
    and node': "node' = ing_node st" and r: "r = \<lparr>report_inserted = ing_inserted st,
           report_already_present = ing_already_present st, report_unresolved = bt_keys (ing_pending st)\<rparr>"
    by (rule ingest_Inr_loop [OF assms(3)])
  have inv: "loop_inv C J c node events st" and ok: "bt_ok (ing_pending st)" and fin: "ingest_ready st = []"
    using ingest_loop_inv [OF assms(1,2) c] st by simp_all
  note final = loop_inv_final [OF inv ok assms(2,1) fin]
  have "bt_keys (ing_pending st) = sorted_list_of_set (unresolved_ids (node_known node) events)"
    using bt_ok_keys [OF ok] final(2)
    by (intro strictly_sorted_unique) (auto simp: unresolved_ids_def)
  moreover have "length (ing_pending st) = card (unresolved_ids (node_known node) events)"
    using distinct_card [OF bt_ok_distinct [OF ok]] final(2) by simp
  ultimately show "node_known node' = ingest_closure (node_known node) (batch_map events)"
    and "report_unresolved r = sorted_list_of_set (unresolved_ids (node_known node) events)"
    and "report_inserted r + report_already_present r + card (unresolved_ids (node_known node) events) =
           card (event_id ` set events)"
    using final(1) inv node' r by (auto simp: loop_inv_def Let_def)
qed

text \<open>The closure depends on the set of events only, so the order and repetition of a batch are irrelevant.\<close>

lemma batch_map_cong:
  assumes "ids_unique (set events)" and "set events = set events'"
  shows "batch_map events = batch_map events'"
proof
  fix i
  show "batch_map events i = batch_map events' i"
  proof (cases "i \<in> event_id ` set events")
    case True
    then show ?thesis using batch_map_unique [of events] batch_map_unique [of events'] assms by auto
  next
    case False
    then show ?thesis using batch_map_dom [of events] batch_map_dom [of events'] assms(2) by (metis domIff)
  qed
qed


section \<open>Reopening a node\<close>

text \<open>A node is complete when it knows every stored event of its community.\<close>

definition node_complete :: "signed_event codec \<Rightarrow> core_node \<Rightarrow> bool" where
  "node_complete J node \<longleftrightarrow>
     (\<forall>e c. store_abs J (node_store node) (event_id e) = Some e \<longrightarrow> in_community c e \<longrightarrow>
        node_community node \<in> {None, Some c} \<longrightarrow> event_id e \<in> node_known node)"

lemma ingest_one_complete:
  assumes ok: "node_ok C J (ing_node st)" and comp: "node_complete J (ing_node st)"
    and com: "node_community (ing_node st) = None \<or> node_community (ing_node st) = Some c"
    and e_id: "\<And>e. bt_get (ing_pending st) i = Some e \<Longrightarrow> event_id e = i"
    and one: "ingest_one C J c st i = Inr st'"
  shows "node_complete J (ing_node st')"
  using one
proof (rule ingest_one_Inr)
  fix e out s
  assume e: "bt_get (ing_pending st) i = Some e"
    and ins: "store_insert C J (node_store (ing_node st)) e = Inr (out, s)"
    and st': "node_store (ing_node st') = s"
      "node_community (ing_node st') =
        (if community_id (content e) = None then Some c else node_community (ing_node st))"
      "node_known (ing_node st') = insert i (node_known (ing_node st))"
  have store: "store_ok C J (node_store (ing_node st))" using ok by (simp add: node_ok_def)
  show ?thesis
    unfolding node_complete_def
  proof (intro allI impI)
    fix d c'
    assume d: "store_abs J (node_store (ing_node st')) (event_id d) = Some d" "in_community c' d"
      "node_community (ing_node st') \<in> {None, Some c'}"
    show "event_id d \<in> node_known (ing_node st')"
    proof (cases "event_id d = i")
      case True
      then show ?thesis using st' by simp
    next
      case False
      then have "store_abs J (node_store (ing_node st)) (event_id d) = Some d"
        using d(1) st'(1) log.insert_new [OF store _ ins] log.insert_old [OF store _ ins] e_id [OF e]
        by (cases "store_abs J (node_store (ing_node st)) i") auto
      moreover have "node_community (ing_node st) \<in> {None, Some c'}"
        using d(3) st'(2) com by (auto split: if_splits)
      ultimately show ?thesis using comp d(2) st'(3) by (auto simp: node_complete_def)
    qed
  qed
qed

lemma ingest_complete:
  assumes node: "node_ok C J node" and uniq: "ids_unique (universe J node events)"
    and comp: "node_complete J node" and ing: "ingest C J node events = (res, node')"
  shows "node_complete J node'"
proof (cases "ingest_check C node events")
  case (Inl err)
  then show ?thesis using assms by (auto simp: ingest_def)
next
  case (Inr c)
  let ?st = "\<lparr>ing_node = node, ing_pending = bt_of_list (map (\<lambda>e. (event_id e, e)) events),
           ing_inserted = 0, ing_already_present = 0\<rparr>"
  let ?I = "\<lambda>st. loop_inv C J c node events st \<and> node_complete J (ing_node st)"
  have "case ingest_loop C J c ?st of
      Inl (err, n) \<Rightarrow> \<exists>st. ?I st \<and> n = ing_node st
    | Inr st \<Rightarrow> ?I st \<and> bt_ok (ing_pending st) \<and> ingest_ready st = []"
  proof (rule ingest_loop_rule [where I = ?I])
    fix st i e st'
    assume I: "?I st" and st: "bt_ok (ing_pending st)" "bt_get (ing_pending st) i = Some e"
      "set (parents (content e)) \<subseteq> node_known (ing_node st)" "ingest_one C J c st i = Inr st'"
    have "loop_inv C J c node events st'"
      by (rule loop_inv_step [OF uniq ingest_check_Inr(3) [OF Inr] conjunct1 [OF I] st])
    moreover have "node_complete J (ing_node st')"
    proof (rule ingest_one_complete [OF _ conjunct2 [OF I] _ _ st(4)])
      show "node_ok C J (ing_node st)" "node_community (ing_node st) = None \<or> node_community (ing_node st) = Some c"
        using I by (auto simp: loop_inv_def Let_def)
      show "event_id d = i" if "bt_get (ing_pending st) i = Some d" for d
        using I that batch_map_Some [of events i d] by (auto simp: loop_inv_def Let_def map_le_def dom_def)
    qed
    ultimately show "?I st'" by simp
  qed (use comp loop_inv_init [OF node ingest_check_Inr(4) [OF Inr]] in auto)
  then show ?thesis using ing Inr by (auto simp: ingest_def split: sum.splits)
qed

lemma node_open_known:
  assumes "store_ok C J s" and "node_open C J s (Some c) = Inr node"
  shows "node_store node = s" and "node_community node = Some c"
    and "node_known node = {i. \<exists>e. store_abs J s i = Some e \<and> in_community c e}"
proof -
  obtain es where es: "store_events C J s c = Inr es" and node: "node = \<lparr>node_store = s, node_community = Some c,
      node_known = set (map event_id es)\<rparr>"
    using assms(2) by (auto simp: node_open_def Let_def res_simps split: if_splits)
  have "i \<in> event_id ` set es \<longleftrightarrow> (\<exists>e. store_abs J s i = Some e \<and> in_community c e)" for i
    unfolding store_events_ok(2) [OF assms(1) es] image_iff mem_Collect_eq bex_simps
    using store_abs_Some [OF assms(1)] by (metis (no_types, lifting) mem_Collect_eq)
  then show "node_store node = s" "node_community node = Some c"
    "node_known node = {i. \<exists>e. store_abs J s i = Some e \<and> in_community c e}"
    by (auto simp: node)
qed

text \<open>Reopening the store of a complete node restores exactly what it knew.\<close>

lemma node_reopen:
  assumes node: "node_ok C J node" and comp: "node_complete J node"
    and com: "node_community node = Some c"
    and reopen: "node_open C J (node_store node) (Some c) = Inr node'"
  shows "node_known node' = node_known node"
proof -
  have store: "store_ok C J (node_store node)" using node by (simp add: node_ok_def)
  have "i \<in> node_known node \<longleftrightarrow> (\<exists>e. store_abs J (node_store node) i = Some e \<and> in_community c e)" for i
  proof
    assume "i \<in> node_known node"
    with node show "\<exists>e. store_abs J (node_store node) i = Some e \<and> in_community c e"
      by (rule node_ok_known) (use com in auto)
  next
    assume "\<exists>e. store_abs J (node_store node) i = Some e \<and> in_community c e"
    then obtain e where e: "store_abs J (node_store node) i = Some e" "in_community c e" by blast
    then show "i \<in> node_known node"
      using comp com store_abs_Some [OF store e(1)] by (auto simp: node_complete_def)
  qed
  then show ?thesis using node_open_known(3) [OF store reopen] by blast
qed

section \<open>Reads of a well-formed node\<close>

lemma set_map_filter: "set (List.map_filter f xs) = {y. \<exists>x \<in> set xs. f x = Some y}"
  by (force simp: List.map_filter_def)

lemma node_events_Inr:
  assumes "store_ok C J (node_store node)" and "node_events C J node ids = Inr es"
  shows "es = List.map_filter (store_abs J (node_store node)) ids"
  using assms(2)
proof (induction ids arbitrary: es)
  case Nil
  then show ?case by (simp add: List.map_filter_def)
next
  case (Cons i ids)
  then obtain found rest where found: "store_get C J (node_store node) i = Inr found"
    and rest: "node_events C J node ids = Inr rest"
    and es: "es = (case found of Some e \<Rightarrow> e # rest | None \<Rightarrow> rest)"
    by (auto simp: res_simps)
  have "found = store_abs J (node_store node) i" by (rule log.get_abs [OF assms(1) found])
  then show ?case using es Cons.IH [OF rest] by (simp add: List.map_filter_simps split: option.splits)
qed

lemma all_events_Inr:
  assumes node: "node_ok C J node" and all: "all_events C J node = Inr es"
  shows "set es = {e. event_id e \<in> node_known node \<and> store_abs J (node_store node) (event_id e) = Some e}"
    and "map event_id es = sorted_list_of_set (node_known node)"
proof -
  have store: "store_ok C J (node_store node)" and fin: "finite (node_known node)"
    using node by (simp_all add: node_ok_def)
  let ?abs = "store_abs J (node_store node)"
  have known: "\<exists>e. ?abs i = Some e \<and> event_id e = i" if "i \<in> node_known node" for i
    using node that by (rule node_ok_known) (use store_abs_Some [OF store] in blast)
  have es: "es = List.map_filter ?abs (sorted_list_of_set (node_known node))"
    using node_events_Inr [OF store] all by (simp add: all_events_def)
  have "map event_id (List.map_filter ?abs ids) = ids" if "set ids \<subseteq> node_known node" for ids
    using that
  proof (induction ids)
    case Nil
    then show ?case by (simp add: List.map_filter_def)
  next
    case (Cons i ids)
    then obtain e where "?abs i = Some e" "event_id e = i" using known [of i] by auto
    then show ?case using Cons by (simp add: List.map_filter_simps)
  qed
  then show ids: "map event_id es = sorted_list_of_set (node_known node)"
    using es fin by simp
  show "set es = {e. event_id e \<in> node_known node \<and> ?abs (event_id e) = Some e}"
  proof (intro equalityI subsetI)
    fix e assume "e \<in> set es"
    then obtain i where "i \<in> node_known node" "?abs i = Some e"
      using es fin by (auto simp: set_map_filter)
    then show "e \<in> {e. event_id e \<in> node_known node \<and> ?abs (event_id e) = Some e}"
      using store_abs_Some [OF store, of i e] by simp
  next
    fix e assume "e \<in> {e. event_id e \<in> node_known node \<and> ?abs (event_id e) = Some e}"
    then show "e \<in> set es" using es fin by (auto simp: set_map_filter)
  qed
qed

lemma heads_fold:
  assumes "store_ok C J (node_store node)"
    and "try_fold (\<lambda>referenced i.
          res_bind (map_err NodeStorage (store_get C J (node_store node) i)) (\<lambda>found.
          Inr (case found of
                 Some e \<Rightarrow> referenced \<union> set (parents (content e))
               | None \<Rightarrow> referenced))) ids R = Inr R'"
  shows "R' = R \<union> {p. \<exists>i \<in> set ids. \<exists>e. store_abs J (node_store node) i = Some e \<and> p \<in> set (parents (content e))}"
  using assms(2)
proof (induction ids arbitrary: R)
  case Nil
  then show ?case by simp
next
  case (Cons i ids)
  then obtain found where found: "store_get C J (node_store node) i = Inr found"
    by (auto simp: res_simps)
  have abs: "store_abs J (node_store node) i = found" using log.get_abs [OF assms(1) found] by simp
  show ?case
    using Cons.IH [of "case found of Some e \<Rightarrow> R \<union> set (parents (content e)) | None \<Rightarrow> R"] Cons.prems found abs
    by (auto split: option.splits)
qed

lemma heads_Inr:
  assumes node: "node_ok C J node" and hs: "heads C J node = Inr hs"
  shows "strictly_sorted hs"
    and "set hs = {i \<in> node_known node. \<forall>j \<in> node_known node. \<forall>e.
           store_abs J (node_store node) j = Some e \<longrightarrow> i \<notin> set (parents (content e))}"
proof -
  have store: "store_ok C J (node_store node)" and fin: "finite (node_known node)"
    using node by (simp_all add: node_ok_def)
  obtain R where R: "try_fold (\<lambda>referenced i.
          res_bind (map_err NodeStorage (store_get C J (node_store node) i)) (\<lambda>found.
          Inr (case found of
                 Some e \<Rightarrow> referenced \<union> set (parents (content e))
               | None \<Rightarrow> referenced))) (sorted_list_of_set (node_known node)) {} = Inr R"
    and hs': "hs = sorted_list_of_set (node_known node - R)"
    using hs by (auto simp: heads_def res_bind_Inr_iff)
  show "strictly_sorted hs" by (simp add: hs')
  show "set hs = {i \<in> node_known node. \<forall>j \<in> node_known node. \<forall>e.
           store_abs J (node_store node) j = Some e \<longrightarrow> i \<notin> set (parents (content e))}"
    using heads_fold [OF store R] fin by (auto simp: hs')
qed


section \<open>Ancestry\<close>

inductive_set ancestors_of :: "(event_id \<rightharpoonup> signed_event) \<Rightarrow> event_id \<Rightarrow> event_id set"
  for M :: "event_id \<rightharpoonup> signed_event" and i :: event_id where
  ancestor_self: "i \<in> ancestors_of M i"
| ancestor_parent: "j \<in> ancestors_of M i \<Longrightarrow> M j = Some e \<Longrightarrow> p \<in> set (parents (content e)) \<Longrightarrow>
    p \<in> ancestors_of M i"

text \<open>The invariant of the walk from \<open>i\<close>: what is discovered or on the stack are ancestors, and nothing is skipped.\<close>

definition walk_inv ::
  "(event_id \<rightharpoonup> signed_event) \<Rightarrow> event_id \<Rightarrow> nat \<Rightarrow> event_id list \<Rightarrow> event_id set \<Rightarrow>
     (event_id, signed_event) btree \<Rightarrow> bool" where
  "walk_inv M i limit stack discovered events \<longleftrightarrow>
     discovered \<union> set stack \<subseteq> ancestors_of M i \<and> i \<in> discovered \<union> set stack \<and>
     finite discovered \<and> card discovered \<le> limit \<and>
     bt_ok events \<and> set (bt_keys events) = discovered \<and>
     (\<forall>j e. bt_get events j = Some e \<longrightarrow> M j = Some e) \<and>
     (\<forall>j e p. j \<in> discovered \<longrightarrow> M j = Some e \<longrightarrow> p \<in> set (parents (content e)) \<longrightarrow>
        p \<in> discovered \<or> p \<in> set stack)"

lemma walk_inv_push:
  assumes inv: "walk_inv M i limit (j # stack) discovered events" and e: "M j = Some e"
    and new: "j \<notin> discovered" and small: "card (insert j discovered) \<le> limit"
  shows "walk_inv M i limit (rev (parents (content e)) @ stack) (insert j discovered) (bt_insert j e events)"
proof -
  have "j \<in> ancestors_of M i" using inv by (simp add: walk_inv_def)
  then have "set (parents (content e)) \<subseteq> ancestors_of M i" using e by (auto intro: ancestor_parent)
  then show ?thesis
    using inv e small unfolding walk_inv_def
    by (auto simp: bt_keys_insert bt_get_insert bt_ok_insert) blast+
qed

lemma walk_inv_pop:
  "walk_inv M i limit (j # stack) discovered events \<Longrightarrow> j \<in> discovered \<Longrightarrow> walk_inv M i limit stack discovered events"
  by (auto simp: walk_inv_def) blast+

lemma walk_inv_end:
  assumes "walk_inv M i limit [] discovered events"
  shows "discovered = ancestors_of M i"
proof -
  have "j \<in> discovered" if "j \<in> ancestors_of M i" for j
    using that by (induction rule: ancestors_of.induct) (use assms in \<open>auto simp: walk_inv_def\<close>)
  then show ?thesis using assms by (auto simp: walk_inv_def)
qed

lemma walk_inv_result:
  assumes inv: "walk_inv M i limit [] discovered events"
    and key: "\<And>j e. M j = Some e \<Longrightarrow> event_id e = j"
  shows "map event_id (bt_values events) = sorted_list_of_set (ancestors_of M i)"
    and "\<forall>e \<in> set (bt_values events). M (event_id e) = Some e"
    and "card (ancestors_of M i) \<le> limit"
proof -
  have ok: "bt_ok events" and keys: "set (bt_keys events) = ancestors_of M i"
    using inv walk_inv_end [OF inv] by (simp_all add: walk_inv_def)
  have get: "M k = Some e" if "(k, e) \<in> set events" for k e
    using inv that bt_get_eq_iff [OF ok, of k e] by (auto simp: walk_inv_def)
  have "map event_id (bt_values events) = bt_keys events"
    using get key by (fastforce simp: bt_values_def bt_keys_def)
  moreover have "bt_keys events = sorted_list_of_set (ancestors_of M i)"
    using bt_ok_keys [OF ok] keys by (intro strictly_sorted_unique) (auto simp flip: keys)
  ultimately show "map event_id (bt_values events) = sorted_list_of_set (ancestors_of M i)" by simp
  show "\<forall>e \<in> set (bt_values events). M (event_id e) = Some e"
    using get key by (fastforce simp: bt_values_def)
  show "card (ancestors_of M i) \<le> limit"
    using inv walk_inv_end [OF inv] by (auto simp: walk_inv_def)
qed

lemma ancestry_walk_Inr:
  assumes "store_ok C J (node_store node)"
    and "walk_inv (store_abs J (node_store node)) i limit stack discovered events"
    and "ancestry_walk C J node limit stack discovered events = Inr es"
  shows "map event_id es = sorted_list_of_set (ancestors_of (store_abs J (node_store node)) i) \<and>
    (\<forall>e \<in> set es. store_abs J (node_store node) (event_id e) = Some e) \<and>
    card (ancestors_of (store_abs J (node_store node)) i) \<le> limit"
  using assms
proof (induction C J node limit stack discovered events rule: ancestry_walk.induct)
  case (1 C J node limit discovered events)
  then show ?case
    using walk_inv_result [OF "1.prems"(2)] store_abs_Some [OF "1.prems"(1)] by auto
next
  case (2 C J node limit j stack discovered events)
  show ?case
  proof (cases "j \<in> discovered")
    case True
    then show ?thesis using "2.IH"(1) "2.prems" walk_inv_pop by simp
  next
    case False
    then have small: "card (insert j discovered) \<le> limit" and fin: "finite discovered"
      using "2.prems"(3) by (auto split: if_splits)
    obtain e where e: "node_event C J node j = Inr (Some e)"
      and rest: "ancestry_walk C J node limit (rev (parents (content e)) @ stack) (insert j discovered)
          (bt_insert j e events) = Inr es"
      using "2.prems"(3) False small fin by (auto simp: res_simps split: if_splits)
    have M: "store_abs J (node_store node) j = Some e"
      using log.get_abs [OF "2.prems"(1), of j "Some e"] e by (simp add: node_event_def map_err_Inr_iff)
    have lim: "\<not> (limit < card (insert j discovered) \<or> infinite discovered)" using small fin by auto
    have "res_bind (node_event C J node j) (\<lambda>found. ok_or found UnknownEvent) = Inr e" using e by simp
    then show ?thesis
      by (rule "2.IH"(2) [OF False lim _ "2.prems"(1) walk_inv_push [OF "2.prems"(2) M False small] rest])
  qed
qed

text \<open>With every ancestor stored and readable, the walk fails exactly when there are too many ancestors.\<close>

lemma ancestry_walk_total:
  assumes "store_ok C J (node_store node)"
    and "\<forall>j. \<not> sql_fails (node_store node) (SqlSelect j)"
    and "ancestors_of (store_abs J (node_store node)) i \<subseteq> dom (store_abs J (node_store node))"
    and "finite (ancestors_of (store_abs J (node_store node)) i)"
    and "walk_inv (store_abs J (node_store node)) i limit stack discovered events"
  shows "if card (ancestors_of (store_abs J (node_store node)) i) \<le> limit
    then \<exists>es. ancestry_walk C J node limit stack discovered events = Inr es
    else ancestry_walk C J node limit stack discovered events = Inl AncestryLimitExceeded"
  using assms
proof (induction C J node limit stack discovered events rule: ancestry_walk.induct)
  case (1 C J node limit discovered events)
  then show ?case using walk_inv_end [OF "1.prems"(5)] by (auto simp: walk_inv_def)
next
  case (2 C J node limit j stack discovered events)
  let ?M = "store_abs J (node_store node)"
  show ?case
  proof (cases "j \<in> discovered")
    case True
    then show ?thesis using "2.IH"(1) [OF True "2.prems"(1-4) walk_inv_pop [OF "2.prems"(5) True]] by simp
  next
    case False
    have j: "j \<in> ancestors_of ?M i" and fin: "finite discovered" and sub: "insert j discovered \<subseteq> ancestors_of ?M i"
      using "2.prems"(5) by (auto simp: walk_inv_def)
    obtain e where e: "?M j = Some e" using j "2.prems"(3) by blast
    then have get: "res_bind (node_event C J node j) (\<lambda>found. ok_or found UnknownEvent) = Inr e"
      using store_get_ok [OF "2.prems"(1), of j] "2.prems"(2) by (simp add: node_event_def)
    show ?thesis
    proof (cases "limit < card (insert j discovered) \<or> infinite discovered")
      case True
      then have "limit < card (ancestors_of ?M i)"
        using fin card_mono [OF "2.prems"(4) sub] by linarith
      then show ?thesis using True False by simp
    next
      case lim: False
      then have "walk_inv ?M i limit (rev (parents (content e)) @ stack) (insert j discovered) (bt_insert j e events)"
        using walk_inv_push [OF "2.prems"(5) e False] by simp
      moreover have "ancestry_walk C J node limit (j # stack) discovered events =
          ancestry_walk C J node limit (rev (parents (content e)) @ stack) (insert j discovered) (bt_insert j e events)"
        by (simp only: ancestry_walk.simps False lim get if_False res_bind_simps)
      ultimately show ?thesis using "2.IH"(2) [OF False lim get "2.prems"(1-4)] by simp
    qed
  qed
qed

end
