(* ===== verification/Demo.thy ===== *)
theory Demo
  imports Chat_Resolve Archive Sync
begin

text \<open>
  A small concrete world on which the properties are instantiated.

  \<open>demo_crypto\<close> hashes a 32-byte key to itself and anything else to its length, signs with a
  constant and accepts every signature: it satisfies \<open>ed25519_correct\<close> and does not collide on the
  demo events, whose encodings have different lengths.  \<open>table_codec\<close> encodes the values of a table
  and is lossless when no two of them share an encoding.
\<close>

definition demo_crypto :: crypto where
  "demo_crypto =
     \<lparr>blake3 = (\<lambda>bs. if length bs = 32 then word_of_nat (be_nat bs) else word_of_nat (length bs)),
      ed_public_key = (\<lambda>seed. seed), ed_sign = (\<lambda>_ _. 0),
      ed_key_ok = (\<lambda>_. True), ed_verify = (\<lambda>_ _ _. True)\<rparr>"

definition table_codec :: "('a \<times> bytes) list \<Rightarrow> 'a codec" where
  "table_codec t = \<lparr>to_vec = map_of t, from_slice = map_of (map (\<lambda>(x, bs). (bs, x)) t)\<rparr>"

lemma demo_crypto_correct: "ed25519_correct demo_crypto"
  by (simp add: ed25519_correct_def demo_crypto_def)

lemma table_codec_lossless:
  assumes "distinct (map snd t)"
  shows "codec_lossless (table_codec t)"
proof -
  have "map_of (map (\<lambda>(x, bs). (bs, x)) t) bs = Some x" if "map_of t x = Some bs" for x bs
    using assms map_of_SomeD [OF that] by (force simp: map_of_eq_Some_iff comp_def case_prod_unfold)
  then show ?thesis by (auto simp: codec_lossless_def table_codec_def)
qed

definition owner_identity :: identity where
  "owner_identity = identity_from_seed 1"

definition guest_identity :: identity where
  "guest_identity = identity_from_seed 2"

text \<open>The identifier of a demo event is determined by the length of its encoding.\<close>

lemma demo_event_id:
  "event_id (create_signed demo_crypto c i) =
     EventId (word_of_nat (163 + (case community_id c of None \<Rightarrow> 0 | Some _ \<Rightarrow> 32) +
       32 * length (remdups_adj (sort (parents c))) + length (event_type c) + length (payload c)))"
proof -
  have "length (concat (map event_bytes ps)) = 32 * length ps" for ps by (induction ps) auto
  then have "length (event_preimage (canonical_content d) (arr32_bytes pk) (arr64_bytes sig)) =
      163 + (case community_id d of None \<Rightarrow> 0 | Some _ \<Rightarrow> 32) + 32 * length (parents d) +
      length (event_type d) + length (payload d)" for d pk sig
    by (auto simp: event_preimage_def canonical_content_def put_bytes_def u16_be_def u32_be_def i64_be_def
        split: option.splits)
  then show ?thesis
    by (simp add: create_signed_def Let_def calculate_event_id_def demo_crypto_def)
qed

definition demo_genesis :: signed_event where
  "demo_genesis = create_genesis demo_crypto owner_identity GENESIS_TYPE [1] 0"

definition demo_community :: community_id where
  "demo_community = CommunityId 185"

definition demo_capability :: invite_capability where
  "demo_capability = InviteCapability 7"

definition demo_event :: "identity \<Rightarrow> event_id \<Rightarrow> string \<Rightarrow> bytes \<Rightarrow> signed_event" where
  "demo_event i parent ty pl =
     create_signed demo_crypto
       \<lparr>protocol_version = PROTOCOL_VERSION, community_id = Some demo_community, parents = [parent],
        timestamp_ms = 0, event_type = ty, payload = pl\<rparr> i"

text \<open>The owner invites, the guest accepts.\<close>

definition demo_invite :: signed_event where
  "demo_invite = demo_event owner_identity (EventId 185) ''chat.member.invite'' [1, 2]"

definition demo_accept :: signed_event where
  "demo_accept = demo_event guest_identity (EventId 247) ''chat.member.accept'' [1, 2, 3]"

definition demo_payloads :: "chat_payload codec" where
  "demo_payloads = table_codec
     [(CommunityCreate PROFILE_ID ''demo'', [1]),
      (invitation_payload demo_crypto demo_capability, [1, 2]),
      (MemberAccept (EventId 247)
         (sign_acceptance demo_crypto demo_capability demo_community (EventId 247) (UserId 2)), [1, 2, 3])]"

lemma demo_payloads_lossless: "codec_lossless demo_payloads"
  unfolding demo_payloads_def by (rule table_codec_lossless) simp

lemma demo_ids [simp]:
  "event_id demo_genesis = EventId 185"
  "event_id demo_invite = EventId 247"
  "event_id demo_accept = EventId 248"
  by (simp_all add: demo_genesis_def create_genesis_def demo_invite_def demo_accept_def demo_event_def
      demo_event_id GENESIS_TYPE_def)

lemma demo_contents [simp]:
  "parents (content demo_genesis) = []" "community_id (content demo_genesis) = None"
  "parents (content demo_invite) = [EventId 185]" "community_id (content demo_invite) = Some demo_community"
  "parents (content demo_accept) = [EventId 247]" "community_id (content demo_accept) = Some demo_community"
  by (simp_all add: demo_genesis_def create_genesis_def demo_invite_def demo_accept_def demo_event_def)

lemma demo_valid [simp]:
  "validate_event demo_crypto demo_genesis = Inr ()"
  "validate_event demo_crypto demo_invite = Inr ()"
  "validate_event demo_crypto demo_accept = Inr ()"
  unfolding demo_genesis_def create_genesis_def demo_invite_def demo_accept_def demo_event_def
  by (rule create_signed_valid [OF demo_crypto_correct];
      simp add: GENESIS_TYPE_def MAX_EVENT_TYPE_BYTES_def MAX_PAYLOAD_BYTES_def MAX_PARENTS_def)+

lemma be_nat_arr32: "be_nat (arr32_bytes a) = unat a"
  using unat_arr32_less [of a] by (simp add: arr32_bytes_def be_nat_be_bytes)

lemma demo_users:
  "identity_user_id demo_crypto owner_identity = UserId 1"
  "identity_user_id demo_crypto guest_identity = UserId 2"
  by (simp_all add: identity_user_id_def identity_public_key_def user_from_public_key_def demo_crypto_def
      owner_identity_def guest_identity_def identity_from_seed_def be_nat_arr32)

lemma demo_authors [simp]:
  "author_id demo_crypto demo_genesis = Inr (UserId 1)"
  "author_id demo_crypto demo_invite = Inr (UserId 1)"
  "author_id demo_crypto demo_accept = Inr (UserId 2)"
  by (simp_all add: demo_genesis_def create_genesis_def demo_invite_def demo_accept_def demo_event_def
      create_signed_author demo_users)

lemma demo_decode [simp]:
  "decode demo_payloads demo_genesis = Inr (CommunityCreate PROFILE_ID ''demo'')"
  "decode demo_payloads demo_invite = Inr (invitation_payload demo_crypto demo_capability)"
  "decode demo_payloads demo_accept = Inr (MemberAccept (EventId 247)
     (sign_acceptance demo_crypto demo_capability demo_community (EventId 247) (UserId 2)))"
  by (simp_all add: decode_Inr_iff demo_payloads_def table_codec_def demo_genesis_def create_genesis_def
      demo_invite_def demo_accept_def demo_event_def invitation_payload_def)

definition demo_events :: "signed_event list" where
  "demo_events = [demo_accept, demo_genesis, demo_invite]"

lemma demo_events_valid: "\<forall>e \<in> set demo_events. validate_event demo_crypto e = Inr ()"
  by (simp add: demo_events_def)

lemma demo_ids_unique: "ids_unique (set demo_events)"
  by (auto simp: ids_unique_def demo_events_def)

section \<open>The demo community resolved\<close>

lemma demo_community_eq [simp]: "community_from_event (EventId 185) = demo_community"
  by (simp add: community_from_event_def demo_community_def)

lemma demo_scan:
  "scan_events demo_crypto demo_payloads demo_events = Inr
     \<lparr>sc_by_id = [(EventId 185, demo_genesis), (EventId 247, demo_invite), (EventId 248, demo_accept)],
      sc_payloads =
        [(EventId 185, CommunityCreate PROFILE_ID ''demo''),
         (EventId 247, invitation_payload demo_crypto demo_capability),
         (EventId 248, MemberAccept (EventId 247)
            (sign_acceptance demo_crypto demo_capability demo_community (EventId 247) (UserId 2)))],
      sc_authors = [(EventId 185, UserId 1), (EventId 247, UserId 1), (EventId 248, UserId 2)],
      sc_rejected = []\<rparr>"
  by (simp add: scan_events_def demo_events_def scan_one_def scan_empty_def bt_or_insert_def
      bt_contains_key_def less_event_id_def)

definition demo_resolution :: chat_resolution where
  "demo_resolution =
     \<lparr>accepted_in_order = [EventId 185, EventId 247, EventId 248], rejected = [],
      snapshot =
        \<lparr>snap_community = Some demo_community, snap_owner = Some (UserId 1),
         snap_members = {UserId 2, UserId 1}, snap_administrators = {UserId 1}, snap_channels = {},
         snap_active_invitations = [], snap_home_server = None,
         snap_event_ids = {EventId 248, EventId 247, EventId 185}\<rparr>\<rparr>"

lemma demo_resolve: "resolve demo_crypto demo_payloads demo_events = Inr demo_resolution"
  by (simp add: resolve_def demo_scan demo_resolution_def resolve_loop.simps resolve_ready_def index_def
      bt_get_def resolve_one_def Let_def bt_contains_key_def validate_context_def is_community_create_def
      invitation_payload_def require_admin_def chat_state_default_def less_event_id_def
      less_eq_event_id_def snapshot_of_def PUBLIC_KEY_LEN_def sign_acceptance_verify [OF demo_crypto_correct]
      bt_keys_def active_invitations_def bt_of_list_def List.map_filter_def insert_Diff_if)

section \<open>The demo node\<close>

lemma demo_distinct [simp]:
  "demo_genesis \<noteq> demo_invite" "demo_genesis \<noteq> demo_accept" "demo_invite \<noteq> demo_accept"
  "demo_invite \<noteq> demo_genesis" "demo_accept \<noteq> demo_genesis" "demo_accept \<noteq> demo_invite"
  by (auto dest!: arg_cong [where f = event_id])

definition demo_json :: "signed_event codec" where
  "demo_json = table_codec [(demo_genesis, [1]), (demo_invite, [2]), (demo_accept, [3])]"

lemma demo_json_lossless: "codec_lossless demo_json"
  unfolding demo_json_def by (rule table_codec_lossless) simp

lemma demo_json_simps [simp]:
  "to_vec demo_json demo_genesis = Some [1]" "to_vec demo_json demo_invite = Some [2]"
  "to_vec demo_json demo_accept = Some [3]"
  "from_slice demo_json [1] = Some demo_genesis" "from_slice demo_json [2] = Some demo_invite"
  "from_slice demo_json [3] = Some demo_accept"
  by (simp_all add: demo_json_def table_codec_def)

definition demo_store :: event_store where
  "demo_store = \<lparr>events_table = [], sql_fails = (\<lambda>_. False)\<rparr>"

definition demo_node :: core_node where
  "demo_node = \<lparr>node_store = demo_store, node_community = None, node_known = {}\<rparr>"

text \<open>The node after the demo events have been ingested.\<close>

definition demo_row :: "community_id option \<Rightarrow> bytes \<Rightarrow> event_row" where
  "demo_row c body = \<lparr>row_community = c, row_body = body\<rparr>"

definition demo_full_node :: core_node where
  "demo_full_node =
     \<lparr>node_store =
        \<lparr>events_table =
           [(EventId 185, demo_row None [1]), (EventId 247, demo_row (Some demo_community) [2]),
            (EventId 248, demo_row (Some demo_community) [3])],
         sql_fails = (\<lambda>_. False)\<rparr>,
      node_community = Some demo_community,
      node_known = {EventId 248, EventId 247, EventId 185}\<rparr>"

lemma demo_ingest:
  "ingest demo_crypto demo_json demo_node demo_events =
     (Inr \<lparr>report_inserted = 3, report_already_present = 0, report_unresolved = []\<rparr>, demo_full_node)"
  by (simp add: ingest_def ingest_check_def demo_node_def demo_store_def demo_full_node_def demo_row_def
      demo_events_def community_id_of_def in_community_def ingest_loop.simps ingest_ready_def ingest_one_def
      Let_def bt_of_list_def bt_get_def bt_remove_def bt_contains_key_def less_event_id_def store_insert_def
      MAX_PENDING_EVENTS_def)

text \<open>The same events, reordered and with a repetition.\<close>

definition demo_shuffled :: "signed_event list" where
  "demo_shuffled = [demo_invite, demo_invite, demo_genesis, demo_accept]"

lemma demo_shuffled_ingest:
  "ingest demo_crypto demo_json demo_node demo_shuffled = ingest demo_crypto demo_json demo_node demo_events"
proof -
  have "bt_of_list (map (\<lambda>e. (event_id e, e)) demo_shuffled) = bt_of_list (map (\<lambda>e. (event_id e, e)) demo_events)"
    by (simp add: bt_of_list_def less_event_id_def demo_shuffled_def demo_events_def)
  moreover have "ingest_check demo_crypto demo_node demo_shuffled = ingest_check demo_crypto demo_node demo_events"
    by (simp add: ingest_check_def demo_node_def community_id_of_def in_community_def MAX_PENDING_EVENTS_def
        demo_shuffled_def demo_events_def)
  ultimately show ?thesis unfolding ingest_def by (simp only:)
qed

lemma demo_node_ok: "node_ok demo_crypto demo_json demo_node"
  by (simp add: node_ok_def demo_node_def demo_store_def store_ok_def demo_json_lossless)

lemma demo_universe: "universe demo_json demo_node demo_events = set demo_events"
  by (simp add: universe_def demo_node_def demo_store_def store_abs_def ran_def)

lemma demo_full_ok: "node_ok demo_crypto demo_json demo_full_node"
  using ingest_preserves [OF demo_node_ok _ demo_ingest] demo_universe demo_ids_unique by simp

lemma demo_full_abs:
  "store_abs demo_json (node_store demo_full_node) =
     [EventId 185 \<mapsto> demo_genesis, EventId 247 \<mapsto> demo_invite, EventId 248 \<mapsto> demo_accept]"
  by (auto simp: store_abs_def demo_full_node_def demo_row_def bt_get_def fun_eq_iff)

lemma demo_full_universe: "set es \<subseteq> set demo_events \<Longrightarrow> universe demo_json demo_full_node es = set demo_events"
  by (auto simp: universe_def demo_full_abs demo_events_def ran_map_upd)

end
