(* ===== verification/Core_Properties.thy ===== *)
theory Core_Properties
  imports Demo
begin

text \<open>
  The properties of the core: the event envelope, the store, the archive and the node.
\<close>

section \<open>Node\<close>

text \<open>C1: a successful \<open>ingest\<close> leaves the node with exactly the events connected to what it knew:
  the least set that holds the known events and every batch event all of whose parents it holds.  The
  report lists the rest in identifier order and its counters account for every distinct event.\<close>

theorem node_ingest_exact:
  assumes "node_ok C J node" and "ids_unique (universe J node events)"
    and "ingest C J node events = (Inr r, node')"
  shows "node_known node' = ingest_closure (node_known node) (batch_map events) \<and>
    report_unresolved r = sorted_list_of_set (unresolved_ids (node_known node) events) \<and>
    report_inserted r + report_already_present r + length (report_unresolved r) =
      card (event_id ` set events)"
proof -
  have "finite (unresolved_ids (node_known node) events)" by (simp add: unresolved_ids_def)
  then show ?thesis using ingest_computes_closure [OF assms] by simp
qed

theorem node_ingest_exact_witness:
  "{EventId 248, EventId 247, EventId 185} = ingest_closure (node_known demo_node) (batch_map demo_events) \<and>
   sorted_list_of_set (unresolved_ids (node_known demo_node) demo_events) = [] \<and>
   card (event_id ` set demo_events) = 3"
  using node_ingest_exact [OF demo_node_ok _ demo_ingest] demo_universe demo_ids_unique
  by (simp add: demo_full_node_def)

text \<open>C2: whatever \<open>ingest\<close> returns, also an error in the middle of a batch, the node stays
  well-formed: every known event is stored, valid, in the node's community and has its parents known;
  and no known event is forgotten.\<close>

theorem node_ingest_invariant:
  assumes "node_ok C J node" and "ids_unique (universe J node events)"
    and "ingest C J node events = (res, node')"
  shows "node_ok C J node' \<and> node_known node \<subseteq> node_known node'"
  using ingest_preserves [OF assms] by simp

text \<open>The witness is a batch that fails on its second insertion.\<close>

definition failing_node :: core_node where
  "failing_node = demo_node\<lparr>node_store := demo_store\<lparr>sql_fails := (\<lambda>q. q = SqlInsert (EventId 247))\<rparr>\<rparr>"

theorem node_ingest_invariant_witness:
  "fst (ingest demo_crypto demo_json failing_node demo_events) = Inl (NodeStorage Sqlite) \<and>
   node_ok demo_crypto demo_json (snd (ingest demo_crypto demo_json failing_node demo_events)) \<and>
   node_known (snd (ingest demo_crypto demo_json failing_node demo_events)) = {EventId 185}"
proof -
  have ing: "ingest demo_crypto demo_json failing_node demo_events =
    (Inl (NodeStorage Sqlite), \<lparr>node_store =
       \<lparr>events_table = [(EventId 185, demo_row None [1])], sql_fails = (\<lambda>q. q = SqlInsert (EventId 247))\<rparr>,
      node_community = Some demo_community, node_known = {EventId 185}\<rparr>)"
    by (simp add: ingest_def ingest_check_def failing_node_def demo_node_def demo_store_def demo_row_def
      demo_events_def community_id_of_def in_community_def ingest_loop.simps ingest_ready_def ingest_one_def
      Let_def bt_of_list_def bt_get_def bt_remove_def bt_contains_key_def less_event_id_def store_insert_def
      MAX_PENDING_EVENTS_def)
  have "node_ok demo_crypto demo_json failing_node"
    by (simp add: failing_node_def node_ok_def demo_node_def demo_store_def store_ok_def demo_json_lossless)
  moreover have "ids_unique (universe demo_json failing_node demo_events)"
    using demo_ids_unique by (simp add: universe_def failing_node_def demo_node_def demo_store_def store_abs_def ran_def)
  ultimately show ?thesis using node_ingest_invariant [OF _ _ ing] ing by simp
qed

text \<open>The order of a batch and repetitions in it do not matter: two batches with the same events
  leave the same known set and report the same unresolved events.\<close>

theorem node_ingest_order_independent:
  assumes "node_ok C J node" and "ids_unique (universe J node xs)" and "set xs = set ys"
    and "ingest C J node xs = (Inr r, node')" and "ingest C J node ys = (Inr s, node'')"
  shows "node_known node' = node_known node'' \<and> report_unresolved r = report_unresolved s"
proof -
  have uniq: "ids_unique (set xs)" and uniq': "ids_unique (universe J node ys)"
    using assms(2,3) by (auto simp: universe_def intro: ids_unique_subset)
  have "batch_map xs = batch_map ys" by (rule batch_map_cong [OF uniq assms(3)])
  then show ?thesis
    using ingest_computes_closure [OF assms(1,2,4)] ingest_computes_closure [OF assms(1) uniq' assms(5)]
    by (simp add: unresolved_ids_def assms(3))
qed

theorem node_ingest_order_independent_witness:
  "node_known (snd (ingest demo_crypto demo_json demo_node demo_shuffled)) =
     {EventId 248, EventId 247, EventId 185}"
proof -
  have ing: "ingest demo_crypto demo_json demo_node demo_shuffled =
     (Inr \<lparr>report_inserted = 3, report_already_present = 0, report_unresolved = []\<rparr>, demo_full_node)"
    using demo_shuffled_ingest demo_ingest by simp
  have "set demo_events = set demo_shuffled" by (auto simp: demo_events_def demo_shuffled_def)
  then have "node_known demo_full_node = node_known (snd (ingest demo_crypto demo_json demo_node demo_shuffled))"
    using node_ingest_order_independent [OF demo_node_ok _ _ demo_ingest ing] demo_universe demo_ids_unique
    by (simp add: ing)
  then show ?thesis by (simp add: demo_full_node_def)
qed

text \<open>A node opened again on its store, for its community, knows exactly what it knew: ingesting
  into a fresh node and reopening loses nothing and admits nothing.\<close>

theorem node_reopen_same:
  assumes "node_ok C J node" and "node_complete J node" and "ids_unique (universe J node events)"
    and "ingest C J node events = (res, node')" and "node_community node' = Some c"
    and "node_open C J (node_store node') (Some c) = Inr node''"
  shows "node_known node'' = node_known node' \<and> node_ok C J node''"
proof -
  have ok: "node_ok C J node'" using ingest_preserves [OF assms(1,3,4)] by simp
  have known: "node_known node'' = node_known node'"
    by (rule node_reopen [OF ok ingest_complete [OF assms(1,3,2,4)] assms(5,6)])
  have st: "store_ok C J (node_store node')" using ok by (simp add: node_ok_def)
  then show ?thesis
    using known ok assms(5) node_open_known(1,2) [OF st assms(6)] by (simp add: node_ok_def)
qed

theorem node_reopen_same_witness:
  "\<exists>node. node_open demo_crypto demo_json (node_store demo_full_node) (Some demo_community) = Inr node \<and>
     node_known node = node_known demo_full_node"
proof -
  have c: "node_community demo_full_node = Some demo_community" by (simp add: demo_full_node_def)
  have "node_complete demo_json demo_node"
    by (simp add: node_complete_def demo_node_def demo_store_def store_abs_def)
  moreover obtain node where
    "node_open demo_crypto demo_json (node_store demo_full_node) (Some demo_community) = Inr node"
    by (simp add: node_open_def store_events_def demo_full_node_def demo_row_def row_selected_def
        decode_stored_def event_bytes_def community_bytes_def demo_community_def)
  ultimately show ?thesis
    using node_reopen_same [OF demo_node_ok _ _ demo_ingest c] demo_universe demo_ids_unique by auto
qed

text \<open>C3: \<open>ancestry\<close> returns exactly the ancestors of an event, itself included, in identifier order,
  and never more than the limit; on a well-formed node it fails only when there are more, or when the
  store fails.\<close>

theorem node_ancestry_exact:
  assumes "node_ok C J node" and "i \<in> node_known node" and "\<forall>j. \<not> sql_fails (node_store node) (SqlSelect j)"
  shows "if card (ancestors_of (store_abs J (node_store node)) i) \<le> limit
    then \<exists>es. ancestry C J node i limit = Inr es \<and>
      map event_id es = sorted_list_of_set (ancestors_of (store_abs J (node_store node)) i) \<and>
      (\<forall>e \<in> set es. store_abs J (node_store node) (event_id e) = Some e)
    else ancestry C J node i limit = Inl AncestryLimitExceeded"
proof -
  let ?M = "store_abs J (node_store node)" and ?A = "ancestors_of (store_abs J (node_store node)) i"
  have ok: "store_ok C J (node_store node)" using assms(1) by (simp add: node_ok_def)
  have sub: "?A \<subseteq> node_known node"
  proof
    fix j assume "j \<in> ?A"
    then show "j \<in> node_known node"
      by (induction rule: ancestors_of.induct)
        (use assms(1,2) in \<open>force simp: node_ok_def\<close>)+
  qed
  have fin: "finite ?A" using sub assms(1) by (auto simp: node_ok_def intro: finite_subset)
  have dom: "?A \<subseteq> dom ?M" using sub assms(1) unfolding node_ok_def by blast
  have inv: "walk_inv ?M i limit [i] {} []"
    by (simp add: walk_inv_def ancestor_self)
  have self: "i \<in> ?A" by (rule ancestor_self)
  show ?thesis
  proof (cases "limit = 0")
    case True
    then show ?thesis using self fin by (auto simp: ancestry_def)
  next
    case False
    then show ?thesis
      using ancestry_walk_total [OF ok assms(3) dom fin inv] ancestry_walk_Inr [OF ok inv]
      by (auto simp: ancestry_def split: if_splits)
  qed
qed

theorem node_ancestry_exact_witness:
  "\<exists>es. ancestry demo_crypto demo_json demo_full_node (EventId 247) 10 = Inr es \<and>
     map event_id es = sorted_list_of_set (ancestors_of (store_abs demo_json (node_store demo_full_node)) (EventId 247))"
proof -
  have "ancestors_of (store_abs demo_json (node_store demo_full_node)) (EventId 247) \<subseteq> {EventId 247, EventId 185}"
  proof
    fix j assume "j \<in> ancestors_of (store_abs demo_json (node_store demo_full_node)) (EventId 247)"
    then show "j \<in> {EventId 247, EventId 185}"
      by (induction rule: ancestors_of.induct) (auto simp: demo_full_abs split: if_splits)
  qed
  from card_mono [OF _ this]
  have "card (ancestors_of (store_abs demo_json (node_store demo_full_node)) (EventId 247)) \<le> 10" by simp
  then show ?thesis
    using node_ancestry_exact [OF demo_full_ok, of "EventId 247" 10] by (auto simp: demo_full_node_def)
qed

text \<open>\<open>heads\<close> returns, in identifier order, exactly the known events that no known event names as
  a parent.\<close>

theorem node_heads_exact:
  assumes "node_ok C J node" and "heads C J node = Inr hs"
  shows "strictly_sorted hs \<and>
    set hs = {i \<in> node_known node. \<forall>j \<in> node_known node. \<forall>e.
      store_abs J (node_store node) j = Some e \<longrightarrow> i \<notin> set (parents (content e))}"
  using heads_Inr [OF assms] by simp

theorem node_heads_exact_witness:
  "heads demo_crypto demo_json demo_full_node = Inr [EventId 248] \<and>
   set [EventId 248] = {i \<in> node_known demo_full_node. \<forall>j \<in> node_known demo_full_node. \<forall>e.
      store_abs demo_json (node_store demo_full_node) j = Some e \<longrightarrow> i \<notin> set (parents (content e))}"
proof -
  have "heads demo_crypto demo_json demo_full_node = Inr [EventId 248]"
    by (simp add: heads_def demo_full_node_def demo_row_def store_get_def bt_get_def decode_stored_def
        less_eq_event_id_def insert_Diff_if)
  then show ?thesis using node_heads_exact [OF demo_full_ok] by blast
qed

section \<open>Event envelope\<close>

text \<open>The canonical encoding that is signed and hashed determines the content: two contents whose
  field lengths fit the 32-bit length prefixes have the same encoding only if they are equal.\<close>

theorem canonical_content_injective:
  assumes "encodable c" and "encodable d" and "canonical_content c = canonical_content d"
  shows "c = d"
  using canonical_content_prefix_free [of c "[]" d "[]"] assms by simp

theorem canonical_content_injective_witness:
  "canonical_content (content demo_invite) \<noteq> canonical_content (content demo_accept)"
proof
  assume "canonical_content (content demo_invite) = canonical_content (content demo_accept)"
  then have "content demo_invite = content demo_accept"
    by (rule canonical_content_injective [rotated 2])
      (rule valid_event_encodable [OF demo_valid(2)], rule valid_event_encodable [OF demo_valid(3)])
  then have "parents (content demo_invite) = parents (content demo_accept)" by simp
  then show False by simp
qed

text \<open>An event that \<open>create_signed\<close> makes from content within the limits validates, whatever order
  and repetitions its parents had, and its author is the signer.\<close>

theorem created_event_valid:
  assumes "ed25519_correct C" and "protocol_version c = PROTOCOL_VERSION"
    and "event_type c \<noteq> []" and "length (event_type c) \<le> MAX_EVENT_TYPE_BYTES"
    and "length (payload c) \<le> MAX_PAYLOAD_BYTES" and "card (set (parents c)) \<le> MAX_PARENTS"
    and "community_id c = None \<longleftrightarrow> parents c = []"
  shows "validate_event C (create_signed C c i) = Inr () \<and>
    author_id C (create_signed C c i) = Inr (identity_user_id C i)"
  using create_signed_valid [OF assms] create_signed_author by simp

theorem created_event_valid_witness:
  "validate_event demo_crypto (create_signed demo_crypto
     \<lparr>protocol_version = PROTOCOL_VERSION, community_id = Some demo_community,
      parents = [EventId 9, EventId 4, EventId 9], timestamp_ms = 0, event_type = ''t'', payload = []\<rparr>
     guest_identity) = Inr ()"
  using created_event_valid [OF demo_crypto_correct,
      of "\<lparr>protocol_version = PROTOCOL_VERSION, community_id = Some demo_community,
          parents = [EventId 9, EventId 4, EventId 9], timestamp_ms = 0, event_type = ''t'', payload = []\<rparr>"]
  by (simp add: MAX_EVENT_TYPE_BYTES_def MAX_PARENTS_def card_insert_if)

text \<open>C4: an identifier names one event: two valid events with the same identifier are the same event,
  unless BLAKE3 collides on their encodings.\<close>

theorem event_id_identifies:
  assumes "collision_free C E" and "\<forall>e \<in> E. validate_event C e = Inr ()"
    and "a \<in> E" and "b \<in> E" and "event_id a = event_id b"
  shows "a = b"
  using ids_uniqueD [OF collision_free_ids_unique [OF assms(1,2)] assms(3-5)] .

theorem event_id_identifies_witness:
  "collision_free demo_crypto (set demo_events) \<and> event_id demo_invite \<noteq> event_id demo_accept"
proof -
  have "collision_free demo_crypto (set demo_events)"
    using valid_event_id [OF demo_valid(1)] valid_event_id [OF demo_valid(2)] valid_event_id [OF demo_valid(3)]
    by (auto simp: collision_free_def demo_events_def)
  then have "event_id demo_invite = event_id demo_accept \<Longrightarrow> demo_invite = demo_accept"
    by (rule event_id_identifies [OF _ demo_events_valid]) (simp_all add: demo_events_def)
  then show ?thesis using \<open>collision_free demo_crypto (set demo_events)\<close> by auto
qed

section \<open>Store\<close>

text \<open>Inserting an event and looking its identifier up returns that event; a second insertion
  reports \<open>AlreadyPresent\<close> and changes nothing; every other identifier keeps its answer.\<close>

theorem store_insert_lookup:
  assumes "store_ok C J s" and "ids_unique (insert e (ran (store_abs J s)))"
    and "store_insert C J s e = Inr (out, s')"
  shows "store_ok C J s' \<and> store_abs J s' (event_id e) = Some e \<and>
    (\<forall>i. \<not> sql_fails s' (SqlSelect i) \<longrightarrow>
       store_get C J s' i = Inr (if i = event_id e then Some e else store_abs J s i)) \<and>
    (\<forall>out' s''. store_insert C J s' e = Inr (out', s'') \<longrightarrow> out' = AlreadyPresent \<and> s'' = s')"
proof -
  have ok: "store_ok C J s'" by (rule store_insert_ok [OF assms(1,3)])
  have new: "store_abs J s' (event_id e) = Some e" by (rule log.insert_stores [OF assms(1,3,2)])
  have other: "store_abs J s' i = store_abs J s i" if "i \<noteq> event_id e" for i
    using store_insert_new [OF assms(1) _ assms(3)] store_insert_old [OF assms(1) _ assms(3)] that
    by (cases "store_abs J s (event_id e)") auto
  show ?thesis
    using ok new other store_get_ok [OF ok] log.insert_twice [OF assms(1,3)] by auto
qed

theorem store_insert_lookup_witness:
  "\<exists>s. store_insert demo_crypto demo_json demo_store demo_genesis = Inr (Inserted, s) \<and>
     store_get demo_crypto demo_json s (EventId 185) = Inr (Some demo_genesis)"
proof -
  have ok: "store_ok demo_crypto demo_json demo_store"
    by (simp add: store_ok_def demo_store_def demo_json_lossless)
  have uniq: "ids_unique (insert demo_genesis (ran (store_abs demo_json demo_store)))"
    by (simp add: ids_unique_def demo_store_def store_abs_def ran_def)
  obtain s where s: "store_insert demo_crypto demo_json demo_store demo_genesis = Inr (Inserted, s)"
    "sql_fails s = (\<lambda>_. False)"
    by (simp add: store_insert_def demo_store_def bt_contains_key_def)
  then show ?thesis using store_insert_lookup [OF ok uniq s(1)] by simp
qed

text \<open>\<open>events\<close> of a community returns exactly the stored events of that community, each once, in
  identifier order.\<close>

theorem store_events_exact:
  assumes "store_ok C J s" and "store_events C J s c = Inr es"
  shows "set es = {e. store_abs J s (event_id e) = Some e \<and> in_community c e} \<and>
    strictly_sorted (map event_id es)"
  using store_events_ok [OF assms] by simp

theorem store_events_exact_witness:
  "set [demo_genesis, demo_invite, demo_accept] =
     {e. store_abs demo_json (node_store demo_full_node) (event_id e) = Some e \<and> in_community demo_community e}"
proof -
  have ok: "store_ok demo_crypto demo_json (node_store demo_full_node)"
    using demo_full_ok by (simp add: node_ok_def)
  have "store_events demo_crypto demo_json (node_store demo_full_node) demo_community =
      Inr [demo_genesis, demo_invite, demo_accept]"
    by (simp add: store_events_def demo_full_node_def demo_row_def row_selected_def
        decode_stored_def event_bytes_def community_bytes_def demo_community_def)
  then show ?thesis using store_events_exact [OF ok] by blast
qed

section \<open>Archive\<close>

text \<open>C5: archive validation accepts exactly the archives of the current version, within the event
  limit, whose events are sorted, valid and form one community history: one genesis event that names the
  community, every event in that community, and every parent present.\<close>

theorem archive_validation_exact:
  "(\<exists>v. validate_wire C w = Inr v) \<longleftrightarrow>
     wire_version w = ARCHIVE_VERSION \<and> length (wire_events w) \<le> MAX_ARCHIVE_EVENTS \<and>
     strictly_sorted (map event_id (wire_events w)) \<and>
     (\<forall>e \<in> set (wire_events w). validate_event C e = Inr ()) \<and>
     community_history (wire_community w) (set (wire_events w))"
  by (simp add: validate_wire_Inr_iff)

definition demo_wire :: archive_wire where
  "demo_wire = \<lparr>wire_version = ARCHIVE_VERSION, wire_community = demo_community,
     wire_events = [demo_genesis, demo_invite, demo_accept]\<rparr>"

theorem archive_validation_exact_witness:
  "community_history demo_community {demo_genesis, demo_invite, demo_accept}"
proof -
  have "\<exists>v. validate_wire demo_crypto demo_wire = Inr v"
    by (simp add: validate_wire_def demo_wire_def Let_def MAX_ARCHIVE_EVENTS_def less_event_id_def)
  then show ?thesis using archive_validation_exact [of demo_crypto demo_wire] by (simp add: demo_wire_def)
qed

text \<open>An archive that \<open>encode\<close> produced parses and validates back to its community and to the
  given events in identifier order.\<close>

theorem archive_encode_roundtrip:
  assumes "codec_lossless A" and "archive_encode C A c es = Inr bs"
  shows "res_bind (archive_parse A bs) (validate_wire C) =
    Inr \<lparr>archive_community = c, archive_events = sort_key event_id es\<rparr>"
  by (rule archive_roundtrip [OF assms])

theorem archive_encode_roundtrip_witness:
  "res_bind (archive_parse (table_codec [(demo_wire, [7])]) [7]) (validate_wire demo_crypto) =
     Inr \<lparr>archive_community = demo_community, archive_events = sort_key event_id demo_events\<rparr>"
proof -
  have sorted: "sort_key event_id demo_events = [demo_genesis, demo_invite, demo_accept]"
    by (simp add: demo_events_def less_eq_event_id_def)
  have "archive_encode demo_crypto (table_codec [(demo_wire, [7])]) demo_community demo_events = Inr [7]"
    unfolding archive_encode_def sorted
    by (simp add: validate_wire_def Let_def MAX_ARCHIVE_EVENTS_def less_event_id_def table_codec_def
        demo_wire_def MAX_ARCHIVE_BYTES_def)
  moreover have "codec_lossless (table_codec [(demo_wire, [7])])" by (rule table_codec_lossless) simp
  ultimately show ?thesis by (rule archive_encode_roundtrip [rotated])
qed

end
