(* ===== verification/Chat_Run.thy ===== *)
theory Chat_Run
  imports Chat_Resolve "HOL-Library.Multiset"
begin

text \<open>
  What \<open>resolve\<close> computes.

  First the proof rule of the ready-loop (\<open>resolve_loop_rule\<close>): the loop never indexes a missing
  key, always returns, and keeps what every step on a ready identifier keeps.  Then the abstract
  specification \<open>chat_run\<close>, the invariants of its states by rule induction, and the lemmas that
  connect a resolution with a run.
\<close>

section \<open>The ready-loop\<close>

text \<open>The events of the index whose parents are not pending.\<close>

definition is_ready :: "chat_scan \<Rightarrow> event_id set \<Rightarrow> event_id \<Rightarrow> bool" where
  "is_ready s pending i \<longleftrightarrow>
     (\<exists>e. bt_get (sc_by_id s) i = Some e \<and> (\<forall>p \<in> set (parents (content e)). p \<notin> pending))"

lemma scan_ok_get:
  assumes "scan_ok s" and "i \<in> set (bt_keys (sc_payloads s))"
  obtains e pl u where "bt_get (sc_by_id s) i = Some e" and "bt_get (sc_payloads s) i = Some pl"
    and "bt_get (sc_authors s) i = Some u"
proof -
  have "i \<in> set (bt_keys (sc_by_id s))" "i \<in> set (bt_keys (sc_authors s))"
    using assms by (auto simp: scan_ok_def)
  then show thesis using assms(2) that by (auto simp: bt_keys_iff_get)
qed

text \<open>A round's identifiers, in the order in which the round takes them.\<close>

definition ready_keys :: "chat_scan \<Rightarrow> event_id set \<Rightarrow> (byte \<times> event_id) list" where
  "ready_keys s pending =
     sort (map (\<lambda>i. (priority (the (bt_get (sc_payloads s) i)), i))
       (filter (is_ready s pending) (sorted_list_of_set pending)))"

lemma resolve_ready_eq:
  assumes ok: "scan_ok s" and sub: "pending \<subseteq> set (bt_keys (sc_payloads s))"
  shows "resolve_ready s pending = Inr (map snd (ready_keys s pending))"
proof -
  have mem: "i \<in> set (bt_keys (sc_payloads s))" if "i \<in> set (sorted_list_of_set pending)" for i
    using that sub by (cases "finite pending") auto
  have 1: "try_filter (\<lambda>i. res_bind (index (sc_by_id s) i) (\<lambda>e.
          Inr (\<forall>p \<in> set (parents (content e)). p \<notin> pending))) (sorted_list_of_set pending) =
        Inr (filter (is_ready s pending) (sorted_list_of_set pending))"
    by (rule try_filter_filter, drule mem, erule scan_ok_get [OF ok]) (simp add: index_def is_ready_def)
  have 2: "try_map (\<lambda>i. res_bind (index (sc_payloads s) i) (\<lambda>pl. Inr (priority pl, i)))
        (filter (is_ready s pending) (sorted_list_of_set pending)) =
      Inr (map (\<lambda>i. (priority (the (bt_get (sc_payloads s) i)), i))
        (filter (is_ready s pending) (sorted_list_of_set pending)))"
    by (rule try_map_map, drule filter_is_subset [THEN subsetD], drule mem, erule scan_ok_get [OF ok])
      (simp add: index_def)
  show ?thesis by (simp add: resolve_ready_def 1 2 ready_keys_def)
qed

lemma ready_keys_set:
  "finite pending \<Longrightarrow> set (map snd (ready_keys s pending)) = {i \<in> pending. is_ready s pending i}"
  by (auto simp: ready_keys_def image_image)

lemma ready_keys_distinct: "distinct (map snd (ready_keys s pending))"
proof -
  let ?xs = "filter (is_ready s pending) (sorted_list_of_set pending)"
  have "mset (map snd (ready_keys s pending)) = mset ?xs"
    by (simp add: ready_keys_def image_mset.compositionality comp_def)
  then have "distinct (map snd (ready_keys s pending)) = distinct ?xs"
    by (rule mset_eq_imp_distinct_iff)
  then show ?thesis by simp
qed

lemma resolve_one_total:
  assumes "scan_ok s" and "i \<in> set (bt_keys (sc_payloads s))"
  shows "\<exists>r'. resolve_one C s r i = Inr r'"
  by (rule scan_ok_get [OF assms]) (simp add: resolve_one_def Let_def index_def)

text \<open>
  A round is total and keeps what is kept by deciding one pending identifier none of whose parents
  is pending.
\<close>

lemma resolve_fold_rule:
  assumes ok: "scan_ok s"
    and step: "\<And>r i r'. I r \<Longrightarrow> i \<in> rs_pending r \<Longrightarrow> is_ready s (rs_pending r) i \<Longrightarrow>
      resolve_one C s r i = Inr r' \<Longrightarrow> I r'"
    and "I r" and "distinct ids" and "set ids \<subseteq> rs_pending r"
    and "\<forall>i \<in> set ids. is_ready s (rs_pending r) i" and "rs_pending r \<subseteq> set (bt_keys (sc_payloads s))"
  shows "\<exists>r'. try_fold (resolve_one C s) ids r = Inr r' \<and> I r'"
  using assms(3-)
proof (induction ids arbitrary: r)
  case Nil
  then show ?case by simp
next
  case (Cons i ids)
  obtain r1 where r1: "resolve_one C s r i = Inr r1"
    using resolve_one_total [OF ok] Cons.prems(3,5) by (meson list.set_intros(1) subsetD)
  have pend: "rs_pending r1 = rs_pending r - {i}" by (rule resolve_one_pending [OF r1])
  have "I r1" using step [OF Cons.prems(1) _ _ r1] Cons.prems(3,4) by simp
  then have "\<exists>r'. try_fold (resolve_one C s) ids r1 = Inr r' \<and> I r'"
  proof (rule Cons.IH)
    show "\<forall>j \<in> set ids. is_ready s (rs_pending r1) j"
      using Cons.prems(4) by (force simp: is_ready_def pend)
  qed (use Cons.prems pend in auto)
  then show ?case using r1 by simp
qed

lemma resolve_loop_rule:
  assumes ok: "scan_ok s"
    and step: "\<And>r i r'. I r \<Longrightarrow> i \<in> rs_pending r \<Longrightarrow> is_ready s (rs_pending r) i \<Longrightarrow>
      resolve_one C s r i = Inr r' \<Longrightarrow> I r'"
    and "I r" and "finite (rs_pending r)" and "rs_pending r \<subseteq> set (bt_keys (sc_payloads s))"
  shows "\<exists>r'. resolve_loop C s r = Inr r' \<and> I r' \<and> rs_pending r' \<subseteq> rs_pending r \<and>
    (\<forall>i \<in> rs_pending r'. \<not> is_ready s (rs_pending r') i)"
  using assms(3-)
proof (induction "card (rs_pending r)" arbitrary: r rule: less_induct)
  case less
  let ?ready = "map snd (ready_keys s (rs_pending r))"
  have ready: "resolve_ready s (rs_pending r) = Inr ?ready"
    by (rule resolve_ready_eq [OF ok less.prems(3)])
  have set_ready: "set ?ready = {i \<in> rs_pending r. is_ready s (rs_pending r) i}"
    by (rule ready_keys_set [OF less.prems(2)])
  show ?case
  proof (cases "?ready = []")
    case True
    then show ?thesis
      using set_ready ready less.prems(1) by (auto simp: resolve_loop.simps [of C s r])
  next
    case False
    obtain r1 where r1: "try_fold (resolve_one C s) ?ready r = Inr r1" and "I r1"
    proof -
      have "\<exists>r'. try_fold (resolve_one C s) ?ready r = Inr r' \<and> I r'"
        by (rule resolve_fold_rule [OF ok, where I = I])
          (use step less.prems set_ready ready_keys_distinct in auto)
      then show thesis using that by blast
    qed
    have pend: "rs_pending r1 = rs_pending r - set ?ready" by (rule resolve_fold_pending [OF r1])
    have "rs_pending r1 \<subset> rs_pending r"
      using False set_ready by (cases ?ready) (auto simp: pend)
    then have "card (rs_pending r1) < card (rs_pending r)"
      using less.prems(2) by (simp add: psubset_card_mono)
    then obtain r' where "resolve_loop C s r1 = Inr r'" "I r'" "rs_pending r' \<subseteq> rs_pending r1"
      "\<forall>i \<in> rs_pending r'. \<not> is_ready s (rs_pending r') i"
      using less.hyps [OF _ \<open>I r1\<close>] less.prems(2,3) pend by auto
    then show ?thesis
      using ready r1 False pend by (auto simp: resolve_loop.simps [of C s r])
  qed
qed


section \<open>Runs of a community\<close>

inductive chat_run ::
  "crypto \<Rightarrow> chat_payload codec \<Rightarrow> signed_event set \<Rightarrow> chat_state \<Rightarrow> event_id list \<Rightarrow> bool"
  for C :: crypto and P :: "chat_payload codec" and E :: "signed_event set" where
  run_start: "chat_run C P E chat_state_default []"
| run_accept: "chat_run C P E st ids \<Longrightarrow> e \<in> E \<Longrightarrow> validate_event C e = Inr () \<Longrightarrow>
    decode P e = Inr pl \<Longrightarrow> author_id C e = Inr author \<Longrightarrow> event_id e \<notin> set ids \<Longrightarrow>
    set (parents (content e)) \<subseteq> set ids \<Longrightarrow>
    validate_context C st e pl author (set ids) = Inr () \<Longrightarrow>
    chat_run C P E (apply_payload C st e author pl) (ids @ [event_id e])"

inductive_cases chat_run_NilE: "chat_run C P E st []"
inductive_cases chat_run_snocE: "chat_run C P E st (ids @ [i])"

lemma chat_run_distinct: "chat_run C P E st ids \<Longrightarrow> distinct ids"
  by (induction rule: chat_run.induct) auto

lemma chat_run_members: "chat_run C P E st ids \<Longrightarrow> set ids \<subseteq> event_id ` E"
  by (induction rule: chat_run.induct) auto

text \<open>A prefix of a run is a run.\<close>

lemma chat_run_prefix:
  assumes "chat_run C P E st (xs @ ys)"
  shows "\<exists>st'. chat_run C P E st' xs"
  using assms
proof (induction ys arbitrary: st rule: rev_induct)
  case Nil
  then show ?case by auto
next
  case (snoc y ys)
  then have "chat_run C P E st ((xs @ ys) @ [y])" by simp
  then show ?case by (rule chat_run_snocE) (use snoc.IH in auto)
qed

text \<open>Every accepted event was authorised in the state its predecessors lead to.\<close>

lemma chat_run_step:
  assumes "chat_run C P E st (xs @ i # ys)"
  obtains st' e pl author where "chat_run C P E st' xs" and "e \<in> E" and "event_id e = i"
    and "validate_event C e = Inr ()" and "decode P e = Inr pl" and "author_id C e = Inr author"
    and "set (parents (content e)) \<subseteq> set xs"
    and "validate_context C st' e pl author (set xs) = Inr ()"
proof -
  have "chat_run C P E st ((xs @ [i]) @ ys)" using assms by simp
  then obtain st1 where "chat_run C P E st1 (xs @ [i])" using chat_run_prefix by blast
  then show thesis by (rule chat_run_snocE) (use that in blast)
qed

section \<open>Invariants of runs\<close>

lemma require_Inr_iff [res_simps]:
  "require_admin st a = Inr u \<longleftrightarrow> a \<in> cs_administrators st"
  "require_owner st a = Inr u \<longleftrightarrow> cs_owner st = Some a"
  by (simp_all add: require_admin_def require_owner_def)

lemma validate_payload_default:
  "validate_payload C chat_state_default e a pl = Inr () \<Longrightarrow> is_community_create pl"
  by (cases pl) (auto simp: is_community_create_def chat_state_default_def res_simps split: if_splits)

text \<open>
  Governance: a founded community has an owner, who is an administrator; administrators are members;
  invitations are accepted events with 32-byte keys, only known invitations are used up; the home
  server's identifier is derived from its key.
\<close>

definition governed :: "chat_state \<Rightarrow> bool" where
  "governed st \<longleftrightarrow>
     (cs_community st = None \<longleftrightarrow> cs_owner st = None) \<and>
     (\<forall>u. cs_owner st = Some u \<longrightarrow> u \<in> cs_administrators st) \<and>
     cs_administrators st \<subseteq> cs_members st \<and>
     finite (cs_members st) \<and> finite (cs_channels st)"

definition invites_ok :: "chat_state \<Rightarrow> bool" where
  "invites_ok st \<longleftrightarrow>
     bt_ok (cs_invitations st) \<and>
     (\<forall>i key. bt_get (cs_invitations st) i = Some key \<longrightarrow> length key = PUBLIC_KEY_LEN) \<and>
     cs_accepted_invitations st \<subseteq> set (bt_keys (cs_invitations st))"

definition home_server_ok :: "crypto \<Rightarrow> chat_state \<Rightarrow> event_id set \<Rightarrow> bool" where
  "home_server_ok C st accepted \<longleftrightarrow>
     (\<forall>b. cs_home_server st = Some b \<longrightarrow>
        hs_server_id b = home_server_from_public_key C (hs_server_public_key b) \<and>
        hs_declaration b \<in> accepted \<and> set (hs_history_heads b) \<subseteq> accepted \<and>
        hs_endpoints b \<noteq> [] \<and> length (hs_endpoints b) \<le> MAX_HOME_SERVER_ENDPOINTS \<and>
        distinct (hs_endpoints b))"

lemma governed_default: "governed chat_state_default"
  by (simp add: governed_def chat_state_default_def)

lemma governed_step:
  assumes "governed st" and "validate_context C st e pl a acc = Inr ()"
  shows "governed (apply_payload C st e a pl)"
  using assms
  by (cases pl) (auto simp: governed_def validate_context_def is_community_create_def res_simps
      split: if_splits option.splits)

lemma invites_ok_default: "invites_ok chat_state_default"
  by (simp add: invites_ok_def chat_state_default_def)

lemma invites_ok_step:
  assumes "invites_ok st" and "validate_context C st e pl a acc = Inr ()"
  shows "invites_ok (apply_payload C st e a pl)"
  using assms
  by (cases pl) (auto simp: invites_ok_def validate_context_def is_community_create_def res_simps
      bt_simps bt_keys_iff_get bt_ok_insert split: if_splits option.splits)

lemma validate_endpoints_distinct:
  "validate_endpoints S eps = Inr u \<Longrightarrow> distinct eps \<and> set eps \<inter> S = {}"
  by (induction eps arbitrary: S) (fastforce split: if_splits)+

lemma home_server_ok_step:
  assumes "home_server_ok C st acc" and "validate_context C st e pl a acc = Inr ()"
    and "set (parents (content e)) \<subseteq> acc"
  shows "home_server_ok C (apply_payload C st e a pl) (insert (event_id e) acc)"
  using assms
  by (cases pl) (auto simp: home_server_ok_def validate_context_def is_community_create_def res_simps
      validate_home_server_def split: if_splits option.splits dest: validate_endpoints_distinct)

lemma chat_run_invariant:
  assumes "chat_run C P E st ids"
  shows "governed st \<and> invites_ok st \<and> home_server_ok C st (set ids)"
  using assms
proof (induction rule: chat_run.induct)
  case run_start
  then show ?case
    by (simp add: governed_default invites_ok_default) (simp add: home_server_ok_def chat_state_default_def)
next
  case (run_accept st ids e pl author)
  then show ?case
    using governed_step invites_ok_step home_server_ok_step [of C st "set ids" e pl author] by simp
qed


text \<open>
  The first accepted event is a core genesis event that creates a community; it fixes the community,
  and every later event carries that community and is no creation.
\<close>

definition founded :: "crypto \<Rightarrow> chat_payload codec \<Rightarrow> signed_event set \<Rightarrow> chat_state \<Rightarrow> event_id list \<Rightarrow> bool" where
  "founded C P E st ids \<longleftrightarrow>
     (ids = [] \<and> st = chat_state_default) \<or>
     (\<exists>g name rest. ids = event_id g # rest \<and> g \<in> E \<and> community_id (content g) = None \<and>
        decode P g = Inr (CommunityCreate PROFILE_ID name) \<and>
        cs_community st = Some (community_from_event (event_id g)) \<and>
        (\<forall>i \<in> set rest. \<exists>e \<in> E. \<exists>pl. event_id e = i \<and> decode P e = Inr pl \<and>
           \<not> is_community_create pl \<and>
           community_id (content e) = Some (community_from_event (event_id g))))"

lemma apply_payload_community:
  "\<not> is_community_create pl \<Longrightarrow> cs_community (apply_payload C st e a pl) = cs_community st"
  by (cases pl) (auto simp: is_community_create_def split: option.splits)

lemma chat_run_founded:
  assumes "chat_run C P E st ids"
  shows "founded C P E st ids"
  using assms
proof (induction rule: chat_run.induct)
  case run_start
  then show ?case by (simp add: founded_def)
next
  case (run_accept st ids e pl author)
  from run_accept.IH consider (empty) "ids = []" "st = chat_state_default"
    | (some) g name rest where "ids = event_id g # rest" "g \<in> E" "community_id (content g) = None"
        "decode P g = Inr (CommunityCreate PROFILE_ID name)"
        "cs_community st = Some (community_from_event (event_id g))"
        "\<forall>i \<in> set rest. \<exists>e \<in> E. \<exists>pl. event_id e = i \<and> decode P e = Inr pl \<and>
           \<not> is_community_create pl \<and> community_id (content e) = Some (community_from_event (event_id g))"
    unfolding founded_def by blast
  then show ?case
  proof cases
    case empty
    then have gen: "community_id (content e) = None"
      using run_accept.hyps valid_event_genesis_iff [of C e] by auto
    have "is_community_create pl"
      using run_accept.hyps(8) empty validate_payload_default [of C e author pl]
      by (auto simp: validate_context_def split: if_splits)
    then obtain prof name where pl: "pl = CommunityCreate prof name"
      by (cases pl) (auto simp: is_community_create_def)
    then have "prof = PROFILE_ID" using run_accept.hyps(4) by (auto simp: decode_Inr_iff)
    then show ?thesis using empty gen pl run_accept.hyps(2,4) by (auto simp: founded_def)
  next
    case some
    have nc: "\<not> is_community_create pl" and cid: "community_id (content e) = cs_community st"
      using run_accept.hyps(8) some(5) by (auto simp: validate_context_def split: if_splits)
    have "\<forall>i \<in> set (rest @ [event_id e]). \<exists>e \<in> E. \<exists>pl. event_id e = i \<and> decode P e = Inr pl \<and>
           \<not> is_community_create pl \<and> community_id (content e) = Some (community_from_event (event_id g))"
      using some(5,6) nc cid run_accept.hyps(2,4) by auto
    then show ?thesis
      using some(1-5) apply_payload_community [OF nc] unfolding founded_def by (metis append_Cons)
  qed
qed

text \<open>Which invitations are open and which are used up is read off the accepted events.\<close>

definition accepts :: "chat_payload codec \<Rightarrow> signed_event set \<Rightarrow> event_id list \<Rightarrow> event_id \<Rightarrow> signed_event \<Rightarrow> bool" where
  "accepts P E ids invn e \<longleftrightarrow>
     e \<in> E \<and> event_id e \<in> set ids \<and> (\<exists>sig. decode P e = Inr (MemberAccept invn sig))"

definition invites :: "chat_payload codec \<Rightarrow> signed_event set \<Rightarrow> event_id list \<Rightarrow> event_id \<Rightarrow> bytes \<Rightarrow> bool" where
  "invites P E ids invn key \<longleftrightarrow>
     invn \<in> set ids \<and> (\<exists>e \<in> E. event_id e = invn \<and> decode P e = Inr (MemberInvite key))"

lemma apply_payload_invitations:
  "bt_get (cs_invitations (apply_payload C st e a pl)) i =
     (case pl of MemberInvite key \<Rightarrow> if i = event_id e then Some key else bt_get (cs_invitations st) i
      | _ \<Rightarrow> bt_get (cs_invitations st) i)"
  "cs_accepted_invitations (apply_payload C st e a pl) =
     (case pl of MemberAccept invn _ \<Rightarrow> insert invn (cs_accepted_invitations st)
      | _ \<Rightarrow> cs_accepted_invitations st)"
  by (cases pl; auto simp: bt_simps split: option.splits)+

lemma chat_run_invitations:
  assumes "chat_run C P E st ids" and uniq: "ids_unique E"
  shows "bt_get (cs_invitations st) i = Some key \<longleftrightarrow> invites P E ids i key"
  using assms(1)
proof (induction arbitrary: i key rule: chat_run.induct)
  case run_start
  then show ?case by (simp add: invites_def chat_state_default_def)
next
  case (run_accept st ids e pl author)
  have same: "d \<in> E \<Longrightarrow> event_id d = event_id e \<longleftrightarrow> d = e" for d
    using ids_uniqueD [OF uniq _ run_accept.hyps(2)] by auto
  have "invites P E (ids @ [event_id e]) i key \<longleftrightarrow>
      invites P E ids i key \<or> i = event_id e \<and> pl = MemberInvite key"
    using run_accept.hyps(2,4) by (auto simp: invites_def same)
  moreover have "\<not> invites P E ids (event_id e) key" for key
    using run_accept.hyps(6) by (simp add: invites_def)
  ultimately show ?case
    using run_accept.IH by (cases pl) (auto simp: apply_payload_invitations simp del: apply_payload.simps)
qed

lemma validate_context_accept:
  assumes "validate_context C st e (MemberAccept invn sig) a acc = Inr ()"
  shows "\<exists>key c. bt_get (cs_invitations st) invn = Some key \<and> invn \<notin> cs_accepted_invitations st \<and>
    community_id (content e) = Some c \<and> cs_community st = Some c \<and>
    verify C key (acceptance_bytes c invn a) sig = Inr ()"
  using assms
  by (auto simp: validate_context_def is_community_create_def res_bind_Inr_iff ok_or_Inr_iff map_err_Inr_iff
      split: if_splits)

text \<open>An invitation is used up exactly when one accepted event accepts it, and no second one does.\<close>

lemma chat_run_single_use:
  assumes "chat_run C P E st ids" and uniq: "ids_unique E"
  shows "(i \<in> cs_accepted_invitations st \<longleftrightarrow> (\<exists>e. accepts P E ids i e)) \<and>
    (\<forall>a b. accepts P E ids i a \<longrightarrow> accepts P E ids i b \<longrightarrow> a = b)"
  using assms(1)
proof (induction arbitrary: i rule: chat_run.induct)
  case run_start
  then show ?case by (simp add: accepts_def chat_state_default_def)
next
  case (run_accept st ids e pl author)
  have same: "d \<in> E \<Longrightarrow> event_id d = event_id e \<longleftrightarrow> d = e" for d
    using ids_uniqueD [OF uniq _ run_accept.hyps(2)] by auto
  have ext: "accepts P E (ids @ [event_id e]) i d \<longleftrightarrow>
      accepts P E ids i d \<or> d = e \<and> (\<exists>sig. pl = MemberAccept i sig)" for i d
    using run_accept.hyps(2,4) by (auto simp: accepts_def same)
  have "i \<notin> cs_accepted_invitations st" if "pl = MemberAccept i sig" for sig
    using validate_context_accept run_accept.hyps(8) that by blast
  then show ?case
    using run_accept.IH [of i] ext by (cases pl) (auto simp: apply_payload_invitations simp del: apply_payload.simps)
qed

text \<open>
  Where a member comes from: the creation of the community, or an accepted acceptance whose capability
  signature verifies under the key of an accepted invitation, for that member and that community.
\<close>

definition admitted ::
  "crypto \<Rightarrow> chat_payload codec \<Rightarrow> signed_event set \<Rightarrow> event_id list \<Rightarrow> community_id option \<Rightarrow> user_id \<Rightarrow> bool" where
  "admitted C P E ids community u \<longleftrightarrow>
     (\<exists>e \<in> E. event_id e \<in> set ids \<and> author_id C e = Inr u \<and>
        ((\<exists>pl. decode P e = Inr pl \<and> is_community_create pl) \<or>
         (\<exists>invn sig key c. decode P e = Inr (MemberAccept invn sig) \<and> invites P E ids invn key \<and>
            community = Some c \<and> verify C key (acceptance_bytes c invn u) sig = Inr ())))"

lemma admitted_mono:
  "admitted C P E ids c u \<Longrightarrow> c = None \<or> c = d \<Longrightarrow> admitted C P E (ids @ [i]) d u"
  unfolding admitted_def invites_def by fastforce

lemma apply_payload_members:
  "u \<in> cs_members (apply_payload C st e a pl) \<Longrightarrow>
     u \<in> cs_members st \<or> u = a \<and> (is_community_create pl \<or> (\<exists>invn sig. pl = MemberAccept invn sig))"
  by (cases pl) (auto simp: is_community_create_def split: option.splits)

lemma chat_run_admitted:
  assumes "chat_run C P E st ids" and uniq: "ids_unique E"
  shows "u \<in> cs_members st \<Longrightarrow> admitted C P E ids (cs_community st) u"
  using assms(1)
proof (induction arbitrary: u rule: chat_run.induct)
  case run_start
  then show ?case by (simp add: chat_state_default_def)
next
  case (run_accept st ids e pl author)
  let ?st = "apply_payload C st e author pl"
  have comm: "cs_community st = None \<or> cs_community st = cs_community ?st"
    using run_accept.hyps(8) apply_payload_community [of pl C st e author]
    by (auto simp: validate_context_def split: if_splits)
  from apply_payload_members [OF run_accept.prems] consider "u \<in> cs_members st"
    | "u = author" "is_community_create pl" | invn sig where "u = author" "pl = MemberAccept invn sig"
    by blast
  then show ?case
  proof cases
    case 1
    then show ?thesis using admitted_mono [OF run_accept.IH comm] by blast
  next
    case 2
    then show ?thesis using run_accept.hyps by (auto simp: admitted_def)
  next
    case 3
    obtain key c where key: "bt_get (cs_invitations st) invn = Some key" "cs_community st = Some c"
      "verify C key (acceptance_bytes c invn author) sig = Inr ()"
      using validate_context_accept run_accept.hyps(8) 3(2) by blast
    have "invites P E (ids @ [event_id e]) invn key"
      using chat_run_invitations [OF run_accept.hyps(1) uniq] key(1) by (auto simp: invites_def)
    moreover have "cs_community ?st = Some c" using comm key(2) by simp
    ultimately show ?thesis
      unfolding admitted_def
      by (intro bexI [OF _ run_accept.hyps(2)]) (use 3 key(3) run_accept.hyps(4,5) in auto)
  qed
qed


section \<open>Resolutions are runs\<close>

text \<open>Why an event is rejected, given the accepted order and the set of rejected events.\<close>

definition refused_by ::
  "crypto \<Rightarrow> chat_payload codec \<Rightarrow> signed_event set \<Rightarrow> event_id list \<Rightarrow> signed_event \<Rightarrow> rejection_reason \<Rightarrow> bool" where
  "refused_by C P E ids e x \<longleftrightarrow>
     (\<exists>st pl author. chat_run C P E st ids \<and> set (parents (content e)) \<subseteq> set ids \<and>
        decode P e = Inr pl \<and> author_id C e = Inr author \<and>
        validate_context C st e pl author (set ids) = Inl x)"

definition reject_cause ::
  "crypto \<Rightarrow> chat_payload codec \<Rightarrow> signed_event set \<Rightarrow> event_id list \<Rightarrow> event_id set \<Rightarrow> signed_event \<Rightarrow>
     rejection_reason \<Rightarrow> bool" where
  "reject_cause C P E order rej e x \<longleftrightarrow>
     (x = InvalidPayload \<and> \<not> is_ok (decode P e)) \<or>
     (x = MissingParent \<and> (\<exists>p \<in> set (parents (content e)). p \<notin> event_id ` E)) \<or>
     (x = ParentRejected \<and> (\<exists>p \<in> set (parents (content e)). p \<in> rej)) \<or>
     (\<exists>n. refused_by C P E (take n order) e x)"

lemma reject_cause_mono:
  assumes "reject_cause C P E order rej e x" and "rej \<subseteq> rej'"
  shows "reject_cause C P E (order @ extra) rej' e x"
proof -
  have "\<exists>m. take m (order @ extra) = take n order" for n
    by (intro exI [of _ "min n (length order)"]) (simp add: min_def)
  then have "\<exists>m. refused_by C P E (take m (order @ extra)) e x" if "refused_by C P E (take n order) e x" for n
    using that by metis
  then show ?thesis using assms unfolding reject_cause_def by blast
qed

definition resolve_inv ::
  "crypto \<Rightarrow> chat_payload codec \<Rightarrow> signed_event set \<Rightarrow> resolve_state \<Rightarrow> bool" where
  "resolve_inv C P E r \<longleftrightarrow>
     (let rej = set (bt_keys (rs_rejected r)) in
      chat_run C P E (rs_state r) (rs_order r) \<and> rs_accepted r = set (rs_order r) \<and>
      bt_ok (rs_rejected r) \<and>
      event_id ` E = rs_pending r \<union> rs_accepted r \<union> rej \<and>
      rs_pending r \<inter> rs_accepted r = {} \<and> rs_pending r \<inter> rej = {} \<and> rs_accepted r \<inter> rej = {} \<and>
      (\<forall>e \<in> E. event_id e \<in> rs_pending r \<longrightarrow> is_ok (decode P e)) \<and>
      (\<forall>e \<in> E. \<forall>x. bt_get (rs_rejected r) (event_id e) = Some x \<longrightarrow>
         reject_cause C P E (rs_order r) rej e x))"

lemma scan_of_by_id: "scan_of C P E s \<Longrightarrow> bt_contains_key (sc_by_id s) i \<longleftrightarrow> i \<in> event_id ` E"
  by (auto simp: scan_of_def bt_contains_key_iff)

lemma scan_of_entry:
  assumes "scan_of C P E s" and "ids_unique E" and "e \<in> E"
  shows "bt_get (sc_by_id s) (event_id e) = Some d \<longleftrightarrow> d = e"
    and "bt_get (sc_payloads s) (event_id e) = Some pl \<longleftrightarrow> decode P e = Inr pl"
    and "bt_get (sc_authors s) (event_id e) = Some u \<longleftrightarrow> author_id C e = Inr u"
  using assms ids_uniqueD [OF assms(2) _ assms(3)] by (auto simp: scan_of_def)

lemma resolve_inv_step:
  assumes inv: "resolve_inv C P E r" and s: "scan_of C P E s" and uniq: "ids_unique E"
    and valid: "\<forall>e \<in> E. validate_event C e = Inr ()"
    and i: "i \<in> rs_pending r" and ready: "is_ready s (rs_pending r) i"
    and one: "resolve_one C s r i = Inr r'"
  shows "resolve_inv C P E r'"
proof -
  let ?rej = "set (bt_keys (rs_rejected r))"
  have "i \<in> event_id ` E" using inv i by (simp add: resolve_inv_def Let_def)
  then obtain e where e: "e \<in> E" "event_id e = i" by auto
  note entry = scan_of_entry [OF s uniq e(1), unfolded e(2)]
  have par: "p \<notin> rs_pending r" if "p \<in> set (parents (content e))" for p
    using ready that entry(1) by (auto simp: is_ready_def)
  have old: "reject_cause C P E (rs_order r @ extra) (insert i ?rej) d x"
    if "d \<in> E" "bt_get (rs_rejected r) (event_id d) = Some x" for d x extra
    using inv that reject_cause_mono [of C P E "rs_order r" ?rej d x "insert i ?rej" extra]
    by (auto simp: resolve_inv_def Let_def)
  have same: "d \<in> E \<Longrightarrow> event_id d = i \<longleftrightarrow> d = e" for d
    using ids_uniqueD [OF uniq _ e(1)] e(2) by auto
  have acc_par: "set (parents (content e)) \<subseteq> set (rs_order r)"
    if "\<forall>p \<in> set (parents (content e)). bt_contains_key (sc_by_id s) p \<and> \<not> bt_contains_key (rs_rejected r) p"
  proof
    fix p assume p: "p \<in> set (parents (content e))"
    then have "p \<in> event_id ` E" "p \<notin> ?rej"
      using that scan_of_by_id [OF s] by (auto simp: bt_contains_key_def)
    then show "p \<in> set (rs_order r)" using inv par [OF p] by (auto simp: resolve_inv_def Let_def)
  qed
  from one show ?thesis
  proof (cases rule: resolve_one_Inr)
    case (accept d pl author)
    then have d: "d = e" using entry(1) by simp
    have acc: "rs_accepted r = set (rs_order r)" using inv by (simp add: resolve_inv_def Let_def)
    have "chat_run C P E (apply_payload C (rs_state r) e author pl) (rs_order r @ [event_id e])"
      by (rule chat_run.run_accept)
        (use accept inv e i d entry valid acc_par in \<open>auto simp: resolve_inv_def Let_def\<close>)
    then show ?thesis
      using inv i e(2) accept(6) d reject_cause_mono [of C P E "rs_order r" ?rej _ _ ?rej "[i]"]
      by (auto simp: resolve_inv_def Let_def)
  next
    case (reject d reason)
    have d: "d = e" using entry(1) reject(1) by simp
    have cause: "reject_cause C P E (rs_order r) (insert i ?rej) e reason"
      using reject(3)
    proof (elim disjE exE conjE)
      fix pl author
      assume "bt_get (sc_payloads s) i = Some pl" "bt_get (sc_authors s) i = Some author"
        and "\<forall>p \<in> set (parents (content d)). bt_contains_key (sc_by_id s) p \<and> \<not> bt_contains_key (rs_rejected r) p"
        and "validate_context C (rs_state r) d pl author (rs_accepted r) = Inl reason"
      then have "refused_by C P E (take (length (rs_order r)) (rs_order r)) e reason"
        using d entry(2,3) acc_par inv by (auto simp: resolve_inv_def refused_by_def Let_def)
      then show ?thesis unfolding reject_cause_def by blast
    qed (unfold scan_of_by_id [OF s], auto simp: reject_cause_def d bt_contains_key_def)
    show ?thesis
      using inv i e(2) same old [of _ _ "[]"] cause
      by (auto simp: resolve_inv_def Let_def reject(2) bt_simps bt_ok_insert)
  qed
qed

definition resolve_start :: "chat_scan \<Rightarrow> resolve_state" where
  "resolve_start s =
     \<lparr>rs_state = chat_state_default, rs_accepted = {}, rs_order = [],
      rs_pending = set (bt_keys (sc_payloads s)), rs_rejected = sc_rejected s\<rparr>"

lemma resolve_inv_start:
  assumes s: "scan_of C P E s" and ok: "scan_ok s" and uniq: "ids_unique E"
  shows "resolve_inv C P E (resolve_start s)"
proof -
  have keys: "event_id ` E = set (bt_keys (sc_payloads s)) \<union> set (bt_keys (sc_rejected s))"
    using scan_of_by_id [OF s] ok by (auto simp: scan_ok_def bt_contains_key_def)
  have dec: "is_ok (decode P e)" if "e \<in> E" "event_id e \<in> set (bt_keys (sc_payloads s))" for e
    using that scan_of_entry(2) [OF s uniq that(1)] by (auto simp: bt_keys_iff_get)
  have rej: "x = InvalidPayload \<and> \<not> is_ok (decode P e)"
    if "e \<in> E" "bt_get (sc_rejected s) (event_id e) = Some x" for e x
    using that s ids_uniqueD [OF uniq _ that(1)] by (auto simp: scan_of_def)
  have "set (bt_keys (sc_payloads s)) \<inter> set (bt_keys (sc_rejected s)) = {}"
  proof (rule ccontr)
    assume "set (bt_keys (sc_payloads s)) \<inter> set (bt_keys (sc_rejected s)) \<noteq> {}"
    then obtain i where i: "i \<in> set (bt_keys (sc_payloads s))" "i \<in> set (bt_keys (sc_rejected s))"
      by blast
    then have "i \<in> event_id ` E" using keys by simp
    then obtain e where "e \<in> E" "event_id e = i" by auto
    then show False using i dec [of e] rej [of e] by (auto simp: bt_keys_iff_get)
  qed
  moreover have "bt_ok (sc_rejected s)" using ok by (simp add: scan_ok_def)
  moreover have "reject_cause C P E [] (set (bt_keys (sc_rejected s))) e x"
    if "e \<in> E" "bt_get (sc_rejected s) (event_id e) = Some x" for e x
    using rej [OF that] by (simp add: reject_cause_def)
  ultimately show ?thesis
    using keys dec chat_run.run_start [of C P E] by (simp add: resolve_inv_def resolve_start_def Let_def)
qed

lemma fold_reject_get:
  "bt_get (fold (\<lambda>i m. bt_insert i x m) ids m) i = (if i \<in> set ids then Some x else bt_get m i)"
  by (induction ids arbitrary: m) (auto simp: bt_simps)

lemma fold_reject_ok: "bt_ok m \<Longrightarrow> bt_ok (fold (\<lambda>i m. bt_insert i x m) ids m)"
  by (induction ids arbitrary: m) (auto simp: bt_ok_insert)

lemma resolve_unfold:
  "resolve C P events =
     res_bind (scan_events C P events) (\<lambda>s.
     res_bind (resolve_loop C s (resolve_start s)) (\<lambda>r.
     Inr \<lparr>accepted_in_order = rs_order r,
          rejected = fold (\<lambda>i m. bt_insert i MissingParent m) (sorted_list_of_set (rs_pending r)) (rs_rejected r),
          snapshot = snapshot_of (rs_state r) (rs_accepted r)\<rparr>))"
  by (simp add: resolve_def resolve_start_def)

lemma resolve_loop_total:
  assumes "scan_ok s"
  shows "\<exists>r. resolve_loop C s (resolve_start s) = Inr r"
  using resolve_loop_rule [OF assms, where I = "\<lambda>_. True" and r = "resolve_start s" and C = C]
  by (auto simp: resolve_start_def)

text \<open>\<open>resolve\<close> succeeds exactly on lists of valid events; in particular it never panics.\<close>

lemma resolve_succeeds:
  "(\<exists>R. resolve C P events = Inr R) \<longleftrightarrow> (\<forall>e \<in> set events. validate_event C e = Inr ())"
proof
  assume "\<exists>R. resolve C P events = Inr R"
  then obtain s where "scan_events C P events = Inr s" by (auto simp: resolve_unfold res_bind_Inr_iff)
  then show "\<forall>e \<in> set events. validate_event C e = Inr ()" by (rule scan_events_valid)
next
  assume "\<forall>e \<in> set events. validate_event C e = Inr ()"
  then obtain s where s: "scan_events C P events = Inr s" using scan_events_total by blast
  then show "\<exists>R. resolve C P events = Inr R"
    using resolve_loop_total [OF scan_events_ok [OF s], of C] by (auto simp: resolve_unfold)
qed

text \<open>The events that wait for each other in a cycle; there are none when parents are acyclic.\<close>

definition stuck_set :: "signed_event set \<Rightarrow> event_id set \<Rightarrow> bool" where
  "stuck_set E S \<longleftrightarrow> (\<forall>e \<in> E. event_id e \<in> S \<longrightarrow> (\<exists>p \<in> set (parents (content e)). p \<in> S))"

lemma stuck_set_empty:
  assumes "stuck_set E S" and "S \<subseteq> event_id ` E" and "wf (parent_relation E)"
  shows "S = {}"
proof (rule ccontr)
  assume "S \<noteq> {}"
  then obtain i where i: "i \<in> S"
    and min: "\<forall>e \<in> E. event_id e = i \<longrightarrow> (\<forall>q \<in> set (parents (content e)). q \<notin> S)"
    using parent_minimal [OF assms(3)] by blast
  have "i \<in> event_id ` E" using i assms(2) by blast
  then obtain e where "e \<in> E" "event_id e = i" by auto
  then show False using assms(1) i min unfolding stuck_set_def by blast
qed

text \<open>The facts every property of \<open>resolve\<close> rests on.\<close>

lemma resolve_sound:
  assumes res: "resolve C P events = Inr R" and uniq: "ids_unique (set events)"
  obtains st stuck where "chat_run C P (set events) st (accepted_in_order R)"
    and "snapshot R = snapshot_of st (set (accepted_in_order R))"
    and "bt_ok (rejected R)"
    and "set (accepted_in_order R) \<union> set (bt_keys (rejected R)) = event_id ` set events"
    and "set (accepted_in_order R) \<inter> set (bt_keys (rejected R)) = {}"
    and "stuck_set (set events) stuck" and "stuck \<subseteq> event_id ` set events"
    and "\<forall>e \<in> set events. \<forall>x. bt_get (rejected R) (event_id e) = Some x \<longrightarrow>
      (if event_id e \<in> stuck then x = MissingParent
       else reject_cause C P (set events) (accepted_in_order R) (set (bt_keys (rejected R))) e x)"
proof -
  let ?E = "set events"
  obtain s r where s: "scan_events C P events = Inr s" and r: "resolve_loop C s (resolve_start s) = Inr r"
    and R: "R = \<lparr>accepted_in_order = rs_order r,
          rejected = fold (\<lambda>i m. bt_insert i MissingParent m) (sorted_list_of_set (rs_pending r)) (rs_rejected r),
          snapshot = snapshot_of (rs_state r) (rs_accepted r)\<rparr>"
    using res by (auto simp: resolve_unfold res_bind_Inr_iff)
  have ok: "scan_ok s" and of: "scan_of C P ?E s" and valid: "\<forall>e \<in> ?E. validate_event C e = Inr ()"
    using scan_events_ok [OF s] scan_events_of [OF s uniq] scan_events_valid [OF s] by auto
  have "\<exists>r'. resolve_loop C s (resolve_start s) = Inr r' \<and> resolve_inv C P ?E r' \<and>
      rs_pending r' \<subseteq> rs_pending (resolve_start s) \<and> (\<forall>i \<in> rs_pending r'. \<not> is_ready s (rs_pending r') i)"
    by (rule resolve_loop_rule [OF ok, where I = "resolve_inv C P ?E"])
      (use resolve_inv_start [OF of ok uniq] in
        \<open>auto intro: resolve_inv_step [OF _ of uniq valid] simp: resolve_start_def\<close>)
  then have inv: "resolve_inv C P ?E r" and fin: "finite (rs_pending r)"
    and unready: "\<forall>i \<in> rs_pending r. \<not> is_ready s (rs_pending r) i"
    using r by (auto simp: resolve_start_def intro: finite_subset)
  have get: "bt_get (rejected R) i = (if i \<in> rs_pending r then Some MissingParent else bt_get (rs_rejected r) i)" for i
    using fin by (simp add: R fold_reject_get)
  then have keys: "set (bt_keys (rejected R)) = rs_pending r \<union> set (bt_keys (rs_rejected r))"
    by (auto simp: bt_keys_iff_get split: if_splits)
  have "stuck_set ?E (rs_pending r)"
    using unready scan_of_entry(1) [OF of uniq] unfolding stuck_set_def is_ready_def by blast
  moreover have "reject_cause C P ?E (rs_order r) (set (bt_keys (rejected R))) e x"
    if "e \<in> ?E" "bt_get (rs_rejected r) (event_id e) = Some x" for e x
    using inv that reject_cause_mono [of C P ?E "rs_order r" "set (bt_keys (rs_rejected r))" e x _ "[]"]
    by (auto simp: resolve_inv_def Let_def keys)
  ultimately show thesis
    using inv by (intro that [of "rs_state r" "rs_pending r"])
      (auto simp: get keys, auto simp: resolve_inv_def Let_def R fold_reject_ok)
qed

text \<open>Two lists with the same events resolve to the same result.\<close>

lemma resolve_same_set:
  assumes "set xs = set ys" and uniq: "ids_unique (set xs)"
    and "\<forall>e \<in> set xs. validate_event C e = Inr ()"
  shows "resolve C P xs = resolve C P ys"
proof -
  obtain s t where s: "scan_events C P xs = Inr s" and t: "scan_events C P ys = Inr t"
    using scan_events_total [of xs C P] scan_events_total [of ys C P] assms(1,3) by auto
  have "s = t"
    using scan_of_unique [OF scan_events_of [OF s uniq] scan_events_ok [OF s]] scan_events_of [OF t]
      scan_events_ok [OF t] assms(1) uniq by simp
  then show ?thesis by (simp add: resolve_def s t)
qed

end
