(* ===== verification/Chat_Properties.thy ===== *)
theory Chat_Properties
  imports Chat_Run Demo
begin

text \<open>
  The properties of the chat profile: what \<open>resolve\<close> makes of a set of signed events, and what an
  invitation guarantees.
\<close>

section \<open>Resolution\<close>

text \<open>C6: \<open>resolve\<close> returns a resolution exactly when every event validates; it never panics on a
  missing map key and its ready-loop always ends.\<close>

theorem resolve_total:
  "(\<exists>R. resolve C P events = Inr R) \<longleftrightarrow> (\<forall>e \<in> set events. validate_event C e = Inr ())"
  by (rule resolve_succeeds)

theorem resolve_total_witness:
  "\<exists>R. resolve demo_crypto demo_payloads demo_events = Inr R"
  using resolve_total [of demo_crypto demo_payloads demo_events] demo_events_valid by blast

text \<open>C7: replicas converge: the resolution depends only on the set of events, not on the order in
  which they arrived or on repetitions.\<close>

theorem resolve_convergent:
  assumes "set xs = set ys" and "collision_free C (set xs)"
    and "\<forall>e \<in> set xs. validate_event C e = Inr ()"
  shows "resolve C P xs = resolve C P ys"
  by (rule resolve_same_set [OF assms(1) collision_free_ids_unique [OF assms(2,3)] assms(3)])

lemma demo_collision_free: "collision_free demo_crypto (set demo_events)"
  using valid_event_id [OF demo_valid(1)] valid_event_id [OF demo_valid(2)] valid_event_id [OF demo_valid(3)]
  by (auto simp: collision_free_def demo_events_def)

theorem resolve_convergent_witness:
  "resolve demo_crypto demo_payloads demo_shuffled = Inr demo_resolution"
proof -
  have "set demo_events = set demo_shuffled" by (auto simp: demo_events_def demo_shuffled_def)
  then show ?thesis
    using resolve_convergent [OF _ demo_collision_free demo_events_valid, of demo_shuffled demo_payloads]
      demo_resolve by simp
qed

text \<open>Every event is decided once: the accepted events, without repetition, and the rejected
  events partition the given ones, and the snapshot lists the accepted ones.\<close>

theorem resolve_partition:
  assumes "resolve C P events = Inr R" and "ids_unique (set events)"
  shows "distinct (accepted_in_order R) \<and> bt_ok (rejected R) \<and>
    set (accepted_in_order R) \<union> set (bt_keys (rejected R)) = event_id ` set events \<and>
    set (accepted_in_order R) \<inter> set (bt_keys (rejected R)) = {} \<and>
    snap_event_ids (snapshot R) = set (accepted_in_order R)"
  by (rule resolve_sound [OF assms]) (auto simp: snapshot_of_def dest: chat_run_distinct)

theorem resolve_partition_witness:
  "distinct (accepted_in_order demo_resolution) \<and>
   set (accepted_in_order demo_resolution) \<union> set (bt_keys (rejected demo_resolution)) =
     {EventId 248, EventId 185, EventId 247}"
  using resolve_partition [OF demo_resolve demo_ids_unique] by (auto simp: demo_events_def)

text \<open>C8: a resolution implements the specification of a community: its accepted order is a run in
  which each event is authorised by the state its predecessors lead to, and the snapshot is the state at
  the end of the run.\<close>

theorem resolve_refines_run:
  assumes "resolve C P events = Inr R" and "ids_unique (set events)"
  shows "\<exists>st. chat_run C P (set events) st (accepted_in_order R) \<and>
    snapshot R = snapshot_of st (set (accepted_in_order R))"
  by (rule resolve_sound [OF assms]) blast

theorem resolve_refines_run_witness:
  "\<exists>st. chat_run demo_crypto demo_payloads (set demo_events) st [EventId 185, EventId 247, EventId 248] \<and>
     cs_members st = {UserId 2, UserId 1}"
  using resolve_refines_run [OF demo_resolve demo_ids_unique]
  by (auto simp: demo_resolution_def snapshot_of_def)

text \<open>C9: governance: a resolved community has an owner exactly when it is founded, the owner is an
  administrator and every administrator is a member.\<close>

theorem resolve_governed:
  assumes "resolve C P events = Inr R" and "ids_unique (set events)"
  shows "(snap_community (snapshot R) = None \<longleftrightarrow> snap_owner (snapshot R) = None) \<and>
    (\<forall>u. snap_owner (snapshot R) = Some u \<longrightarrow> u \<in> snap_administrators (snapshot R)) \<and>
    snap_administrators (snapshot R) \<subseteq> snap_members (snapshot R)"
proof (rule resolve_sound [OF assms])
  fix st assume run: "chat_run C P (set events) st (accepted_in_order R)"
    and snap: "snapshot R = snapshot_of st (set (accepted_in_order R))"
  have "governed st" using chat_run_invariant [OF run] by simp
  then show ?thesis by (simp add: snap snapshot_of_def governed_def)
qed

theorem resolve_governed_witness:
  "UserId 1 \<in> snap_administrators (snapshot demo_resolution) \<and>
   snap_administrators (snapshot demo_resolution) \<subseteq> snap_members (snapshot demo_resolution)"
  using resolve_governed [OF demo_resolve demo_ids_unique] by (simp add: demo_resolution_def)

text \<open>Causal order: every parent of an accepted event is accepted before it.\<close>

theorem resolve_causal_order:
  assumes "resolve C P events = Inr R" and "ids_unique (set events)"
    and "accepted_in_order R = before @ i # rest" and "e \<in> set events" and "event_id e = i"
  shows "set (parents (content e)) \<subseteq> set before"
proof (rule resolve_sound [OF assms(1,2)])
  fix st assume run: "chat_run C P (set events) st (accepted_in_order R)"
  obtain d where "d \<in> set events" "event_id d = i" "set (parents (content d)) \<subseteq> set before"
    by (rule chat_run_step [OF run [unfolded assms(3)]])
  then show ?thesis using ids_uniqueD [OF assms(2) _ assms(4)] assms(5) by auto
qed

theorem resolve_causal_order_witness:
  "set (parents (content demo_accept)) \<subseteq> set [EventId 185, EventId 247]"
  by (rule resolve_causal_order [OF demo_resolve demo_ids_unique, of _ "EventId 248" "[]"])
    (simp_all add: demo_resolution_def demo_events_def)

text \<open>Foundation: the first accepted event is a core genesis event that creates the community; it
  names the community, every other accepted event carries that community, and none of them is a second
  creation.\<close>

theorem resolve_founded:
  assumes "resolve C P events = Inr R" and "ids_unique (set events)" and "accepted_in_order R \<noteq> []"
  shows "\<exists>g name rest. accepted_in_order R = event_id g # rest \<and> g \<in> set events \<and>
    community_id (content g) = None \<and> decode P g = Inr (CommunityCreate PROFILE_ID name) \<and>
    snap_community (snapshot R) = Some (community_from_event (event_id g)) \<and>
    (\<forall>i \<in> set rest. \<exists>e \<in> set events. \<exists>pl. event_id e = i \<and> decode P e = Inr pl \<and>
       \<not> is_community_create pl \<and> community_id (content e) = Some (community_from_event (event_id g)))"
proof (rule resolve_sound [OF assms(1,2)])
  fix st assume run: "chat_run C P (set events) st (accepted_in_order R)"
    and snap: "snapshot R = snapshot_of st (set (accepted_in_order R))"
  then show ?thesis using chat_run_founded [OF run] assms(3) by (simp add: founded_def snapshot_of_def)
qed

theorem resolve_founded_witness:
  "\<exists>g. g \<in> set demo_events \<and> event_id g = EventId 185 \<and> community_id (content g) = None"
  using resolve_founded [OF demo_resolve demo_ids_unique] by (auto simp: demo_resolution_def)

text \<open>C10: an invitation admits at most one member: two accepted acceptances of the same invitation are
  the same event, and an invitation that was accepted is no longer listed as active.\<close>

theorem resolve_single_use:
  assumes "resolve C P events = Inr R" and "ids_unique (set events)"
    and "a \<in> set events" and "event_id a \<in> set (accepted_in_order R)"
    and "decode P a = Inr (MemberAccept i sig)"
  shows "(\<forall>b sig'. b \<in> set events \<longrightarrow> event_id b \<in> set (accepted_in_order R) \<longrightarrow>
      decode P b = Inr (MemberAccept i sig') \<longrightarrow> b = a) \<and>
    bt_get (snap_active_invitations (snapshot R)) i = None"
proof (rule resolve_sound [OF assms(1,2)])
  fix st assume run: "chat_run C P (set events) st (accepted_in_order R)"
    and snap: "snapshot R = snapshot_of st (set (accepted_in_order R))"
  have a: "accepts P (set events) (accepted_in_order R) i a" using assms(3-5) by (auto simp: accepts_def)
  note single = chat_run_single_use [OF run assms(2), of i]
  have "i \<in> cs_accepted_invitations st" using single a by blast
  then have "bt_get (active_invitations st) i = None"
    by (auto simp: bt_get_None_iff active_invitations_def bt_keys_of_list set_map_filter)
  moreover have "b = a" if "b \<in> set events" "event_id b \<in> set (accepted_in_order R)"
    "decode P b = Inr (MemberAccept i sig')" for b sig'
    using single a that by (auto simp: accepts_def)
  ultimately show ?thesis by (simp add: snap snapshot_of_def)
qed

theorem resolve_single_use_witness:
  "bt_get (snap_active_invitations (snapshot demo_resolution)) (EventId 247) = None"
  using resolve_single_use [OF demo_resolve demo_ids_unique _ _ demo_decode(3)]
  by (simp add: demo_resolution_def demo_events_def)

text \<open>C11: provenance of membership: every member created the community or is the author of an accepted
  acceptance whose capability signature verifies, for that member and this community, under the key of an
  accepted invitation.\<close>

theorem resolve_membership:
  assumes "resolve C P events = Inr R" and "ids_unique (set events)"
    and "u \<in> snap_members (snapshot R)"
  shows "admitted C P (set events) (accepted_in_order R) (snap_community (snapshot R)) u"
proof (rule resolve_sound [OF assms(1,2)])
  fix st assume run: "chat_run C P (set events) st (accepted_in_order R)"
    and snap: "snapshot R = snapshot_of st (set (accepted_in_order R))"
  show ?thesis
    using chat_run_admitted [OF run assms(2)] assms(3) by (simp add: snap snapshot_of_def)
qed

theorem resolve_membership_witness:
  "admitted demo_crypto demo_payloads (set demo_events) [EventId 185, EventId 247, EventId 248]
     (Some demo_community) (UserId 2)"
  using resolve_membership [OF demo_resolve demo_ids_unique, of "UserId 2"] by (simp add: demo_resolution_def)

text \<open>What each reason means, in terms of the state and not of the code: the rows are exhaustive and exclude
  each other (\<open>refusal_exact\<close>).\<close>

fun needs_administrator :: "chat_payload \<Rightarrow> bool" where
  "needs_administrator (ChannelCreate _ _) = True"
| "needs_administrator (MemberInvite _) = True"
| "needs_administrator (MemberRemove _) = True"
| "needs_administrator _ = False"

fun needs_owner :: "chat_payload \<Rightarrow> bool" where
  "needs_owner (AdministratorGrant _) = True"
| "needs_owner (AdministratorRevoke _) = True"
| "needs_owner (OwnershipTransfer _) = True"
| "needs_owner (HomeServerSet _ _) = True"
| "needs_owner _ = False"

definition endpoint_ok :: "string \<Rightarrow> bool" where
  "endpoint_ok s \<longleftrightarrow> s \<noteq> [] \<and> length s \<le> MAX_HOME_SERVER_ENDPOINT_BYTES \<and>
     (\<forall>c \<in> set s. 33 \<le> (of_char c :: nat) \<and> (of_char c :: nat) \<le> 126)"

definition home_server_ok :: "bytes \<Rightarrow> string list \<Rightarrow> bool" where
  "home_server_ok key eps \<longleftrightarrow> length key = PUBLIC_KEY_LEN \<and> eps \<noteq> [] \<and>
     length eps \<le> MAX_HOME_SERVER_ENDPOINTS \<and> distinct eps \<and> (\<forall>s \<in> set eps. endpoint_ok s)"

definition invitation_open :: "chat_state \<Rightarrow> event_id \<Rightarrow> bytes \<Rightarrow> bool" where
  "invitation_open st i sig \<longleftrightarrow>
     bt_contains_key (cs_invitations st) i \<and> i \<notin> cs_accepted_invitations st \<and> length sig = SIGNATURE_LEN"

definition other_community :: "chat_state \<Rightarrow> signed_event \<Rightarrow> chat_payload \<Rightarrow> bool" where
  "other_community st e pl \<longleftrightarrow>
     (if \<exists>name nonce. pl = CommunityCreate name nonce then cs_community st \<noteq> None
      else community_id (content e) \<noteq> cs_community st)"

fun reason_named ::
  "crypto \<Rightarrow> chat_state \<Rightarrow> signed_event \<Rightarrow> user_id \<Rightarrow> chat_payload \<Rightarrow> rejection_reason \<Rightarrow> bool" where
  "reason_named C st e u pl NotMember = (\<exists>ch t. pl = MessageCreate ch t \<and> u \<notin> cs_members st)"
| "reason_named C st e u pl UnknownChannel =
     (\<exists>ch t. pl = MessageCreate ch t \<and> u \<in> cs_members st \<and> ch \<notin> cs_channels st)"
| "reason_named C st e u pl NotAdministrator =
     (needs_administrator pl \<and> u \<notin> cs_administrators st \<or>
      (\<exists>m. pl = AdministratorRevoke m \<and> cs_owner st = Some u \<and> m \<noteq> u \<and> m \<notin> cs_administrators st))"
| "reason_named C st e u pl NotOwner = (needs_owner pl \<and> cs_owner st \<noteq> Some u)"
| "reason_named C st e u pl MemberNotActive =
     (\<exists>m. m \<notin> cs_members st \<and>
        (pl = MemberRemove m \<and> u \<in> cs_administrators st \<and> cs_owner st \<noteq> Some m \<or>
         (pl = AdministratorGrant m \<or> pl = OwnershipTransfer m) \<and> cs_owner st = Some u))"
| "reason_named C st e u pl AlreadyAdministrator =
     (\<exists>m. pl = AdministratorGrant m \<and> cs_owner st = Some u \<and> m \<in> cs_members st \<and> m \<in> cs_administrators st)"
| "reason_named C st e u pl CannotRemoveOwner =
     (\<exists>m. cs_owner st = Some m \<and>
        (pl = MemberRemove m \<and> u \<in> cs_administrators st \<or> pl = AdministratorRevoke m \<and> u = m))"
| "reason_named C st e u pl InvalidInvitation =
     ((\<exists>key. pl = MemberInvite key \<and> u \<in> cs_administrators st \<and> length key \<noteq> PUBLIC_KEY_LEN) \<or>
      (\<exists>i sig. pl = MemberAccept i sig \<and>
         (\<not> invitation_open st i sig \<or>
          (\<exists>key c. bt_get (cs_invitations st) i = Some key \<and> community_id (content e) = Some c \<and>
             verify C key (acceptance_bytes c i u) sig \<noteq> Inr ()))))"
| "reason_named C st e u pl WrongCommunity =
     (\<exists>i sig. pl = MemberAccept i sig \<and> invitation_open st i sig \<and> community_id (content e) = None)"
| "reason_named C st e u pl InvalidHomeServer =
     (\<exists>key eps. pl = HomeServerSet key eps \<and> cs_owner st = Some u \<and> \<not> home_server_ok key eps)"
| "reason_named C st e u pl _ = False"

definition refusal ::
  "crypto \<Rightarrow> chat_state \<Rightarrow> signed_event \<Rightarrow> user_id \<Rightarrow> chat_payload \<Rightarrow> rejection_reason \<Rightarrow> bool" where
  "refusal C st e u pl x \<longleftrightarrow>
     (if other_community st e pl then x = WrongCommunity else reason_named C st e u pl x)"

lemma endpoint_ok_iff:
  "endpoint_ok s \<longleftrightarrow> \<not> (s = [] \<or> length s > MAX_HOME_SERVER_ENDPOINT_BYTES \<or> \<not> list_all is_ascii s \<or>
     list_ex (\<lambda>c. is_ascii_whitespace c \<or> is_ascii_control c) s)"
proof -
  have "(33 \<le> n \<and> n \<le> 126) \<longleftrightarrow> n < 128 \<and> \<not> (n \<in> {9, 10, 12, 13, 32} \<or> n < 32 \<or> n = 127)" for n :: nat
    by auto
  then have "(33 \<le> (of_char c :: nat) \<and> (of_char c :: nat) \<le> 126) \<longleftrightarrow>
      is_ascii c \<and> \<not> (is_ascii_whitespace c \<or> is_ascii_control c)" for c
    by (simp only: is_ascii_def is_ascii_whitespace_def is_ascii_control_def)
  then show ?thesis by (auto simp: endpoint_ok_def list_all_iff list_ex_iff)
qed

lemma validate_endpoints_exact:
  "validate_endpoints seen eps =
     (if (\<forall>s \<in> set eps. endpoint_ok s \<and> s \<notin> seen) \<and> distinct eps then Inr () else Inl InvalidHomeServer)"
  by (induction eps arbitrary: seen) (auto simp: endpoint_ok_iff)

lemma validate_home_server_exact:
  "validate_home_server key eps = (if home_server_ok key eps then Inr () else Inl InvalidHomeServer)"
  by (auto simp: validate_home_server_def home_server_ok_def validate_endpoints_exact)

lemma validate_payload_exact:
  assumes "\<not> other_community st e pl" and "\<forall>name nonce. pl \<noteq> CommunityCreate name nonce"
  shows "validate_payload C st e u pl = Inl x \<longleftrightarrow> reason_named C st e u pl x"
proof (cases pl)
  case (MemberAccept i sig)
  then show ?thesis
    by (cases x; cases "bt_get (cs_invitations st) i"; cases "community_id (content e)";
        cases "verify C (the (bt_get (cs_invitations st) i)) (acceptance_bytes (the (community_id (content e))) i u) sig")
      (auto simp: invitation_open_def bt_contains_key_iff)
next
  case (HomeServerSet key eps)
  then show ?thesis by (cases x) (auto simp: require_owner_def validate_home_server_exact)
qed (use assms(2) in \<open>cases x; auto simp: require_owner_def require_admin_def\<close>)+

text \<open>The code refuses an event whose parents are accepted for exactly the reason that the table names.\<close>

lemma refusal_exact:
  assumes "set (parents (content e)) \<subseteq> acc"
  shows "validate_context C st e pl u acc = Inl x \<longleftrightarrow> refusal C st e u pl x"
proof (cases "\<exists>name nonce. pl = CommunityCreate name nonce")
  case True
  then show ?thesis
    by (cases x) (auto simp: validate_context_def is_community_create_def refusal_def other_community_def)
next
  case False
  then have "\<not> is_community_create pl" by (cases pl) (auto simp: is_community_create_def)
  then show ?thesis
    using assms False validate_payload_exact [of st e pl C u x]
    by (auto simp: validate_context_def refusal_def other_community_def)
qed

definition rejection_explained ::
  "crypto \<Rightarrow> chat_payload codec \<Rightarrow> signed_event set \<Rightarrow> event_id list \<Rightarrow> event_id set \<Rightarrow> signed_event \<Rightarrow>
     rejection_reason \<Rightarrow> bool" where
  "rejection_explained C P E order rej e x \<longleftrightarrow>
     (x = InvalidPayload \<and> \<not> is_ok (decode P e)) \<or>
     (x = MissingParent \<and> (\<exists>p \<in> set (parents (content e)). p \<notin> event_id ` E)) \<or>
     (x = ParentRejected \<and> (\<exists>p \<in> set (parents (content e)). p \<in> rej)) \<or>
     (\<exists>n st pl u. chat_run C P E st (take n order) \<and> set (parents (content e)) \<subseteq> set (take n order) \<and>
        decode P e = Inr pl \<and> author_id C e = Inr u \<and> {y. refusal C st e u pl y} = {x})"

lemma reject_cause_explained:
  assumes "reject_cause C P E order rej e x"
  shows "rejection_explained C P E order rej e x"
proof -
  have "\<exists>st pl u. chat_run C P E st (take n order) \<and> set (parents (content e)) \<subseteq> set (take n order) \<and>
      decode P e = Inr pl \<and> author_id C e = Inr u \<and> {y. refusal C st e u pl y} = {x}"
    if refused: "refused_by C P E (take n order) e x" for n
  proof -
    obtain st pl u where *: "chat_run C P E st (take n order)" "set (parents (content e)) \<subseteq> set (take n order)"
      "decode P e = Inr pl" "author_id C e = Inr u" "validate_context C st e pl u (set (take n order)) = Inl x"
      using refused unfolding refused_by_def by blast
    then have "{y. refusal C st e u pl y} = {x}" using *(5) by (auto simp flip: refusal_exact [OF *(2)])
    then show ?thesis using * by blast
  qed
  then show ?thesis using assms unfolding reject_cause_def rejection_explained_def by blast
qed

text \<open>C12: rejections are justified: when parents do not run in a circle, an event is rejected only
  because its payload does not decode, a parent is absent, a parent is rejected, or because in the state
  reached by a prefix of the accepted order, which holds all its parents, the condition that the recorded
  reason names holds, and that of no other reason.\<close>

theorem resolve_rejection_justified:
  assumes "resolve C P events = Inr R" and "ids_unique (set events)" and "wf (parent_relation (set events))"
    and "e \<in> set events" and "bt_get (rejected R) (event_id e) = Some x"
  shows "rejection_explained C P (set events) (accepted_in_order R) (set (bt_keys (rejected R))) e x"
proof (rule resolve_sound [OF assms(1,2)])
  fix stuck assume "stuck_set (set events) stuck" "stuck \<subseteq> event_id ` set events"
    and cause: "\<forall>e \<in> set events. \<forall>x. bt_get (rejected R) (event_id e) = Some x \<longrightarrow>
      (if event_id e \<in> stuck then x = MissingParent
       else reject_cause C P (set events) (accepted_in_order R) (set (bt_keys (rejected R))) e x)"
  then have "stuck = {}" using stuck_set_empty assms(3) by blast
  then show ?thesis using cause assms(4,5) by (intro reject_cause_explained) simp
qed

text \<open>The witness is an invitation by someone who is not an administrator.\<close>

definition intruder_invite :: signed_event where
  "intruder_invite = demo_event guest_identity (EventId 185) ''chat.member.invite'' [1, 2]"

lemma intruder_simps [simp]:
  "event_id intruder_invite = EventId 247" "parents (content intruder_invite) = [EventId 185]"
  "community_id (content intruder_invite) = Some demo_community"
  "author_id demo_crypto intruder_invite = Inr (UserId 2)"
  "decode demo_payloads intruder_invite = Inr (invitation_payload demo_crypto demo_capability)"
  by (simp_all add: intruder_invite_def demo_event_def demo_event_id create_signed_author demo_users decode_Inr_iff
      demo_payloads_def table_codec_def invitation_payload_def)

lemma intruder_valid [simp]: "validate_event demo_crypto intruder_invite = Inr ()"
  unfolding intruder_invite_def demo_event_def
  by (rule create_signed_valid [OF demo_crypto_correct];
      simp add: MAX_EVENT_TYPE_BYTES_def MAX_PAYLOAD_BYTES_def MAX_PARENTS_def)+

lemma intruder_resolve:
  "\<exists>R. resolve demo_crypto demo_payloads [demo_genesis, intruder_invite] = Inr R \<and>
     accepted_in_order R = [EventId 185] \<and> rejected R = [(EventId 247, NotAdministrator)]"
  by (simp add: resolve_def scan_events_def scan_one_def scan_empty_def bt_or_insert_def less_event_id_def
      resolve_loop.simps resolve_ready_def index_def bt_get_def resolve_one_def Let_def bt_contains_key_def
      validate_context_def is_community_create_def invitation_payload_def require_admin_def chat_state_default_def
      less_eq_event_id_def bt_keys_def bt_of_list_def insert_Diff_if)

theorem resolve_rejection_justified_witness:
  "rejection_explained demo_crypto demo_payloads {demo_genesis, intruder_invite} [EventId 185] {EventId 247}
     intruder_invite NotAdministrator"
proof -
  obtain R where R: "resolve demo_crypto demo_payloads [demo_genesis, intruder_invite] = Inr R"
    "accepted_in_order R = [EventId 185]" "rejected R = [(EventId 247, NotAdministrator)]"
    using intruder_resolve by blast
  have "parent_relation (set [demo_genesis, intruder_invite]) = {(EventId 185, EventId 247)}"
    by (auto simp: parent_relation_def intro!: exI [of _ intruder_invite])
  then have "wf (parent_relation (set [demo_genesis, intruder_invite]))" by (simp add: wf_insert)
  moreover have "ids_unique (set [demo_genesis, intruder_invite])"
    by (auto simp: ids_unique_def)
  ultimately show ?thesis
    using resolve_rejection_justified [OF R(1), of intruder_invite NotAdministrator] R(2,3)
    by (simp add: bt_get_def bt_keys_def)
qed

text \<open>Who may do what: the rights the design gives each role.\<close>

fun authorised :: "chat_state \<Rightarrow> user_id \<Rightarrow> chat_payload \<Rightarrow> bool" where
  "authorised st u (CommunityCreate _ _) = (cs_community st = None)"
| "authorised st u (ChannelCreate _ _) = (u \<in> cs_administrators st)"
| "authorised st u (MemberInvite _) = (u \<in> cs_administrators st)"
| "authorised st u (MemberAccept i _) =
     (bt_contains_key (cs_invitations st) i \<and> i \<notin> cs_accepted_invitations st)"
| "authorised st u (MemberRemove m) =
     (u \<in> cs_administrators st \<and> m \<in> cs_members st \<and> cs_owner st \<noteq> Some m)"
| "authorised st u (MessageCreate ch _) = (u \<in> cs_members st \<and> ch \<in> cs_channels st)"
| "authorised st u (AdministratorGrant m) = (cs_owner st = Some u \<and> m \<in> cs_members st)"
| "authorised st u (AdministratorRevoke m) =
     (cs_owner st = Some u \<and> m \<in> cs_administrators st \<and> m \<noteq> u)"
| "authorised st u (OwnershipTransfer m) = (cs_owner st = Some u \<and> m \<in> cs_members st)"
| "authorised st u (HomeServerSet _ _) = (cs_owner st = Some u)"

lemma validate_context_authorised:
  "validate_context C st e pl u acc = Inr () \<Longrightarrow> authorised st u pl"
  by (cases pl) (auto simp: validate_context_def is_community_create_def res_simps bt_contains_key_iff
      split: if_splits)

text \<open>C13: authority: at the moment an event is accepted, the state reached by the events before it
  gives its author the right to do what its payload does.\<close>

theorem resolve_authorised:
  assumes "resolve C P events = Inr R" and "ids_unique (set events)"
    and "accepted_in_order R = before @ i # rest"
  shows "\<exists>st e pl u. chat_run C P (set events) st before \<and> e \<in> set events \<and> event_id e = i \<and>
    decode P e = Inr pl \<and> author_id C e = Inr u \<and> authorised st u pl"
proof (rule resolve_sound [OF assms(1,2)])
  fix st assume run: "chat_run C P (set events) st (accepted_in_order R)"
  show ?thesis
    by (rule chat_run_step [OF run [unfolded assms(3)]]) (use validate_context_authorised in blast)
qed

theorem resolve_authorised_witness:
  "\<exists>st. chat_run demo_crypto demo_payloads (set demo_events) st [EventId 185] \<and> UserId 1 \<in> cs_administrators st"
proof -
  obtain st e pl u where *: "chat_run demo_crypto demo_payloads (set demo_events) st [EventId 185]"
    "e \<in> set demo_events" "event_id e = EventId 247" "decode demo_payloads e = Inr pl"
    "author_id demo_crypto e = Inr u" "authorised st u pl"
    using resolve_authorised [OF demo_resolve demo_ids_unique, of "[EventId 185]" "EventId 247" "[EventId 248]"]
    by (auto simp: demo_resolution_def)
  then have "e = demo_invite" by (auto simp: demo_events_def)
  then show ?thesis using * by (auto simp: invitation_payload_def)
qed

text \<open>Within a round of concurrent events the code decides community creation first, then
  removals and revocations, then everything else, and equal priorities in identifier order; the round
  takes exactly the pending events none of whose parents is pending.\<close>

theorem resolve_round_order:
  assumes "scan_events C P events = Inr s" and "pending \<subseteq> set (bt_keys (sc_payloads s))"
  shows "\<exists>ready. resolve_ready s pending = Inr ready \<and> distinct ready \<and>
    set ready = {i \<in> pending. is_ready s pending i} \<and>
    sorted (map (\<lambda>i. (priority (the (bt_get (sc_payloads s) i)), i)) ready)"
proof -
  have ok: "scan_ok s" by (rule scan_events_ok [OF assms(1)])
  have fin: "finite pending" using assms(2) by (rule finite_subset) simp
  have keys: "\<forall>k \<in> set (ready_keys s pending). k = (priority (the (bt_get (sc_payloads s) (snd k))), snd k)"
    by (auto simp: ready_keys_def)
  then have "map ((\<lambda>i. (priority (the (bt_get (sc_payloads s) i)), i)) \<circ> snd) (ready_keys s pending) = ready_keys s pending"
    by (intro map_idI) simp
  moreover have "sorted (ready_keys s pending)" by (simp add: ready_keys_def)
  ultimately show ?thesis
    using resolve_ready_eq [OF ok assms(2)] ready_keys_set [OF fin] ready_keys_distinct by simp
qed

theorem resolve_round_order_witness:
  "\<exists>s. scan_events demo_crypto demo_payloads demo_events = Inr s \<and>
     (\<exists>ready. resolve_ready s {EventId 185} = Inr ready \<and> distinct ready)"
proof -
  obtain s where s: "scan_events demo_crypto demo_payloads demo_events = Inr s"
    and "{EventId 185} \<subseteq> set (bt_keys (sc_payloads s))"
    using demo_scan by simp
  then show ?thesis using resolve_round_order [OF s] by blast
qed

section \<open>Invitations\<close>

text \<open>An invitation works: once an invite package has been validated against its invitation event,
  the acceptance its holder creates decodes, is authored by the holder, and is authorised in every state
  of that community in which the invitation is open and the acceptance's parents are accepted; applying it
  makes the holder a member and uses the invitation up.\<close>

theorem invite_acceptance_authorised:
  assumes "ed25519_correct C" and "codec_lossless P"
    and "prepared_validate C P invite invitation_event = Inr v"
    and "create_acceptance C P v holder ps ts = Inr a"
    and "cs_community st = Some (val_community v)"
    and "bt_get (cs_invitations st) (val_invitation v) = Some (arr32_bytes (capability_key C (val_capability v)))"
    and "val_invitation v \<notin> cs_accepted_invitations st" and "set ps \<subseteq> acc"
  shows "\<exists>pl. decode P a = Inr pl \<and> author_id C a = Inr (identity_user_id C holder) \<and>
    validate_context C st a pl (identity_user_id C holder) acc = Inr () \<and>
    identity_user_id C holder \<in> cs_members (apply_payload C st a (identity_user_id C holder) pl) \<and>
    val_invitation v \<in> cs_accepted_invitations (apply_payload C st a (identity_user_id C holder) pl)"
proof -
  let ?u = "identity_user_id C holder"
  let ?pl = "MemberAccept (val_invitation v)
    (sign_acceptance C (val_capability v) (val_community v) (val_invitation v) ?u)"
  have a: "create_chat_event C P holder (val_community v) ps ts ?pl = Inr a"
    using assms(4) by (simp add: create_acceptance_def)
  then have content: "community_id (content a) = Some (val_community v)" "set (parents (content a)) = set ps"
    "author_id C a = Inr ?u"
    by (auto simp: create_chat_event_def res_bind_Inr_iff create_signed_author)
  have "decode P a = Inr ?pl" by (rule create_chat_event_decode [OF assms(2) a]) simp
  moreover have "validate_context C st a ?pl ?u acc = Inr ()"
    using assms(5-8) content sign_acceptance_verify [OF assms(1)]
    by (auto simp: validate_context_def is_community_create_def)
  ultimately show ?thesis using content(3) by simp
qed

theorem invite_acceptance_authorised_witness:
  "\<exists>a pl. create_acceptance demo_crypto demo_payloads
     \<lparr>val_community = demo_community, val_invitation = EventId 247, val_capability = demo_capability\<rparr>
     guest_identity [EventId 247] 0 = Inr a \<and> decode demo_payloads a = Inr pl"
proof -
  let ?prep = "\<lparr>prep_community = demo_community, prep_invitation = EventId 247, prep_capability = demo_capability\<rparr>"
  let ?v = "\<lparr>val_community = demo_community, val_invitation = EventId 247, val_capability = demo_capability\<rparr>"
  let ?st = "chat_state_default\<lparr>cs_community := Some demo_community,
    cs_invitations := [(EventId 247, arr32_bytes (capability_key demo_crypto demo_capability))]\<rparr>"
  have v: "prepared_validate demo_crypto demo_payloads ?prep demo_invite = Inr ?v"
    by (simp add: prepared_validate_Inr_iff)
  obtain a where a: "create_acceptance demo_crypto demo_payloads ?v guest_identity [EventId 247] 0 = Inr a"
    by (simp add: create_acceptance_def create_chat_event_def demo_payloads_def table_codec_def demo_users
        invitation_payload_def)
  show ?thesis
    using invite_acceptance_authorised [OF demo_crypto_correct demo_payloads_lossless v a, of ?st "{EventId 247}"] a
    by (auto simp: bt_get_def chat_state_default_def)
qed

text \<open>An invite package survives its encoding: what \<open>encode_package\<close> writes, when it is within the
  size limit, parses and prepares to the same community, invitation and capability.\<close>

theorem invite_package_roundtrip:
  assumes "codec_lossless K" and "encode_package K cap c i = Inr bs"
    and "length bs \<le> MAX_INVITE_PACKAGE_BYTES"
  shows "res_bind (parse_invite_package K bs) invite_prepare =
    Inr \<lparr>prep_community = c, prep_invitation = i, prep_capability = cap\<rparr>"
proof -
  let ?pkg = "\<lparr>pkg_version = INVITE_PACKAGE_VERSION, pkg_community = c, pkg_invitation = i,
    pkg_capability_secret = arr32_bytes (capability_seed cap)\<rparr>"
  have "to_vec K ?pkg = Some bs" using assms(2) by (simp add: encode_package_def ok_or_Inr_iff)
  then have "from_slice K bs = Some ?pkg" by (rule codec_losslessD [OF assms(1)])
  then show ?thesis using assms(3) by (simp add: parse_invite_package_def invite_prepare_def)
qed

definition demo_package :: invite_package where
  "demo_package = \<lparr>pkg_version = INVITE_PACKAGE_VERSION, pkg_community = demo_community,
     pkg_invitation = EventId 247, pkg_capability_secret = arr32_bytes 7\<rparr>"

theorem invite_package_roundtrip_witness:
  "res_bind (parse_invite_package (table_codec [(demo_package, [9])]) [9]) invite_prepare =
     Inr \<lparr>prep_community = demo_community, prep_invitation = EventId 247, prep_capability = demo_capability\<rparr>"
proof (rule invite_package_roundtrip)
  show "codec_lossless (table_codec [(demo_package, [9])])" by (rule table_codec_lossless) simp
  show "encode_package (table_codec [(demo_package, [9])]) demo_capability demo_community (EventId 247) = Inr [9]"
    by (simp add: encode_package_def table_codec_def demo_package_def demo_capability_def)
  show "length [9 :: byte] \<le> MAX_INVITE_PACKAGE_BYTES" by (simp add: MAX_INVITE_PACKAGE_BYTES_def)
qed

end
