(* ===== verification/Sync_Peer.thy ===== *)
theory Sync_Peer
  imports Sync
begin

text \<open>
  The synchronisation peer's invariant and what \<open>accept\<close> does.

  \<open>peer_ok\<close> holds for a new peer and after every message, whatever the answer; an accepted batch
  leaves the node with exactly the events whose ancestry is complete (\<open>accept_Inr\<close>), the rest
  buffered, and the missing parents requested.
\<close>

section \<open>Facts about ingestion the peer needs\<close>

text \<open>The closure only depends on what the batch offers outside the known events.\<close>

lemma closure_mono:
  assumes "\<And>i e. i \<notin> K \<Longrightarrow> M i = Some e \<Longrightarrow> N i = Some e"
  shows "ingest_closure K M \<subseteq> ingest_closure K N"
proof
  fix i assume "i \<in> ingest_closure K M"
  then show "i \<in> ingest_closure K N"
  proof (induction rule: ingest_closure.induct)
    case (closure_known i)
    then show ?case by (rule ingest_closure.closure_known)
  next
    case (closure_ready i e)
    then show ?case
      using assms by (cases "i \<in> K") (auto intro: ingest_closure.closure_known ingest_closure.closure_ready)
  qed
qed

lemma closure_cong:
  assumes "\<And>i. i \<notin> K \<Longrightarrow> M i = N i"
  shows "ingest_closure K M = ingest_closure K N"
  by (intro equalityI closure_mono) (simp_all add: assms)

lemma closure_subset: "ingest_closure K M \<subseteq> K \<union> dom M"
proof
  fix i assume "i \<in> ingest_closure K M"
  then show "i \<in> K \<union> dom M" by (cases rule: ingest_closure.cases) auto
qed

text \<open>Nothing is ready without a genesis event: every other valid event has parents.\<close>

lemma closure_no_genesis:
  assumes "\<And>i e. M i = Some e \<Longrightarrow> parents (content e) \<noteq> []"
  shows "ingest_closure {} M = {}"
proof -
  have "i \<notin> ingest_closure {} M" for i
  proof
    assume "i \<in> ingest_closure {} M"
    then show False
    proof (induction rule: ingest_closure.induct)
      case (closure_ready i e)
      then show ?case using assms [of i e] by (cases "parents (content e)") auto
    qed simp
  qed
  then show ?thesis by blast
qed

lemma ingest_check_total:
  assumes "length events \<le> MAX_PENDING_EVENTS" and "\<forall>e \<in> set events. validate_event C e = Inr ()"
    and c: "\<forall>e \<in> set events. in_community c e"
    and node: "node_community node = Some c \<or>
      node_community node = None \<and> (\<exists>e \<in> set events. community_id (content e) = None)"
  shows "ingest_check C node events = Inr c"
proof -
  have all: "try_all (\<lambda>e. map_err NodeProtocol (validate_event C e)) events = Inr ()"
    using assms(2) by (simp add: try_all_Inr_iff map_err_Inr_iff)
  show ?thesis
  proof (cases "node_community node")
    case (Some d)
    then show ?thesis using assms(1) all c node by (simp add: ingest_check_def)
  next
    case None
    obtain g where g: "find (\<lambda>e. community_id (content e) = None) events = Some g"
      using node None by (cases "find (\<lambda>e. community_id (content e) = None) events") (auto simp: find_None_iff)
    then have "g \<in> set events" "community_id (content g) = None"
      by (auto simp: find_Some_iff)
    moreover from this have "in_community c g" "validate_event C g = Inr ()" using assms(2) c by auto
    ultimately have "community_id_of C g = Inr c"
      by (simp add: community_id_of_def in_community_def)
    then show ?thesis using assms(1) all c g None by (simp add: ingest_check_def)
  qed
qed

lemma ingest_frame:
  assumes "node_ok C J node" and "ids_unique (universe J node events)"
    and "ingest_check C node events = Inr c" and "ingest C J node events = (res, node')"
  shows "(node_community node' = None \<or> node_community node' = Some c) \<and>
    (node_community node \<noteq> None \<longrightarrow> node_community node' = node_community node) \<and>
    ran (store_abs J (node_store node')) \<subseteq> universe J node events"
proof -
  have "\<exists>st. loop_inv C J c node events st \<and> node' = ing_node st"
    using ingest_loop_inv [OF assms(1-3)] assms(3,4) by (auto simp: ingest_def split: sum.splits)
  then show ?thesis by (auto simp: loop_inv_def Let_def)
qed

text \<open>After the checks, only storage can fail: each identifier of a round is still pending when its turn comes.\<close>

lemma ingest_fold_restrict:
  "try_fold (ingest_one C J c) ys st = Inr st1 \<Longrightarrow>
     bt_get (ing_pending st1) = (bt_get (ing_pending st)) |` (- set ys)"
proof (induction ys arbitrary: st1 rule: rev_induct)
  case Nil
  then show ?case by (simp add: restrict_map_def)
next
  case (snoc y ys)
  then obtain st2 where "try_fold (ingest_one C J c) ys st = Inr st2" "ingest_one C J c st2 y = Inr st1"
    by (auto simp: try_fold_append res_bind_Inr_iff)
  then show ?case
    using snoc.IH by (auto elim!: ingest_one_Inr simp: bt_get_remove restrict_map_def fun_eq_iff)
qed

lemma ingest_ready_pending:
  assumes "bt_ok (ing_pending st)" and "ingest_ready st = ys @ i # zs"
    and "try_fold (ingest_one C J c) ys st = Inr st1"
  shows "\<exists>e. bt_get (ing_pending st1) i = Some e"
proof -
  have "distinct (ingest_ready st)"
    using bt_ok_distinct [OF bt_ok_filter [OF assms(1)]] by (simp add: ingest_ready_def bt_keys_def)
  then have "i \<notin> set ys" "i \<in> set (ingest_ready st)" using assms(2) by auto
  then show ?thesis
    using ingest_fold_restrict [OF assms(3)] ingest_ready_iff [OF assms(1), of i] by (auto simp: restrict_map_def)
qed

lemma ingest_error:
  assumes "ingest_check C node events = Inr c" and "ingest C J node events = (Inl err, node')"
  shows "\<exists>e. err = NodeStorage e"
proof -
  let ?st0 = "\<lparr>ing_node = node, ing_pending = bt_of_list (map (\<lambda>e. (event_id e, e)) events),
           ing_inserted = 0, ing_already_present = 0\<rparr>"
  have storage: "\<exists>e. err = NodeStorage e"
    if "ingest_loop C J c st = Inl (err, node')" "bt_ok (ing_pending st)" for st
    using that
  proof (induction C J c st rule: ingest_loop.induct)
    case (1 C J c st)
    let ?ready = "ingest_ready st"
    have ne: "?ready \<noteq> []" using "1.prems"(1) by (auto simp: ingest_loop.simps [of C J c st])
    show ?case
    proof (cases "try_fold (ingest_one C J c) ?ready st")
      case (Inl p)
      obtain ys i zs st1 where "?ready = ys @ i # zs" "try_fold (ingest_one C J c) ys st = Inr st1"
        "ingest_one C J c st1 i = Inl p"
        using try_fold_error [OF Inl] by blast
      moreover from this obtain e where "bt_get (ing_pending st1) i = Some e"
        using ingest_ready_pending [OF "1.prems"(2)] by blast
      ultimately show ?thesis
        using Inl "1.prems"(1) ne
        by (auto simp: ingest_loop.simps [of C J c st] ingest_one_def Let_def split: sum.splits)
    next
      case (Inr st1)
      then have "bt_ok (ing_pending st1)"
        using ingest_fold_rule [where I = "\<lambda>_. True", OF _ _ "1.prems"(2) subset_refl] by blast
      then show ?thesis
        using "1.IH" [OF refl ne Inr] "1.prems"(1) ne Inr by (simp add: ingest_loop.simps [of C J c st])
    qed
  qed
  show ?thesis using assms storage [of ?st0] by (auto simp: ingest_def split: sum.splits)
qed


section \<open>Buffering\<close>

lemma bt_values_iff: "bt_ok m \<Longrightarrow> e \<in> set (bt_values m) \<longleftrightarrow> (\<exists>i. bt_get m i = Some e)"
  by (force simp: bt_values_def bt_get_eq_iff)

lemma buffer_new_ok: "bt_ok m \<Longrightarrow> bt_ok (buffer_new new es m)"
  unfolding buffer_new_def by (induction es arbitrary: m) (auto simp: bt_ok_or_insert)

lemma buffer_new_keys:
  "set (bt_keys (buffer_new new es m)) = set (bt_keys m) \<union> (event_id ` set es \<inter> new)"
  unfolding buffer_new_def by (induction es arbitrary: m) (auto simp: bt_keys_or_insert)

lemma buffer_new_get:
  assumes "bt_get (buffer_new new es m) i = Some e"
  shows "bt_get m i = Some e \<or> e \<in> set es \<and> event_id e = i \<and> i \<in> new"
proof -
  have "bt_get (fold (\<lambda>e m. if event_id e \<in> new then bt_or_insert (event_id e) e m else m) es m) i = Some e \<Longrightarrow>
      bt_get m i = Some e \<or> e \<in> set es \<and> event_id e = i \<and> i \<in> new" for m
    by (induction es arbitrary: m) (fastforce simp: bt_get_or_insert split: if_splits option.splits)+
  then show ?thesis using assms by (simp add: buffer_new_def)
qed

text \<open>A buffer keyed by identifier is its own batch.\<close>

lemma batch_tree_values:
  assumes "bt_ok m" and "\<And>i e. bt_get m i = Some e \<Longrightarrow> event_id e = i"
  shows "bt_of_list (map (\<lambda>e. (event_id e, e)) (bt_values m)) = m"
proof -
  have id: "map (\<lambda>e. (event_id e, e)) (bt_values m) = m"
    using assms by (auto simp: bt_values_def bt_get_eq_iff intro!: map_idI)
  have "bt_get (bt_of_list m) = bt_get m"
    unfolding bt_get_of_list using bt_ok_distinct [OF assms(1)]
    by (simp add: bt_get_def bt_keys_def map_of_inject_set rev_map [symmetric])
  then show ?thesis unfolding id by (intro bt_ext) (simp_all add: assms(1))
qed

lemma batch_map_values:
  assumes "bt_ok m" and "\<And>i e. bt_get m i = Some e \<Longrightarrow> event_id e = i"
  shows "batch_map (bt_values m) = bt_get m"
  by (simp add: batch_map_def batch_tree_values [OF assms])

section \<open>The peer's invariant\<close>

definition pending_ok :: "crypto \<Rightarrow> community_id \<Rightarrow> (event_id, signed_event) btree \<Rightarrow> bool" where
  "pending_ok C c m \<longleftrightarrow>
     bt_ok m \<and> length m \<le> MAX_PENDING_SYNC_EVENTS \<and>
     (\<forall>i e. bt_get m i = Some e \<longrightarrow> event_id e = i \<and> validate_event C e = Inr () \<and> in_community c e)"

definition peer_ok :: "crypto \<Rightarrow> signed_event codec \<Rightarrow> sync_peer \<Rightarrow> bool" where
  "peer_ok C J p \<longleftrightarrow>
     node_ok C J (peer_node p) \<and>
     (node_community (peer_node p) = None \<or> node_community (peer_node p) = Some (peer_community p)) \<and>
     pending_ok C (peer_community p) (peer_pending p)"

text \<open>Every event a peer may come to hold: stored, buffered or offered.\<close>

definition peer_universe :: "signed_event codec \<Rightarrow> sync_peer \<Rightarrow> signed_event list \<Rightarrow> signed_event set" where
  "peer_universe J p events =
     set events \<union> set (bt_values (peer_pending p)) \<union> ran (store_abs J (node_store (peer_node p)))"

lemma peer_new_ok:
  assumes "node_ok C J node" and "peer_new node c = Inr p"
  shows "peer_ok C J p"
  using assms by (auto simp: peer_new_def peer_ok_def pending_ok_def split: if_splits option.splits)

lemma pending_ok_retain: "pending_ok C c m \<Longrightarrow> pending_ok C c (bt_retain P m)"
proof -
  assume m: "pending_ok C c m"
  then have "bt_ok m" by (simp add: pending_ok_def)
  moreover have "length (bt_retain P m) \<le> length m" by (simp add: bt_retain_def)
  ultimately show ?thesis
    using m by (auto simp: pending_ok_def bt_ok_retain bt_get_retain split: option.splits if_splits)
qed

lemma accept_check_Inr:
  assumes "accept_check J p events new = Inr u"
  shows "\<forall>e \<in> set events. in_community (peer_community p) e"
    and "length (peer_pending p) + card new \<le> MAX_PENDING_SYNC_EVENTS"
  using assms by (auto simp: accept_check_def res_bind_Inr_iff try_all_Inr_iff ensure_Inr_iff split: if_splits)

lemma buffer_new_pending_ok:
  assumes m: "pending_ok C (peer_community p) (peer_pending p)"
    and chk: "accept_check J p events new = Inr u"
    and valid: "\<forall>e \<in> set events. validate_event C e = Inr ()"
    and new: "new = new_ids p events"
  shows "pending_ok C (peer_community p) (buffer_new new events (peer_pending p))"
proof -
  let ?m = "buffer_new new events (peer_pending p)"
  have ok: "bt_ok (peer_pending p)" using m by (simp add: pending_ok_def)
  have "length ?m = card (set (bt_keys ?m))"
    using distinct_card [OF bt_ok_distinct [OF buffer_new_ok [OF ok]]] by simp
  also have "\<dots> = card (set (bt_keys (peer_pending p)) \<union> new)"
    using new by (intro arg_cong [where f = card]) (auto simp: buffer_new_keys new_ids_def)
  also have "\<dots> \<le> length (peer_pending p) + card new"
    using card_Un_le [of "set (bt_keys (peer_pending p))" new] distinct_card [OF bt_ok_distinct [OF ok]] by simp
  finally have "length ?m \<le> MAX_PENDING_SYNC_EVENTS" using accept_check_Inr(2) [OF chk] by simp
  moreover have "event_id e = i \<and> validate_event C e = Inr () \<and> in_community (peer_community p) e"
    if "bt_get ?m i = Some e" for i e
    using buffer_new_get [OF that] m valid accept_check_Inr(1) [OF chk] by (auto simp: pending_ok_def)
  ultimately show ?thesis using buffer_new_ok [OF ok] by (simp add: pending_ok_def)
qed

text \<open>The outcomes of \<open>accept\<close>.\<close>

lemma accept_cases:
  assumes "accept C J p events = (res, p')"
  obtains (refused) err where "res = Inl err" and "p' = p"
      and "accept_check J p events (new_ids p events) = Inl err"
  | (buffered) p1 where
      "accept_check J p events (new_ids p events) = Inr ()"
      and "p1 = p\<lparr>peer_pending :=
        buffer_new (new_ids p events) events (peer_pending p)\<rparr>"
      and "\<not> (can_ingest p1 \<and> bt_values (peer_pending p1) \<noteq> [])"
      and "p' = p1" and "res = Inr (want_missing p1)"
  | (failed) p1 node err where
      "accept_check J p events (new_ids p events) = Inr ()"
      and "p1 = p\<lparr>peer_pending :=
        buffer_new (new_ids p events) events (peer_pending p)\<rparr>"
      and "can_ingest p1" and "ingest C J (peer_node p1) (bt_values (peer_pending p1)) = (Inl err, node)"
      and "p' = p1\<lparr>peer_node := node\<rparr>" and "res = Inl (SyncNode err)"
  | (ingested) p1 node r where
      "accept_check J p events (new_ids p events) = Inr ()"
      and "p1 = p\<lparr>peer_pending :=
        buffer_new (new_ids p events) events (peer_pending p)\<rparr>"
      and "can_ingest p1" and "ingest C J (peer_node p1) (bt_values (peer_pending p1)) = (Inr r, node)"
      and "p' = p1\<lparr>peer_node := node,
             peer_pending := bt_retain (\<lambda>i _. i \<notin> node_known node) (peer_pending p1)\<rparr>"
      and "res = Inr (want_missing p')"
proof -
  define new where "new = new_ids p events"
  define p1 where "p1 = p\<lparr>peer_pending := buffer_new new events (peer_pending p)\<rparr>"
  show thesis
  proof (cases "accept_check J p events new")
    case (Inl err)
    then show thesis using assms by (intro refused) (auto simp: accept_def new_def Let_def)
  next
    case chk: (Inr u)
    show thesis
    proof (cases "can_ingest p1 \<and> bt_values (peer_pending p1) \<noteq> []")
      case False
      then show thesis
        using assms chk by (intro buffered [of p1]) (auto simp: accept_def new_def p1_def Let_def)
    next
      case True
      obtain out node where ing: "ingest C J (peer_node p1) (bt_values (peer_pending p1)) = (out, node)" by fastforce
      show thesis
      proof (cases out)
        case (Inl err)
        then show thesis
          using assms chk True ing
          by (intro failed [of p1 err node]) (auto simp: accept_def new_def p1_def Let_def)
      next
        case (Inr r)
        then show thesis
          using assms chk True ing
          by (intro ingested [of p1 r node]) (auto simp: accept_def new_def p1_def Let_def)
      qed
    qed
  qed
qed


lemma peer_universe_buffer:
  assumes "pending_ok C (peer_community p) (peer_pending p)"
  shows "universe J (peer_node p) (bt_values (buffer_new new events (peer_pending p))) \<subseteq> peer_universe J p events"
proof -
  have ok: "bt_ok (peer_pending p)" using assms by (simp add: pending_ok_def)
  have "e \<in> set events \<union> set (bt_values (peer_pending p))"
    if "e \<in> set (bt_values (buffer_new new events (peer_pending p)))" for e
    using that buffer_new_get by (fastforce simp: bt_values_iff [OF ok] bt_values_iff [OF buffer_new_ok [OF ok]])
  then show ?thesis by (auto simp: universe_def peer_universe_def)
qed

text \<open>The peer after buffering, and what ingestion may assume of it.\<close>

lemma accept_buffered_ok:
  assumes p: "peer_ok C J p" and valid: "\<forall>e \<in> set events. validate_event C e = Inr ()"
    and uniq: "ids_unique (peer_universe J p events)"
    and chk: "accept_check J p events (new_ids p events) = Inr ()"
    and p1: "p1 = p\<lparr>peer_pending := buffer_new (new_ids p events) events (peer_pending p)\<rparr>"
  shows "peer_ok C J p1" and "ids_unique (universe J (peer_node p1) (bt_values (peer_pending p1)))"
    and "can_ingest p1 \<Longrightarrow> ingest_check C (peer_node p1) (bt_values (peer_pending p1)) = Inr (peer_community p)"
proof -
  let ?m = "buffer_new (new_ids p events) events (peer_pending p)"
  have pend: "pending_ok C (peer_community p) (peer_pending p)" using p by (simp add: peer_ok_def)
  have m: "pending_ok C (peer_community p) ?m"
    by (rule buffer_new_pending_ok [OF pend chk valid refl])
  then show "peer_ok C J p1" using p by (simp add: peer_ok_def p1)
  show "ids_unique (universe J (peer_node p1) (bt_values (peer_pending p1)))"
    using ids_unique_subset [OF uniq peer_universe_buffer [OF pend]] by (simp add: p1)
  assume can: "can_ingest p1"
  have ok: "bt_ok ?m" using m by (simp add: pending_ok_def)
  have all: "validate_event C e = Inr () \<and> in_community (peer_community p) e" if "e \<in> set (bt_values ?m)" for e
    using that m by (auto simp: pending_ok_def bt_values_iff [OF ok])
  show "ingest_check C (peer_node p1) (bt_values (peer_pending p1)) = Inr (peer_community p)"
  proof (rule ingest_check_total)
    show "length (bt_values (peer_pending p1)) \<le> MAX_PENDING_EVENTS"
      using m by (simp add: p1 pending_ok_def bt_values_def MAX_PENDING_EVENTS_def MAX_PENDING_SYNC_EVENTS_def)
    show "node_community (peer_node p1) = Some (peer_community p) \<or> node_community (peer_node p1) = None \<and>
        (\<exists>e \<in> set (bt_values (peer_pending p1)). community_id (content e) = None)"
      using can p by (auto simp: can_ingest_def peer_ok_def p1)
  qed (use all in \<open>auto simp: p1\<close>)
qed

text \<open>Every outcome of \<open>accept\<close> keeps the invariant and the events already stored.\<close>

lemma accept_ok:
  assumes p: "peer_ok C J p" and valid: "\<forall>e \<in> set events. validate_event C e = Inr ()"
    and uniq: "ids_unique (peer_universe J p events)" and acc: "accept C J p events = (res, p')"
  shows "peer_ok C J p' \<and> node_known (peer_node p) \<subseteq> node_known (peer_node p')"
  using acc
proof (cases rule: accept_cases)
  case (refused err)
  then show ?thesis using p by simp
next
  case (buffered p1)
  then show ?thesis using accept_buffered_ok(1) [OF p valid uniq buffered(1,2)] by simp
next
  case (failed p1 node err)
  note b = accept_buffered_ok [OF p valid uniq failed(1,2)]
  have n: "node_ok C J (peer_node p1)" using b(1) by (simp add: peer_ok_def)
  show ?thesis
    using ingest_preserves [OF n b(2) failed(4)] ingest_frame [OF n b(2) b(3) [OF failed(3)] failed(4)] b(1)
    by (auto simp: peer_ok_def failed(2,5))
next
  case (ingested p1 node r)
  note b = accept_buffered_ok [OF p valid uniq ingested(1,2)]
  have n: "node_ok C J (peer_node p1)" using b(1) by (simp add: peer_ok_def)
  show ?thesis
    using ingest_preserves [OF n b(2) ingested(4)] ingest_frame [OF n b(2) b(3) [OF ingested(3)] ingested(4)] b(1)
    by (auto simp: peer_ok_def ingested(2,5) pending_ok_retain)
qed

text \<open>Only the checks and storage can make \<open>accept\<close> fail.\<close>

lemma accept_error:
  assumes p: "peer_ok C J p" and valid: "\<forall>e \<in> set events. validate_event C e = Inr ()"
    and uniq: "ids_unique (peer_universe J p events)" and acc: "accept C J p events = (Inl err, p')"
  shows "accept_check J p events (new_ids p events) = Inl err \<and> p' = p \<or>
    (\<exists>e. err = SyncNode (NodeStorage e))"
  using acc
proof (cases rule: accept_cases)
  case (failed p1 node err')
  then show ?thesis
    using ingest_error [OF accept_buffered_ok(3) [OF p valid uniq failed(1-3)] failed(4)] by auto
qed auto


section \<open>What an accepted batch leaves behind\<close>

lemma batch_map_iff:
  assumes "ids_unique (set es)"
  shows "batch_map es i = Some e \<longleftrightarrow> e \<in> set es \<and> event_id e = i"
  using batch_map_Some [of es i e] batch_map_unique [OF assms, of e] by auto

lemma buffer_new_iff:
  assumes p: "pending_ok C (peer_community p) (peer_pending p)"
    and uniq: "ids_unique (peer_universe J p events)" and i: "i \<notin> node_known (peer_node p)"
  shows "bt_get (buffer_new (new_ids p events) events (peer_pending p)) i = Some e \<longleftrightarrow>
    e \<in> set (bt_values (peer_pending p) @ events) \<and> event_id e = i"
proof -
  let ?m = "buffer_new (new_ids p events) events (peer_pending p)"
  have ok: "bt_ok (peer_pending p)" using p by (simp add: pending_ok_def)
  have mem: "d \<in> set (bt_values (peer_pending p) @ events) \<and> event_id d = i" if "bt_get ?m i = Some d" for d
    using buffer_new_get [OF that] p by (auto simp: pending_ok_def bt_values_iff [OF ok])
  show ?thesis
  proof
    assume e: "e \<in> set (bt_values (peer_pending p) @ events) \<and> event_id e = i"
    then have "i \<in> set (bt_keys ?m)"
      using p i by (auto simp: buffer_new_keys new_ids_def is_unknown_def bt_contains_key_def bt_keys_iff_get
          bt_values_iff [OF ok] pending_ok_def)
    then obtain d where d: "bt_get ?m i = Some d" by (auto simp: bt_keys_iff_get)
    have "d = e"
      by (rule ids_uniqueD [OF uniq]) (use e mem [OF d] in \<open>auto simp: peer_universe_def\<close>)
    then show "bt_get ?m i = Some e" using d by simp
  qed (use mem in blast)
qed

text \<open>Before a genesis event is known or buffered, nothing can be stored.\<close>

lemma not_ingestable:
  assumes p: "peer_ok C J p" and no: "\<not> (can_ingest p \<and> bt_values (peer_pending p) \<noteq> [])"
  shows "ingest_closure (node_known (peer_node p)) (bt_get (peer_pending p)) = node_known (peer_node p)"
    and "\<And>i. bt_get (peer_pending p) i \<noteq> None \<Longrightarrow> i \<notin> node_known (peer_node p)"
proof -
  have ok: "bt_ok (peer_pending p)" using p by (simp add: peer_ok_def pending_ok_def)
  have "(bt_get (peer_pending p) = Map.empty) \<or>
    (node_known (peer_node p) = {} \<and> (\<forall>i e. bt_get (peer_pending p) i = Some e \<longrightarrow> parents (content e) \<noteq> []))"
  proof (cases "bt_values (peer_pending p) = []")
    case True
    then show ?thesis by (simp add: bt_values_def fun_eq_iff)
  next
    case False
    then have no: "\<not> can_ingest p" using no by simp
    have "node_known (peer_node p) = {}"
    proof (rule ccontr)
      assume "node_known (peer_node p) \<noteq> {}"
      then have "node_community (peer_node p) \<noteq> None" using p unfolding peer_ok_def node_ok_def by blast
      then show False using no by (simp add: can_ingest_def)
    qed
    moreover have "parents (content e) \<noteq> []" if "bt_get (peer_pending p) i = Some e" for i e
    proof
      assume "parents (content e) = []"
      moreover have e: "validate_event C e = Inr ()" "in_community (peer_community p) e"
        using p that by (auto simp: peer_ok_def pending_ok_def)
      ultimately have "community_id (content e) = None" using valid_event_genesis_iff by blast
      moreover have "e \<in> set (bt_values (peer_pending p))" using that bt_values_iff [OF ok] by blast
      ultimately show False using e(2) no by (auto simp: can_ingest_def in_community_def)
    qed
    ultimately show ?thesis by blast
  qed
  then show "ingest_closure (node_known (peer_node p)) (bt_get (peer_pending p)) = node_known (peer_node p)"
    and "\<And>i. bt_get (peer_pending p) i \<noteq> None \<Longrightarrow> i \<notin> node_known (peer_node p)"
    using closure_no_genesis closure_subset [of "node_known (peer_node p)" "bt_get (peer_pending p)"]
    by (auto intro: closure_known)
qed

lemma accept_Inr:
  assumes p: "peer_ok C J p" and valid: "\<forall>e \<in> set events. validate_event C e = Inr ()"
    and uniq: "ids_unique (peer_universe J p events)" and acc: "accept C J p events = (Inr ms, p')"
  shows "node_known (peer_node p') =
      ingest_closure (node_known (peer_node p)) (batch_map (bt_values (peer_pending p) @ events))"
    and "\<And>i e. bt_get (peer_pending p') i = Some e \<longleftrightarrow>
      e \<in> set (bt_values (peer_pending p) @ events) \<and> event_id e = i \<and> i \<notin> node_known (peer_node p')"
    and "ms = want_missing p'"
proof -
  let ?K = "node_known (peer_node p)"
  let ?m = "buffer_new (new_ids p events) events (peer_pending p)"
  have pend: "pending_ok C (peer_community p) (peer_pending p)" using p by (simp add: peer_ok_def)
  have uniq': "ids_unique (set (bt_values (peer_pending p) @ events))"
    by (rule ids_unique_subset [OF uniq]) (auto simp: peer_universe_def)
  have cl: "ingest_closure ?K (bt_get ?m) = ingest_closure ?K (batch_map (bt_values (peer_pending p) @ events))"
  proof (rule closure_cong)
    fix i assume "i \<notin> ?K"
    then have "bt_get ?m i = Some e \<longleftrightarrow> batch_map (bt_values (peer_pending p) @ events) i = Some e" for e
      using buffer_new_iff [OF pend uniq] batch_map_iff [OF uniq'] by simp
    then show "bt_get ?m i = batch_map (bt_values (peer_pending p) @ events) i"
      by (metis not_Some_eq)
  qed
  have main: "node_known (peer_node p') = ingest_closure ?K (bt_get ?m) \<and>
      (\<forall>i e. bt_get (peer_pending p') i = Some e \<longleftrightarrow> bt_get ?m i = Some e \<and> i \<notin> node_known (peer_node p')) \<and>
      ms = want_missing p'"
    using acc
  proof (cases rule: accept_cases)
    case (buffered p1)
    note ok = accept_buffered_ok(1) [OF p valid uniq buffered(1,2)]
    show ?thesis using not_ingestable [OF ok buffered(3)] buffered(2,4,5) by auto
  next
    case (ingested p1 node r)
    note b = accept_buffered_ok [OF p valid uniq ingested(1,2)]
    have n: "node_ok C J (peer_node p1)" and m: "pending_ok C (peer_community p1) (peer_pending p1)"
      using b(1) by (simp_all add: peer_ok_def)
    have "batch_map (bt_values (peer_pending p1)) = bt_get (peer_pending p1)"
      using m by (intro batch_map_values) (auto simp: pending_ok_def)
    moreover have "bt_ok (peer_pending p1)" using m by (simp add: pending_ok_def)
    ultimately show ?thesis
      using ingest_computes_closure(1) [OF n b(2) ingested(4)] ingested(2,5,6)
      by (auto simp: bt_get_retain split: option.splits if_splits)
  qed auto
  then show known: "node_known (peer_node p') =
      ingest_closure ?K (batch_map (bt_values (peer_pending p) @ events))" and "ms = want_missing p'"
    using cl by auto
  show "bt_get (peer_pending p') i = Some e \<longleftrightarrow>
      e \<in> set (bt_values (peer_pending p) @ events) \<and> event_id e = i \<and> i \<notin> node_known (peer_node p')" for i e
  proof (cases "i \<in> node_known (peer_node p')")
    case False
    then have "i \<notin> ?K" using known closure_known by blast
    then show ?thesis using main False buffer_new_iff [OF pend uniq] by simp
  qed (use main in simp)
qed

text \<open>
  Progress: an event is held back only because of a missing ancestor, and unless parents run in a
  circle the peer then asks for a missing event.
\<close>

lemma accept_asks:
  assumes p: "peer_ok C J p" and valid: "\<forall>e \<in> set events. validate_event C e = Inr ()"
    and uniq: "ids_unique (peer_universe J p events)" and acc: "accept C J p events = (Inr ms, p')"
    and wf: "wf (parent_relation (set (bt_values (peer_pending p'))))"
    and ne: "peer_pending p' \<noteq> []"
  shows "missing_parents p' \<noteq> {} \<and> ms \<noteq> []"
proof -
  let ?K = "node_known (peer_node p)" and ?B = "bt_values (peer_pending p) @ events"
  have ok: "bt_ok (peer_pending p')"
    using accept_ok [OF p valid uniq acc] by (simp add: peer_ok_def pending_ok_def)
  have uniq': "ids_unique (set ?B)" by (rule ids_unique_subset [OF uniq]) (auto simp: peer_universe_def)
  have "set (bt_keys (peer_pending p')) \<noteq> {}" using ne by (cases "peer_pending p'") auto
  then obtain i where i: "i \<in> set (bt_keys (peer_pending p'))"
    and min: "\<forall>e \<in> set (bt_values (peer_pending p')). event_id e = i \<longrightarrow>
        (\<forall>q \<in> set (parents (content e)). q \<notin> set (bt_keys (peer_pending p')))"
    using parent_minimal [OF wf] by blast
  obtain e where e: "bt_get (peer_pending p') i = Some e" using i by (auto simp: bt_keys_iff_get)
  then have e': "e \<in> set ?B" "event_id e = i" "i \<notin> node_known (peer_node p')"
    using accept_Inr(2) [OF p valid uniq acc] by blast+
  have "batch_map ?B i = Some e" using batch_map_iff [OF uniq'] e' by simp
  then have "\<not> (\<forall>q \<in> set (parents (content e)). q \<in> node_known (peer_node p'))"
    using e'(3) closure_ready unfolding accept_Inr(1) [OF p valid uniq acc] by metis
  then obtain q where q: "q \<in> set (parents (content e))" "q \<notin> node_known (peer_node p')" by blast
  moreover have ev: "e \<in> set (bt_values (peer_pending p'))" using e bt_values_iff [OF ok] by blast
  then have "q \<notin> set (bt_keys (peer_pending p'))" using min e'(2) q(1) by blast
  ultimately have "q \<in> missing_parents p'"
    using ev by (auto simp: missing_parents_def is_unknown_def bt_contains_key_def)
  then show ?thesis
    using accept_Inr(3) [OF p valid uniq acc] by (auto simp: want_missing_def want_messages_Nil missing_parents_def)
qed


section \<open>The storage quota\<close>

definition encoded_len :: "signed_event codec \<Rightarrow> signed_event \<Rightarrow> nat" where
  "encoded_len J e = (case to_vec J e of None \<Rightarrow> 0 | Some bs \<Rightarrow> length bs)"

definition encoded_size :: "signed_event codec \<Rightarrow> signed_event list \<Rightarrow> nat" where
  "encoded_size J es = sum_list (map (encoded_len J) es)"

lemma encoded_event_bytes_exact:
  assumes "encoded_event_bytes J es = Inr n"
  shows "unat n = encoded_size J es"
proof -
  let ?f = "\<lambda>total e. res_bind (ok_or (to_vec J e) SyncJson) (\<lambda>bs.
       res_bind (ensure (length bs < 2 ^ 64) SyncTooLarge) (\<lambda>_.
       ok_or (checked_add_u64 total (word_of_nat (length bs))) SyncTooLarge))"
  have "try_fold ?f es t = Inr n \<Longrightarrow> unat n = unat t + encoded_size J es" for t
  proof (induction es arbitrary: t)
    case (Cons e es)
    then obtain bs t1 where bs: "to_vec J e = Some bs" "length bs < 2 ^ 64"
      and t1: "checked_add_u64 t (word_of_nat (length bs)) = Some t1" "try_fold ?f es t1 = Inr n"
      by (auto simp: res_bind_Inr_iff ok_or_Inr_iff ensure_Inr_iff)
    have "unat t1 = unat t + length bs"
      using checked_add_u64_Some [OF t1(1)] bs(2) by (simp add: unat_of_nat)
    then show ?case using Cons.IH [OF t1(2)] bs(1) by (simp add: encoded_size_def encoded_len_def)
  qed (simp add: encoded_size_def)
  from this [of 0] show ?thesis using assms by (simp add: encoded_event_bytes_def)
qed

lemma encoded_size_remove:
  assumes "bt_ok m" and "bt_get m i = Some e"
  shows "encoded_size J (bt_values m) = encoded_len J e + encoded_size J (bt_values (bt_remove i m))"
  using assms
proof (induction m)
  case (Cons kv m)
  have dist: "distinct (bt_keys (kv # m))" by (rule bt_ok_distinct [OF Cons.prems(1)])
  have ok: "bt_ok m" using Cons.prems(1) by (simp add: bt_ok_def strictly_sorted_iff)
  show ?case
  proof (cases "fst kv = i")
    case True
    moreover have "i \<notin> fst ` set m" using dist True by (simp add: bt_keys_def)
    then have "\<forall>p \<in> set m. fst p \<noteq> i" by (metis image_eqI)
    then have "bt_remove i m = m" by (simp add: bt_remove_def)
    ultimately show ?thesis
      using Cons.prems(2) by (cases kv) (simp add: bt_remove_def bt_values_def encoded_size_def bt_get_def)
  next
    case False
    then show ?thesis
      using Cons.IH [OF ok] Cons.prems(2)
      by (cases kv) (simp add: bt_remove_def bt_values_def encoded_size_def bt_get_def)
  qed
qed simp

text \<open>Ingestion stores at most the encoded size of the batch, also when it stops at an error.\<close>

lemma ingest_stored_bytes:
  assumes ing: "ingest C J node events = (res, node')"
  shows "stored_bytes (node_store node') \<le>
    stored_bytes (node_store node) + encoded_size J (bt_values (bt_of_list (map (\<lambda>e. (event_id e, e)) events)))"
proof (cases "ingest_check C node events")
  case (Inl err)
  then show ?thesis using ing by (simp add: ingest_def)
next
  case (Inr c)
  let ?m = "bt_of_list (map (\<lambda>e. (event_id e, e)) events)"
  let ?st0 = "\<lparr>ing_node = node, ing_pending = ?m, ing_inserted = 0, ing_already_present = 0\<rparr>"
  define W where "W = stored_bytes (node_store node) + encoded_size J (bt_values ?m)"
  define I where "I = (\<lambda>st :: ingest_state. stored_bytes (node_store (ing_node st)) + encoded_size J (bt_values (ing_pending st)) \<le> W)"
  have step: "I st'" if st: "I st" "bt_ok (ing_pending st)" "bt_get (ing_pending st) i = Some e"
    and one: "ingest_one C J c st i = Inr st'" for st i e st'
  proof -
    obtain d out s where d: "bt_get (ing_pending st) i = Some d"
      and s: "store_insert C J (node_store (ing_node st)) d = Inr (out, s)"
      and st': "node_store (ing_node st') = s" "ing_pending st' = bt_remove i (ing_pending st)"
      by (rule ingest_one_Inr [OF one])
    have "stored_bytes s \<le> stored_bytes (node_store (ing_node st)) + encoded_len J d"
    proof (cases out)
      case Inserted
      then obtain body where "to_vec J d = Some body"
        "stored_bytes s = stored_bytes (node_store (ing_node st)) + length body"
        using stored_bytes_insert [of C J _ d s] s by auto
      then show ?thesis by (simp add: encoded_len_def)
    next
      case AlreadyPresent
      then show ?thesis using store_insert_Inr(2) [OF s] by (auto split: if_splits)
    qed
    then show ?thesis using st(1) st' encoded_size_remove [OF st(2) d, of J] by (simp add: I_def)
  qed
  have "case ingest_loop C J c ?st0 of
      Inl (err, node) \<Rightarrow> \<exists>st. I st \<and> node = ing_node st
    | Inr st \<Rightarrow> I st \<and> bt_ok (ing_pending st) \<and> ingest_ready st = []"
    by (rule ingest_loop_rule) (use step in \<open>auto simp: I_def W_def\<close>)
  then have "\<exists>st. I st \<and> node' = ing_node st"
    using ing Inr by (auto simp: ingest_def split: sum.splits)
  then show ?thesis by (auto simp: I_def W_def)
qed


lemma encoded_size_or_insert:
  "encoded_size J (bt_values (bt_or_insert i e m)) \<le> encoded_size J (bt_values m) + encoded_len J e"
proof -
  have "encoded_size J (bt_values (bt_insert i e m)) \<le> encoded_size J (bt_values m) + encoded_len J e"
    by (induction i e m rule: bt_insert.induct) (auto simp: encoded_size_def bt_values_def)
  then show ?thesis by (simp add: bt_or_insert_def)
qed

lemma encoded_size_buffer:
  "encoded_size J (bt_values (buffer_new new es m)) \<le>
     encoded_size J (bt_values m) + encoded_size J (filter (\<lambda>e. event_id e \<in> new) es)"
proof -
  have "encoded_size J (bt_values
        (fold (\<lambda>e m. if event_id e \<in> new then bt_or_insert (event_id e) e m else m) es m)) \<le>
      encoded_size J (bt_values m) + encoded_size J (filter (\<lambda>e. event_id e \<in> new) es)" for m
  proof (induction es arbitrary: m)
    case (Cons e es)
    show ?case
    proof (cases "event_id e \<in> new")
      case True
      then show ?thesis
        using Cons.IH [of "bt_or_insert (event_id e) e m"] encoded_size_or_insert [of J "event_id e" e m]
        by (simp add: encoded_size_def)
    next
      case False
      then show ?thesis using Cons.IH [of m] by (simp add: encoded_size_def)
    qed
  qed (simp add: encoded_size_def)
  then show ?thesis by (simp add: buffer_new_def)
qed

lemma accept_check_quota:
  assumes "accept_check J p events new = Inr u" and "peer_max_stored_event_bytes p = Some limit"
  shows "stored_bytes (node_store (peer_node p)) + encoded_size J (bt_values (peer_pending p)) +
    encoded_size J (filter (\<lambda>e. event_id e \<in> new) events) \<le> unat limit"
proof -
  obtain stored pending incoming bytes projected where
    "stored_event_bytes (node_store (peer_node p)) = Inr stored"
    "encoded_event_bytes J (bt_values (peer_pending p)) = Inr pending"
    "encoded_event_bytes J (filter (\<lambda>e. event_id e \<in> new) events) = Inr incoming"
    and add: "checked_add_u64 stored pending = Some bytes" "checked_add_u64 bytes incoming = Some projected"
    and le: "projected \<le> limit"
    using assms by (auto simp: accept_check_def node_stored_event_bytes_def res_bind_Inr_iff map_err_Inr_iff
        ok_or_Inr_iff bind_eq_Some_conv split: if_splits)
  then show ?thesis
    using checked_add_u64_Some [OF add(1)] checked_add_u64_Some [OF add(2)]
      stored_event_bytes_exact(1) encoded_event_bytes_exact by (simp add: word_le_nat_alt)
qed

lemma accept_quota:
  assumes p: "peer_ok C J p" and valid: "\<forall>e \<in> set events. validate_event C e = Inr ()"
    and uniq: "ids_unique (peer_universe J p events)" and acc: "accept C J p events = (res, p')"
    and limit: "peer_max_stored_event_bytes p = Some limit"
    and le: "stored_bytes (node_store (peer_node p)) \<le> unat limit"
  shows "stored_bytes (node_store (peer_node p')) \<le> unat limit \<and> peer_max_stored_event_bytes p' = Some limit"
proof -
  let ?m = "buffer_new (new_ids p events) events (peer_pending p)"
  let ?p1 = "p\<lparr>peer_pending := ?m\<rparr>"
  have stored: "stored_bytes (node_store node) \<le> unat limit"
    if chk: "accept_check J p events (new_ids p events) = Inr ()"
      and ing: "ingest C J (peer_node p) (bt_values ?m) = (out, node)" for out node
  proof -
    have "pending_ok C (peer_community p) ?m"
      using accept_buffered_ok(1) [OF p valid uniq chk refl] by (simp add: peer_ok_def)
    then have tree: "bt_of_list (map (\<lambda>e. (event_id e, e)) (bt_values ?m)) = ?m"
      by (intro batch_tree_values) (auto simp: pending_ok_def)
    show ?thesis
      using ingest_stored_bytes [OF ing, unfolded tree] accept_check_quota [OF chk limit]
        encoded_size_buffer [of J "new_ids p events" events "peer_pending p"] by simp
  qed
  show ?thesis
    using acc by (cases rule: accept_cases) (use stored le limit in auto)
qed

section \<open>Receiving\<close>

text \<open>The events a message offers.\<close>

lemma receive_cases:
  assumes "receive C J S p m = (res, p')"
  obtains (unchanged) "p' = p" and "message_events m = [] \<or> (\<exists>err. res = Inl err)"
  | (accepted) c events where "m = Events c events" and "\<forall>e \<in> set events. validate_event C e = Inr ()"
      and "accept C J p events = (res, p')"
proof (cases "validate_message C S m = Inr () \<and> message_community m = peer_community p")
  case False
  then show thesis
    using assms by (intro unchanged) (auto simp: receive_def split: sum.splits if_splits)
next
  case True
  show thesis
  proof (cases m)
    case (Events c events)
    moreover have "\<forall>e \<in> set events. validate_event C e = Inr ()"
      using True Events by (simp add: validate_events_Inr_iff)
    moreover have "accept C J p events = (res, p')"
      using assms conjunct1 [OF True] conjunct2 [OF True] by (simp add: receive_def Events)
    ultimately show thesis by (rule accepted)
  qed (rule unchanged; use assms True in \<open>auto simp: receive_def\<close>)+
qed

text \<open>Every answer is a valid message for the peer's community.\<close>

lemma receive_answers_valid:
  assumes p: "peer_ok C J p" and S: "small_ids_fit S" and rec: "receive C J S p m = (Inr ms, p')"
    and a: "a \<in> set ms"
  shows "validate_message C S a = Inr () \<and> message_community a = peer_community p"
proof -
  have valid: "validate_message C S m = Inr ()" and c: "message_community m = peer_community p"
    using rec by (auto simp: receive_def split: sum.splits if_splits)
  have wants: "validate_message C S a = Inr () \<and> message_community a = peer_community q"
    if "a \<in> set (want_missing q)" for q
    using want_messages_valid [OF S strictly_sorted_sorted_list_of_set] that by (simp add: want_missing_def)
  show ?thesis
  proof (cases m)
    case (Hello v vs c')
    then show ?thesis
      using rec valid c head_messages_valid [OF S _ _ a] p by (auto simp: receive_def peer_ok_def)
  next
    case (Heads c' ids)
    have "strictly_sorted (filter (is_unknown p) ids)"
      using valid Heads by (auto simp: validate_message_Inr_iff validate_ids_Inr_iff intro: strictly_sorted_filter)
    then show ?thesis
      using rec valid c Heads a want_messages_valid [OF S] by (auto simp: receive_def want_unknown_def)
  next
    case (Want c' ids)
    then have "serve C J S p ids = Inr ms" using rec valid c by (auto simp: receive_def)
    then show ?thesis
      using a pack_events_Inr by (fastforce simp: serve_def res_bind_Inr_iff packed_def split: if_splits)
  next
    case (Events c' events)
    have acc: "accept C J p events = (Inr ms, p')" using rec valid c by (simp add: receive_def Events)
    then show ?thesis
      by (cases rule: accept_cases) (use a wants in auto)
  qed
qed

section \<open>Sessions\<close>

text \<open>A session: messages received one after the other, all of them answered.\<close>

primrec receive_all ::
  "crypto \<Rightarrow> signed_event codec \<Rightarrow> sync_message codec \<Rightarrow> sync_peer \<Rightarrow> sync_message list \<Rightarrow> sync_error + sync_peer" where
  "receive_all C J S p [] = Inr p"
| "receive_all C J S p (m # ms) =
     (case receive C J S p m of
        (Inl err, _) \<Rightarrow> Inl err
      | (Inr _, p') \<Rightarrow> receive_all C J S p' ms)"

text \<open>No buffered event is ready, and everything offered is stored or buffered.\<close>

definition settled :: "sync_peer \<Rightarrow> bool" where
  "settled p \<longleftrightarrow>
     (\<forall>i e. bt_get (peer_pending p) i = Some e \<longrightarrow>
        \<not> set (parents (content e)) \<subseteq> node_known (peer_node p))"

definition holds :: "sync_peer \<Rightarrow> signed_event \<Rightarrow> bool" where
  "holds p e \<longleftrightarrow> event_id e \<in> node_known (peer_node p) \<or> bt_get (peer_pending p) (event_id e) = Some e"

lemma accept_settled:
  assumes p: "peer_ok C J p" and valid: "\<forall>e \<in> set events. validate_event C e = Inr ()"
    and uniq: "ids_unique (peer_universe J p events)" and acc: "accept C J p events = (Inr ms, p')"
  shows "settled p'" and "\<forall>e \<in> set events. holds p' e" and "\<And>e. holds p e \<Longrightarrow> holds p' e"
proof -
  let ?B = "bt_values (peer_pending p) @ events"
  note res = accept_Inr [OF p valid uniq acc]
  have uniq': "ids_unique (set ?B)" by (rule ids_unique_subset [OF uniq]) (auto simp: peer_universe_def)
  have ok: "bt_ok (peer_pending p)" using p by (simp add: peer_ok_def pending_ok_def)
  show "settled p'"
    unfolding settled_def
  proof (intro allI impI)
    fix i e assume "bt_get (peer_pending p') i = Some e"
    then have e: "e \<in> set ?B" "event_id e = i" "i \<notin> node_known (peer_node p')" using res(2) by blast+
    then have "batch_map ?B i = Some e" using batch_map_iff [OF uniq'] by simp
    then show "\<not> set (parents (content e)) \<subseteq> node_known (peer_node p')"
      using e(3) closure_ready [of "batch_map ?B" i e] unfolding res(1) by blast
  qed
  show "\<forall>e \<in> set events. holds p' e" using res(2) by (auto simp: holds_def)
  show "holds p' e" if "holds p e" for e
  proof (cases "event_id e \<in> node_known (peer_node p)")
    case True
    then show ?thesis using accept_ok [OF p valid uniq acc] by (auto simp: holds_def)
  next
    case False
    then have "e \<in> set (bt_values (peer_pending p))" using that bt_values_iff [OF ok] by (auto simp: holds_def)
    then show ?thesis using res(2) by (auto simp: holds_def)
  qed
qed

definition session_universe :: "signed_event codec \<Rightarrow> sync_peer \<Rightarrow> sync_message list \<Rightarrow> signed_event set" where
  "session_universe J p ms = peer_universe J p (concat (map message_events ms))"

lemma accept_universe:
  assumes p: "peer_ok C J p" and valid: "\<forall>e \<in> set events. validate_event C e = Inr ()"
    and uniq: "ids_unique (peer_universe J p events)" and acc: "accept C J p events = (Inr ms, p')"
  shows "peer_universe J p' es \<subseteq> peer_universe J p (events @ es)"
proof -
  have ok: "bt_ok (peer_pending p')"
    using accept_ok [OF p valid uniq acc] by (simp add: peer_ok_def pending_ok_def)
  have pend: "e \<in> set (bt_values (peer_pending p) @ events)" if "e \<in> set (bt_values (peer_pending p'))" for e
    using that accept_Inr(2) [OF p valid uniq acc] by (auto simp: bt_values_iff [OF ok])
  have stored: "ran (store_abs J (node_store (peer_node p'))) \<subseteq> peer_universe J p events"
    using acc
  proof (cases rule: accept_cases)
    case (buffered p1)
    then show ?thesis by (auto simp: peer_universe_def)
  next
    case (ingested p1 node r)
    note b = accept_buffered_ok [OF p valid uniq ingested(1,2)]
    have n: "node_ok C J (peer_node p1)" and m: "pending_ok C (peer_community p) (peer_pending p)"
      using b(1) p by (simp_all add: peer_ok_def)
    show ?thesis
      using ingest_frame [OF n b(2) b(3) [OF ingested(3)] ingested(4)] peer_universe_buffer [OF m] ingested(2,5)
      by fastforce
  qed auto
  then show ?thesis using pend by (auto simp: peer_universe_def)
qed

lemma receive_all_settled:
  assumes "receive_all C J S p ms = Inr p'" and "peer_ok C J p" and "ids_unique (session_universe J p ms)"
  shows "peer_ok C J p' \<and> (\<forall>e \<in> set (concat (map message_events ms)). holds p' e) \<and>
    (\<forall>e. holds p e \<longrightarrow> holds p' e) \<and>
    (settled p \<or> concat (map message_events ms) \<noteq> [] \<longrightarrow> settled p')"
  using assms
proof (induction ms arbitrary: p)
  case Nil
  then show ?case by simp
next
  case (Cons m ms)
  obtain ans p1 where rec: "receive C J S p m = (Inr ans, p1)" and rest: "receive_all C J S p1 ms = Inr p'"
    using Cons.prems(1) by (auto split: prod.splits sum.splits)
  from rec show ?case
  proof (cases rule: receive_cases)
    case unchanged
    then show ?thesis using Cons.IH [OF rest] Cons.prems(2,3) by (simp add: session_universe_def)
  next
    case (accepted c events)
    let ?es = "concat (map message_events ms)"
    have uniq: "ids_unique (peer_universe J p (events @ ?es))"
      using Cons.prems(3) accepted(1) by (simp add: session_universe_def)
    have uniq1: "ids_unique (peer_universe J p events)"
      by (rule ids_unique_subset [OF uniq]) (auto simp: peer_universe_def)
    note p = Cons.prems(2) accepted(2) uniq1 accepted(3)
    have "ids_unique (session_universe J p1 ms)"
      unfolding session_universe_def by (rule ids_unique_subset [OF uniq accept_universe [OF p]])
    then have "peer_ok C J p' \<and> (\<forall>e \<in> set ?es. holds p' e) \<and> (\<forall>e. holds p1 e \<longrightarrow> holds p' e) \<and> settled p'"
      using Cons.IH [OF rest] accept_ok [OF p] accept_settled(1) [OF p] by blast
    then show ?thesis using accept_settled(2,3) [OF p] by (auto simp: accepted(1))
  qed
qed

text \<open>
  A settled peer that holds every event of a parent-closed set has stored all of them, unless parents
  run in a circle: a smallest event not stored would be buffered with all its parents stored.
\<close>

lemma settled_stores:
  assumes "settled p" and "\<forall>e \<in> E. holds p e" and "\<forall>e \<in> E. set (parents (content e)) \<subseteq> event_id ` E"
    and wf: "wf (parent_relation E)"
  shows "event_id ` E \<subseteq> node_known (peer_node p)"
proof (rule ccontr)
  let ?S = "event_id ` E - node_known (peer_node p)"
  assume "\<not> event_id ` E \<subseteq> node_known (peer_node p)"
  then have ne: "?S \<noteq> {}" by blast
  obtain i where i: "i \<in> ?S"
    and min: "\<forall>e \<in> E. event_id e = i \<longrightarrow> (\<forall>q \<in> set (parents (content e)). q \<notin> ?S)"
    using parent_minimal [OF wf ne] by (elim bexE)
  obtain e where e: "e \<in> E" "event_id e = i" "i \<notin> node_known (peer_node p)" using i by auto
  then have "bt_get (peer_pending p) i = Some e" using assms(2) by (auto simp: holds_def)
  then obtain q where "q \<in> set (parents (content e))" "q \<notin> node_known (peer_node p)"
    using assms(1) by (auto simp: settled_def)
  then show False using min e assms(3) by blast
qed

end
