(* ===== verification/Sync_Properties.thy ===== *)
theory Sync_Properties
  imports Sync_Peer Demo
begin

text \<open>
  The properties of synchronisation: a peer's invariant, what it does with offered events, its quota,
  its answers, and the convergence of a session.
\<close>

section \<open>A demo peer\<close>

definition demo_sync :: "sync_message codec" where
  "demo_sync = \<lparr>to_vec = (\<lambda>_. Some []), from_slice = (\<lambda>_. None)\<rparr>"

lemma demo_sync_fits [simp]: "fits demo_sync m"
  by (simp add: fits_def demo_sync_def)

lemma demo_sync_small: "small_ids_fit demo_sync"
  by (simp add: small_ids_fit_def)

definition demo_peer :: sync_peer where
  "demo_peer = \<lparr>peer_node = demo_node, peer_community = demo_community, peer_pending = [],
     peer_max_stored_event_bytes = Some 10\<rparr>"

definition demo_full_peer :: sync_peer where
  "demo_full_peer = demo_peer\<lparr>peer_node := demo_full_node\<rparr>"

lemma demo_peer_ok: "peer_ok demo_crypto demo_json demo_peer"
  using demo_node_ok by (simp add: peer_ok_def demo_peer_def pending_ok_def) (simp add: demo_node_def)

lemma demo_full_peer_ok: "peer_ok demo_crypto demo_json demo_full_peer"
  using demo_full_ok by (simp add: peer_ok_def demo_full_peer_def demo_peer_def pending_ok_def)
    (simp add: demo_full_node_def)

lemma demo_peer_unique: "set es \<subseteq> set demo_events \<Longrightarrow> ids_unique (peer_universe demo_json demo_peer es)"
  by (rule ids_unique_subset [OF demo_ids_unique])
    (simp add: peer_universe_def demo_peer_def bt_values_def demo_node_def demo_store_def store_abs_def ran_def)

lemma demo_receive:
  "receive demo_crypto demo_json demo_sync demo_peer
     (Events demo_community [demo_genesis, demo_invite, demo_accept]) = (Inr [], demo_full_peer)"
proof -
  have vals: "bt_values [(EventId 185, demo_genesis), (EventId 247, demo_invite), (EventId 248, demo_accept)] =
    [demo_genesis, demo_invite, demo_accept]" by (simp add: bt_values_def)
  have ing: "ingest demo_crypto demo_json demo_node [demo_genesis, demo_invite, demo_accept] =
     (Inr \<lparr>report_inserted = 3, report_already_present = 0, report_unresolved = []\<rparr>, demo_full_node)"
  proof -
    have "bt_of_list (map (\<lambda>e. (event_id e, e)) [demo_genesis, demo_invite, demo_accept]) =
        bt_of_list (map (\<lambda>e. (event_id e, e)) demo_events)"
      by (simp add: bt_of_list_def less_event_id_def demo_events_def)
    moreover have "ingest_check demo_crypto demo_node [demo_genesis, demo_invite, demo_accept] =
        ingest_check demo_crypto demo_node demo_events"
      by (simp add: ingest_check_def demo_node_def community_id_of_def in_community_def MAX_PENDING_EVENTS_def
          demo_events_def)
    ultimately have "ingest demo_crypto demo_json demo_node [demo_genesis, demo_invite, demo_accept] =
        ingest demo_crypto demo_json demo_node demo_events"
      unfolding ingest_def by (simp only:)
    then show ?thesis using demo_ingest by simp
  qed
  have valid: "validate_message demo_crypto demo_sync
      (Events demo_community [demo_genesis, demo_invite, demo_accept]) = Inr ()"
    by (simp add: validate_events_Inr_iff MAX_EVENTS_PER_MESSAGE_def less_event_id_def)
  have new: "new_ids demo_peer [demo_genesis, demo_invite, demo_accept] = {EventId 185, EventId 247, EventId 248}"
    by (auto simp: new_ids_def is_unknown_def demo_peer_def demo_node_def bt_contains_key_def)
  have chk: "accept_check demo_json demo_peer [demo_genesis, demo_invite, demo_accept]
      {EventId 185, EventId 247, EventId 248} = Inr ()"
    by (simp add: accept_check_def demo_peer_def in_community_def MAX_PENDING_SYNC_EVENTS_def
        node_stored_event_bytes_def stored_event_bytes_def stored_bytes_def demo_node_def demo_store_def
        encoded_event_bytes_def bt_values_def checked_add_u64_def card_insert_if)
  have buf: "buffer_new {EventId 185, EventId 247, EventId 248} [demo_genesis, demo_invite, demo_accept] [] =
      [(EventId 185, demo_genesis), (EventId 247, demo_invite), (EventId 248, demo_accept)]"
    by (simp add: buffer_new_def bt_or_insert_def bt_contains_key_def less_event_id_def)
  have acc: "accept demo_crypto demo_json demo_peer [demo_genesis, demo_invite, demo_accept] = (Inr [], demo_full_peer)"
    unfolding accept_def new chk
    by (simp add: demo_peer_def buf vals can_ingest_def ing Let_def demo_full_peer_def bt_retain_def
        want_missing_def missing_parents_def want_messages_Nil bt_values_def)
      (simp add: demo_full_node_def)
  have "peer_community demo_peer = demo_community" by (simp add: demo_peer_def)
  then show ?thesis unfolding receive_def valid by (simp add: acc)
qed

section \<open>The properties\<close>

text \<open>C14: whatever message a peer receives and whatever the outcome, its invariant holds afterwards: a
  well-formed node of its community, and a bounded buffer of valid events of that community; and nothing
  it knew is lost.\<close>

theorem sync_receive_invariant:
  assumes "peer_ok C J p" and "ids_unique (peer_universe J p (message_events m))"
    and "receive C J S p m = (res, p')"
  shows "peer_ok C J p' \<and> node_known (peer_node p) \<subseteq> node_known (peer_node p')"
  using assms(3)
proof (cases rule: receive_cases)
  case (accepted c events)
  then show ?thesis using accept_ok [OF assms(1) accepted(2) _ accepted(3)] assms(2) by simp
qed (use assms(1) in simp)

theorem sync_receive_invariant_witness:
  "peer_ok demo_crypto demo_json
     (snd (receive demo_crypto demo_json demo_sync demo_peer
        (Events demo_community [demo_genesis, demo_invite, demo_accept])))"
  using sync_receive_invariant [OF demo_peer_ok _ demo_receive] demo_peer_unique [of "[demo_genesis, demo_invite, demo_accept]"]
  by (simp add: demo_receive demo_events_def)

text \<open>C15: a peer that accepts offered events stores exactly those whose ancestry is now complete,
  buffers exactly the others, and asks for exactly the parents it has neither stored nor buffered, in
  identifier order.\<close>

theorem sync_accept_exact:
  assumes "peer_ok C J p" and "ids_unique (peer_universe J p events)"
    and "receive C J S p (Events c events) = (Inr ms, p')"
  shows "node_known (peer_node p') =
      ingest_closure (node_known (peer_node p)) (batch_map (bt_values (peer_pending p) @ events)) \<and>
    (\<forall>i e. bt_get (peer_pending p') i = Some e \<longleftrightarrow>
      e \<in> set (bt_values (peer_pending p) @ events) \<and> event_id e = i \<and> i \<notin> node_known (peer_node p')) \<and>
    concat (map wanted_ids ms) = sorted_list_of_set
      {q. (\<exists>e \<in> set (bt_values (peer_pending p')). q \<in> set (parents (content e))) \<and>
          q \<notin> node_known (peer_node p') \<and> bt_get (peer_pending p') q = None}"
  using assms(3)
proof (cases rule: receive_cases)
  case unchanged
  then have "events = []" by simp
  then show ?thesis
    using assms(3) by (auto simp: receive_def validate_message_def split: sum.splits if_splits)
next
  case (accepted c' events')
  then have eq: "events' = events" by simp
  note acc = accept_Inr [OF assms(1) accepted(2) _ accepted(3), unfolded eq, OF assms(2)]
  have "missing_parents p' = {q. (\<exists>e \<in> set (bt_values (peer_pending p')). q \<in> set (parents (content e))) \<and>
      q \<notin> node_known (peer_node p') \<and> bt_get (peer_pending p') q = None}"
    by (auto simp: missing_parents_def is_unknown_def bt_contains_key_iff)
  then show ?thesis using acc(1,2,3) by (simp add: want_missing_def want_messages_ids)
qed

theorem sync_accept_exact_witness:
  "node_known (peer_node demo_full_peer) =
     ingest_closure (node_known (peer_node demo_peer))
       (batch_map (bt_values (peer_pending demo_peer) @ [demo_genesis, demo_invite, demo_accept]))"
  using sync_accept_exact [OF demo_peer_ok _ demo_receive] demo_peer_unique [of "[demo_genesis, demo_invite, demo_accept]"]
  by (simp add: demo_events_def)

text \<open>Progress: as long as an accepted batch leaves an event in the buffer, the peer asks for at
  least one event it does not have (unless parents run in a circle).\<close>

theorem sync_accept_asks:
  assumes "peer_ok C J p" and "\<forall>e \<in> set events. validate_event C e = Inr ()"
    and "ids_unique (peer_universe J p events)" and "accept C J p events = (Inr ms, p')"
    and "wf (parent_relation (set (bt_values (peer_pending p'))))" and "peer_pending p' \<noteq> []"
  shows "concat (map wanted_ids ms) \<noteq> [] \<and> (\<forall>i \<in> set (concat (map wanted_ids ms)). is_unknown p' i)"
proof -
  have ms: "concat (map wanted_ids ms) = sorted_list_of_set (missing_parents p')"
    using accept_Inr(3) [OF assms(1-4)] by (simp add: want_missing_def want_messages_ids)
  have "finite (missing_parents p')" by (simp add: missing_parents_def)
  moreover have "missing_parents p' \<noteq> {}" using accept_asks [OF assms] by simp
  ultimately show ?thesis unfolding ms by (auto simp: missing_parents_def sorted_list_of_set_eq_Nil_iff)
qed

text \<open>The witness: the invitation arrives before the genesis event.\<close>

definition waiting_peer :: sync_peer where
  "waiting_peer = demo_peer\<lparr>peer_pending := [(EventId 247, demo_invite)]\<rparr>"

theorem sync_accept_asks_witness:
  "\<exists>ms. accept demo_crypto demo_json demo_peer [demo_invite] = (Inr ms, waiting_peer) \<and>
     concat (map wanted_ids ms) \<noteq> []"
proof -
  have new: "new_ids demo_peer [demo_invite] = {EventId 247}"
    by (auto simp: new_ids_def is_unknown_def demo_peer_def demo_node_def bt_contains_key_def)
  have chk: "accept_check demo_json demo_peer [demo_invite] {EventId 247} = Inr ()"
    by (simp add: accept_check_def demo_peer_def in_community_def MAX_PENDING_SYNC_EVENTS_def
        node_stored_event_bytes_def stored_event_bytes_def stored_bytes_def demo_node_def demo_store_def
        encoded_event_bytes_def bt_values_def checked_add_u64_def)
  have "\<not> can_ingest waiting_peer"
    by (simp add: can_ingest_def waiting_peer_def demo_peer_def demo_node_def bt_values_def)
  then have acc: "accept demo_crypto demo_json demo_peer [demo_invite] = (Inr (want_missing waiting_peer), waiting_peer)"
    unfolding accept_def new chk
    by (simp add: Let_def buffer_new_def bt_or_insert_def bt_contains_key_def waiting_peer_def demo_peer_def)
  have pend: "set (bt_values (peer_pending waiting_peer)) = {demo_invite}"
    by (simp add: waiting_peer_def bt_values_def)
  have "parent_relation {demo_invite} = {(EventId 185, EventId 247)}" by (auto simp: parent_relation_def)
  then have "wf (parent_relation (set (bt_values (peer_pending waiting_peer))))"
    unfolding pend by (simp add: wf_insert)
  moreover have "ids_unique (peer_universe demo_json demo_peer [demo_invite])"
    by (rule demo_peer_unique) (simp add: demo_events_def)
  moreover have "peer_pending waiting_peer \<noteq> []" by (simp add: waiting_peer_def)
  ultimately show ?thesis using sync_accept_asks [OF demo_peer_ok _ _ acc] acc by auto
qed

text \<open>C16: the storage quota holds: no message makes a peer with a quota store more event bytes than its
  limit, also when ingestion stops at an error.\<close>

theorem sync_quota_respected:
  assumes "peer_ok C J p" and "ids_unique (peer_universe J p (message_events m))"
    and "receive C J S p m = (res, p')" and "peer_max_stored_event_bytes p = Some limit"
    and "stored_bytes (node_store (peer_node p)) \<le> unat limit"
  shows "stored_bytes (node_store (peer_node p')) \<le> unat limit \<and> peer_max_stored_event_bytes p' = Some limit"
  using assms(3)
proof (cases rule: receive_cases)
  case (accepted c events)
  then show ?thesis using accept_quota [OF assms(1) accepted(2) _ accepted(3) assms(4,5)] assms(2) by simp
qed (use assms(4,5) in simp)

theorem sync_quota_respected_witness:
  "stored_bytes (node_store (peer_node demo_full_peer)) \<le> unat (10 :: u64)"
  using sync_quota_respected [OF demo_peer_ok _ demo_receive, of 10]
    demo_peer_unique [of "[demo_genesis, demo_invite, demo_accept]"]
  by (simp add: demo_events_def demo_peer_def stored_bytes_def demo_node_def demo_store_def)

text \<open>A peer only sends valid messages: every answer to every message validates, within its item
  and size limits, and carries the peer's community.\<close>

theorem sync_answers_valid:
  assumes "peer_ok C J p" and "small_ids_fit S" and "receive C J S p m = (Inr ms, p')" and "a \<in> set ms"
  shows "validate_message C S a = Inr () \<and> message_community a = peer_community p"
  by (rule receive_answers_valid [OF assms])

theorem sync_answers_valid_witness:
  "validate_message demo_crypto demo_sync (Heads demo_community [EventId 248]) = Inr () \<and>
   receive demo_crypto demo_json demo_sync demo_full_peer (hello demo_peer) =
     (Inr [Heads demo_community [EventId 248]], demo_full_peer)"
proof -
  have heads: "heads demo_crypto demo_json demo_full_node = Inr [EventId 248]"
    by (simp add: heads_def demo_full_node_def demo_row_def store_get_def bt_get_def decode_stored_def
        less_eq_event_id_def insert_Diff_if)
  have "validate_message demo_crypto demo_sync (hello demo_peer) = Inr ()"
    by (rule hello_valid [OF demo_sync_small])
  then have "receive demo_crypto demo_json demo_sync demo_full_peer (hello demo_peer) =
      (Inr [Heads demo_community [EventId 248]], demo_full_peer)"
    by (simp add: receive_def hello_def head_messages_def demo_full_peer_def demo_peer_def heads
        chunks_step MAX_IDS_PER_MESSAGE_def)
  then show ?thesis using sync_answers_valid [OF demo_full_peer_ok demo_sync_small] by simp
qed

text \<open>Serving: the messages that answer a request carry, in the order of the request, exactly the
  requested events that are stored; and a request of sorted identifiers is always answered when every
  single stored event fits a message and the store does not fail.\<close>

theorem sync_serve_exact:
  assumes "node_ok C J (peer_node p)" and "codec_total S" and "strictly_sorted ids"
    and "\<forall>j. \<not> sql_fails (node_store (peer_node p)) (SqlSelect j)"
    and "\<forall>e \<in> ran (store_abs J (node_store (peer_node p))). fits S (Events (peer_community p) [e])"
  shows "\<exists>ms. serve C J S p ids = Inr ms \<and>
    concat (map message_events ms) = List.map_filter (store_abs J (node_store (peer_node p))) ids"
proof -
  let ?M = "store_abs J (node_store (peer_node p))"
  let ?es = "List.map_filter ?M ids"
  have ok: "store_ok C J (node_store (peer_node p))" using assms(1) by (simp add: node_ok_def)
  have ev: "node_events C J (peer_node p) ids = Inr ?es"
    using assms(4) by (induction ids) (auto simp: store_get_ok [OF ok] List.map_filter_def split: option.splits)
  have ids: "map event_id ?es = filter (\<lambda>i. ?M i \<noteq> None) ids"
    using store_abs_Some [OF ok] by (induction ids) (auto simp: List.map_filter_def)
  have "strictly_sorted (map event_id ?es)" unfolding ids by (rule strictly_sorted_filter [OF assms(3)])
  moreover have "\<forall>e \<in> set ?es. validate_event C e = Inr () \<and> fits S (Events (peer_community p) [e])"
    using store_abs_Some [OF ok] assms(5) by (auto simp: set_map_filter ran_def)
  ultimately obtain ms where "pack_events C S (peer_community p) ?es = Inr ms"
    using pack_events_total [OF assms(2)] by blast
  then show ?thesis using pack_events_Inr [of C S "peer_community p" ?es] ev by (auto simp: serve_def)
qed

theorem sync_serve_exact_witness:
  "\<exists>ms. serve demo_crypto demo_json demo_sync demo_full_peer [EventId 1, EventId 185, EventId 247] = Inr ms \<and>
     concat (map message_events ms) = [demo_genesis, demo_invite]"
proof -
  have n: "peer_node demo_full_peer = demo_full_node" by (simp add: demo_full_peer_def)
  have "\<exists>ms. serve demo_crypto demo_json demo_sync demo_full_peer [EventId 1, EventId 185, EventId 247] = Inr ms \<and>
      concat (map message_events ms) = List.map_filter (store_abs demo_json (node_store (peer_node demo_full_peer)))
        [EventId 1, EventId 185, EventId 247]"
    by (rule sync_serve_exact)
      (use demo_full_ok in \<open>auto simp: n codec_total_def demo_sync_def less_event_id_def fits_def demo_full_node_def\<close>)
  then show ?thesis by (simp add: n demo_full_abs List.map_filter_def)
qed

text \<open>C17: convergence of a session: a peer that has answered messages which together carry every event
  of another well-formed node, in any order and any packing, knows everything that node knows.\<close>

theorem sync_session_converges:
  assumes "node_ok C J other" and "peer_ok C J p" and "ids_unique (session_universe J p ms)"
    and "receive_all C J S p ms = Inr p'"
    and "\<forall>i \<in> node_known other. \<exists>e \<in> set (concat (map message_events ms)).
      store_abs J (node_store other) i = Some e"
    and "wf (parent_relation (ran (store_abs J (node_store other))))"
  shows "node_known other \<subseteq> node_known (peer_node p')"
proof (cases "node_known other = {}")
  case False
  let ?M = "store_abs J (node_store other)"
  let ?E = "{e. \<exists>i \<in> node_known other. ?M i = Some e}"
  have ok: "store_ok C J (node_store other)" using assms(1) by (simp add: node_ok_def)
  have offered: "\<forall>e \<in> ?E. e \<in> set (concat (map message_events ms))" using assms(5) by fastforce
  have ids: "event_id ` ?E = node_known other"
  proof
    show "event_id ` ?E \<subseteq> node_known other" using store_abs_Some [OF ok] by auto
    show "node_known other \<subseteq> event_id ` ?E"
    proof
      fix i assume i: "i \<in> node_known other"
      then obtain e where e: "?M i = Some e" using assms(1) unfolding node_ok_def by blast
      then have "event_id e = i" "e \<in> ?E" using store_abs_Some [OF ok] i by auto
      then show "i \<in> event_id ` ?E" by blast
    qed
  qed
  have closed: "\<forall>e \<in> ?E. set (parents (content e)) \<subseteq> event_id ` ?E"
    unfolding ids using assms(1) by (fastforce simp: node_ok_def)
  have "parent_relation ?E \<subseteq> parent_relation (ran ?M)" by (auto simp: parent_relation_def ran_def)
  then have wf: "wf (parent_relation ?E)" by (rule wf_subset [OF assms(6)])
  have "concat (map message_events ms) \<noteq> []" using False assms(5) by auto
  then have "settled p'" "\<forall>e \<in> ?E. holds p' e"
    using receive_all_settled [OF assms(4,2,3)] offered by auto
  then show ?thesis using settled_stores [OF _ _ closed wf, of p'] ids by simp
qed simp

theorem sync_session_converges_witness:
  "node_known demo_full_node \<subseteq> node_known (peer_node demo_full_peer)"
proof -
  let ?ms = "[Events demo_community [demo_genesis, demo_invite, demo_accept]]"
  have all: "receive_all demo_crypto demo_json demo_sync demo_peer ?ms = Inr demo_full_peer"
    by (simp add: demo_receive)
  have "wf {(EventId 185, EventId 247), (EventId 247, EventId 248)}"
    by (auto simp: wf_insert rtrancl_insert)
  then have "wf (parent_relation (ran (store_abs demo_json (node_store demo_full_node))))"
    by (rule wf_subset) (auto simp: parent_relation_def demo_full_abs ran_map_upd)
  moreover have "ids_unique (session_universe demo_json demo_peer ?ms)"
    unfolding session_universe_def by (rule demo_peer_unique) (simp add: demo_events_def)
  ultimately show ?thesis
    by (intro sync_session_converges [OF demo_full_ok demo_peer_ok _ all])
      (auto simp: demo_full_abs, auto simp: demo_full_node_def)
qed

text \<open>A message that \<open>to_json\<close> encodes is read back by \<open>parse_json\<close> and validates: both ends
  enforce the same limits.\<close>

theorem sync_message_roundtrip:
  assumes "codec_lossless S" and "sync_to_json C S m = Inr bs"
  shows "res_bind (sync_parse_json S bs) (parsed_message_validate C S) = Inr m"
  by (rule sync_json_roundtrip [OF assms])

theorem sync_message_roundtrip_witness:
  "res_bind (sync_parse_json (table_codec [(hello demo_peer, [5])]) [5])
     (parsed_message_validate demo_crypto (table_codec [(hello demo_peer, [5])])) = Inr (hello demo_peer)"
proof (rule sync_message_roundtrip)
  show "codec_lossless (table_codec [(hello demo_peer, [5])])" by (rule table_codec_lossless) simp
  show "sync_to_json demo_crypto (table_codec [(hello demo_peer, [5])]) (hello demo_peer) = Inr [5]"
    by (simp add: sync_to_json_Inr_iff validate_message_Inr_iff fits_def table_codec_def hello_def
        MAX_VERSIONS_def MAX_SYNC_JSON_BYTES_def)
qed

end
