(* ===== verification/Auth.thy ===== *)
theory Auth
  imports Protocol
begin

text \<open>
  \<open>crates/sync/src/auth.rs\<close>: device identities, device certificates and revocations.

  A user key signs the public keys of the user's devices; a device key is the libp2p key of a node,
  so that the transport authenticates the device and the certificate ties it to the user.

  libp2p is not part of the repository.  A \<open>PeerId\<close> is identified with its bytes (\<open>to_bytes\<close>);
  the functions of \<open>libp2p::identity\<close> that the code calls are the fields of the parameter
  \<open>libp2p\<close>, with \<open>'k\<close> the type of its key pairs, and \<open>libp2p_keys\<close> states the documented behaviour
  the code relies on: an ed25519 seed gives a key pair whose public key is the ed25519 public key of
  the seed, such a public key is read back from its bytes, and peer identifiers of ed25519 keys embed
  the key.

  The lemmas show that the signed bytes determine what is signed (so a certificate cannot be replayed
  as a revocation or for another device), that created certificates and revocations validate, and
  that a validated certificate names the user and the device whose keys it carries.
\<close>

section \<open>Peer and device identities\<close>

datatype peer_id = PeerId (peer_to_bytes: bytes)

record 'k libp2p =
  ed25519_from_bytes :: "arr32 \<Rightarrow> 'k option"       \<comment> \<open>\<open>Keypair::ed25519_from_bytes(seed).ok()\<close>\<close>
  keypair_ed25519 :: "'k \<Rightarrow> arr32 option"          \<comment> \<open>\<open>keypair.public().try_into_ed25519().map(to_bytes).ok()\<close>\<close>
  keypair_peer :: "'k \<Rightarrow> peer_id"                  \<comment> \<open>\<open>keypair.public().to_peer_id()\<close>\<close>
  ed25519_key :: "bytes \<Rightarrow> arr32 option"           \<comment> \<open>\<open>ed25519::PublicKey::try_from_bytes(bytes).ok()\<close>\<close>
  ed25519_peer :: "arr32 \<Rightarrow> peer_id"               \<comment> \<open>\<open>PublicKey::from(key).to_peer_id()\<close>\<close>

definition libp2p_keys :: "crypto \<Rightarrow> 'k libp2p \<Rightarrow> bool" where
  "libp2p_keys C L \<longleftrightarrow>
     (\<forall>seed. \<exists>k. ed25519_from_bytes L seed = Some k \<and> keypair_ed25519 L k = Some (ed_public_key C seed)) \<and>
     (\<forall>k pk. keypair_ed25519 L k = Some pk \<longrightarrow>
        ed25519_key L (arr32_bytes pk) = Some pk \<and> keypair_peer L k = ed25519_peer L pk) \<and>
     (\<forall>bs pk. ed25519_key L bs = Some pk \<longrightarrow> bs = arr32_bytes pk) \<and>
     inj (ed25519_peer L)"

definition DEVICE_AUTH_VERSION :: u16 where
  "DEVICE_AUTH_VERSION = 1"

datatype device_id = DeviceId (device_word: arr32)

instantiation device_id :: linorder
begin
definition less_eq_device_id :: "device_id \<Rightarrow> device_id \<Rightarrow> bool" where
  "less_eq_device_id a b = (device_word a \<le> device_word b)"
definition less_device_id :: "device_id \<Rightarrow> device_id \<Rightarrow> bool" where
  "less_device_id a b = (device_word a < device_word b)"
instance
  by intro_classes (auto simp: less_eq_device_id_def less_device_id_def device_id.expand)
end

definition device_from_public_key :: "crypto \<Rightarrow> arr32 \<Rightarrow> device_id" where
  "device_from_public_key C pk =
     DeviceId (blake3 C (string_bytes ''chatcommons:device-id:v1'' @ [0] @ arr32_bytes pk))"

definition device_bytes :: "device_id \<Rightarrow> bytes" where
  "device_bytes d = arr32_bytes (device_word d)"

datatype auth_error =
    AuthUnsupportedVersion
  | InvalidDeviceKey
  | AuthPublicKeyLength
  | AuthSignatureLength
  | AuthInvalidSignature
  | Revoked

record 'k device_identity =
  device_keypair :: 'k
  device_key :: arr32

definition device_from_keypair :: "'k libp2p \<Rightarrow> 'k \<Rightarrow> auth_error + 'k device_identity" where
  "device_from_keypair L k =
     res_bind (ok_or (keypair_ed25519 L k) InvalidDeviceKey) (\<lambda>pk.
     Inr \<lparr>device_keypair = k, device_key = pk\<rparr>)"

definition device_from_seed :: "'k libp2p \<Rightarrow> arr32 \<Rightarrow> auth_error + 'k device_identity" where
  "device_from_seed L seed =
     res_bind (ok_or (ed25519_from_bytes L seed) InvalidDeviceKey) (device_from_keypair L)"

definition device_identity_id :: "crypto \<Rightarrow> 'k device_identity \<Rightarrow> device_id" where
  "device_identity_id C d = device_from_public_key C (device_key d)"

definition device_peer :: "'k libp2p \<Rightarrow> 'k device_identity \<Rightarrow> peer_id" where
  "device_peer L d = keypair_peer L (device_keypair d)"


section \<open>Certificates and revocations\<close>

record device_certificate =
  cert_version :: u16
  cert_user_key :: bytes
  cert_device_key :: bytes
  cert_issued_at :: i64
  cert_signature :: bytes

record device_revocation =
  rev_version :: u16
  rev_user_key :: bytes
  rev_device :: device_id
  rev_issued_at :: i64
  rev_signature :: bytes

record authenticated_device =
  auth_user :: user_id
  auth_device :: device_id

definition certificate_bytes :: "device_certificate \<Rightarrow> bytes" where
  "certificate_bytes c =
     string_bytes ''chatcommons:device-certificate:v1'' @ [0] @
     u16_be (cert_version c) @ cert_user_key c @ cert_device_key c @ i64_be (cert_issued_at c)"

definition revocation_bytes :: "device_revocation \<Rightarrow> bytes" where
  "revocation_bytes r =
     string_bytes ''chatcommons:device-revocation:v1'' @ [0] @
     u16_be (rev_version r) @ rev_user_key r @ device_bytes (rev_device r) @ i64_be (rev_issued_at r)"

definition validate_version_and_lengths ::
  "u16 \<Rightarrow> bytes \<Rightarrow> bytes option \<Rightarrow> bytes \<Rightarrow> auth_error + unit" where
  "validate_version_and_lengths version user_key device sig =
     (if version \<noteq> DEVICE_AUTH_VERSION then Inl AuthUnsupportedVersion
      else if length user_key \<noteq> PUBLIC_KEY_LEN \<or>
              (case device of None \<Rightarrow> False | Some key \<Rightarrow> length key \<noteq> PUBLIC_KEY_LEN)
      then Inl AuthPublicKeyLength
      else if length sig \<noteq> SIGNATURE_LEN then Inl AuthSignatureLength
      else Inr ())"

definition create_device_certificate ::
  "crypto \<Rightarrow> identity \<Rightarrow> 'k device_identity \<Rightarrow> i64 \<Rightarrow> device_certificate" where
  "create_device_certificate C user device issued_at =
     (let c = \<lparr>cert_version = DEVICE_AUTH_VERSION,
               cert_user_key = arr32_bytes (identity_public_key C user),
               cert_device_key = arr32_bytes (device_key device),
               cert_issued_at = issued_at, cert_signature = []\<rparr>
      in c\<lparr>cert_signature := arr64_bytes (identity_sign C user (certificate_bytes c))\<rparr>)"

definition validate_device_certificate ::
  "crypto \<Rightarrow> device_certificate \<Rightarrow> auth_error + authenticated_device" where
  "validate_device_certificate C c =
     res_bind (validate_version_and_lengths (cert_version c) (cert_user_key c)
                 (Some (cert_device_key c)) (cert_signature c)) (\<lambda>_.
     res_bind (map_err (\<lambda>_. AuthInvalidSignature)
                 (verify C (cert_user_key c) (certificate_bytes c) (cert_signature c))) (\<lambda>_.
     res_bind (ok_or (to_arr32 (cert_user_key c)) AuthPublicKeyLength) (\<lambda>user_key.
     res_bind (ok_or (to_arr32 (cert_device_key c)) AuthPublicKeyLength) (\<lambda>device_key.
     Inr \<lparr>auth_user = user_from_public_key C user_key,
          auth_device = device_from_public_key C device_key\<rparr>))))"

definition peer_id_from_certificate ::
  "crypto \<Rightarrow> 'k libp2p \<Rightarrow> device_certificate \<Rightarrow> auth_error + peer_id" where
  "peer_id_from_certificate C L c =
     res_bind (validate_device_certificate C c) (\<lambda>_.
     res_bind (ok_or (ed25519_key L (cert_device_key c)) InvalidDeviceKey) (\<lambda>pk.
     Inr (ed25519_peer L pk)))"

definition create_device_revocation ::
  "crypto \<Rightarrow> identity \<Rightarrow> device_id \<Rightarrow> i64 \<Rightarrow> device_revocation" where
  "create_device_revocation C user device issued_at =
     (let r = \<lparr>rev_version = DEVICE_AUTH_VERSION,
               rev_user_key = arr32_bytes (identity_public_key C user),
               rev_device = device, rev_issued_at = issued_at, rev_signature = []\<rparr>
      in r\<lparr>rev_signature := arr64_bytes (identity_sign C user (revocation_bytes r))\<rparr>)"

definition validate_device_revocation :: "crypto \<Rightarrow> device_revocation \<Rightarrow> auth_error + user_id" where
  "validate_device_revocation C r =
     res_bind (validate_version_and_lengths (rev_version r) (rev_user_key r) None (rev_signature r)) (\<lambda>_.
     res_bind (map_err (\<lambda>_. AuthInvalidSignature)
                 (verify C (rev_user_key r) (revocation_bytes r) (rev_signature r))) (\<lambda>_.
     res_bind (ok_or (to_arr32 (rev_user_key r)) AuthPublicKeyLength) (\<lambda>pk.
     Inr (user_from_public_key C pk))))"

text \<open>\<open>RevocationSet\<close>: a \<open>BTreeSet<(UserId, DeviceId)>\<close>; \<open>apply\<close> leaves it unchanged on an error.\<close>

type_synonym revocation_set = "(user_id \<times> device_id) set"

definition revocation_apply ::
  "crypto \<Rightarrow> device_revocation \<Rightarrow> revocation_set \<Rightarrow> (auth_error + unit) \<times> revocation_set" where
  "revocation_apply C r entries =
     (case validate_device_revocation C r of
        Inl e \<Rightarrow> (Inl e, entries)
      | Inr u \<Rightarrow> (Inr (), insert (u, rev_device r) entries))"

definition revocation_contains :: "revocation_set \<Rightarrow> user_id \<Rightarrow> device_id \<Rightarrow> bool" where
  "revocation_contains entries u d \<longleftrightarrow> (u, d) \<in> entries"


section \<open>What is signed\<close>

lemma device_bytes_inject [simp]: "device_bytes a = device_bytes b \<longleftrightarrow> a = b"
  by (cases a; cases b) (simp add: device_bytes_def)

lemma length_device_bytes [simp]: "length (device_bytes d) = 32"
  by (simp add: device_bytes_def)

text \<open>Certificates with keys of the right length sign distinct bytes unless they agree.\<close>

lemma certificate_bytes_inject:
  assumes "certificate_bytes c = certificate_bytes d"
    and "length (cert_user_key c) = PUBLIC_KEY_LEN" and "length (cert_user_key d) = PUBLIC_KEY_LEN"
    and "length (cert_device_key c) = PUBLIC_KEY_LEN" and "length (cert_device_key d) = PUBLIC_KEY_LEN"
  shows "d\<lparr>cert_signature := cert_signature c\<rparr> = c"
  using assms by (cases c; cases d) (auto simp: certificate_bytes_def)

lemma revocation_bytes_inject:
  assumes "revocation_bytes c = revocation_bytes d"
    and "length (rev_user_key c) = PUBLIC_KEY_LEN" and "length (rev_user_key d) = PUBLIC_KEY_LEN"
  shows "d\<lparr>rev_signature := rev_signature c\<rparr> = c"
  using assms by (cases c; cases d) (auto simp: revocation_bytes_def)

text \<open>The two domains differ in the byte after \<open>chatcommons:device-\<close>.\<close>

lemma certificate_not_revocation: "certificate_bytes c \<noteq> revocation_bytes r"
  by (simp add: certificate_bytes_def revocation_bytes_def string_bytes_def)


section \<open>Validation\<close>

lemma validate_version_and_lengths_Inr_iff [res_simps]:
  "validate_version_and_lengths v u d s = Inr x \<longleftrightarrow>
     v = DEVICE_AUTH_VERSION \<and> length u = PUBLIC_KEY_LEN \<and>
     (\<forall>k. d = Some k \<longrightarrow> length k = PUBLIC_KEY_LEN) \<and> length s = SIGNATURE_LEN"
  by (cases d) (auto simp: validate_version_and_lengths_def)

lemma to_arr32_PUBLIC_KEY_LEN: "to_arr32 bs = Some k \<Longrightarrow> length bs = PUBLIC_KEY_LEN"
  by (simp add: PUBLIC_KEY_LEN_def to_arr32_length)

lemma to_arr64_SIGNATURE_LEN: "to_arr64 bs = Some k \<Longrightarrow> length bs = SIGNATURE_LEN"
  by (simp add: SIGNATURE_LEN_def to_arr64_length)

lemma validate_device_certificate_Inr_iff [res_simps]:
  "validate_device_certificate C c = Inr a \<longleftrightarrow>
     (\<exists>u d s. cert_version c = DEVICE_AUTH_VERSION \<and>
        to_arr32 (cert_user_key c) = Some u \<and> to_arr32 (cert_device_key c) = Some d \<and>
        to_arr64 (cert_signature c) = Some s \<and>
        ed_key_ok C u \<and> ed_verify C u (certificate_bytes c) s \<and>
        a = \<lparr>auth_user = user_from_public_key C u, auth_device = device_from_public_key C d\<rparr>)"
  by (auto simp: validate_device_certificate_def res_simps
      dest: to_arr32_PUBLIC_KEY_LEN to_arr64_SIGNATURE_LEN)

lemma validate_device_revocation_Inr_iff [res_simps]:
  "validate_device_revocation C r = Inr a \<longleftrightarrow>
     (\<exists>u s. rev_version r = DEVICE_AUTH_VERSION \<and>
        to_arr32 (rev_user_key r) = Some u \<and> to_arr64 (rev_signature r) = Some s \<and>
        ed_key_ok C u \<and> ed_verify C u (revocation_bytes r) s \<and>
        a = user_from_public_key C u)"
  by (auto simp: validate_device_revocation_def res_simps
      dest: to_arr32_PUBLIC_KEY_LEN to_arr64_SIGNATURE_LEN)

lemma peer_id_from_certificate_Inr_iff [res_simps]:
  "peer_id_from_certificate C L c = Inr p \<longleftrightarrow>
     (\<exists>a pk. validate_device_certificate C c = Inr a \<and> ed25519_key L (cert_device_key c) = Some pk \<and>
        p = ed25519_peer L pk)"
  by (auto simp: peer_id_from_certificate_def res_simps simp del: validate_device_certificate_Inr_iff)

text \<open>Signing ignores the signature field.\<close>

lemma certificate_bytes_signature [simp]:
  "certificate_bytes (c\<lparr>cert_signature := s\<rparr>) = certificate_bytes c"
  by (simp add: certificate_bytes_def)

lemma revocation_bytes_signature [simp]:
  "revocation_bytes (r\<lparr>rev_signature := s\<rparr>) = revocation_bytes r"
  by (simp add: revocation_bytes_def)

lemma create_device_certificate_valid:
  assumes "ed25519_correct C"
  shows "validate_device_certificate C (create_device_certificate C user device t) =
    Inr \<lparr>auth_user = identity_user_id C user, auth_device = device_identity_id C device\<rparr>"
  using assms
  by (auto simp: validate_device_certificate_Inr_iff create_device_certificate_def Let_def
      certificate_bytes_def identity_user_id_def identity_public_key_def identity_sign_def
      device_identity_id_def ed25519_correct_def)

lemma create_device_revocation_valid:
  assumes "ed25519_correct C"
  shows "validate_device_revocation C (create_device_revocation C user d t) = Inr (identity_user_id C user)"
  using assms
  by (auto simp: validate_device_revocation_Inr_iff create_device_revocation_def Let_def
      revocation_bytes_def identity_user_id_def identity_public_key_def identity_sign_def
      ed25519_correct_def)

lemma device_from_seed_ok:
  assumes "libp2p_keys C L"
  shows "\<exists>d. device_from_seed L seed = Inr d \<and> device_key d = ed_public_key C seed \<and>
    device_peer L d = ed25519_peer L (ed_public_key C seed)"
proof -
  obtain k where k: "ed25519_from_bytes L seed = Some k" "keypair_ed25519 L k = Some (ed_public_key C seed)"
    using assms unfolding libp2p_keys_def by blast
  moreover have "keypair_peer L k = ed25519_peer L (ed_public_key C seed)"
    using assms k(2) by (auto simp: libp2p_keys_def)
  ultimately show ?thesis
    by (simp add: device_from_seed_def device_from_keypair_def device_peer_def)
qed

text \<open>
  Two valid certificates for one peer identifier certify the same device key, hence the same device.
\<close>

lemma peer_id_from_certificate_device:
  assumes L: "libp2p_keys C L"
    and "peer_id_from_certificate C L c = Inr p" and "peer_id_from_certificate C L d = Inr p"
  shows "cert_device_key c = cert_device_key d"
proof -
  obtain k l where k: "ed25519_key L (cert_device_key c) = Some k" "p = ed25519_peer L k"
    and l: "ed25519_key L (cert_device_key d) = Some l" "p = ed25519_peer L l"
    using assms(2,3) by (auto simp: peer_id_from_certificate_Inr_iff)
  have "k = l" using L k(2) l(2) by (simp add: libp2p_keys_def inj_def)
  moreover have "cert_device_key c = arr32_bytes k" "cert_device_key d = arr32_bytes l"
    using L k(1) l(1) by (simp_all add: libp2p_keys_def)
  ultimately show ?thesis by simp
qed

lemma revocation_apply_contains:
  "revocation_contains (snd (revocation_apply C r entries)) u d \<longleftrightarrow>
     revocation_contains entries u d \<or>
     validate_device_revocation C r = Inr u \<and> d = rev_device r"
  by (cases "validate_device_revocation C r") (auto simp: revocation_apply_def revocation_contains_def)

lemma revocation_apply_mono: "entries \<subseteq> snd (revocation_apply C r entries)"
  by (auto simp: revocation_apply_def split: sum.splits)

end
