(* ===== verification/Bootstrap.thy ===== *)
theory Bootstrap
  imports Auth
begin

text \<open>
  \<open>crates/sync/src/bootstrap.rs\<close>: the one-line code that carries an invitation and the address of the
  inviting node, and the bytes a newcomer signs to prove possession of the invitation.

  A \<open>Multiaddr\<close> is the list of its protocols; the protocols the code tells apart are constructors and
  every other protocol is \<open>OtherProtocol\<close> with its textual form.  The textual forms of peer
  identifiers and addresses, base64url and \<open>serde_json\<close> are not part of the repository: they are the
  fields of the parameter \<open>bootstrap_codecs\<close>, and \<open>bootstrap_codecs_ok\<close> states that reading undoes
  writing.

  The lemmas show that a code made by \<open>create_code\<close> parses and validates to what it was made from,
  which addresses a code may carry, and that the bytes of a possession proof determine everything the
  proof is about.
\<close>

section \<open>Addresses\<close>

datatype protocol =
    Tcp u16
  | Udp u16
  | QuicV1
  | P2p peer_id
  | P2pCircuit
  | OtherProtocol string

type_synonym multiaddr = "protocol list"

primrec is_tcp :: "protocol \<Rightarrow> bool" where
  "is_tcp (Tcp _) = True"
| "is_tcp (Udp _) = False"
| "is_tcp QuicV1 = False"
| "is_tcp (P2p _) = False"
| "is_tcp P2pCircuit = False"
| "is_tcp (OtherProtocol _) = False"

primrec is_udp :: "protocol \<Rightarrow> bool" where
  "is_udp (Tcp _) = False"
| "is_udp (Udp _) = True"
| "is_udp QuicV1 = False"
| "is_udp (P2p _) = False"
| "is_udp P2pCircuit = False"
| "is_udp (OtherProtocol _) = False"

primrec is_p2p :: "protocol \<Rightarrow> bool" where
  "is_p2p (Tcp _) = False"
| "is_p2p (Udp _) = False"
| "is_p2p QuicV1 = False"
| "is_p2p (P2p _) = True"
| "is_p2p P2pCircuit = False"
| "is_p2p (OtherProtocol _) = False"

text \<open>\<open>protocols.iter().enumerate().filter_map(|(i, p)| f(p).then_some(i)).collect()\<close>\<close>

definition positions :: "('a \<Rightarrow> bool) \<Rightarrow> 'a list \<Rightarrow> nat list" where
  "positions f xs = map fst (filter (\<lambda>(i, x). f x) (enumerate 0 xs))"

section \<open>Codes\<close>

definition BOOTSTRAP_VERSION :: u16 where
  "BOOTSTRAP_VERSION = 1"

definition CODE_PREFIX :: string where
  "CODE_PREFIX = ''cc1_''"

definition MAX_CODE_PACKAGE_BYTES :: nat where
  "MAX_CODE_PACKAGE_BYTES = 4 * 1024"

definition MAX_BOOTSTRAP_ENVELOPE_BYTES :: nat where
  "MAX_BOOTSTRAP_ENVELOPE_BYTES = 8 * 1024"

definition MAX_BOOTSTRAP_CODE_CHARS :: nat where
  "MAX_BOOTSTRAP_CODE_CHARS = 12 * 1024"

definition BOOTSTRAP_NONCE_BYTES :: nat where
  "BOOTSTRAP_NONCE_BYTES = 32"

record bootstrap_envelope =
  env_version :: u16
  env_invite_package :: bytes
  env_peer_id :: string
  env_address :: string

record validated_bootstrap =
  boot_invite_package :: bytes
  boot_peer_id :: peer_id
  boot_address :: multiaddr

datatype bootstrap_error =
    CodeTooLarge
  | InvalidPrefix
  | InvalidBase64
  | EnvelopeTooLarge
  | BootstrapJson
  | BootstrapUnsupportedVersion
  | InvalidInvitePackage
  | InvalidPeerId
  | InvalidAddress

record bootstrap_codecs =
  envelope_json :: "bootstrap_envelope codec"
  base64_encode :: "bytes \<Rightarrow> string"              \<comment> \<open>\<open>URL_SAFE_NO_PAD.encode\<close>\<close>
  base64_decode :: "string \<Rightarrow> bytes option"       \<comment> \<open>\<open>URL_SAFE_NO_PAD.decode(..).ok()\<close>\<close>
  peer_to_string :: "peer_id \<Rightarrow> string"
  peer_from_str :: "string \<Rightarrow> peer_id option"
  address_to_string :: "multiaddr \<Rightarrow> string"
  address_from_str :: "string \<Rightarrow> multiaddr option"

definition bootstrap_codecs_ok :: "bootstrap_codecs \<Rightarrow> bool" where
  "bootstrap_codecs_ok B \<longleftrightarrow>
     codec_lossless (envelope_json B) \<and>
     (\<forall>bs. base64_decode B (base64_encode B bs) = Some bs) \<and>
     (\<forall>p. peer_from_str B (peer_to_string B p) = Some p) \<and>
     (\<forall>a. address_from_str B (address_to_string B a) = Some a)"

definition direct_quic :: "multiaddr \<Rightarrow> bool" where
  "direct_quic protocols \<longleftrightarrow>
     positions is_p2p protocols = [] \<and> positions (\<lambda>p. p = P2pCircuit) protocols = [] \<and>
     (protocols \<noteq> [] \<and> last protocols = QuicV1) \<and> list_ex is_udp protocols"

definition relay_route :: "multiaddr \<Rightarrow> bool" where
  "relay_route protocols \<longleftrightarrow>
     (let peers = positions is_p2p protocols;
          circuits = positions (\<lambda>p. p = P2pCircuit) protocols in
      length peers = 1 \<and> length circuits = 1 \<and>
      circuits ! 0 + 1 = length protocols \<and> peers ! 0 + 1 = circuits ! 0 \<and>
      (list_ex is_tcp (take (peers ! 0) protocols) \<or>
       list_ex is_udp (take (peers ! 0) protocols) \<and>
       list_ex (\<lambda>p. p = QuicV1) (take (peers ! 0) protocols)))"

definition validate_address :: "multiaddr \<Rightarrow> bootstrap_error + unit" where
  "validate_address address =
     (if address = [] then Inl InvalidAddress
      else if direct_quic address \<or> relay_route address then Inr ()
      else Inl InvalidAddress)"

definition create_code ::
  "bootstrap_codecs \<Rightarrow> bytes \<Rightarrow> peer_id \<Rightarrow> multiaddr \<Rightarrow> bootstrap_error + string" where
  "create_code B invite_package peer address =
     (if invite_package = [] \<or> length invite_package > MAX_CODE_PACKAGE_BYTES
      then Inl InvalidInvitePackage
      else
        res_bind (validate_address address) (\<lambda>_.
        let envelope = \<lparr>env_version = BOOTSTRAP_VERSION, env_invite_package = invite_package,
                        env_peer_id = peer_to_string B peer,
                        env_address = address_to_string B address\<rparr> in
        res_bind (ok_or (to_vec (envelope_json B) envelope) BootstrapJson) (\<lambda>encoded.
        if length encoded > MAX_BOOTSTRAP_ENVELOPE_BYTES then Inl EnvelopeTooLarge
        else
          let code = CODE_PREFIX @ base64_encode B encoded in
          if length code > MAX_BOOTSTRAP_CODE_CHARS then Inl CodeTooLarge
          else Inr code)))"

text \<open>\<open>str::strip_prefix\<close>\<close>

definition strip_prefix :: "'a list \<Rightarrow> 'a list \<Rightarrow> 'a list option" where
  "strip_prefix pre xs = (if take (length pre) xs = pre then Some (drop (length pre) xs) else None)"

definition parse_code :: "bootstrap_codecs \<Rightarrow> string \<Rightarrow> bootstrap_error + bootstrap_envelope" where
  "parse_code B code =
     (if length code > MAX_BOOTSTRAP_CODE_CHARS then Inl CodeTooLarge
      else
        res_bind (ok_or (strip_prefix CODE_PREFIX code) InvalidPrefix) (\<lambda>payload.
        res_bind (ok_or (base64_decode B payload) InvalidBase64) (\<lambda>bs.
        if length bs > MAX_BOOTSTRAP_ENVELOPE_BYTES then Inl EnvelopeTooLarge
        else ok_or (from_slice (envelope_json B) bs) BootstrapJson)))"

definition validate_envelope ::
  "bootstrap_codecs \<Rightarrow> bootstrap_envelope \<Rightarrow> bootstrap_error + validated_bootstrap" where
  "validate_envelope B e =
     (if env_version e \<noteq> BOOTSTRAP_VERSION then Inl BootstrapUnsupportedVersion
      else if env_invite_package e = [] \<or> length (env_invite_package e) > MAX_CODE_PACKAGE_BYTES
      then Inl InvalidInvitePackage
      else
        res_bind (ok_or (peer_from_str B (env_peer_id e)) InvalidPeerId) (\<lambda>peer.
        res_bind (ok_or (address_from_str B (env_address e)) InvalidAddress) (\<lambda>address.
        res_bind (validate_address address) (\<lambda>_.
        Inr \<lparr>boot_invite_package = env_invite_package e, boot_peer_id = peer,
             boot_address = address\<rparr>))))"

definition possession_proof_bytes ::
  "crypto \<Rightarrow> community_id \<Rightarrow> event_id \<Rightarrow> user_id \<Rightarrow> device_id \<Rightarrow> peer_id \<Rightarrow> peer_id \<Rightarrow> arr32 \<Rightarrow> bytes" where
  "possession_proof_bytes C community invn invitee device client_peer server_peer nonce =
     string_bytes ''chatcommons:bootstrap-possession:v1'' @ [0] @
     community_bytes community @ event_bytes invn @ user_bytes invitee @ device_bytes device @
     arr32_bytes (blake3 C (peer_to_bytes client_peer)) @
     arr32_bytes (blake3 C (peer_to_bytes server_peer)) @
     arr32_bytes nonce"


section \<open>Positions and address shapes\<close>

lemma positions_Nil [simp]: "positions f [] = []"
  by (simp add: positions_def)

lemma enumerate_append: "enumerate n (xs @ ys) = enumerate n xs @ enumerate (n + length xs) ys"
  by (induction xs arbitrary: n) auto

lemma positions_snoc [simp]:
  "positions f (xs @ [x]) = positions f xs @ (if f x then [length xs] else [])"
  by (simp add: positions_def enumerate_append)

lemma positions_empty_iff: "positions f xs = [] \<longleftrightarrow> (\<forall>x \<in> set xs. \<not> f x)"
  by (induction xs rule: rev_induct) auto

lemma positions_emptyI: "\<forall>x \<in> set xs. \<not> f x \<Longrightarrow> positions f xs = []"
  by (simp add: positions_empty_iff)

lemma positions_less: "i \<in> set (positions f xs) \<Longrightarrow> i < length xs"
  by (induction xs rule: rev_induct) (auto split: if_splits)

text \<open>The only position of a property is the last one.\<close>

lemma positions_only_last:
  "length (positions f (xs @ [x])) = 1 \<and> positions f (xs @ [x]) ! 0 = length xs \<longleftrightarrow>
     f x \<and> (\<forall>y \<in> set xs. \<not> f y)"
proof (cases "f x")
  case True
  then show ?thesis
    unfolding positions_empty_iff [symmetric] by (cases "positions f xs") simp_all
next
  case False
  have "positions f xs ! 0 \<noteq> length xs" if "length (positions f xs) = 1"
    using positions_less [of "positions f xs ! 0" f xs] that by (metis less_irrefl nth_mem zero_less_one)
  then show ?thesis using False by auto
qed

lemma direct_quic_iff:
  "direct_quic a \<longleftrightarrow>
     (\<exists>base. a = base @ [QuicV1] \<and> (\<forall>p \<in> set base. \<not> is_p2p p \<and> p \<noteq> P2pCircuit) \<and> list_ex is_udp base)"
  by (cases a rule: rev_cases) (auto simp: direct_quic_def list_ex_iff positions_empty_iff)

lemma relay_route_iff:
  "relay_route a \<longleftrightarrow>
     (\<exists>base relay. a = base @ [P2p relay, P2pCircuit] \<and>
        (\<forall>p \<in> set base. \<not> is_p2p p \<and> p \<noteq> P2pCircuit) \<and>
        (list_ex is_tcp base \<or> list_ex is_udp base \<and> list_ex (\<lambda>p. p = QuicV1) base))"
    (is "_ \<longleftrightarrow> ?shape a")
proof
  assume r: "relay_route a"
  let ?peers = "positions is_p2p a" and ?circuits = "positions (\<lambda>p. p = P2pCircuit) a"
  have len: "length ?peers = 1" "length ?circuits = 1"
    and at: "?circuits ! 0 + 1 = length a" "?peers ! 0 + 1 = ?circuits ! 0"
    using r by (auto simp: relay_route_def Let_def)
  have "length a = Suc (Suc (?peers ! 0))" using at by simp
  then obtain base q p where a: "a = (base @ [q]) @ [p]" and base: "length base = ?peers ! 0"
    by (metis (no_types, lifting) length_Suc_conv_rev)
  have p: "p = P2pCircuit" "\<forall>x \<in> set (base @ [q]). x \<noteq> P2pCircuit"
    using positions_only_last [of "\<lambda>p. p = P2pCircuit" "base @ [q]" p] len(2) at(1) by (simp_all add: a)
  have peers: "?peers = positions is_p2p (base @ [q])"
    using p(1) by (simp only: a positions_snoc [of _ "base @ [q]"]) simp
  have q: "is_p2p q" "\<forall>x \<in> set base. \<not> is_p2p x"
    using positions_only_last [of is_p2p base q] len(1) base by (simp_all only: peers [symmetric]) simp_all
  then obtain relay where "q = P2p relay" by (cases q) simp_all
  moreover have "take (?peers ! 0) a = base" using base by (simp add: a)
  ultimately show "?shape a"
    using r p q(2) by (intro exI [of _ base] exI [of _ relay]) (auto simp: relay_route_def Let_def a)
next
  assume "?shape a"
  then obtain base relay where a: "a = (base @ [P2p relay]) @ [P2pCircuit]"
    and base: "\<forall>p \<in> set base. \<not> is_p2p p \<and> p \<noteq> P2pCircuit"
    and transport: "list_ex is_tcp base \<or> list_ex is_udp base \<and> list_ex (\<lambda>p. p = QuicV1) base"
    by auto
  have "positions is_p2p base = []" "positions (\<lambda>p. p = P2pCircuit) base = []"
    using base by (auto intro: positions_emptyI)
  then show "relay_route a"
    using transport by (simp add: relay_route_def Let_def a positions_snoc [of _ "base @ [P2p relay]", simplified])
qed

lemma validate_address_Inr_iff [res_simps]:
  "validate_address a = Inr u \<longleftrightarrow> direct_quic a \<or> relay_route a"
  by (auto simp: validate_address_def direct_quic_def relay_route_def)


section \<open>Codes and proofs\<close>

lemma strip_prefix_append [simp]: "strip_prefix pre (pre @ xs) = Some xs"
  by (simp add: strip_prefix_def)

lemma validate_envelope_Inr_iff [res_simps]:
  "validate_envelope B e = Inr v \<longleftrightarrow>
     env_version e = BOOTSTRAP_VERSION \<and> env_invite_package e \<noteq> [] \<and>
     length (env_invite_package e) \<le> MAX_CODE_PACKAGE_BYTES \<and>
     (\<exists>peer address. peer_from_str B (env_peer_id e) = Some peer \<and>
        address_from_str B (env_address e) = Some address \<and>
        (direct_quic address \<or> relay_route address) \<and>
        v = \<lparr>boot_invite_package = env_invite_package e, boot_peer_id = peer, boot_address = address\<rparr>)"
  by (auto simp: validate_envelope_def res_simps)

lemma create_code_Inr_iff [res_simps]:
  "create_code B package peer address = Inr code \<longleftrightarrow>
     package \<noteq> [] \<and> length package \<le> MAX_CODE_PACKAGE_BYTES \<and>
     (direct_quic address \<or> relay_route address) \<and>
     (\<exists>encoded. to_vec (envelope_json B)
         \<lparr>env_version = BOOTSTRAP_VERSION, env_invite_package = package,
          env_peer_id = peer_to_string B peer, env_address = address_to_string B address\<rparr> = Some encoded \<and>
        length encoded \<le> MAX_BOOTSTRAP_ENVELOPE_BYTES \<and>
        code = CODE_PREFIX @ base64_encode B encoded \<and> length code \<le> MAX_BOOTSTRAP_CODE_CHARS)"
proof (cases "to_vec (envelope_json B)
         \<lparr>env_version = BOOTSTRAP_VERSION, env_invite_package = package,
          env_peer_id = peer_to_string B peer, env_address = address_to_string B address\<rparr>")
  case None
  then show ?thesis by (auto simp: create_code_def Let_def res_bind_Inr_iff)
next
  case (Some encoded)
  then show ?thesis
    by (auto simp: create_code_def Let_def res_bind_Inr_iff validate_address_Inr_iff not_less)
qed

lemma create_code_parses:
  assumes B: "bootstrap_codecs_ok B" and "create_code B package peer address = Inr code"
  shows "\<exists>e. parse_code B code = Inr e \<and> validate_envelope B e =
    Inr \<lparr>boot_invite_package = package, boot_peer_id = peer, boot_address = address\<rparr>"
proof -
  let ?e = "\<lparr>env_version = BOOTSTRAP_VERSION, env_invite_package = package,
    env_peer_id = peer_to_string B peer, env_address = address_to_string B address\<rparr>"
  obtain encoded where enc: "to_vec (envelope_json B) ?e = Some encoded"
      "length encoded \<le> MAX_BOOTSTRAP_ENVELOPE_BYTES"
    and code: "code = CODE_PREFIX @ base64_encode B encoded" "length code \<le> MAX_BOOTSTRAP_CODE_CHARS"
    using assms(2) by (auto simp: create_code_Inr_iff)
  have "parse_code B code = Inr ?e"
    using B enc code by (simp add: parse_code_def bootstrap_codecs_ok_def codec_losslessD)
  moreover have "validate_envelope B ?e =
    Inr \<lparr>boot_invite_package = package, boot_peer_id = peer, boot_address = address\<rparr>"
    using B assms(2) by (auto simp: validate_envelope_Inr_iff bootstrap_codecs_ok_def create_code_Inr_iff)
  ultimately show ?thesis by blast
qed

lemma possession_proof_bytes_inject:
  "possession_proof_bytes C c i u d p q n = possession_proof_bytes C c' i' u' d' p' q' n' \<longleftrightarrow>
     c = c' \<and> i = i' \<and> u = u' \<and> d = d' \<and>
     blake3 C (peer_to_bytes p) = blake3 C (peer_to_bytes p') \<and>
     blake3 C (peer_to_bytes q) = blake3 C (peer_to_bytes q') \<and> n = n'"
  by (auto simp: possession_proof_bytes_def)

end
