(* ===== verification/Network.thy ===== *)
theory Network
  imports Bootstrap Sync
begin

text \<open>
  \<open>crates/sync/src/network.rs\<close>: the network node, its handlers and its public operations.

  \<open>NetworkNode\<close> is the record \<open>network_node\<close>.  The libp2p swarm is not part of the repository.  What
  the node asks of it (requests, responses, dials, listening addresses, disconnects) is recorded in
  order in \<open>swarm_effects\<close>; what the swarm answers (whether a dial or a listen fails, whether a
  response channel is still open, whether a peer is connected, the random nonce) is the argument
  \<open>swarm\<close> of each operation and may differ from one call to the next.  A response channel is a number.

  An operation returns its result together with the node it leaves behind, because an error can come
  after the node has changed (\<open>op\<close> of \<open>Prelude\<close>).  \<open>network_params\<close> collects the external functions:
  cryptography, libp2p keys and the JSON codecs.
\<close>

section \<open>Frames\<close>

definition MAX_NETWORK_FRAME_BYTES :: nat where
  "MAX_NETWORK_FRAME_BYTES = 1024 * 1024"

definition MAX_MESSAGES_PER_FRAME :: nat where
  "MAX_MESSAGES_PER_FRAME = 64"

definition MAX_BOOTSTRAP_ANCESTRY_EVENTS :: nat where
  "MAX_BOOTSTRAP_ANCESTRY_EVENTS = 256"

datatype rejection_code =
    InvalidCertificate
  | PeerIdMismatch
  | UserNotAllowed
  | DeviceRevoked
  | NotAuthenticated
  | InvalidSync
  | InvalidBootstrap
  | InvitationUnavailable
  | BootstrapNotApproved
  | FrameLimit

datatype network_request =
    AuthenticateRequest device_certificate
  | SyncRequest sync_message
  | BootstrapBegin device_certificate event_id
  | BootstrapProve event_id bytes
  | BootstrapAccept event_id signed_event

datatype network_response =
    AuthenticatedResponse
  | SyncResponse "sync_message list"
  | BootstrapChallenge event_id arr32
  | BootstrapAncestry event_id "signed_event list"
  | BootstrapAccepted
  | Rejected rejection_code

datatype network_event =
    ListeningEvent multiaddr
  | ConnectedEvent peer_id bool
  | RelayConnectedEvent peer_id
  | RelayDisconnectedEvent peer_id
  | RelayReservationAcceptedEvent peer_id
  | RelayCircuitEstablishedEvent "peer_id option" "peer_id option"
  | RelayConnectionFailedEvent "peer_id option" string
  | ObservedAddressEvent peer_id multiaddr
  | HolePunchSucceededEvent peer_id
  | HolePunchFailedEvent peer_id string
  | AuthenticatedEvent peer_id
  | SyncProgressEvent peer_id
  | BootstrapChallengeEvent peer_id event_id bytes
  | BootstrapAncestryEvent peer_id event_id "signed_event list"
  | BootstrapAcceptanceEvent peer_id user_id event_id signed_event
  | BootstrapAcceptedEvent peer_id
  | RequestFailedEvent peer_id string
  | DisconnectedEvent peer_id

datatype network_error =
    NetAuth auth_error
  | NetSync sync_error
  | NetListen string
  | NetDial string
  | NetTransport string
  | NetRequest string
  | NetRejected rejection_code
  | NetBootstrap string

record bootstrap_grant =
  grant_invitation :: event_id
  grant_capability_key :: arr32
  grant_ancestry :: "signed_event list"

record pending_challenge =
  challenge_invitation :: event_id
  challenge_device :: authenticated_device
  challenge_proof_bytes :: bytes

record proved_bootstrap =
  proved_invitation :: event_id
  proved_device :: authenticated_device

type_synonym channel = nat

record pending_acceptance =
  acceptance_invitation :: event_id
  acceptance_device :: authenticated_device
  acceptance_channel :: channel

record bootstrap_target =
  target_peer :: peer_id
  target_invitation :: event_id
  endpoint_approved :: bool

datatype authentication_state = Full | Provisional

section \<open>The node and its surroundings\<close>

datatype swarm_effect =
    SendRequest peer_id network_request
  | SendResponse channel network_response
  | DialAddress multiaddr
  | ListenOn multiaddr
  | DisconnectPeer peer_id

record network_node =
  local_peer :: peer_id
  net_sync :: sync_peer
  certificate :: device_certificate
  allowed_users :: "user_id set"
  trusted_infrastructure_devices :: "device_id set"
  revocations :: revocation_set
  authenticated :: "peer_id set"
  authenticated_devices :: "peer_id \<rightharpoonup> authenticated_device"
  authentication_sent :: "peer_id set"
  accepted_by_remote :: "peer_id set"
  sync_started :: "peer_id set"
  provisional :: "peer_id \<rightharpoonup> authenticated_device"
  bootstrap_grants :: "event_id \<rightharpoonup> bootstrap_grant"
  pending_challenges :: "peer_id \<rightharpoonup> pending_challenge"
  proved_bootstraps :: "peer_id \<rightharpoonup> proved_bootstrap"
  pending_acceptances :: "peer_id \<rightharpoonup> pending_acceptance"
  bootstrap_target :: "bootstrap_target option"
  relay_peers :: "peer_id set"
  relayed_application_peers :: "peer_id set"
  pending_relay_dials :: "peer_id \<rightharpoonup> peer_id \<times> multiaddr"
  pending_relay_reservations :: "peer_id \<rightharpoonup> multiaddr"
  swarm_effects :: "swarm_effect list"

record 'k network_params =
  np_crypto :: crypto
  np_libp2p :: "'k libp2p"
  np_event_json :: "signed_event codec"
  np_sync_json :: "sync_message codec"
  np_request_json :: "network_request codec"
  np_response_json :: "network_response codec"
  np_json_error :: string                       \<comment> \<open>the text of a \<open>serde_json::Error\<close>\<close>

text \<open>What the swarm answers during one call; \<open>Some text\<close> is a failure with its formatted error.\<close>

record swarm =
  swarm_build :: "string option"
  swarm_dial :: "multiaddr \<Rightarrow> string option"
  swarm_listen_on :: "multiaddr \<Rightarrow> string option"
  channel_open :: "channel \<Rightarrow> bool"
  swarm_is_connected :: "peer_id \<Rightarrow> bool"
  os_nonce :: arr32

type_synonym 'a net_op = "(network_error, network_node, 'a) op"

definition add_effect :: "swarm_effect \<Rightarrow> network_node \<Rightarrow> network_node" where
  "add_effect x s = s\<lparr>swarm_effects := swarm_effects s @ [x]\<rparr>"

definition network_new ::
  "'k network_params \<Rightarrow> swarm \<Rightarrow> 'k device_identity \<Rightarrow> device_certificate \<Rightarrow> sync_peer \<Rightarrow> user_id set \<Rightarrow>
     revocation_set \<Rightarrow> network_error + network_node" where
  "network_new E W device cert sync allowed revoked =
     res_bind (map_err NetAuth (peer_id_from_certificate (np_crypto E) (np_libp2p E) cert)) (\<lambda>peer.
     if peer \<noteq> device_peer (np_libp2p E) device then Inl (NetAuth InvalidDeviceKey)
     else
       (case swarm_build W of
          Some err \<Rightarrow> Inl (NetTransport err)
        | None \<Rightarrow> Inr
            \<lparr>local_peer = device_peer (np_libp2p E) device, net_sync = sync, certificate = cert,
             allowed_users = allowed, trusted_infrastructure_devices = {}, revocations = revoked,
             authenticated = {}, authenticated_devices = Map.empty, authentication_sent = {},
             accepted_by_remote = {}, sync_started = {}, provisional = Map.empty,
             bootstrap_grants = Map.empty, pending_challenges = Map.empty,
             proved_bootstraps = Map.empty, pending_acceptances = Map.empty,
             bootstrap_target = None, relay_peers = {}, relayed_application_peers = {},
             pending_relay_dials = Map.empty, pending_relay_reservations = Map.empty,
             swarm_effects = []\<rparr>))"

section \<open>Addresses of relays\<close>

definition relay_peer_from_base :: "multiaddr \<Rightarrow> peer_id option" where
  "relay_peer_from_base address =
     (case rev address of P2p peer # _ \<Rightarrow> Some peer | _ \<Rightarrow> None)"

fun relay_peer_from_route_loop :: "peer_id option \<Rightarrow> multiaddr \<Rightarrow> peer_id option" where
  "relay_peer_from_route_loop previous [] = None"
| "relay_peer_from_route_loop previous (P2p peer # rest) = relay_peer_from_route_loop (Some peer) rest"
| "relay_peer_from_route_loop previous (P2pCircuit # rest) = previous"
| "relay_peer_from_route_loop previous (_ # rest) = relay_peer_from_route_loop previous rest"

definition relay_peer_from_route :: "multiaddr \<Rightarrow> peer_id option" where
  "relay_peer_from_route address = relay_peer_from_route_loop None address"

fun relay_base_from_route_loop :: "multiaddr \<Rightarrow> multiaddr \<Rightarrow> multiaddr option" where
  "relay_base_from_route_loop base [] = None"
| "relay_base_from_route_loop base (p # rest) =
     (if p = P2pCircuit then map_option (\<lambda>_. base) (relay_peer_from_base base)
      else relay_base_from_route_loop (base @ [p]) rest)"

definition relay_base_from_route :: "multiaddr \<Rightarrow> multiaddr option" where
  "relay_base_from_route address = relay_base_from_route_loop [] address"

definition is_circuit :: "multiaddr \<Rightarrow> bool" where
  "is_circuit address \<longleftrightarrow> list_ex (\<lambda>p. p = P2pCircuit) address"

section \<open>Connections\<close>

definition dial_op :: "swarm \<Rightarrow> multiaddr \<Rightarrow> unit net_op" where
  "dial_op W address s =
     (case swarm_dial W address of
        Some err \<Rightarrow> (Inl (NetDial err), add_effect (DialAddress address) s)
      | None \<Rightarrow> (Inr (), add_effect (DialAddress address) s))"

definition listen :: "swarm \<Rightarrow> multiaddr \<Rightarrow> unit net_op" where
  "listen W address s =
     (case swarm_listen_on W address of
        Some err \<Rightarrow> (Inl (NetListen err), add_effect (ListenOn address) s)
      | None \<Rightarrow> (Inr (), add_effect (ListenOn address) s))"

definition reserve_relay :: "swarm \<Rightarrow> multiaddr \<Rightarrow> multiaddr net_op" where
  "reserve_relay W address s =
     (case relay_peer_from_base address of
        None \<Rightarrow> (Inl (NetDial ''relay address must end in its Peer ID''), s)
      | Some relay \<Rightarrow>
          if is_circuit address
          then (Inl (NetDial ''relay base address must not contain p2p-circuit''), s)
          else
            (let s1 = s\<lparr>relay_peers := insert relay (relay_peers s)\<rparr>;
                 circuit = address @ [P2pCircuit] in
             if pending_relay_reservations s1 relay \<noteq> None
             then (Inl (NetDial ''a reservation with this relay is already pending''), s1)
             else
               (let s2 = s1\<lparr>pending_relay_reservations := (pending_relay_reservations s1)(relay \<mapsto> circuit)\<rparr> in
                case dial_op W address s2 of
                  (Inl err, s3) \<Rightarrow>
                    (Inl err, s3\<lparr>pending_relay_reservations := (pending_relay_reservations s3)(relay := None)\<rparr>)
                | (Inr _, s3) \<Rightarrow> (Inr circuit, s3))))"

definition dial :: "swarm \<Rightarrow> peer_id \<Rightarrow> multiaddr \<Rightarrow> unit net_op" where
  "dial W peer address s =
     (if is_circuit address
      then
        (case relay_peer_from_route address of
           None \<Rightarrow> (Inl (NetDial ''relay route does not identify its relay peer''), s)
         | Some relay \<Rightarrow>
             (let s1 = s\<lparr>relay_peers := insert relay (relay_peers s)\<rparr> in
              case relay_base_from_route address of
                None \<Rightarrow> (Inl (NetDial ''relay route has an invalid base address''), s1)
              | Some relay_base \<Rightarrow>
                  if pending_relay_dials s1 relay \<noteq> None
                  then (Inl (NetDial ''a dial through this relay is already pending''), s1)
                  else
                    (let s2 = s1\<lparr>pending_relay_dials := (pending_relay_dials s1)(relay \<mapsto> (peer, address))\<rparr> in
                     case dial_op W relay_base s2 of
                       (Inl err, s3) \<Rightarrow>
                         (Inl err, s3\<lparr>pending_relay_dials := (pending_relay_dials s3)(relay := None)\<rparr>)
                     | (Inr _, s3) \<Rightarrow> (Inr (), s3))))
      else dial_op W (address @ [P2p peer]) s)"

section \<open>Authorisation and bootstrap configuration\<close>

definition is_authenticated :: "network_node \<Rightarrow> peer_id \<Rightarrow> bool" where
  "is_authenticated s peer \<longleftrightarrow> peer \<in> authenticated s"

definition authorised :: "network_node \<Rightarrow> authenticated_device \<Rightarrow> bool" where
  "authorised s d \<longleftrightarrow> auth_user d \<in> allowed_users s \<or> auth_device d \<in> trusted_infrastructure_devices s"

text \<open>The body of the loop over the rejected peers.\<close>

definition drop_peer :: "peer_id \<Rightarrow> network_node \<Rightarrow> network_node" where
  "drop_peer peer s =
     add_effect (DisconnectPeer peer)
       (s\<lparr>authenticated := authenticated s - {peer},
          authenticated_devices := (authenticated_devices s)(peer := None),
          authentication_sent := authentication_sent s - {peer},
          accepted_by_remote := accepted_by_remote s - {peer},
          sync_started := sync_started s - {peer}\<rparr>)"

text \<open>
  The rejected peers are visited in the order of the \<open>BTreeMap\<close>; that order only shows in the order of
  the disconnects, so it is the argument \<open>order\<close>, a list of the map's keys.
\<close>

definition replace_authorization ::
  "peer_id list \<Rightarrow> user_id set \<Rightarrow> device_id set \<Rightarrow> network_node \<Rightarrow> network_node" where
  "replace_authorization order users devices s =
     (let s1 = s\<lparr>allowed_users := users, trusted_infrastructure_devices := devices\<rparr>;
          rejected = filter (\<lambda>peer. case authenticated_devices s1 peer of
                                      None \<Rightarrow> False
                                    | Some d \<Rightarrow> \<not> authorised s1 d) order
      in fold drop_peer rejected s1)"

fun protocol_error_text :: "protocol_error \<Rightarrow> string" where
  "protocol_error_text UnsupportedVersion = ''unsupported protocol version''"
| "protocol_error_text InvalidEventType = ''event type is empty or exceeds its protocol limit''"
| "protocol_error_text PayloadTooLarge = ''payload exceeds its protocol limit''"
| "protocol_error_text TooManyParents = ''event has too many parents''"
| "protocol_error_text InvalidParents = ''parents must be sorted and unique''"
| "protocol_error_text InvalidGenesis = ''genesis must have no parents''"
| "protocol_error_text InvalidCommunityReference =
     ''non-genesis event must have a community and at least one parent''"
| "protocol_error_text EventPublicKeyLength = ''public key length is invalid''"
| "protocol_error_text EventSignatureLength = ''signature length is invalid''"
| "protocol_error_text EventInvalidSignature = ''signature verification failed''"
| "protocol_error_text EventIdMismatch = ''event id does not match canonical event bytes''"

definition validate_bootstrap_grant ::
  "'k network_params \<Rightarrow> network_node \<Rightarrow> bootstrap_grant \<Rightarrow> network_error + unit" where
  "validate_bootstrap_grant E s grant =
     (if grant_ancestry grant = [] \<or> length (grant_ancestry grant) > MAX_BOOTSTRAP_ANCESTRY_EVENTS \<or>
         \<not> list_ex (\<lambda>e. event_id e = grant_invitation grant) (grant_ancestry grant)
      then Inl (NetBootstrap ''invitation ancestry is empty, oversized, or incomplete'')
      else
        res_bind
          (try_all (\<lambda>e.
             res_bind (map_err (\<lambda>err. NetBootstrap (protocol_error_text err))
                         (validate_event (np_crypto E) e)) (\<lambda>_.
             ensure (in_community (peer_community (net_sync s)) e)
               (NetBootstrap ''invitation ancestry belongs to another community'')))
             (grant_ancestry grant)) (\<lambda>_.
        res_bind
          (ok_or (to_vec (np_response_json E)
                    (BootstrapAncestry (grant_invitation grant) (grant_ancestry grant)))
             (NetBootstrap (np_json_error E))) (\<lambda>bs.
        ensure (length bs \<le> MAX_NETWORK_FRAME_BYTES)
          (NetBootstrap ''invitation ancestry exceeds the network frame limit''))))"

definition register_bootstrap_grant :: "'k network_params \<Rightarrow> bootstrap_grant \<Rightarrow> unit net_op" where
  "register_bootstrap_grant E grant s =
     (case validate_bootstrap_grant E s grant of
        Inl err \<Rightarrow> (Inl err, s)
      | Inr _ \<Rightarrow>
          (Inr (), s\<lparr>bootstrap_grants := (bootstrap_grants s)(grant_invitation grant \<mapsto> grant)\<rparr>))"

definition replace_bootstrap_grants :: "'k network_params \<Rightarrow> bootstrap_grant list \<Rightarrow> unit net_op" where
  "replace_bootstrap_grants E grants s =
     (case try_fold (\<lambda>replacement grant.
             res_bind (validate_bootstrap_grant E s grant) (\<lambda>_.
             Inr (replacement(grant_invitation grant \<mapsto> grant)))) grants Map.empty of
        Inl err \<Rightarrow> (Inl err, s)
      | Inr replacement \<Rightarrow> (Inr (), s\<lparr>bootstrap_grants := replacement\<rparr>))"

definition configure_bootstrap_target :: "peer_id \<Rightarrow> event_id \<Rightarrow> unit net_op" where
  "configure_bootstrap_target peer invn s =
     (if bootstrap_target s \<noteq> None
      then (Inl (NetBootstrap ''a bootstrap target is already configured''), s)
      else (Inr (), s\<lparr>bootstrap_target :=
              Some \<lparr>target_peer = peer, target_invitation = invn, endpoint_approved = False\<rparr>\<rparr>))"

definition provisional_user :: "network_node \<Rightarrow> peer_id \<Rightarrow> user_id option" where
  "provisional_user s peer = map_option auth_user (provisional s peer)"

definition provisional_device :: "network_node \<Rightarrow> peer_id \<Rightarrow> device_id option" where
  "provisional_device s peer = map_option auth_device (provisional s peer)"

text \<open>\<open>self.bootstrap_target.filter(..)\<close>\<close>

definition target_with :: "(bootstrap_target \<Rightarrow> bool) \<Rightarrow> network_node \<Rightarrow> bootstrap_target option" where
  "target_with P s = (case bootstrap_target s of None \<Rightarrow> None | Some t \<Rightarrow> if P t then Some t else None)"

definition approve_bootstrap_endpoint :: "peer_id \<Rightarrow> unit net_op" where
  "approve_bootstrap_endpoint peer s =
     (case target_with (\<lambda>t. target_peer t = peer) s of
        None \<Rightarrow> (Inl (NetBootstrap ''peer is not the bootstrap target''), s)
      | Some t \<Rightarrow>
          if provisional s peer = None
          then (Inl (NetBootstrap ''bootstrap endpoint has not presented a valid device certificate''), s)
          else (Inr (), s\<lparr>bootstrap_target := Some (t\<lparr>endpoint_approved := True\<rparr>)\<rparr>))"

section \<open>Sending\<close>

definition send :: "'k network_params \<Rightarrow> peer_id \<Rightarrow> network_request \<Rightarrow> unit net_op" where
  "send E peer request s =
     (case to_vec (np_request_json E) request of
        None \<Rightarrow> (Inl (NetRequest (np_json_error E)), s)
      | Some bs \<Rightarrow>
          if length bs > MAX_NETWORK_FRAME_BYTES then (Inl (NetRejected FrameLimit), s)
          else (Inr (), add_effect (SendRequest peer request) s))"

definition send_response :: "swarm \<Rightarrow> channel \<Rightarrow> network_response \<Rightarrow> unit net_op" where
  "send_response W ch response s =
     (if channel_open W ch then (Inr (), add_effect (SendResponse ch response) s)
      else (Inl (NetRequest ''response channel closed''), s))"

definition respond ::
  "'k network_params \<Rightarrow> swarm \<Rightarrow> channel \<Rightarrow> network_response \<Rightarrow> unit net_op" where
  "respond E W ch response s =
     (case to_vec (np_response_json E) response of
        None \<Rightarrow> (Inl (NetRequest (np_json_error E)), s)
      | Some bs \<Rightarrow>
          if length bs > MAX_NETWORK_FRAME_BYTES then (Inl (NetRejected FrameLimit), s)
          else send_response W ch response s)"

definition start_bootstrap :: "'k network_params \<Rightarrow> peer_id \<Rightarrow> unit net_op" where
  "start_bootstrap E peer s =
     (case target_with (\<lambda>t. target_peer t = peer) s of
        None \<Rightarrow> (Inl (NetBootstrap ''peer is not the bootstrap target''), s)
      | Some t \<Rightarrow> send E peer (BootstrapBegin (certificate s) (target_invitation t)) s)"

definition maybe_start_sync :: "'k network_params \<Rightarrow> peer_id \<Rightarrow> unit net_op" where
  "maybe_start_sync E peer s =
     (if peer \<in> authenticated s \<and> peer \<in> accepted_by_remote s \<and> peer \<notin> sync_started s
      then send E peer (SyncRequest (hello (net_sync s)))
             (s\<lparr>sync_started := insert peer (sync_started s)\<rparr>)
      else (Inr (), s))"

definition submit_bootstrap_proof ::
  "'k network_params \<Rightarrow> peer_id \<Rightarrow> event_id \<Rightarrow> bytes \<Rightarrow> unit net_op" where
  "submit_bootstrap_proof E peer invn sig s =
     (case target_with (\<lambda>t. target_peer t = peer \<and> target_invitation t = invn) s of
        None \<Rightarrow> (Inl (NetBootstrap ''unexpected bootstrap challenge''), s)
      | Some _ \<Rightarrow>
          if length sig \<noteq> SIGNATURE_LEN
          then (Inl (NetBootstrap ''bootstrap proof signature has the wrong length''), s)
          else send E peer (BootstrapProve invn sig) s)"

definition submit_bootstrap_acceptance ::
  "'k network_params \<Rightarrow> peer_id \<Rightarrow> event_id \<Rightarrow> signed_event \<Rightarrow> unit net_op" where
  "submit_bootstrap_acceptance E peer invn acceptance s =
     (case target_with (\<lambda>t. target_peer t = peer \<and> target_invitation t = invn) s of
        None \<Rightarrow> (Inl (NetBootstrap ''unexpected bootstrap ancestry''), s)
      | Some t \<Rightarrow>
          if \<not> endpoint_approved t
          then (Inl (NetBootstrap ''bootstrap endpoint membership has not been approved''), s)
          else
            (case validate_event (np_crypto E) acceptance of
               Inl err \<Rightarrow> (Inl (NetBootstrap (protocol_error_text err)), s)
             | Inr _ \<Rightarrow> send E peer (BootstrapAccept invn acceptance) s))"

definition resolve_bootstrap_acceptance ::
  "'k network_params \<Rightarrow> swarm \<Rightarrow> peer_id \<Rightarrow> bool \<Rightarrow> unit net_op" where
  "resolve_bootstrap_acceptance E W peer approved s =
     (case pending_acceptances s peer of
        None \<Rightarrow> (Inl (NetBootstrap ''no pending bootstrap acceptance''), s)
      | Some pending \<Rightarrow>
          (let s1 = s\<lparr>pending_acceptances := (pending_acceptances s)(peer := None)\<rparr> in
           if approved
           then
             op_bind
               (send_response W (acceptance_channel pending) BootstrapAccepted)
               (\<lambda>_. maybe_start_sync E peer)
               (s1\<lparr>bootstrap_grants := (bootstrap_grants s1)(acceptance_invitation pending := None),
                   allowed_users := insert (auth_user (acceptance_device pending)) (allowed_users s1),
                   authenticated := insert peer (authenticated s1),
                   authenticated_devices :=
                     (authenticated_devices s1)(peer \<mapsto> acceptance_device pending)\<rparr>)
           else send_response W (acceptance_channel pending) (Rejected BootstrapNotApproved) s1))"

section \<open>Requests\<close>

definition validate_peer_certificate ::
  "'k network_params \<Rightarrow> network_node \<Rightarrow> peer_id \<Rightarrow> device_certificate \<Rightarrow>
     rejection_code + authenticated_device" where
  "validate_peer_certificate E s peer cert =
     res_bind (map_err (\<lambda>_. InvalidCertificate) (validate_device_certificate (np_crypto E) cert)) (\<lambda>d.
     res_bind (map_err (\<lambda>_. InvalidCertificate)
                 (peer_id_from_certificate (np_crypto E) (np_libp2p E) cert)) (\<lambda>certificate_peer.
     if certificate_peer \<noteq> peer then Inl PeerIdMismatch
     else if revocation_contains (revocations s) (auth_user d) (auth_device d) then Inl DeviceRevoked
     else Inr d))"

definition authenticate ::
  "'k network_params \<Rightarrow> peer_id \<Rightarrow> device_certificate \<Rightarrow>
     (rejection_code, network_node, authentication_state) op" where
  "authenticate E peer cert s =
     (case validate_peer_certificate E s peer cert of
        Inl reason \<Rightarrow> (Inl reason, s)
      | Inr d \<Rightarrow>
          if auth_user d \<in> allowed_users s \<or> auth_device d \<in> trusted_infrastructure_devices s
          then (Inr Full, s\<lparr>authenticated := insert peer (authenticated s),
                            authenticated_devices := (authenticated_devices s)(peer \<mapsto> d)\<rparr>)
          else if target_with (\<lambda>t. target_peer t = peer) s \<noteq> None
          then (Inr Provisional, s\<lparr>provisional := (provisional s)(peer \<mapsto> d)\<rparr>)
          else (Inl UserNotAllowed, s))"

definition begin_bootstrap ::
  "'k network_params \<Rightarrow> swarm \<Rightarrow> peer_id \<Rightarrow> device_certificate \<Rightarrow> event_id \<Rightarrow> network_node \<Rightarrow>
     network_response \<times> network_node" where
  "begin_bootstrap E W peer cert invn s =
     (case validate_peer_certificate E s peer cert of
        Inl reason \<Rightarrow> (Rejected reason, s)
      | Inr d \<Rightarrow>
          if bootstrap_grants s invn = None then (Rejected InvitationUnavailable, s)
          else
            (let proof = possession_proof_bytes (np_crypto E) (peer_community (net_sync s)) invn
                           (auth_user d) (auth_device d) peer (local_peer s) (os_nonce W)
             in (BootstrapChallenge invn (os_nonce W),
                 s\<lparr>pending_challenges := (pending_challenges s)(peer \<mapsto>
                     \<lparr>challenge_invitation = invn, challenge_device = d,
                      challenge_proof_bytes = proof\<rparr>)\<rparr>)))"

definition prove_bootstrap ::
  "'k network_params \<Rightarrow> peer_id \<Rightarrow> event_id \<Rightarrow> bytes \<Rightarrow> network_node \<Rightarrow> network_response \<times> network_node" where
  "prove_bootstrap E peer invn sig s =
     (case pending_challenges s peer of
        None \<Rightarrow> (Rejected InvalidBootstrap, s)
      | Some pending \<Rightarrow>
          (let s1 = s\<lparr>pending_challenges := (pending_challenges s)(peer := None)\<rparr> in
           case bootstrap_grants s1 invn of
             None \<Rightarrow> (Rejected InvitationUnavailable, s1)
           | Some grant \<Rightarrow>
               if challenge_invitation pending \<noteq> invn \<or> length sig \<noteq> SIGNATURE_LEN \<or>
                  \<not> is_ok (verify (np_crypto E) (arr32_bytes (grant_capability_key grant))
                             (challenge_proof_bytes pending) sig)
               then (Rejected InvalidBootstrap, s1)
               else
                 (BootstrapAncestry invn (grant_ancestry grant),
                  s1\<lparr>proved_bootstraps := (proved_bootstraps s1)(peer \<mapsto>
                      \<lparr>proved_invitation = invn, proved_device = challenge_device pending\<rparr>)\<rparr>)))"

primrec expand_want :: "sync_message \<Rightarrow> sync_message list" where
  "expand_want (Hello v vs c) = [Hello v vs c]"
| "expand_want (Heads c ids) = [Heads c ids]"
| "expand_want (Want c ids) = map (\<lambda>i. Want c [i]) ids"
| "expand_want (Events c es) = [Events c es]"

definition normalize_messages ::
  "'k network_params \<Rightarrow> sync_message list \<Rightarrow> rejection_code + sync_message list" where
  "normalize_messages E messages =
     (let normalized = concat (map expand_want messages) in
      if length normalized > MAX_MESSAGES_PER_FRAME then Inl FrameLimit
      else
        res_bind (ok_or (to_vec (np_response_json E) (SyncResponse normalized)) FrameLimit) (\<lambda>encoded.
        if length encoded > MAX_NETWORK_FRAME_BYTES then Inl FrameLimit else Inr normalized))"

text \<open>\<open>self.sync.receive(message)\<close>\<close>

definition sync_receive ::
  "'k network_params \<Rightarrow> sync_message \<Rightarrow> network_node \<Rightarrow>
     (sync_error + sync_message list) \<times> network_node" where
  "sync_receive E m s =
     (let (r, p) = receive (np_crypto E) (np_event_json E) (np_sync_json E) (net_sync s) m
      in (r, s\<lparr>net_sync := p\<rparr>))"

fun handle_request ::
  "'k network_params \<Rightarrow> swarm \<Rightarrow> peer_id \<Rightarrow> network_request \<Rightarrow> network_node \<Rightarrow>
     (network_response \<times> authentication_state option) \<times> network_node" where
  "handle_request E W peer (AuthenticateRequest cert) s =
     (case authenticate E peer cert s of
        (Inr state, t) \<Rightarrow> ((AuthenticatedResponse, Some state), t)
      | (Inl reason, t) \<Rightarrow> ((Rejected reason, None), t))"
| "handle_request E W peer (SyncRequest message) s =
     (if peer \<notin> authenticated s then ((Rejected NotAuthenticated, None), s)
      else if (case message of Want _ ids \<Rightarrow> length ids \<noteq> 1 | _ \<Rightarrow> False)
      then ((Rejected FrameLimit, None), s)
      else
        (case sync_receive E message s of
           (Inr messages, t) \<Rightarrow>
             (case normalize_messages E messages of
                Inr normalized \<Rightarrow> ((SyncResponse normalized, None), t)
              | Inl reason \<Rightarrow> ((Rejected reason, None), t))
         | (Inl _, t) \<Rightarrow> ((Rejected InvalidSync, None), t)))"
| "handle_request E W peer (BootstrapBegin cert invn) s =
     (let (response, t) = begin_bootstrap E W peer cert invn s in ((response, None), t))"
| "handle_request E W peer (BootstrapProve invn sig) s =
     (let (response, t) = prove_bootstrap E peer invn sig s in ((response, None), t))"
| "handle_request E W peer (BootstrapAccept invn acceptance) s = ((Rejected InvalidBootstrap, None), s)"

definition acceptance_valid ::
  "'k network_params \<Rightarrow> network_node \<Rightarrow> event_id \<Rightarrow> signed_event \<Rightarrow> proved_bootstrap \<Rightarrow> bool" where
  "acceptance_valid E s invn acceptance proved \<longleftrightarrow>
     bootstrap_grants s invn \<noteq> None \<and> proved_invitation proved = invn \<and>
     community_id (content acceptance) = Some (peer_community (net_sync s)) \<and>
     invn \<in> set (parents (content acceptance)) \<and>
     is_ok (validate_event (np_crypto E) acceptance) \<and>
     res_ok (author_id (np_crypto E) acceptance) = Some (auth_user (proved_device proved))"

definition handle_bootstrap_acceptance ::
  "'k network_params \<Rightarrow> swarm \<Rightarrow> peer_id \<Rightarrow> event_id \<Rightarrow> signed_event \<Rightarrow> channel \<Rightarrow> network_event net_op" where
  "handle_bootstrap_acceptance E W peer invn acceptance ch s =
     (let proved = proved_bootstraps s peer;
          s1 = s\<lparr>proved_bootstraps := (proved_bootstraps s)(peer := None)\<rparr>;
          reject = op_bind (respond E W ch (Rejected InvalidBootstrap))
                     (\<lambda>_. op_return (SyncProgressEvent peer))
      in case proved of
           None \<Rightarrow> reject s1
         | Some pr \<Rightarrow>
             if \<not> acceptance_valid E s1 invn acceptance pr then reject s1
             else if pending_acceptances s1 peer \<noteq> None then reject s1
             else
               (Inr (BootstrapAcceptanceEvent peer (auth_user (proved_device pr)) invn acceptance),
                s1\<lparr>pending_acceptances := (pending_acceptances s1)(peer \<mapsto>
                    \<lparr>acceptance_invitation = invn, acceptance_device = proved_device pr,
                     acceptance_channel = ch\<rparr>)\<rparr>))"

section \<open>Responses\<close>

text \<open>The body of the loop over the messages of a \<open>Sync\<close> response.\<close>

definition handle_sync_message :: "'k network_params \<Rightarrow> peer_id \<Rightarrow> sync_message \<Rightarrow> unit net_op" where
  "handle_sync_message E peer message s =
     (case sync_receive E message s of
        (Inl err, t) \<Rightarrow> (Inl (NetSync err), t)
      | (Inr messages, t) \<Rightarrow>
          (case normalize_messages E messages of
             Inl reason \<Rightarrow> (Inl (NetRejected reason), t)
           | Inr outgoing \<Rightarrow> op_each (\<lambda>m. send E peer (SyncRequest m)) outgoing t))"

fun handle_response :: "'k network_params \<Rightarrow> peer_id \<Rightarrow> network_response \<Rightarrow> network_event net_op" where
  "handle_response E peer AuthenticatedResponse s =
     op_bind (maybe_start_sync E peer) (\<lambda>_. op_return (AuthenticatedEvent peer))
       (s\<lparr>accepted_by_remote := insert peer (accepted_by_remote s)\<rparr>)"
| "handle_response E peer (SyncResponse messages) s =
     (if peer \<notin> authenticated s then (Inl (NetRejected NotAuthenticated), s)
      else if length messages > MAX_MESSAGES_PER_FRAME then (Inl (NetRejected FrameLimit), s)
      else op_bind (op_each (handle_sync_message E peer) messages)
             (\<lambda>_. op_return (SyncProgressEvent peer)) s)"
| "handle_response E peer (BootstrapChallenge invn nonce) s =
     (case target_with (\<lambda>t. target_peer t = peer \<and> target_invitation t = invn) s of
        None \<Rightarrow> (Inl (NetBootstrap ''unexpected bootstrap challenge''), s)
      | Some _ \<Rightarrow>
          (case validate_device_certificate (np_crypto E) (certificate s) of
             Inl err \<Rightarrow> (Inl (NetAuth err), s)
           | Inr own \<Rightarrow>
               (Inr (BootstrapChallengeEvent peer invn
                  (possession_proof_bytes (np_crypto E) (peer_community (net_sync s)) invn
                     (auth_user own) (auth_device own) (local_peer s) peer nonce)), s)))"
| "handle_response E peer (BootstrapAncestry invn events) s =
     (case target_with (\<lambda>t. target_peer t = peer \<and> target_invitation t = invn) s of
        None \<Rightarrow> (Inl (NetBootstrap ''unexpected bootstrap ancestry''), s)
      | Some _ \<Rightarrow>
          if events = [] \<or> length events > MAX_BOOTSTRAP_ANCESTRY_EVENTS
          then (Inl (NetRejected FrameLimit), s)
          else
            (case try_all (\<lambda>e.
                    res_bind (map_err (\<lambda>_. NetRejected InvalidBootstrap)
                                (validate_event (np_crypto E) e)) (\<lambda>_.
                    ensure (in_community (peer_community (net_sync s)) e)
                      (NetRejected InvalidBootstrap))) events of
               Inl err \<Rightarrow> (Inl err, s)
             | Inr _ \<Rightarrow>
                 if \<not> list_ex (\<lambda>e. event_id e = invn) events
                 then (Inl (NetRejected InvalidBootstrap), s)
                 else (Inr (BootstrapAncestryEvent peer invn events), s)))"
| "handle_response E peer BootstrapAccepted s =
     (case target_with (\<lambda>t. target_peer t = peer \<and> endpoint_approved t) s of
        None \<Rightarrow> (Inl (NetBootstrap ''bootstrap endpoint was not approved''), s)
      | Some _ \<Rightarrow>
          (case provisional s peer of
             None \<Rightarrow>
               (Inl (NetBootstrap ''bootstrap endpoint did not present a valid certificate''), s)
           | Some d \<Rightarrow>
               op_bind (maybe_start_sync E peer) (\<lambda>_. op_return (BootstrapAcceptedEvent peer))
                 (s\<lparr>provisional := (provisional s)(peer := None),
                    allowed_users := insert (auth_user d) (allowed_users s),
                    authenticated := insert peer (authenticated s),
                    authenticated_devices := (authenticated_devices s)(peer \<mapsto> d),
                    accepted_by_remote := insert peer (accepted_by_remote s)\<rparr>)))"
| "handle_response E peer (Rejected reason) s =
     (if reason = UserNotAllowed \<and> target_with (\<lambda>t. target_peer t = peer) s \<noteq> None
      then (Inr (SyncProgressEvent peer), s)
      else (Inl (NetRejected reason), s))"

section \<open>Events of the swarm\<close>

datatype request_response_event =
    RequestMessage peer_id network_request channel
  | ResponseMessage peer_id network_response
  | OutboundFailure peer_id string
  | InboundFailure peer_id string
  | ResponseSent

datatype behaviour_event =
    RequestResponseEvent request_response_event
  | ReservationReqAccepted peer_id
  | OutboundCircuitEstablished peer_id
  | InboundCircuitEstablished peer_id
  | IdentifyReceived peer_id multiaddr
  | IdentifyOther
  | DcutrEvent peer_id "string + unit"
  | PingEvent

datatype swarm_event =
    NewListenAddr multiaddr
  | ConnectionEstablished peer_id bool
  | ConnectionClosed peer_id nat
  | BehaviourEvent behaviour_event
  | OutgoingConnectionError "peer_id option" string
  | ListenerError string
  | OtherSwarmEvent

definition handle_plain_request ::
  "'k network_params \<Rightarrow> swarm \<Rightarrow> peer_id \<Rightarrow> network_request \<Rightarrow> channel \<Rightarrow> network_event option net_op" where
  "handle_plain_request E W peer request ch s =
     (let ((response, state), t) = handle_request E W peer request s in
      op_bind (respond E W ch response) (\<lambda>_.
      op_bind
        (case state of
           Some Full \<Rightarrow> maybe_start_sync E peer
         | Some Provisional \<Rightarrow> start_bootstrap E peer
         | None \<Rightarrow> op_return ()) (\<lambda>_.
      op_return (Some (if state = Some Full then AuthenticatedEvent peer else SyncProgressEvent peer)))) t)"

fun handle_request_response ::
  "'k network_params \<Rightarrow> swarm \<Rightarrow> request_response_event \<Rightarrow> network_event option net_op" where
  "handle_request_response E W (RequestMessage peer request ch) s =
     (case request of
        BootstrapAccept invn acceptance \<Rightarrow>
          op_bind (handle_bootstrap_acceptance E W peer invn acceptance ch)
            (\<lambda>ev. op_return (Some ev)) s
      | _ \<Rightarrow> handle_plain_request E W peer request ch s)"
| "handle_request_response E W (ResponseMessage peer response) s =
     op_bind (handle_response E peer response) (\<lambda>ev. op_return (Some ev)) s"
| "handle_request_response E W (OutboundFailure peer reason) s = (Inr (Some (RequestFailedEvent peer reason)), s)"
| "handle_request_response E W (InboundFailure peer reason) s = (Inr (Some (RequestFailedEvent peer reason)), s)"
| "handle_request_response E W ResponseSent s = (Inr None, s)"

text \<open>The two relay steps that wait for the relay's \<open>identify\<close> information.\<close>

definition start_reservation :: "swarm \<Rightarrow> peer_id \<Rightarrow> unit net_op" where
  "start_reservation W peer s =
     (case pending_relay_reservations s peer of
        None \<Rightarrow> (Inr (), s)
      | Some route \<Rightarrow>
          listen W route
            (s\<lparr>pending_relay_reservations := (pending_relay_reservations s)(peer := None)\<rparr>))"

definition start_relay_dial :: "swarm \<Rightarrow> peer_id \<Rightarrow> unit net_op" where
  "start_relay_dial W peer s =
     (case pending_relay_dials s peer of
        None \<Rightarrow> (Inr (), s)
      | Some (target, route) \<Rightarrow>
          dial_op W (route @ [P2p target])
            (s\<lparr>pending_relay_dials := (pending_relay_dials s)(peer := None)\<rparr>))"

fun handle_behaviour ::
  "'k network_params \<Rightarrow> swarm \<Rightarrow> behaviour_event \<Rightarrow> network_event option net_op" where
  "handle_behaviour E W (RequestResponseEvent ev) s = handle_request_response E W ev s"
| "handle_behaviour E W (ReservationReqAccepted relay) s =
     (Inr (Some (RelayReservationAcceptedEvent relay)), s)"
| "handle_behaviour E W (OutboundCircuitEstablished relay) s =
     (Inr (Some (RelayCircuitEstablishedEvent (Some relay) None)), s)"
| "handle_behaviour E W (InboundCircuitEstablished src) s =
     (Inr (Some (RelayCircuitEstablishedEvent None (Some src))), s)"
| "handle_behaviour E W (IdentifyReceived peer observed) s =
     op_bind (start_reservation W peer) (\<lambda>_.
     op_bind (start_relay_dial W peer) (\<lambda>_.
     op_return (Some (ObservedAddressEvent peer observed)))) s"
| "handle_behaviour E W (DcutrEvent peer result) s =
     (case result of
        Inr _ \<Rightarrow> (Inr (Some (HolePunchSucceededEvent peer)), s)
      | Inl reason \<Rightarrow> (Inr (Some (HolePunchFailedEvent peer reason)), s))"
| "handle_behaviour E W PingEvent s = (Inr None, s)"
| "handle_behaviour E W IdentifyOther s = (Inr None, s)"

definition connection_established ::
  "'k network_params \<Rightarrow> peer_id \<Rightarrow> bool \<Rightarrow> network_event option net_op" where
  "connection_established E peer relayed s =
     (if peer \<in> relay_peers s then (Inr (Some (RelayConnectedEvent peer)), s)
      else
        (let s1 = (if relayed
                   then s\<lparr>relayed_application_peers := insert peer (relayed_application_peers s)\<rparr>
                   else s)
         in op_bind
              (\<lambda>u. if peer \<notin> authenticated u \<and> peer \<notin> authentication_sent u
                   then send E peer (AuthenticateRequest (certificate u))
                          (u\<lparr>authentication_sent := insert peer (authentication_sent u)\<rparr>)
                   else (Inr (), u))
              (\<lambda>_. op_return (Some (ConnectedEvent peer relayed))) s1))"

definition forget_peer :: "peer_id \<Rightarrow> network_node \<Rightarrow> network_node" where
  "forget_peer peer s =
     s\<lparr>authenticated := authenticated s - {peer},
       authenticated_devices := (authenticated_devices s)(peer := None),
       authentication_sent := authentication_sent s - {peer},
       accepted_by_remote := accepted_by_remote s - {peer},
       sync_started := sync_started s - {peer},
       provisional := (provisional s)(peer := None),
       pending_challenges := (pending_challenges s)(peer := None),
       proved_bootstraps := (proved_bootstraps s)(peer := None),
       pending_acceptances := (pending_acceptances s)(peer := None)\<rparr>"

definition connection_closed :: "peer_id \<Rightarrow> nat \<Rightarrow> network_event option net_op" where
  "connection_closed peer num_established s =
     (if num_established > 0 then (Inr None, s)
      else if peer \<in> relay_peers s then (Inr (Some (RelayDisconnectedEvent peer)), s)
      else (Inr (Some (DisconnectedEvent peer)), forget_peer peer s))"

definition outgoing_connection_error ::
  "swarm \<Rightarrow> peer_id option \<Rightarrow> string \<Rightarrow> network_event option net_op" where
  "outgoing_connection_error W peer err s =
     (case peer of
        None \<Rightarrow> (Inl (NetDial err), s)
      | Some p \<Rightarrow>
          if p \<in> relay_peers s then (Inr (Some (RelayConnectionFailedEvent (Some p) err)), s)
          else if p \<in> relayed_application_peers s then (Inr (Some (HolePunchFailedEvent p err)), s)
          else if swarm_is_connected W p then (Inr None, s)
          else (Inl (NetDial err), s))"

text \<open>One round of the loop of \<open>next_event\<close>; \<open>None\<close> means that the loop goes on.\<close>

fun handle_swarm_event :: "'k network_params \<Rightarrow> swarm \<Rightarrow> swarm_event \<Rightarrow> network_event option net_op" where
  "handle_swarm_event E W (NewListenAddr address) s = (Inr (Some (ListeningEvent address)), s)"
| "handle_swarm_event E W (ConnectionEstablished peer relayed) s = connection_established E peer relayed s"
| "handle_swarm_event E W (ConnectionClosed peer num_established) s = connection_closed peer num_established s"
| "handle_swarm_event E W (BehaviourEvent ev) s = handle_behaviour E W ev s"
| "handle_swarm_event E W (OutgoingConnectionError peer err) s = outgoing_connection_error W peer err s"
| "handle_swarm_event E W (ListenerError err) s = (Inl (NetListen err), s)"
| "handle_swarm_event E W OtherSwarmEvent s = (Inr None, s)"

text \<open>
  \<open>next_event\<close> consumes swarm events until one is reported or fails, and returns the events it has not
  consumed; \<open>None\<close> means that it still waits.
\<close>

fun next_event ::
  "'k network_params \<Rightarrow> (swarm \<times> swarm_event) list \<Rightarrow> network_node \<Rightarrow>
     ((network_error + network_event) option \<times> (swarm \<times> swarm_event) list) \<times> network_node" where
  "next_event E [] s = ((None, []), s)"
| "next_event E ((W, ev) # evs) s =
     (case handle_swarm_event E W ev s of
        (Inl err, t) \<Rightarrow> ((Some (Inl err), evs), t)
      | (Inr (Some e), t) \<Rightarrow> ((Some (Inr e), evs), t)
      | (Inr None, t) \<Rightarrow> next_event E evs t)"

end
