(* ===== verification/Network_Refine.thy ===== *)
theory Network_Refine
  imports Network_Gate
begin

text \<open>
  The network node refines the gate.

  \<open>node_preorder\<close> extends \<open>op_preorder\<close>, the relations between a state and a later one, by the law that
  recording a swarm effect respects it, so that every operation does which only records effects;
  \<open>relay_preorder\<close> and \<open>sync_preorder\<close> extend it to relay bookkeeping and to the start of a
  synchronisation.  They are interpreted on \<open>quiet\<close> (the gate does not change) and on \<open>same_sync\<close> (the synchronisation peer does not change).
\<close>

section \<open>Relations that ignore effects\<close>

locale node_preorder = op_preorder R for R :: "network_node \<Rightarrow> network_node \<Rightarrow> bool" +
  assumes effect: "R s (add_effect x s)"
begin

lemma send: "R s (snd (send E peer request s))"
  by (simp add: send_def refl effect split: option.split)

lemma send_response: "R s (snd (send_response W ch response s))"
  by (simp add: send_response_def refl effect)

lemma respond: "R s (snd (respond E W ch response s))"
  by (simp add: respond_def refl send_response split: option.split)

lemma dial_op: "R s (snd (dial_op W address s))"
  by (simp add: dial_op_def effect split: option.split)

lemma listen: "R s (snd (listen W address s))"
  by (simp add: listen_def effect split: option.split)

lemma start_bootstrap: "R s (snd (start_bootstrap E peer s))"
  by (simp add: start_bootstrap_def refl send split: option.split)

lemma submit_proof: "R s (snd (submit_bootstrap_proof E peer invn sig s))"
  by (simp add: submit_bootstrap_proof_def refl send split: option.split)

lemma submit_acceptance: "R s (snd (submit_bootstrap_acceptance E peer invn e s))"
  by (simp add: submit_bootstrap_acceptance_def refl send split: option.split sum.split)

end

locale relay_preorder = node_preorder +
  assumes relays: "R s (s\<lparr>relay_peers := x\<rparr>)"
    and relayed: "R s (s\<lparr>relayed_application_peers := x\<rparr>)"
    and dials: "R s (s\<lparr>pending_relay_dials := y\<rparr>)"
    and reservations: "R s (s\<lparr>pending_relay_reservations := z\<rparr>)"
begin

lemma reserve_relay: "R s (snd (reserve_relay W address s))"
proof (cases "relay_peer_from_base address")
  case None
  then show ?thesis by (simp add: reserve_relay_def refl)
next
  case (Some relay)
  let ?s1 = "s\<lparr>relay_peers := insert relay (relay_peers s)\<rparr>"
  let ?s2 = "?s1\<lparr>pending_relay_reservations := (pending_relay_reservations ?s1)(relay \<mapsto> address @ [P2pCircuit])\<rparr>"
  have s2: "R s ?s2" by (rule trans [OF relays reservations])
  obtain r s3 where d: "dial_op W address ?s2 = (r, s3)" by fastforce
  have s3: "R s s3" using trans [OF s2 dial_op [of ?s2 W address]] d by simp
  show ?thesis
    using Some d s3 trans [OF s3 reservations] relays [of s "insert relay (relay_peers s)"]
    by (cases r) (auto simp: reserve_relay_def Let_def refl)
qed

lemma dial: "R s (snd (dial W peer address s))"
proof (cases "is_circuit address")
  case False
  then show ?thesis by (simp add: dial_def dial_op)
next
  case circuit: True
  show ?thesis
  proof (cases "relay_peer_from_route address")
    case None
    then show ?thesis by (simp add: dial_def circuit refl)
  next
    case (Some relay)
    let ?s1 = "s\<lparr>relay_peers := insert relay (relay_peers s)\<rparr>"
    let ?s2 = "?s1\<lparr>pending_relay_dials := (pending_relay_dials ?s1)(relay \<mapsto> (peer, address))\<rparr>"
    have s2: "R s ?s2" by (rule trans [OF relays dials])
    have step: "R s (snd (dial_op W base ?s2))" for base
      by (rule trans [OF s2 dial_op])
    show ?thesis
    proof (cases "relay_base_from_route address")
      case None
      then show ?thesis using Some circuit by (simp add: dial_def Let_def relays)
    next
      case base: (Some base)
      obtain r s3 where d: "dial_op W base ?s2 = (r, s3)" by fastforce
      show ?thesis
        using Some base circuit d step [of base] trans [OF step [of base] dials]
          relays [of s "insert relay (relay_peers s)"]
        by (cases r) (auto simp: dial_def Let_def)
    qed
  qed
qed

lemma start_reservation: "R s (snd (start_reservation W peer s))"
  by (simp add: start_reservation_def refl trans [OF reservations listen] split: option.split)

lemma start_relay_dial: "R s (snd (start_relay_dial W peer s))"
  by (simp add: start_relay_dial_def refl trans [OF dials dial_op] split: option.split)

lemma identify_received: "R s (snd (handle_behaviour E W (IdentifyReceived peer observed) s))"
  by (simp add: op_bind op_return start_reservation start_relay_dial)

end

locale sync_preorder = node_preorder +
  assumes started: "peer \<in> authenticated s \<Longrightarrow> peer \<in> accepted_by_remote s \<Longrightarrow>
    R s (s\<lparr>sync_started := insert peer (sync_started s)\<rparr>)"
begin

lemma maybe_start_sync: "R s (snd (maybe_start_sync E peer s))"
  by (simp add: maybe_start_sync_def refl trans [OF started send])

end


section \<open>Steps that leave the gate alone\<close>

text \<open>
  \<open>authenticated\<close> is the domain of \<open>authenticated_devices\<close>, and a synchronisation is started only with
  a peer that is authenticated in both directions.
\<close>

definition coupled :: "network_node \<Rightarrow> bool" where
  "coupled s \<longleftrightarrow>
     authenticated s = dom (authenticated_devices s) \<and>
     sync_started s \<subseteq> authenticated s \<inter> accepted_by_remote s"

lemma coupled_update [simp]:
  "coupled (s\<lparr>net_sync := a\<rparr>) = coupled s"
  "coupled (s\<lparr>allowed_users := b\<rparr>) = coupled s"
  "coupled (s\<lparr>trusted_infrastructure_devices := b'\<rparr>) = coupled s"
  "coupled (s\<lparr>provisional := c\<rparr>) = coupled s"
  "coupled (s\<lparr>bootstrap_grants := d\<rparr>) = coupled s"
  "coupled (s\<lparr>pending_challenges := e\<rparr>) = coupled s"
  "coupled (s\<lparr>proved_bootstraps := f\<rparr>) = coupled s"
  "coupled (s\<lparr>pending_acceptances := g\<rparr>) = coupled s"
  "coupled (s\<lparr>bootstrap_target := h\<rparr>) = coupled s"
  by (simp_all add: coupled_def)

definition quiet :: "network_node \<Rightarrow> network_node \<Rightarrow> bool" where
  "quiet s t \<longleftrightarrow> gate_of t = gate_of s \<and> (coupled s \<longrightarrow> coupled t)"

definition same_sync :: "network_node \<Rightarrow> network_node \<Rightarrow> bool" where
  "same_sync s t \<longleftrightarrow> net_sync t = net_sync s"

interpretation quiet: relay_preorder quiet
  by unfold_locales (auto simp: quiet_def gate_of_def coupled_def add_effect_def)

interpretation quiet: sync_preorder quiet
  by unfold_locales (auto simp: quiet_def gate_of_def coupled_def)

interpretation same_sync: relay_preorder same_sync
  by unfold_locales (auto simp: same_sync_def add_effect_def)

interpretation same_sync: sync_preorder same_sync
  by unfold_locales (auto simp: same_sync_def)

text \<open>Receiving changes the peer's node and buffer, never its community.\<close>

lemma receive_community: "receive C J S p m = (res, p') \<Longrightarrow> peer_community p' = peer_community p"
proof (erule receive_cases)
  fix c events assume "accept C J p events = (res, p')"
  then show ?thesis by (cases rule: accept_cases) simp_all
qed simp

lemma sync_receive_quiet: "quiet s (snd (sync_receive E m s))"
proof -
  obtain r p where rec: "receive (np_crypto E) (np_event_json E) (np_sync_json E) (net_sync s) m = (r, p)"
    by fastforce
  then show ?thesis
    using receive_community [OF rec] by (simp add: sync_receive_def quiet_def gate_of_def)
qed

lemma handle_sync_message_quiet: "quiet s (snd (handle_sync_message E peer m s))"
proof -
  obtain r t where rec: "sync_receive E m s = (r, t)" by fastforce
  have t: "quiet s t" using sync_receive_quiet [of s E m] rec by simp
  have "quiet s (snd (op_each (\<lambda>m. send E peer (SyncRequest m)) ms t))" for ms
    by (rule quiet.trans [OF t quiet.op_each]) (rule quiet.send)
  then show ?thesis
    using t rec by (simp add: handle_sync_message_def split: sum.split)
qed

lemma maybe_start_sync_frame:
  "authenticated (snd (maybe_start_sync E peer s)) = authenticated s"
  "allowed_users (snd (maybe_start_sync E peer s)) = allowed_users s"
  "bootstrap_grants (snd (maybe_start_sync E peer s)) = bootstrap_grants s"
  "set (swarm_effects s) \<subseteq> set (swarm_effects (snd (maybe_start_sync E peer s)))"
  by (auto simp: maybe_start_sync_def send_def add_effect_def split: option.split)

section \<open>Steps of the gate\<close>

definition refines :: "'k network_params \<Rightarrow> network_node \<Rightarrow> network_node \<Rightarrow> bool" where
  "refines E s t \<longleftrightarrow>
     (coupled s \<longrightarrow> coupled t) \<and> (gate_of t = gate_of s \<or> gate_move E (gate_of s) (gate_of t))"

lemma quiet_refines: "quiet s t \<Longrightarrow> refines E s t"
  by (simp add: quiet_def refines_def)

lemma refines_refl [simp]: "refines E s s"
  by (simp add: refines_def)

lemma refines_quiet: "refines E s t \<Longrightarrow> quiet t u \<Longrightarrow> refines E s u"
  by (auto simp: quiet_def refines_def)

text \<open>An operation that continues quietly refines what it started with.\<close>

lemma refines_bind:
  "refines E s (snd (m s)) \<Longrightarrow> (\<And>x t. quiet t (snd (f x t))) \<Longrightarrow> refines E s (snd (op_bind m f s))"
  by (cases "m s"; cases "fst (m s)") (auto simp: op_bind_def intro: refines_quiet)

lemma validate_peer_certificate_Inr:
  "validate_peer_certificate E s peer cert = Inr d \<longleftrightarrow>
     validate_device_certificate (np_crypto E) cert = Inr d \<and>
     peer_id_from_certificate (np_crypto E) (np_libp2p E) cert = Inr peer \<and>
     (auth_user d, auth_device d) \<notin> revocations s"
  by (auto simp: validate_peer_certificate_def res_bind_Inr_iff map_err_Inr_iff revocation_contains_def)

lemma validate_peer_certificate_vouched:
  "validate_peer_certificate E s peer cert = Inr d \<Longrightarrow> vouched E (revocations s) peer d"
  by (auto simp: validate_peer_certificate_Inr vouched_def certified_def)

lemma target_with_Some:
  "target_with P s = Some t \<longleftrightarrow> bootstrap_target s = Some t \<and> P t"
  by (auto simp: target_with_def split: option.split)

lemma target_with_not_None:
  "target_with P s \<noteq> None \<longleftrightarrow> (\<exists>t. bootstrap_target s = Some t \<and> P t)"
  by (auto simp: target_with_def split: option.split)

lemma authenticate_refines: "refines E s (snd (authenticate E peer cert s))"
proof (cases "validate_peer_certificate E s peer cert")
  case (Inl reason)
  then show ?thesis by (simp add: authenticate_def)
next
  case (Inr d)
  have v: "vouched E (revocations s) peer d" by (rule validate_peer_certificate_vouched [OF Inr])
  have full: "refines E s (s\<lparr>authenticated := insert peer (authenticated s),
      authenticated_devices := (authenticated_devices s)(peer \<mapsto> d)\<rparr>)" if "authorised s d"
    using gate_move.admit [of E "gate_of s" peer d] v that
    by (auto simp: refines_def coupled_def gate_of_def admitted_def authorised_def)
  have held: "refines E s (s\<lparr>provisional := (provisional s)(peer \<mapsto> d)\<rparr>)"
    if target: "target_with (\<lambda>t. target_peer t = peer) s \<noteq> None"
  proof -
    obtain t where "bootstrap_target s = Some t" "target_peer t = peer"
      using target unfolding target_with_not_None by blast
    then show ?thesis
      using gate_move.hold [of E "gate_of s" peer d t] v by (simp add: refines_def gate_of_def)
  qed
  show ?thesis
    using Inr full held by (auto simp: authenticate_def authorised_def)
qed

lemma begin_bootstrap_refines: "refines E s (snd (begin_bootstrap E W peer cert invn s))"
proof (cases "validate_peer_certificate E s peer cert")
  case (Inl reason)
  then show ?thesis by (simp add: begin_bootstrap_def)
next
  case (Inr d)
  note validate_peer_certificate_vouched [OF Inr]
  then show ?thesis
    using Inr gate_move.challenge [of E "gate_of s" peer d invn "os_nonce W"]
    by (auto simp: begin_bootstrap_def refines_def gate_of_def challenge_bytes_def Let_def)
qed

lemma prove_bootstrap_refines: "refines E s (snd (prove_bootstrap E peer invn sig s))"
proof (cases "pending_challenges s peer")
  case None
  then show ?thesis by (simp add: prove_bootstrap_def)
next
  case (Some c)
  have discard: "refines E s (s\<lparr>pending_challenges := (pending_challenges s)(peer := None)\<rparr>)"
    using gate_move.discard_challenge [of E "gate_of s" peer]
    by (simp add: refines_def gate_of_def)
  show ?thesis
  proof (cases "bootstrap_grants s invn")
    case None
    then show ?thesis using Some discard by (simp add: prove_bootstrap_def Let_def)
  next
    case grant: (Some grant)
    have proved: "refines E s (s\<lparr>pending_challenges := (pending_challenges s)(peer := None),
        proved_bootstraps := (proved_bootstraps s)(peer \<mapsto>
          \<lparr>proved_invitation = invn, proved_device = challenge_device c\<rparr>)\<rparr>)"
      if "challenge_invitation c = invn"
        and "verify (np_crypto E) (arr32_bytes (grant_capability_key grant)) (challenge_proof_bytes c) sig = Inr ()"
      using gate_move.prove [of "gate_of s" peer c invn grant E sig] Some grant that
      by (simp add: refines_def gate_of_def)
    then show ?thesis
      using Some grant discard by (auto simp: prove_bootstrap_def Let_def is_ok_iff)
  qed
qed

lemma handle_request_refines: "refines E s (snd (handle_request E W peer request s))"
proof (cases request)
  case (AuthenticateRequest cert)
  obtain r t where "authenticate E peer cert s = (r, t)" by fastforce
  then show ?thesis
    using authenticate_refines [of E s peer cert] by (cases r) (simp_all add: AuthenticateRequest)
next
  case (SyncRequest m)
  obtain r t where "sync_receive E m s = (r, t)" by fastforce
  then show ?thesis
    using quiet_refines [OF sync_receive_quiet [of s E m]]
    by (cases r) (auto simp: SyncRequest split: sum.split)
next
  case (BootstrapBegin cert invn)
  then show ?thesis
    using begin_bootstrap_refines [of E s W peer cert invn] by (simp add: split_beta)
next
  case (BootstrapProve invn sig)
  then show ?thesis
    using prove_bootstrap_refines [of E s peer invn sig] by (simp add: split_beta)
qed simp

lemma handle_plain_request_refines: "refines E s (snd (handle_plain_request E W peer request ch s))"
proof -
  obtain response state t where t: "handle_request E W peer request s = ((response, state), t)"
    by (metis surj_pair)
  have "refines E s t" using handle_request_refines [of E s W peer request] t by simp
  moreover have "quiet t (snd (handle_plain_request E W peer request ch s))"
  proof (cases state)
    case None
    then show ?thesis
      by (simp add: handle_plain_request_def t quiet.op_bind quiet.respond quiet.op_return)
  next
    case (Some a)
    then show ?thesis
      by (cases a) (simp_all add: handle_plain_request_def t quiet.op_bind quiet.respond quiet.op_return
          quiet.maybe_start_sync quiet.start_bootstrap)
  qed
  ultimately show ?thesis by (rule refines_quiet)
qed

lemma handle_bootstrap_acceptance_refines:
  "refines E s (snd (handle_bootstrap_acceptance E W peer invn acceptance ch s))"
proof -
  let ?s1 = "s\<lparr>proved_bootstraps := (proved_bootstraps s)(peer := None)\<rparr>"
  have "refines E s ?s1"
    using gate_move.discard_proof [of E "gate_of s" peer] by (simp add: refines_def gate_of_def)
  then have reject: "refines E s (snd (op_bind (respond E W ch (Rejected InvalidBootstrap))
      (\<lambda>_. op_return (SyncProgressEvent peer)) ?s1))"
    by (rule refines_quiet) (intro quiet.op_bind quiet.respond quiet.op_return)
  show ?thesis
  proof (cases "proved_bootstraps s peer")
    case None
    then show ?thesis using reject by (simp add: handle_bootstrap_acceptance_def)
  next
    case (Some pr)
    have offered: "refines E s (?s1\<lparr>pending_acceptances := (pending_acceptances s)(peer \<mapsto>
        \<lparr>acceptance_invitation = invn, acceptance_device = proved_device pr, acceptance_channel = ch\<rparr>)\<rparr>)"
      if valid: "acceptance_valid E ?s1 invn acceptance pr" and free: "pending_acceptances s peer = None"
    proof -
      have "author_id (np_crypto E) acceptance = Inr (auth_user (proved_device pr))"
        using valid by (cases "author_id (np_crypto E) acceptance") (auto simp: acceptance_valid_def)
      then show ?thesis
        using gate_move.offer [of "gate_of s" peer pr invn E acceptance ch] Some valid free
        by (simp add: acceptance_valid_def is_ok_iff refines_def gate_of_def)
    qed
    then show ?thesis
      using Some reject by (auto simp: handle_bootstrap_acceptance_def Let_def)
  qed
qed

text \<open>Admitting a peer adds it to both \<open>authenticated\<close> and \<open>authenticated_devices\<close>.\<close>

lemma coupled_admit:
  "coupled s \<Longrightarrow> coupled (s\<lparr>authenticated := insert peer (authenticated s),
     authenticated_devices := (authenticated_devices s)(peer \<mapsto> d)\<rparr>)"
  by (auto simp: coupled_def)

lemma handle_response_refines: "refines E s (snd (handle_response E peer response s))"
proof (cases response)
  case AuthenticatedResponse
  have "quiet s (s\<lparr>accepted_by_remote := insert peer (accepted_by_remote s)\<rparr>)"
    by (auto simp: quiet_def gate_of_def coupled_def)
  then show ?thesis
    unfolding AuthenticatedResponse handle_response.simps
    by (intro quiet_refines quiet.trans [OF _ quiet.op_bind] quiet.maybe_start_sync quiet.op_return)
next
  case (SyncResponse ms)
  have "quiet s (snd (op_bind (op_each (handle_sync_message E peer) ms)
      (\<lambda>_. op_return (SyncProgressEvent peer)) s))"
    by (intro quiet.op_bind quiet.op_each quiet.op_return handle_sync_message_quiet)
  then show ?thesis by (simp add: SyncResponse quiet_refines)
next
  case BootstrapAccepted
  show ?thesis
  proof (cases "target_with (\<lambda>t. target_peer t = peer \<and> endpoint_approved t) s")
    case None
    then show ?thesis by (simp add: BootstrapAccepted)
  next
    case (Some t)
    then have t: "bootstrap_target s = Some t" "target_peer t = peer" "endpoint_approved t"
      by (simp_all add: target_with_Some)
    show ?thesis
    proof (cases "provisional s peer")
      case None
      then show ?thesis using Some by (simp add: BootstrapAccepted)
    next
      case d: (Some d)
      let ?t = "s\<lparr>provisional := (provisional s)(peer := None),
        allowed_users := insert (auth_user d) (allowed_users s),
        authenticated := insert peer (authenticated s),
        authenticated_devices := (authenticated_devices s)(peer \<mapsto> d),
        accepted_by_remote := insert peer (accepted_by_remote s)\<rparr>"
      have "refines E s ?t"
        using gate_move.confirm [of "gate_of s" t peer d E] t d
        by (auto simp: refines_def gate_of_def coupled_def)
      then show ?thesis
        using Some d
        by (simp add: BootstrapAccepted refines_quiet quiet.op_bind quiet.maybe_start_sync quiet.op_return)
    qed
  qed
qed (auto split: option.split sum.split)


section \<open>Events of the swarm\<close>

lemma handle_request_response_refines: "refines E s (snd (handle_request_response E W ev s))"
proof (cases ev)
  case (RequestMessage peer request ch)
  then show ?thesis
    using handle_plain_request_refines [of E s W peer request ch]
    by (cases request)
      (simp_all add: refines_bind handle_bootstrap_acceptance_refines quiet.op_return)
qed (simp_all add: refines_bind handle_response_refines quiet.op_return)

lemma handle_behaviour_refines: "refines E s (snd (handle_behaviour E W ev s))"
proof (cases ev)
  case (RequestResponseEvent rr)
  then show ?thesis by (simp add: handle_request_response_refines)
next
  case (IdentifyReceived peer observed)
  show ?thesis
    unfolding IdentifyReceived by (rule quiet_refines [OF quiet.identify_received])
qed (auto split: sum.split)

lemma connection_established_quiet: "quiet s (snd (connection_established E peer relayed s))"
proof -
  let ?s1 = "if relayed then s\<lparr>relayed_application_peers := insert peer (relayed_application_peers s)\<rparr> else s"
  have s1: "quiet s ?s1" by (simp add: quiet.relayed quiet.refl)
  have sent: "quiet u (snd (send E peer request
      (u\<lparr>authentication_sent := insert peer (authentication_sent u)\<rparr>)))" for u request
    by (rule quiet.trans [OF _ quiet.send]) (auto simp: quiet_def gate_of_def coupled_def)
  have "quiet u (snd (if peer \<notin> authenticated u \<and> peer \<notin> authentication_sent u
      then send E peer (AuthenticateRequest (certificate u))
             (u\<lparr>authentication_sent := insert peer (authentication_sent u)\<rparr>)
      else (Inr (), u)))" for u
    by (simp add: sent quiet.refl)
  then have "quiet ?s1 (snd (op_bind
      (\<lambda>u. if peer \<notin> authenticated u \<and> peer \<notin> authentication_sent u
           then send E peer (AuthenticateRequest (certificate u))
                  (u\<lparr>authentication_sent := insert peer (authentication_sent u)\<rparr>)
           else (Inr (), u))
      (\<lambda>_. op_return (Some (ConnectedEvent peer relayed))) ?s1))"
    by (rule quiet.op_bind [OF _ quiet.op_return])
  then show ?thesis
    using quiet.trans [OF s1] by (simp only: connection_established_def Let_def) (simp add: quiet.refl)
qed

lemma coupled_remove:
  "coupled s \<Longrightarrow> coupled (s\<lparr>authenticated := authenticated s - {peer},
     authenticated_devices := (authenticated_devices s)(peer := None),
     authentication_sent := a,
     accepted_by_remote := accepted_by_remote s - {peer},
     sync_started := sync_started s - {peer}\<rparr>)"
  by (auto simp: coupled_def)

lemma forget_peer_refines: "refines E s (forget_peer peer s)"
proof -
  have "coupled s \<longrightarrow> coupled (forget_peer peer s)"
    using coupled_remove [of s peer] by (simp add: forget_peer_def)
  moreover have "gate_move E (gate_of s) (gate_of (forget_peer peer s))"
    using gate_move.forget [of E "gate_of s" peer] by (simp add: forget_peer_def gate_of_def)
  ultimately show ?thesis by (simp add: refines_def)
qed

lemma handle_swarm_event_refines: "refines E s (snd (handle_swarm_event E W ev s))"
proof (cases ev)
  case (ConnectionEstablished peer relayed)
  then show ?thesis by (simp add: quiet_refines [OF connection_established_quiet])
next
  case (ConnectionClosed peer n)
  then show ?thesis by (simp add: connection_closed_def forget_peer_refines)
next
  case (BehaviourEvent ev')
  then show ?thesis by (simp add: handle_behaviour_refines)
next
  case (OutgoingConnectionError peer err)
  then show ?thesis by (simp add: outgoing_connection_error_def split: option.split)
qed simp_all

section \<open>Calls\<close>

lemma drop_peer_coupled: "coupled s \<Longrightarrow> coupled (drop_peer peer s)"
  using coupled_remove [of s peer] quiet.effect by (simp add: drop_peer_def quiet_def)

lemma fold_drop_peer:
  "authenticated_devices (fold drop_peer ps s) =
     (\<lambda>p. if p \<in> set ps then None else authenticated_devices s p)"
  "gate_of (fold drop_peer ps s) =
     (gate_of s)\<lparr>gate_devices := \<lambda>p. if p \<in> set ps then None else authenticated_devices s p\<rparr>"
  "coupled s \<Longrightarrow> coupled (fold drop_peer ps s)"
proof (induction ps arbitrary: s)
  case Nil
  {
    case 1 then show ?case by simp
  next
    case 2 then show ?case by (simp add: gate_of_def)
  next
    case 3 then show ?case by simp
  }
next
  case (Cons q ps)
  {
    case 1 then show ?case using Cons.IH(1) by (auto simp: drop_peer_def add_effect_def fun_eq_iff)
  next
    case 2 then show ?case
      using Cons.IH(2) by (auto simp: drop_peer_def add_effect_def gate_of_def fun_eq_iff)
  next
    case 3 then show ?case using Cons.IH(3) drop_peer_coupled by simp
  }
qed

lemma fold_drop_peer_effects:
  "p \<in> set ps \<Longrightarrow> DisconnectPeer p \<in> set (swarm_effects (fold drop_peer ps s))"
proof (induction ps rule: rev_induct)
  case (snoc q ps)
  then show ?case by (auto simp: drop_peer_def add_effect_def)
qed simp

lemma replace_authorization_refines:
  assumes order: "set order = dom (authenticated_devices s)"
  shows "refines E s (replace_authorization order users devices s)"
proof -
  let ?s1 = "s\<lparr>allowed_users := users, trusted_infrastructure_devices := devices\<rparr>"
  let ?g1 = "(gate_of s)\<lparr>gate_users := users, gate_trusted := devices\<rparr>"
  let ?kept = "\<lambda>p. case gate_devices (gate_of s) p of None \<Rightarrow> None
    | Some d \<Rightarrow> if admitted ?g1 d then Some d else None"
  let ?rej = "filter (\<lambda>p. case authenticated_devices ?s1 p of None \<Rightarrow> False
    | Some d \<Rightarrow> \<not> authorised ?s1 d) order"
  have t: "replace_authorization order users devices s = fold drop_peer ?rej ?s1"
    by (simp add: replace_authorization_def Let_def)
  have "(\<lambda>p. if p \<in> set ?rej then None else authenticated_devices ?s1 p) = ?kept"
  proof (rule ext)
    fix p
    show "(if p \<in> set ?rej then None else authenticated_devices ?s1 p) = ?kept p"
      using order by (cases "authenticated_devices s p") (auto simp: gate_of_def authorised_def admitted_def)
  qed
  then have "gate_of (fold drop_peer ?rej ?s1) = ?g1\<lparr>gate_devices := ?kept\<rparr>"
    by (simp only: fold_drop_peer(2)) (simp add: gate_of_def)
  then have "gate_move E (gate_of s) (gate_of (replace_authorization order users devices s))"
    using gate_move.reauthorise [where g = "gate_of s" and g' = ?g1 and E = E, OF refl] by (simp add: t)
  moreover have "coupled s \<longrightarrow> coupled (replace_authorization order users devices s)"
    using fold_drop_peer(3) [of ?s1 ?rej] by (simp add: t)
  ultimately show ?thesis by (simp add: refines_def)
qed

lemma validate_bootstrap_grant_Inr_iff [res_simps]:
  "validate_bootstrap_grant E s grant = Inr u \<longleftrightarrow> grant_ok E (peer_community (net_sync s)) grant"
proof -
  have "list_ex (\<lambda>e. event_id e = grant_invitation grant) (grant_ancestry grant) \<longleftrightarrow>
      grant_invitation grant \<in> event_id ` set (grant_ancestry grant)"
    by (auto simp: list_ex_iff intro: rev_image_eqI)
  moreover have "grant_invitation grant \<in> event_id ` set (grant_ancestry grant) \<Longrightarrow> grant_ancestry grant \<noteq> []"
    by auto
  ultimately show ?thesis
    by (auto simp: validate_bootstrap_grant_def grant_ok_def res_simps simp del: validate_event_Inr_iff)
qed


lemma register_bootstrap_grant_refines:
  assumes "grants_ok E (peer_community (net_sync s)) (bootstrap_grants s)"
  shows "refines E s (snd (register_bootstrap_grant E grant s))"
proof (cases "validate_bootstrap_grant E s grant")
  case (Inl err)
  then show ?thesis by (simp add: register_bootstrap_grant_def)
next
  case (Inr u)
  then have "grants_ok E (peer_community (net_sync s)) ((bootstrap_grants s)(grant_invitation grant \<mapsto> grant))"
    using assms by (auto simp: grants_ok_def validate_bootstrap_grant_Inr_iff)
  then show ?thesis
    using Inr gate_move.set_grants [of E "gate_of s"]
    by (simp add: register_bootstrap_grant_def refines_def gate_of_def)
qed

lemma replace_bootstrap_grants_refines: "refines E s (snd (replace_bootstrap_grants E grants s))"
proof -
  let ?body = "\<lambda>replacement grant. res_bind (validate_bootstrap_grant E s grant)
    (\<lambda>_. Inr (replacement(grant_invitation grant \<mapsto> grant)))"
  show ?thesis
  proof (cases "try_fold ?body grants Map.empty")
    case (Inl err)
    then show ?thesis by (simp add: replace_bootstrap_grants_def)
  next
    case (Inr replacement)
    have "grants_ok E (peer_community (net_sync s)) replacement"
      by (rule try_fold_invariant [OF Inr])
        (auto simp: grants_ok_def res_bind_Inr_iff validate_bootstrap_grant_Inr_iff)
    then show ?thesis
      using Inr gate_move.set_grants [of E "gate_of s" replacement]
      by (simp add: replace_bootstrap_grants_def refines_def gate_of_def)
  qed
qed

lemma configure_bootstrap_target_refines: "refines E s (snd (configure_bootstrap_target peer invn s))"
  using gate_move.set_target [of "gate_of s" E peer invn]
  by (auto simp: configure_bootstrap_target_def refines_def gate_of_def)

lemma approve_bootstrap_endpoint_refines: "refines E s (snd (approve_bootstrap_endpoint peer s))"
proof (cases "target_with (\<lambda>t. target_peer t = peer) s")
  case None
  then show ?thesis by (simp add: approve_bootstrap_endpoint_def)
next
  case (Some t)
  then have "bootstrap_target s = Some t" "target_peer t = peer"
    by (simp_all add: target_with_Some)
  then show ?thesis
    using Some gate_move.approve_target [of "gate_of s" t E]
    by (auto simp: approve_bootstrap_endpoint_def refines_def gate_of_def)
qed

lemma resolve_bootstrap_acceptance_refines:
  "refines E s (snd (resolve_bootstrap_acceptance E W peer approved s))"
proof (cases "pending_acceptances s peer")
  case None
  then show ?thesis by (simp add: resolve_bootstrap_acceptance_def)
next
  case (Some a)
  let ?s1 = "s\<lparr>pending_acceptances := (pending_acceptances s)(peer := None)\<rparr>"
  let ?s2 = "?s1\<lparr>bootstrap_grants := (bootstrap_grants s)(acceptance_invitation a := None),
    allowed_users := insert (auth_user (acceptance_device a)) (allowed_users s),
    authenticated := insert peer (authenticated s),
    authenticated_devices := (authenticated_devices s)(peer \<mapsto> acceptance_device a)\<rparr>"
  have "refines E s ?s1"
    using Some gate_move.decline [of "gate_of s" peer a E] by (simp add: refines_def gate_of_def)
  then have declined: "refines E s (snd (send_response W ch (Rejected BootstrapNotApproved) ?s1))" for ch
    by (rule refines_quiet [OF _ quiet.send_response])
  have "coupled s \<longrightarrow> coupled ?s2" by (auto simp: coupled_def)
  then have "refines E s ?s2"
    using Some gate_move.approve [of "gate_of s" peer a E] by (simp add: refines_def gate_of_def)
  then have "refines E s (snd (op_bind (send_response W (acceptance_channel a) BootstrapAccepted)
      (\<lambda>_. maybe_start_sync E peer) ?s2))"
    by (rule refines_quiet) (intro quiet.op_bind quiet.send_response quiet.maybe_start_sync)
  then show ?thesis
    using Some declined by (simp add: resolve_bootstrap_acceptance_def Let_def)
qed

section \<open>Every step is a move of the gate\<close>

lemma net_step_refines:
  assumes "permitted s input" and "gate_ok E (gate_of s)"
  shows "refines E s (net_step E W input s)"
proof (cases input)
  case (ReplaceAuthorization order users devices)
  then show ?thesis using assms(1) by (simp add: replace_authorization_refines)
next
  case (RegisterGrant grant)
  have "grants_ok E (peer_community (net_sync s)) (bootstrap_grants s)"
    using gate_okD(8) [OF assms(2)] by (simp add: gate_of_def)
  then show ?thesis by (simp add: RegisterGrant register_bootstrap_grant_refines)
next
  case (SyncPeerMut p)
  then show ?thesis using assms(1) by (simp add: refines_def gate_of_def)
qed (simp_all add: handle_swarm_event_refines replace_bootstrap_grants_refines
    configure_bootstrap_target_refines approve_bootstrap_endpoint_refines
    resolve_bootstrap_acceptance_refines quiet_refines
    quiet.listen quiet.reserve_relay quiet.dial quiet.submit_proof quiet.submit_acceptance)

lemma network_new_Inr:
  "network_new E W device cert sync allowed revoked = Inr s \<Longrightarrow>
     gate_init (gate_of s) \<and> coupled s \<and> swarm_effects s = [] \<and>
     peer_id_from_certificate (np_crypto E) (np_libp2p E) (certificate s) = Inr (local_peer s)"
  by (auto simp: network_new_def res_bind_Inr_iff map_err_Inr_iff gate_init_def gate_of_def coupled_def
      split: if_splits option.splits)

text \<open>Every reachable node satisfies the invariant of its gate and the coupling.\<close>

lemma net_reachable_ok: "net_reachable E s \<Longrightarrow> gate_ok E (gate_of s) \<and> coupled s"
proof (induction rule: net_reachable.induct)
  case (start W device cert sync allowed revoked s)
  then show ?case using network_new_Inr gate_init_ok by blast
next
  case (step s input W)
  have "refines E s (net_step E W input s)"
    using step.hyps(2) step.IH by (simp add: net_step_refines)
  then show ?case
    using step.IH gate_move_ok unfolding refines_def by metis
qed

end
