(* ===== verification/Network_Flow.thy ===== *)
theory Network_Flow
  imports Network_Refine "HOL-Library.Sublist"
begin

text \<open>
  What flows into the network node: which messages reach its synchronisation peer.
\<close>

section \<open>What reaches the synchronisation peer\<close>

definition sync_after ::
  "'k network_params \<Rightarrow> sync_message list \<Rightarrow> sync_peer \<Rightarrow> sync_peer" where
  "sync_after E ms p =
     fold (\<lambda>m p. snd (receive (np_crypto E) (np_event_json E) (np_sync_json E) p m)) ms p"

text \<open>The synchronisation messages an event of the swarm carries, and the peer they come from.\<close>

fun offered_sync :: "swarm_event \<Rightarrow> (peer_id \<times> sync_message list) option" where
  "offered_sync (BehaviourEvent (RequestResponseEvent (RequestMessage p (SyncRequest m) ch))) = Some (p, [m])"
| "offered_sync (BehaviourEvent (RequestResponseEvent (ResponseMessage p (SyncResponse ms)))) = Some (p, ms)"
| "offered_sync _ = None"

lemma sync_receive_after: "net_sync (snd (sync_receive E m s)) = sync_after E [m] (net_sync s)"
  by (simp add: sync_receive_def sync_after_def split_beta)

lemma handle_sync_message_after:
  "net_sync (snd (handle_sync_message E peer m s)) = sync_after E [m] (net_sync s)"
proof -
  obtain r t where rec: "sync_receive E m s = (r, t)" by fastforce
  have t: "net_sync t = sync_after E [m] (net_sync s)" using sync_receive_after [of E m s] rec by simp
  have "same_sync t (snd (op_each (\<lambda>m. send E peer (SyncRequest m)) ms t))" for ms
    by (rule same_sync.op_each) (rule same_sync.send)
  then show ?thesis
    using rec t by (simp add: handle_sync_message_def same_sync_def split: sum.split)
qed

lemma sync_after_Cons: "sync_after E (m # ms) p = sync_after E ms (sync_after E [m] p)"
  by (simp add: sync_after_def)

lemma handle_sync_messages_after:
  "\<exists>done. prefix done ms \<and>
     net_sync (snd (op_each (handle_sync_message E peer) ms s)) = sync_after E done (net_sync s)"
proof (induction ms arbitrary: s)
  case Nil
  then show ?case by (simp add: op_return_def sync_after_def)
next
  case (Cons m ms)
  obtain r t where m: "handle_sync_message E peer m s = (r, t)" by fastforce
  have t: "net_sync t = sync_after E [m] (net_sync s)" using handle_sync_message_after [of E peer m s] m by simp
  show ?case
  proof (cases r)
    case (Inl err)
    then show ?thesis using m t by (intro exI [of _ "[m]"]) (simp add: op_bind_def)
  next
    case (Inr u)
    obtain d where "prefix d ms" "net_sync (snd (op_each (handle_sync_message E peer) ms t)) = sync_after E d (net_sync t)"
      using Cons.IH by blast
    then show ?thesis
      using m t Inr by (intro exI [of _ "m # d"]) (simp add: op_bind_def sync_after_Cons [of E m d])
  qed
qed

lemma handle_request_same_sync:
  assumes "\<And>m. request \<noteq> SyncRequest m"
  shows "same_sync s (snd (handle_request E W peer request s))"
proof (cases request)
  case (AuthenticateRequest cert)
  then show ?thesis by (simp add: authenticate_def same_sync_def split: sum.split)
next
  case (SyncRequest m)
  then show ?thesis using assms by blast
next
  case (BootstrapBegin cert invn)
  then show ?thesis by (simp add: begin_bootstrap_def Let_def same_sync_def split: sum.split)
next
  case (BootstrapProve invn sig)
  then show ?thesis by (simp add: prove_bootstrap_def Let_def same_sync_def split: option.split)
qed (simp add: same_sync.refl)

lemma handle_plain_request_after:
  "net_sync (snd (handle_plain_request E W peer request ch s)) = net_sync (snd (handle_request E W peer request s))"
proof -
  obtain response state t where t: "handle_request E W peer request s = ((response, state), t)"
    by (metis surj_pair)
  have "same_sync t (snd (handle_plain_request E W peer request ch s))"
    by (cases state; (cases "the state")?)
      (simp_all add: handle_plain_request_def t same_sync.op_bind same_sync.respond same_sync.op_return
        same_sync.maybe_start_sync same_sync.start_bootstrap)
  then show ?thesis by (simp add: t same_sync_def)
qed

lemma handle_request_sync_after:
  "net_sync (snd (handle_request E W peer (SyncRequest m) s)) =
     (if peer \<in> authenticated s \<and> \<not> (case m of Want _ ids \<Rightarrow> length ids \<noteq> 1 | _ \<Rightarrow> False)
      then sync_after E [m] (net_sync s) else net_sync s)"
proof -
  obtain r t where rec: "sync_receive E m s = (r, t)" by fastforce
  have "net_sync t = sync_after E [m] (net_sync s)" using sync_receive_after [of E m s] rec by simp
  then show ?thesis using rec by (cases r) (auto split: sum.split)
qed

lemma handle_response_same_sync:
  assumes "\<And>ms. response \<noteq> SyncResponse ms"
  shows "same_sync s (snd (handle_response E peer response s))"
proof (cases response)
  case AuthenticatedResponse
  have "same_sync s (s\<lparr>accepted_by_remote := insert peer (accepted_by_remote s)\<rparr>)"
    by (simp add: same_sync_def)
  then show ?thesis
    unfolding AuthenticatedResponse handle_response.simps
    by (intro same_sync.trans [OF _ same_sync.op_bind] same_sync.maybe_start_sync same_sync.op_return)
next
  case (SyncResponse ms)
  then show ?thesis using assms by blast
next
  case BootstrapAccepted
  have cont: "same_sync u (snd (op_bind (maybe_start_sync E peer) (\<lambda>_. op_return ev) u))" for u and ev :: network_event
    by (intro same_sync.op_bind same_sync.maybe_start_sync same_sync.op_return)
  show ?thesis
    unfolding BootstrapAccepted handle_response.simps
    by (auto simp: same_sync.refl split: option.split intro!: same_sync.trans [OF _ cont])
      (simp add: same_sync_def)
qed (auto simp: same_sync.refl split: option.split sum.split)


lemma handle_request_response_after:
  "\<exists>done. net_sync (snd (handle_request_response E W ev s)) = sync_after E done (net_sync s) \<and>
     (done = [] \<or> (\<exists>p ms. offered_sync (BehaviourEvent (RequestResponseEvent ev)) = Some (p, ms) \<and>
        p \<in> authenticated s \<and> prefix done ms))"
proof -
  have none: ?thesis if "same_sync s (snd (handle_request_response E W ev s))"
    using that by (intro exI [of _ "[]"]) (simp add: same_sync_def sync_after_def)
  show ?thesis
  proof (cases ev)
    case (RequestMessage p request ch)
    show ?thesis
    proof (cases request)
      case (SyncRequest m)
      have after: "net_sync (snd (handle_request_response E W ev s)) =
          (if p \<in> authenticated s \<and> \<not> (case m of Want _ ids \<Rightarrow> length ids \<noteq> 1 | _ \<Rightarrow> False)
           then sync_after E [m] (net_sync s) else net_sync s)"
        by (simp only: RequestMessage SyncRequest handle_request_response.simps network_request.case
            handle_plain_request_after handle_request_sync_after)
      show ?thesis
      proof (cases "p \<in> authenticated s \<and> \<not> (case m of Want _ ids \<Rightarrow> length ids \<noteq> 1 | _ \<Rightarrow> False)")
        case True
        then show ?thesis
          unfolding after by (intro exI [of _ "[m]"]) (simp add: RequestMessage SyncRequest)
      next
        case False
        then show ?thesis
          unfolding after by (intro exI [of _ "[]"]) (auto simp: sync_after_def)
      qed
    next
      case (BootstrapAccept invn acceptance)
      have "same_sync s (snd (handle_bootstrap_acceptance E W p invn acceptance ch s))"
      proof -
        have "same_sync s (snd (op_bind (respond E W ch (Rejected InvalidBootstrap))
            (\<lambda>_. op_return (SyncProgressEvent p)) (s\<lparr>proved_bootstraps := x\<rparr>)))" for x
          by (rule same_sync.trans [OF _ same_sync.op_bind [OF same_sync.respond same_sync.op_return]])
            (simp add: same_sync_def)
        then show ?thesis
          by (auto simp: handle_bootstrap_acceptance_def Let_def same_sync_def split: option.split)
      qed
      then show ?thesis
        by (intro none) (simp add: RequestMessage BootstrapAccept same_sync.op_bind same_sync.op_return)
    qed (rule none, simp add: RequestMessage same_sync_def handle_plain_request_after
        handle_request_same_sync [unfolded same_sync_def] del: handle_request.simps)+
  next
    case (ResponseMessage p response)
    show ?thesis
    proof (cases "\<exists>ms. response = SyncResponse ms")
      case True
      then obtain ms where ms: "response = SyncResponse ms" by blast
      obtain d where d: "prefix d ms"
          "net_sync (snd (op_each (handle_sync_message E p) ms s)) = sync_after E d (net_sync s)"
        using handle_sync_messages_after by blast
      have keep: "net_sync (snd (op_bind m (\<lambda>_. op_return y) u)) = net_sync (snd (m u))"
        for m :: "'x net_op" and y :: 'y and u
        by (cases "m u"; cases "fst (m u)") (auto simp: op_bind_def op_return_def)
      show ?thesis
      proof (cases "p \<in> authenticated s \<and> length ms \<le> MAX_MESSAGES_PER_FRAME")
        case True
        then have "net_sync (snd (handle_request_response E W ev s)) = sync_after E d (net_sync s)"
          using d(2) keep by (auto simp: ResponseMessage ms op_bind_def op_return_def split: prod.split sum.split)
        then show ?thesis using True d(1) by (intro exI [of _ d]) (simp add: ResponseMessage ms)
      next
        case False
        then show ?thesis
          by (intro none) (auto simp: ResponseMessage ms op_bind_def same_sync_def)
      qed
    next
      case False
      then have "same_sync s (snd (handle_response E p response s))"
        by (intro handle_response_same_sync) blast
      then show ?thesis
        by (intro none) (simp add: ResponseMessage same_sync.op_bind same_sync.op_return
            del: handle_response.simps)
    qed
  qed (rule none, simp add: same_sync.refl)+
qed

lemma handle_swarm_event_after:
  "\<exists>done. net_sync (snd (handle_swarm_event E W ev s)) = sync_after E done (net_sync s) \<and>
     (done = [] \<or> (\<exists>p ms. offered_sync ev = Some (p, ms) \<and> p \<in> authenticated s \<and> prefix done ms))"
proof -
  have none: ?thesis if "same_sync s (snd (handle_swarm_event E W ev s))"
    using that by (intro exI [of _ "[]"]) (simp add: same_sync_def sync_after_def)
  show ?thesis
  proof (cases ev)
    case (ConnectionEstablished peer relayed)
    have "same_sync s (snd (connection_established E peer relayed s))"
      by (simp add: connection_established_def op_bind_def op_return_def send_def add_effect_def same_sync_def
          Let_def split: option.split)
    then show ?thesis by (intro none) (simp add: ConnectionEstablished)
  next
    case (ConnectionClosed peer n)
    then show ?thesis by (intro none) (simp add: connection_closed_def forget_peer_def same_sync_def)
  next
    case (BehaviourEvent b)
    show ?thesis
    proof (cases b)
      case (RequestResponseEvent rr)
      then show ?thesis using handle_request_response_after [of E W rr s] by (simp add: BehaviourEvent)
    next
      case (IdentifyReceived peer observed)
      show ?thesis
        by (intro none, simp only: BehaviourEvent IdentifyReceived handle_swarm_event.simps)
          (rule same_sync.identify_received)
    qed (rule none, simp add: BehaviourEvent same_sync.refl split: sum.split)+
  next
    case (OutgoingConnectionError peer err)
    then show ?thesis
      by (intro none) (simp add: outgoing_connection_error_def same_sync.refl split: option.split)
  qed (rule none, simp add: same_sync.refl)+
qed

end
