(* ===== verification/Network_Sends.thy ===== *)
theory Network_Sends
  imports Network_Flow
begin

text \<open>
  What the network node sends, to whom and on what occasion, for every call of its interface and every
  event of its swarm.

  \<open>logs ok s t\<close> says that the swarm effects recorded between \<open>s\<close> and \<open>t\<close> all satisfy \<open>ok\<close>; it is one
  more instance of the interface \<open>op_preorder\<close>.  The policy is \<open>may_ask\<close> for requests and \<open>may_answer\<close>
  for responses.
\<close>

section \<open>The policy\<close>

definition request_fits :: "'k network_params \<Rightarrow> network_request \<Rightarrow> bool" where
  "request_fits E r \<longleftrightarrow>
     (\<exists>bs. to_vec (np_request_json E) r = Some bs \<and> length bs \<le> MAX_NETWORK_FRAME_BYTES)"

definition response_fits :: "'k network_params \<Rightarrow> network_response \<Rightarrow> bool" where
  "response_fits E r \<longleftrightarrow>
     (\<exists>bs. to_vec (np_response_json E) r = Some bs \<and> length bs \<le> MAX_NETWORK_FRAME_BYTES)"

definition targets :: "network_node \<Rightarrow> peer_id \<Rightarrow> event_id \<Rightarrow> bool" where
  "targets s p i \<longleftrightarrow> (\<exists>g. bootstrap_target s = Some g \<and> target_peer g = p \<and> target_invitation g = i)"

definition endpoint_trusted :: "network_node \<Rightarrow> bool" where
  "endpoint_trusted s \<longleftrightarrow> (\<exists>g. bootstrap_target s = Some g \<and> endpoint_approved g)"

text \<open>
  The requests a node in state \<open>s\<close> may send while it handles \<open>input\<close>; \<open>A\<close> are the peers that are
  authenticated afterwards.  Events of the community travel in \<open>SyncRequest\<close> only; the one event in
  \<open>BootstrapAccept\<close> is the caller's own acceptance, for the approved endpoint of its invitation.
\<close>

fun may_ask ::
  "'k network_params \<Rightarrow> network_node \<Rightarrow> net_input \<Rightarrow> peer_id set \<Rightarrow> peer_id \<Rightarrow> network_request \<Rightarrow> bool" where
  "may_ask E s input A p (AuthenticateRequest c) \<longleftrightarrow>
     c = certificate s \<and> (\<exists>relayed. input = SwarmInput (ConnectionEstablished p relayed))"
| "may_ask E s input A p (SyncRequest m) \<longleftrightarrow> p \<in> A"
| "may_ask E s input A p (BootstrapBegin c i) \<longleftrightarrow> c = certificate s \<and> targets s p i"
| "may_ask E s input A p (BootstrapProve i sig) \<longleftrightarrow> input = SubmitProof p i sig \<and> targets s p i"
| "may_ask E s input A p (BootstrapAccept i e) \<longleftrightarrow>
     input = SubmitAcceptance p i e \<and> targets s p i \<and> endpoint_trusted s \<and> validate_event (np_crypto E) e = Inr ()"

definition requested :: "net_input \<Rightarrow> channel \<Rightarrow> peer_id \<Rightarrow> network_request \<Rightarrow> bool" where
  "requested input ch p r \<longleftrightarrow>
     input = SwarmInput (BehaviourEvent (RequestResponseEvent (RequestMessage p r ch)))"

text \<open>
  Who is entitled to which response: events of the community go to authenticated peers, the ancestry
  of an invitation to a peer that has just answered its challenge with the invitation's capability.
\<close>

fun entitled ::
  "'k network_params \<Rightarrow> network_node \<Rightarrow> net_input \<Rightarrow> channel \<Rightarrow> network_response \<Rightarrow> bool" where
  "entitled E s input ch AuthenticatedResponse \<longleftrightarrow> (\<exists>p c. requested input ch p (AuthenticateRequest c))"
| "entitled E s input ch (SyncResponse ms) \<longleftrightarrow>
     (\<exists>p m. requested input ch p (SyncRequest m) \<and> p \<in> authenticated s)"
| "entitled E s input ch (BootstrapChallenge i nonce) \<longleftrightarrow>
     (\<exists>p c. requested input ch p (BootstrapBegin c i) \<and> bootstrap_grants s i \<noteq> None)"
| "entitled E s input ch (BootstrapAncestry i es) \<longleftrightarrow>
     (\<exists>p sig c grant. requested input ch p (BootstrapProve i sig) \<and>
        pending_challenges s p = Some c \<and> challenge_invitation c = i \<and>
        bootstrap_grants s i = Some grant \<and> es = grant_ancestry grant \<and>
        verify (np_crypto E) (arr32_bytes (grant_capability_key grant)) (challenge_proof_bytes c) sig = Inr ())"
| "entitled E s input ch BootstrapAccepted \<longleftrightarrow>
     (\<exists>p a. input = ResolveAcceptance p True \<and> pending_acceptances s p = Some a \<and> acceptance_channel a = ch)"
| "entitled E s input ch (Rejected reason) \<longleftrightarrow>
     (\<exists>p r. requested input ch p r) \<or>
     (\<exists>p a. reason = BootstrapNotApproved \<and> input = ResolveAcceptance p False \<and>
        pending_acceptances s p = Some a \<and> acceptance_channel a = ch)"

text \<open>The two answers of \<open>resolve_bootstrap_acceptance\<close> are sent without measuring them; they carry no data.\<close>

definition may_answer ::
  "'k network_params \<Rightarrow> network_node \<Rightarrow> net_input \<Rightarrow> channel \<Rightarrow> network_response \<Rightarrow> bool" where
  "may_answer E s input ch r \<longleftrightarrow> entitled E s input ch r \<and>
     (response_fits E r \<or> (\<exists>p. input = ResolveAcceptance p (r = BootstrapAccepted)))"

fun proper ::
  "'k network_params \<Rightarrow> (peer_id \<Rightarrow> network_request \<Rightarrow> bool) \<Rightarrow> (channel \<Rightarrow> network_response \<Rightarrow> bool) \<Rightarrow>
     swarm_effect \<Rightarrow> bool" where
  "proper E Q B (SendRequest p r) \<longleftrightarrow> request_fits E r \<and> Q p r"
| "proper E Q B (SendResponse ch r) \<longleftrightarrow> B ch r"
| "proper E Q B _ \<longleftrightarrow> True"

section \<open>Logs\<close>

definition logs :: "(swarm_effect \<Rightarrow> bool) \<Rightarrow> network_node \<Rightarrow> network_node \<Rightarrow> bool" where
  "logs ok s t \<longleftrightarrow> (\<exists>xs. swarm_effects t = swarm_effects s @ xs \<and> (\<forall>x \<in> set xs. ok x))"

interpretation logs: op_preorder "logs ok" for ok
proof unfold_locales
  fix s t u
  show "logs ok s s" by (simp add: logs_def)
  assume "logs ok s t" "logs ok t u"
  then obtain xs ys where "swarm_effects t = swarm_effects s @ xs" "swarm_effects u = swarm_effects t @ ys"
      "\<forall>x \<in> set xs. ok x" "\<forall>x \<in> set ys. ok x"
    by (auto simp: logs_def)
  then show "logs ok s u" by (auto simp: logs_def intro!: exI [of _ "xs @ ys"])
qed

lemma logs_effect: "ok x \<Longrightarrow> logs ok s (add_effect x s)"
  by (simp add: logs_def add_effect_def)

lemma logs_same: "swarm_effects t = swarm_effects s \<Longrightarrow> logs ok s t"
  by (simp add: logs_def)

lemma logs_mono: "logs ok s t \<Longrightarrow> (\<And>x. ok x \<Longrightarrow> ok' x) \<Longrightarrow> logs ok' s t"
  by (auto simp: logs_def)

lemma send_logs: "Q p r \<Longrightarrow> logs (proper E Q B) s (snd (send E p r s))"
  by (auto simp: send_def logs.refl request_fits_def intro!: logs_effect split: option.split)

lemma send_response_logs: "B ch r \<Longrightarrow> logs (proper E Q B) s (snd (send_response W ch r s))"
  by (auto simp: send_response_def logs.refl intro!: logs_effect)

lemma respond_logs: "(response_fits E r \<Longrightarrow> B ch r) \<Longrightarrow> logs (proper E Q B) s (snd (respond E W ch r s))"
  by (auto simp: respond_def logs.refl response_fits_def intro!: send_response_logs split: option.split)

text \<open>The requests that a node sends of its own accord: synchronisation and the start of a bootstrap.\<close>

definition asks :: "(peer_id \<Rightarrow> network_request \<Rightarrow> bool) \<Rightarrow> network_node \<Rightarrow> bool" where
  "asks Q s \<longleftrightarrow> (\<forall>p \<in> authenticated s. \<forall>m. Q p (SyncRequest m)) \<and>
     (\<forall>p i. targets s p i \<longrightarrow> Q p (BootstrapBegin (certificate s) i))"

definition same_peers :: "network_node \<Rightarrow> network_node \<Rightarrow> bool" where
  "same_peers s t \<longleftrightarrow> authenticated t = authenticated s \<and> certificate t = certificate s \<and>
     bootstrap_target t = bootstrap_target s"

interpretation same_peers: relay_preorder same_peers
  by unfold_locales (auto simp: same_peers_def add_effect_def)

interpretation same_peers: sync_preorder same_peers
  by unfold_locales (auto simp: same_peers_def)

lemma same_peers_asks: "same_peers s t \<Longrightarrow> asks Q t = asks Q s"
  by (simp add: same_peers_def asks_def targets_def)

lemma start_bootstrap_logs: "asks Q s \<Longrightarrow> logs (proper E Q B) s (snd (start_bootstrap E p s))"
  by (auto simp: start_bootstrap_def target_with_def logs.refl asks_def targets_def intro!: send_logs
      split: option.split)

lemma maybe_start_sync_logs:
  assumes "asks Q s"
  shows "logs (proper E Q B) s (snd (maybe_start_sync E p s))"
proof -
  have "logs (proper E Q B) s
      (snd (send E p (SyncRequest m) (s\<lparr>sync_started := insert p (sync_started s)\<rparr>)))"
    if "p \<in> authenticated s" for m
    by (rule logs.trans [OF logs_same send_logs]) (use assms that in \<open>auto simp: asks_def\<close>)
  then show ?thesis by (simp add: maybe_start_sync_def logs.refl)
qed

lemma handle_sync_message_logs:
  assumes q: "\<And>m. Q p (SyncRequest m)"
  shows "logs (proper E Q B) s (snd (handle_sync_message E p m s))"
proof -
  obtain r t where rec: "sync_receive E m s = (r, t)" by fastforce
  then have "swarm_effects t = swarm_effects s"
    by (auto simp: sync_receive_def split_beta)
  then have t: "logs (proper E Q B) s t" by (rule logs_same)
  have "logs (proper E Q B) s (snd (op_each (\<lambda>m. send E p (SyncRequest m)) ms t))" for ms
    by (rule logs.trans [OF t logs.op_each]) (rule send_logs, rule q)
  then show ?thesis using t rec by (simp add: handle_sync_message_def split: sum.split)
qed

section \<open>Requests and responses\<close>

lemma handle_request_effects: "swarm_effects (snd (handle_request E W peer request s)) = swarm_effects s"
proof (cases request)
  case (AuthenticateRequest cert)
  then show ?thesis by (simp add: authenticate_def split: sum.split)
next
  case (SyncRequest m)
  obtain r t where rec: "sync_receive E m s = (r, t)" by fastforce
  then have "swarm_effects t = swarm_effects s" by (auto simp: sync_receive_def split_beta)
  then show ?thesis using rec by (cases r) (auto simp: SyncRequest split: sum.split)
next
  case (BootstrapBegin cert invn)
  then show ?thesis by (simp add: begin_bootstrap_def Let_def split: sum.split)
next
  case (BootstrapProve invn sig)
  then show ?thesis by (simp add: prove_bootstrap_def Let_def split: option.split)
qed simp

lemma handle_request_self:
  "certificate (snd (handle_request E W peer request s)) = certificate s \<and>
   bootstrap_target (snd (handle_request E W peer request s)) = bootstrap_target s"
proof (cases request)
  case (AuthenticateRequest cert)
  then show ?thesis by (simp add: authenticate_def split: sum.split)
next
  case (SyncRequest m)
  obtain r t where rec: "sync_receive E m s = (r, t)" by fastforce
  then have "certificate t = certificate s \<and> bootstrap_target t = bootstrap_target s"
    by (auto simp: sync_receive_def split_beta)
  then show ?thesis using rec by (cases r) (auto simp: SyncRequest split: sum.split)
next
  case (BootstrapBegin cert invn)
  then show ?thesis by (simp add: begin_bootstrap_def Let_def split: sum.split)
next
  case (BootstrapProve invn sig)
  then show ?thesis by (simp add: prove_bootstrap_def Let_def split: option.split)
qed simp

lemma handle_plain_request_peers:
  "same_peers (snd (handle_request E W peer request s)) (snd (handle_plain_request E W peer request ch s))"
proof -
  obtain response state t where t: "handle_request E W peer request s = ((response, state), t)"
    by (metis surj_pair)
  have "same_peers t (snd (handle_plain_request E W peer request ch s))"
    by (cases state; (cases "the state")?)
      (simp_all add: handle_plain_request_def t same_peers.op_bind same_peers.respond same_peers.op_return
        same_peers.maybe_start_sync same_peers.start_bootstrap)
  then show ?thesis by (simp add: t)
qed

lemma handle_plain_request_logs:
  assumes B: "\<And>r. r = fst (fst (handle_request E W peer request s)) \<Longrightarrow> response_fits E r \<Longrightarrow> B ch r"
    and Q: "asks Q (snd (handle_request E W peer request s))"
  shows "logs (proper E Q B) s (snd (handle_plain_request E W peer request ch s))"
proof -
  obtain response state t where t: "handle_request E W peer request s = ((response, state), t)"
    by (metis surj_pair)
  have s: "logs (proper E Q B) s t"
    using handle_request_effects [of E W peer request s] t by (intro logs_same) simp
  have respond: "logs (proper E Q B) u (snd (respond E W ch response u))" for u
    using B t by (intro respond_logs) simp
  have cont: "logs (proper E Q B) t (snd (op_bind (respond E W ch response) (\<lambda>_. op_bind m (\<lambda>_. op_return x)) t))"
    if m: "\<And>u. asks Q u \<Longrightarrow> logs (proper E Q B) u (snd (m u))"
    for m :: "unit net_op" and x :: "network_event option"
  proof -
    obtain r u where u: "respond E W ch response t = (r, u)" by fastforce
    have "asks Q u"
      using same_peers_asks [OF same_peers.respond [of t E W ch response], of Q] Q t u by simp
    then have "logs (proper E Q B) u (snd (op_bind m (\<lambda>_. op_return x) u))"
      by (intro logs.op_bind logs.op_return m)
    then show ?thesis
      using respond [of t] u by (cases r) (auto simp: op_bind_def [of "respond E W ch response"] intro: logs.trans)
  qed
  have "logs (proper E Q B) t (snd (handle_plain_request E W peer request ch s))"
    by (cases state; (cases "the state")?)
      (simp_all add: handle_plain_request_def t cont maybe_start_sync_logs start_bootstrap_logs logs.op_return)
  then show ?thesis by (rule logs.trans [OF s])
qed

lemma handle_request_entitled:
  assumes ev: "requested input ch p request"
  shows "entitled E s input ch (fst (fst (handle_request E W p request s)))"
proof (cases request)
  case (AuthenticateRequest cert)
  then show ?thesis using ev by (auto split: prod.split sum.split)
next
  case (SyncRequest m)
  then show ?thesis using ev by (auto split: prod.split sum.split)
next
  case (BootstrapBegin cert invn)
  then show ?thesis
    using ev by (auto simp: begin_bootstrap_def Let_def split: sum.split)
next
  case (BootstrapProve invn sig)
  show ?thesis
  proof (cases "pending_challenges s p")
    case None
    then show ?thesis using ev by (auto simp: BootstrapProve prove_bootstrap_def)
  next
    case c: (Some c)
    then show ?thesis
      using ev by (cases "bootstrap_grants s invn")
        (auto simp: BootstrapProve prove_bootstrap_def is_ok_iff Let_def)
  qed
qed (use ev in auto)

lemma handle_bootstrap_acceptance_logs:
  assumes "\<And>reason. response_fits E (Rejected reason) \<Longrightarrow> B ch (Rejected reason)"
  shows "logs (proper E Q B) s (snd (handle_bootstrap_acceptance E W p invn acceptance ch s))"
proof -
  have "logs (proper E Q B) s (snd (op_bind (respond E W ch (Rejected InvalidBootstrap))
      (\<lambda>_. op_return (SyncProgressEvent p)) (s\<lparr>proved_bootstraps := x\<rparr>)))" for x
    by (rule logs.trans [OF logs_same logs.op_bind [OF respond_logs logs.op_return]]) (simp_all add: assms)
  then show ?thesis
    by (auto simp: handle_bootstrap_acceptance_def Let_def intro!: logs_same split: option.split)
qed

lemma handle_sync_message_peers: "same_peers s (snd (handle_sync_message E p m s))"
proof -
  obtain r t where rec: "sync_receive E m s = (r, t)" by fastforce
  then have t: "same_peers s t" by (auto simp: sync_receive_def split_beta same_peers_def)
  have "same_peers s (snd (op_each (\<lambda>m. send E p (SyncRequest m)) ms t))" for ms
    by (rule same_peers.trans [OF t same_peers.op_each]) (rule same_peers.send)
  then show ?thesis using t rec by (simp add: handle_sync_message_def split: sum.split)
qed

lemma handle_response_logs:
  assumes "asks Q (snd (handle_response E p response s))"
  shows "logs (proper E Q B) s (snd (handle_response E p response s))"
proof (cases response)
  case AuthenticatedResponse
  let ?m = "op_bind (maybe_start_sync E p) (\<lambda>_. op_return (AuthenticatedEvent p))"
  let ?s = "s\<lparr>accepted_by_remote := insert p (accepted_by_remote s)\<rparr>"
  have "same_peers ?s (snd (?m ?s))"
    by (intro same_peers.op_bind same_peers.maybe_start_sync same_peers.op_return)
  then have "asks Q ?s" using assms AuthenticatedResponse same_peers_asks by fastforce
  then show ?thesis
    unfolding AuthenticatedResponse handle_response.simps
    by (intro logs.trans [OF logs_same logs.op_bind [OF maybe_start_sync_logs logs.op_return]]) simp_all
next
  case (SyncResponse ms)
  have "same_peers s (snd (op_bind (op_each (handle_sync_message E p) ms)
      (\<lambda>_. op_return (SyncProgressEvent p)) s))"
    by (intro same_peers.op_bind same_peers.op_each same_peers.op_return handle_sync_message_peers)
  then have q: "Q p (SyncRequest m)" if "p \<in> authenticated s" "length ms \<le> MAX_MESSAGES_PER_FRAME" for m
    using assms that same_peers_asks [of s _ Q] by (auto simp: SyncResponse asks_def)
  then show ?thesis
    by (auto simp: SyncResponse logs.refl intro!: logs.op_bind logs.op_each logs.op_return handle_sync_message_logs)
next
  case BootstrapAccepted
  let ?m = "op_bind (maybe_start_sync E p) (\<lambda>_. op_return (BootstrapAcceptedEvent p))"
  have peers: "same_peers u (snd (?m u))" for u
    by (intro same_peers.op_bind same_peers.maybe_start_sync same_peers.op_return)
  have "logs (proper E Q B) u (snd (?m u))" if "asks Q (snd (?m u))" for u
    using that same_peers_asks [OF peers [of u]]
    by (intro logs.op_bind maybe_start_sync_logs logs.op_return) simp
  then have "logs (proper E Q B) s (snd (?m u))"
    if "asks Q (snd (?m u))" "swarm_effects u = swarm_effects s" for u
    using logs.trans [OF logs_same [OF that(2)]] that(1) by blast
  then show ?thesis
    using assms by (auto simp: BootstrapAccepted logs.refl split: option.split)
qed (auto simp: logs.refl split: option.split sum.split)

section \<open>Events and calls\<close>

text \<open>No event of the swarm changes the node's certificate or its bootstrap target.\<close>

definition same_self :: "network_node \<Rightarrow> network_node \<Rightarrow> bool" where
  "same_self s t \<longleftrightarrow> certificate t = certificate s \<and> bootstrap_target t = bootstrap_target s"

interpretation same_self: relay_preorder same_self
  by unfold_locales (auto simp: same_self_def add_effect_def)

interpretation same_self: sync_preorder same_self
  by unfold_locales (auto simp: same_self_def)

lemma same_peers_self: "same_peers s t \<Longrightarrow> same_self s t"
  by (simp add: same_peers_def same_self_def)

lemma handle_response_self: "same_self s (snd (handle_response E p response s))"
proof (cases response)
  case AuthenticatedResponse
  have "same_self s (s\<lparr>accepted_by_remote := insert p (accepted_by_remote s)\<rparr>)" by (simp add: same_self_def)
  then show ?thesis
    unfolding AuthenticatedResponse handle_response.simps
    by (intro same_self.trans [OF _ same_self.op_bind] same_self.maybe_start_sync same_self.op_return)
next
  case (SyncResponse ms)
  have "same_self s (snd (op_bind (op_each (handle_sync_message E p) ms) (\<lambda>_. op_return (SyncProgressEvent p)) s))"
    by (intro same_self.op_bind same_self.op_each same_self.op_return same_peers_self handle_sync_message_peers)
  then show ?thesis by (simp add: SyncResponse same_self.refl)
next
  case BootstrapAccepted
  have cont: "same_self u (snd (op_bind (maybe_start_sync E p) (\<lambda>_. op_return ev) u))" for u and ev :: network_event
    by (intro same_self.op_bind same_self.maybe_start_sync same_self.op_return)
  show ?thesis
    unfolding BootstrapAccepted handle_response.simps
    by (auto simp: same_self.refl split: option.split intro!: same_self.trans [OF _ cont]) (simp add: same_self_def)
qed (auto simp: same_self.refl split: option.split sum.split)

lemma handle_bootstrap_acceptance_self: "same_self s (snd (handle_bootstrap_acceptance E W p invn acceptance ch s))"
proof -
  have "same_self s (snd (op_bind (respond E W ch (Rejected InvalidBootstrap))
      (\<lambda>_. op_return (SyncProgressEvent p)) (s\<lparr>proved_bootstraps := x\<rparr>)))" for x
    by (rule same_self.trans [OF _ same_self.op_bind [OF same_self.respond same_self.op_return]])
      (simp add: same_self_def)
  then show ?thesis
    by (auto simp: handle_bootstrap_acceptance_def Let_def same_self_def split: option.split)
qed

lemma handle_plain_request_self: "same_self s (snd (handle_plain_request E W peer request ch s))"
  by (rule same_self.trans [OF _ same_peers_self [OF handle_plain_request_peers]])
    (simp add: same_self_def handle_request_self)

lemma handle_swarm_event_self: "same_self s (snd (handle_swarm_event E W ev s))"
proof (cases ev)
  case (ConnectionEstablished peer relayed)
  show ?thesis
    by (simp add: ConnectionEstablished connection_established_def op_bind_def op_return_def send_def add_effect_def
        same_self_def Let_def split: option.split)
next
  case (ConnectionClosed peer n)
  then show ?thesis by (simp add: connection_closed_def forget_peer_def same_self_def)
next
  case b: (BehaviourEvent b)
  show ?thesis
  proof (cases b)
    case rr: (RequestResponseEvent rr)
    show ?thesis
    proof (cases rr)
      case (RequestMessage p request ch)
      then show ?thesis
        by (cases request) (simp_all add: b rr handle_plain_request_self same_self.op_bind same_self.op_return
            handle_bootstrap_acceptance_self)
    next
      case (ResponseMessage p response)
      then show ?thesis
        by (simp add: b rr same_self.op_bind same_self.op_return handle_response_self del: handle_response.simps)
    qed (simp_all add: b rr same_self.refl)
  next
    case (IdentifyReceived peer observed)
    show ?thesis by (simp only: b IdentifyReceived handle_swarm_event.simps) (rule same_self.identify_received)
  qed (auto simp: b same_self.refl split: sum.split)
next
  case (OutgoingConnectionError peer err)
  then show ?thesis by (simp add: outgoing_connection_error_def same_self.refl split: option.split)
qed (simp_all add: same_self.refl)

lemma handle_plain_request_proper:
  assumes "requested input ch p request" and "asks Q (snd (handle_request E W p request s))"
  shows "logs (proper E Q (may_answer E s input)) s (snd (handle_plain_request E W p request ch s))"
  using handle_request_entitled [OF assms(1), of E s W] assms(2)
  by (intro handle_plain_request_logs) (auto simp: may_answer_def)

lemma handle_swarm_event_logs:
  assumes Q: "asks Q (snd (handle_swarm_event E W ev s))"
    and greet: "\<And>p relayed. ev = ConnectionEstablished p relayed \<Longrightarrow> Q p (AuthenticateRequest (certificate s))"
  shows "logs (proper E Q (may_answer E s (SwarmInput ev))) s (snd (handle_swarm_event E W ev s))"
    (is "logs (proper E Q ?B) _ _")
proof (cases ev)
  case (ConnectionEstablished peer relayed)
  let ?ask = "\<lambda>u. if peer \<notin> authenticated u \<and> peer \<notin> authentication_sent u
      then send E peer (AuthenticateRequest (certificate u))
             (u\<lparr>authentication_sent := insert peer (authentication_sent u)\<rparr>)
      else (Inr (), u)"
  have send: "logs (proper E Q ?B) u (snd (send E peer (AuthenticateRequest (certificate s)) v))"
    if "swarm_effects v = swarm_effects u" for u v
    by (rule logs.trans [OF logs_same [OF that] send_logs]) (rule greet [OF ConnectionEstablished])
  have body: "logs (proper E Q ?B) u (snd (op_bind ?ask (\<lambda>_. op_return x) u))"
    if "certificate u = certificate s" for u and x :: "network_event option"
  proof -
    have ask: "logs (proper E Q ?B) u (snd (?ask u))" using that by (auto simp: logs.refl intro!: send)
    have "snd (op_bind ?ask (\<lambda>_. op_return x) u) = snd (?ask u)"
      by (cases "?ask u"; cases "fst (?ask u)") (simp_all add: op_bind_def op_return_def)
    with ask show ?thesis by (simp only:)
  qed
  have "logs (proper E Q ?B) s (snd (connection_established E peer relayed s))"
    unfolding connection_established_def Let_def
    by (cases relayed) (auto simp: logs.refl body intro!: logs.trans [OF logs_same body])
  then show ?thesis by (simp add: ConnectionEstablished)
next
  case (ConnectionClosed peer n)
  then show ?thesis by (auto simp: connection_closed_def forget_peer_def intro!: logs_same)
next
  case b: (BehaviourEvent b)
  show ?thesis
  proof (cases b)
    case rr: (RequestResponseEvent rr)
    have keep: "snd (op_bind m (\<lambda>x. op_return (f x)) s) = snd (m s)"
      for m :: "'x net_op" and f :: "'x \<Rightarrow> 'y"
      by (cases "m s"; cases "fst (m s)") (auto simp: op_bind_def op_return_def)
    show ?thesis
    proof (cases rr)
      case (RequestMessage p request ch)
      have ev: "requested (SwarmInput ev) ch p request" by (simp add: requested_def b rr RequestMessage)
      show ?thesis
      proof (cases "\<exists>invn e. request = BootstrapAccept invn e")
        case True
        then show ?thesis
          using ev by (fastforce simp: b rr RequestMessage keep may_answer_def intro!: handle_bootstrap_acceptance_logs)
      next
        case False
        then have plain: "handle_swarm_event E W ev s = handle_plain_request E W p request ch s"
          by (cases request) (simp_all add: b rr RequestMessage)
        have "asks Q (snd (handle_request E W p request s))"
          using Q same_peers_asks [OF handle_plain_request_peers [of E W p request s ch], of Q] by (simp add: plain)
        then show ?thesis unfolding plain by (rule handle_plain_request_proper [OF ev])
      qed
    next
      case (ResponseMessage p response)
      then show ?thesis
        using handle_response_logs [of Q E p response s] Q by (simp add: b rr keep del: handle_response.simps)
    qed (simp_all add: b rr logs.refl)
  next
    case (IdentifyReceived peer observed)
    have "logs (proper E Q ?B) u (snd (start_reservation W peer u))" for u
      by (auto simp: start_reservation_def listen_def logs.refl split: option.split
          intro!: logs.trans [OF logs_same logs_effect])
    moreover have "logs (proper E Q ?B) u (snd (start_relay_dial W peer u))" for u
      by (auto simp: start_relay_dial_def dial_op_def logs.refl split: option.split
          intro!: logs.trans [OF logs_same logs_effect])
    ultimately show ?thesis
      by (simp add: b IdentifyReceived logs.op_bind logs.op_return)
  qed (auto simp: b logs.refl split: sum.split)
next
  case (OutgoingConnectionError peer err)
  then show ?thesis by (simp add: outgoing_connection_error_def logs.refl split: option.split)
qed (simp_all add: logs.refl)

lemma swarm_input_logs:
  fixes E W s ev
  defines "t \<equiv> snd (handle_swarm_event E W ev s)"
  shows "logs (proper E (may_ask E s (SwarmInput ev) (authenticated t)) (may_answer E s (SwarmInput ev))) s t"
proof -
  have "targets t = targets s" "certificate t = certificate s"
    using handle_swarm_event_self [of s E W ev] by (auto simp: t_def same_self_def targets_def fun_eq_iff)
  then have "asks (may_ask E s (SwarmInput ev) (authenticated t)) t" by (simp add: asks_def)
  then show ?thesis unfolding t_def by (rule handle_swarm_event_logs) auto
qed

lemma relay_call_logs:
  "logs (proper E Q B) s (snd (listen W address s))"
  "logs (proper E Q B) s (snd (reserve_relay W address s))"
  "logs (proper E Q B) s (snd (dial W peer address s))"
proof -
  have quiet: "logs (proper E Q B) u v"
    if "swarm_effects v = swarm_effects u \<or> (\<exists>a. swarm_effects v = swarm_effects u @ [DialAddress a])" for u v
    using that by (auto simp: logs_def)
  show "logs (proper E Q B) s (snd (listen W address s))"
    by (auto simp: listen_def intro!: logs_effect split: option.split)
  show "logs (proper E Q B) s (snd (reserve_relay W address s))"
    by (rule quiet) (auto simp: reserve_relay_def dial_op_def add_effect_def Let_def split: option.split)
  show "logs (proper E Q B) s (snd (dial W peer address s))"
    by (rule quiet) (auto simp: dial_def dial_op_def add_effect_def Let_def split: option.split)
qed

lemma replace_authorization_logs: "logs (proper E Q B) s (replace_authorization order users devices s)"
proof -
  have drops: "logs (proper E Q B) u (fold drop_peer ps u)" for ps u
  proof (induction ps arbitrary: u)
    case (Cons p ps)
    have "logs (proper E Q B) u (drop_peer p u)"
      unfolding drop_peer_def by (rule logs.trans [OF logs_same logs_effect]) simp_all
    then show ?case using Cons.IH [of "drop_peer p u"] by (auto intro: logs.trans)
  qed (simp add: logs.refl)
  show ?thesis
    unfolding replace_authorization_def Let_def by (rule logs.trans [OF _ drops]) (simp add: logs_same)
qed

lemma resolve_acceptance_logs:
  fixes E W s peer approved
  defines "t \<equiv> snd (resolve_bootstrap_acceptance E W peer approved s)"
  shows "logs (proper E (may_ask E s (ResolveAcceptance peer approved) (authenticated t))
    (may_answer E s (ResolveAcceptance peer approved))) s t"
    (is "logs (proper E (?Q (authenticated t)) ?B) s t")
proof (cases "pending_acceptances s peer")
  case (Some a)
  let ?s1 = "s\<lparr>pending_acceptances := (pending_acceptances s)(peer := None)\<rparr>"
  let ?s2 = "?s1\<lparr>bootstrap_grants := (bootstrap_grants ?s1)(acceptance_invitation a := None),
     allowed_users := insert (auth_user (acceptance_device a)) (allowed_users ?s1),
     authenticated := insert peer (authenticated ?s1),
     authenticated_devices := (authenticated_devices ?s1)(peer \<mapsto> acceptance_device a)\<rparr>"
  let ?m = "op_bind (send_response W (acceptance_channel a) BootstrapAccepted) (\<lambda>_. maybe_start_sync E peer)"
  have answer: "?B (acceptance_channel a) (if approved then BootstrapAccepted else Rejected BootstrapNotApproved)"
    using Some by (cases approved) (auto simp: may_answer_def)
  show ?thesis
  proof (cases approved)
    case True
    have t: "t = snd (?m ?s2)" using Some True by (simp add: t_def resolve_bootstrap_acceptance_def)
    have "same_peers u (snd (?m u))" for u
      by (intro same_peers.op_bind same_peers.send_response same_peers.maybe_start_sync)
    then have A: "authenticated t = insert peer (authenticated s)" by (simp add: t same_peers_def)
    obtain r u where u: "send_response W (acceptance_channel a) BootstrapAccepted ?s2 = (r, u)" by fastforce
    have first: "logs (proper E (?Q (authenticated t)) ?B) ?s2 u"
      using send_response_logs [of ?B "acceptance_channel a" BootstrapAccepted E "?Q (authenticated t)" ?s2 W] answer True u
      by simp
    have su: "same_peers ?s2 u" using same_peers.send_response [of ?s2 W "acceptance_channel a" BootstrapAccepted] u by simp
    then have "asks (?Q (authenticated t)) u" by (auto simp: asks_def same_peers_def targets_def A)
    then have "logs (proper E (?Q (authenticated t)) ?B) u (snd (maybe_start_sync E peer u))"
      by (rule maybe_start_sync_logs)
    then have "logs (proper E (?Q (authenticated t)) ?B) ?s2 t"
      using first u by (cases r) (auto simp: t op_bind_def intro: logs.trans)
    then show ?thesis by (rule logs.trans [OF logs_same, rotated]) simp
  next
    case False
    then show ?thesis
      using Some answer by (auto simp: t_def resolve_bootstrap_acceptance_def
          intro!: logs.trans [OF logs_same send_response_logs])
  qed
qed (simp add: t_def resolve_bootstrap_acceptance_def logs.refl)

lemma net_step_logs:
  "logs (proper E (may_ask E s input (authenticated (net_step E W input s))) (may_answer E s input)) s
     (net_step E W input s)"
proof (cases input)
  case (SwarmInput ev)
  then show ?thesis using swarm_input_logs by simp
next
  case (SubmitProof peer invn sig)
  then show ?thesis
    by (auto simp: submit_bootstrap_proof_def target_with_def targets_def logs.refl intro!: send_logs split: option.split)
next
  case (SubmitAcceptance peer invn e)
  then show ?thesis
    by (auto simp: submit_bootstrap_acceptance_def target_with_def targets_def endpoint_trusted_def logs.refl
        intro!: send_logs split: option.split sum.split)
next
  case (ResolveAcceptance peer approved)
  then show ?thesis using resolve_acceptance_logs by simp
qed (auto simp: relay_call_logs replace_authorization_logs register_bootstrap_grant_def replace_bootstrap_grants_def
    configure_bootstrap_target_def approve_bootstrap_endpoint_def intro!: logs_same split: sum.split option.split)

end
