(* ===== verification/Network_Properties.thy ===== *)
theory Network_Properties
  imports Network_Sends Sync_Properties "HOL-Library.Countable"
begin

text \<open>
  The properties of device certificates, bootstrap codes and the network node: who is authenticated
  and why, what reaches the synchronisation peer and what is disclosed to whom, and that an honest
  newcomer with an invitation gets in.
\<close>

section \<open>A demo network\<close>

definition demo_libp2p :: "arr32 libp2p" where
  "demo_libp2p =
     \<lparr>ed25519_from_bytes = Some, keypair_ed25519 = (\<lambda>k. Some (ed_public_key demo_crypto k)),
      keypair_peer = (\<lambda>k. PeerId (arr32_bytes (ed_public_key demo_crypto k))),
      ed25519_key = to_arr32, ed25519_peer = (\<lambda>pk. PeerId (arr32_bytes pk))\<rparr>"

lemma demo_libp2p_keys: "libp2p_keys demo_crypto demo_libp2p"
  by (auto simp: libp2p_keys_def demo_libp2p_def inj_def arr32_bytes_to_arr32)

definition demo_network :: "arr32 network_params" where
  "demo_network =
     \<lparr>np_crypto = demo_crypto, np_libp2p = demo_libp2p, np_event_json = demo_json,
      np_sync_json = demo_sync, np_request_json = \<lparr>to_vec = (\<lambda>_. Some []), from_slice = (\<lambda>_. None)\<rparr>,
      np_response_json = \<lparr>to_vec = (\<lambda>_. Some []), from_slice = (\<lambda>_. None)\<rparr>, np_json_error = ''''\<rparr>"

lemma demo_network_simps [simp]:
  "np_crypto demo_network = demo_crypto" "np_libp2p demo_network = demo_libp2p"
  "np_event_json demo_network = demo_json" "np_sync_json demo_network = demo_sync"
  "to_vec (np_request_json demo_network) q = Some []" "to_vec (np_response_json demo_network) r = Some []"
  by (simp_all add: demo_network_def)

definition demo_swarm :: swarm where
  "demo_swarm =
     \<lparr>swarm_build = None, swarm_dial = (\<lambda>_. None), swarm_listen_on = (\<lambda>_. None),
      channel_open = (\<lambda>_. True), swarm_is_connected = (\<lambda>_. True), os_nonce = 5\<rparr>"

definition demo_device :: "arr32 \<Rightarrow> arr32 device_identity" where
  "demo_device seed = \<lparr>device_keypair = seed, device_key = seed\<rparr>"

definition demo_certificate :: "identity \<Rightarrow> arr32 \<Rightarrow> device_certificate" where
  "demo_certificate user seed = create_device_certificate demo_crypto user (demo_device seed) 0"

definition owner_peer :: peer_id where
  "owner_peer = PeerId (arr32_bytes 11)"

definition guest_peer :: peer_id where
  "guest_peer = PeerId (arr32_bytes 12)"

definition owner_device :: authenticated_device where
  "owner_device = \<lparr>auth_user = UserId 1, auth_device = DeviceId 57\<rparr>"

definition guest_device :: authenticated_device where
  "guest_device = \<lparr>auth_user = UserId 2, auth_device = DeviceId 57\<rparr>"

lemma demo_device_seed: "device_from_seed demo_libp2p seed = Inr (demo_device seed)"
  by (simp add: device_from_seed_def device_from_keypair_def demo_libp2p_def demo_device_def demo_crypto_def)

lemma demo_device_peer:
  "device_peer demo_libp2p (demo_device 11) = owner_peer"
  "device_peer demo_libp2p (demo_device 12) = guest_peer"
  by (simp_all add: device_peer_def demo_libp2p_def demo_device_def demo_crypto_def owner_peer_def guest_peer_def)

lemma demo_certificate_valid:
  "validate_device_certificate demo_crypto (demo_certificate owner_identity 11) = Inr owner_device"
  "validate_device_certificate demo_crypto (demo_certificate guest_identity 12) = Inr guest_device"
  by (simp_all add: demo_certificate_def create_device_certificate_valid [OF demo_crypto_correct] demo_users
      device_identity_id_def device_from_public_key_def demo_device_def owner_device_def guest_device_def)
    (simp_all add: demo_crypto_def)

lemma demo_certificate_peer:
  "peer_id_from_certificate demo_crypto demo_libp2p (demo_certificate owner_identity 11) = Inr owner_peer"
  "peer_id_from_certificate demo_crypto demo_libp2p (demo_certificate guest_identity 12) = Inr guest_peer"
  by (simp_all add: peer_id_from_certificate_def demo_certificate_valid)
    (simp_all add: demo_libp2p_def demo_certificate_def create_device_certificate_def demo_device_def Let_def
      owner_peer_def guest_peer_def)

text \<open>The owner's node, which lets both users in, and the guest's node.\<close>

definition demo_net_node :: "identity \<Rightarrow> arr32 \<Rightarrow> sync_peer \<Rightarrow> user_id set \<Rightarrow> network_node" where
  "demo_net_node user seed sync allowed =
     \<lparr>local_peer = device_peer demo_libp2p (demo_device seed), net_sync = sync,
      certificate = demo_certificate user seed,
      allowed_users = allowed, trusted_infrastructure_devices = {}, revocations = {},
      authenticated = {}, authenticated_devices = Map.empty, authentication_sent = {},
      accepted_by_remote = {}, sync_started = {}, provisional = Map.empty,
      bootstrap_grants = Map.empty, pending_challenges = Map.empty,
      proved_bootstraps = Map.empty, pending_acceptances = Map.empty,
      bootstrap_target = None, relay_peers = {}, relayed_application_peers = {},
      pending_relay_dials = Map.empty, pending_relay_reservations = Map.empty,
      swarm_effects = []\<rparr>"

definition owner_net :: network_node where
  "owner_net = demo_net_node owner_identity 11 demo_full_peer {UserId 1, UserId 2}"

lemma owner_net_new:
  "network_new demo_network demo_swarm (demo_device 11) (demo_certificate owner_identity 11) demo_full_peer
     {UserId 1, UserId 2} {} = Inr owner_net"
  by (simp add: network_new_def demo_certificate_peer demo_device_peer owner_net_def demo_net_node_def demo_swarm_def)

lemma owner_net_reachable: "net_reachable demo_network owner_net"
  by (rule net_reachable.start [OF owner_net_new])

definition guest_request :: net_input where
  "guest_request = SwarmInput (BehaviourEvent (RequestResponseEvent
     (RequestMessage guest_peer (AuthenticateRequest (demo_certificate guest_identity 12)) 0)))"

definition owner_net_joined :: network_node where
  "owner_net_joined = net_step demo_network demo_swarm guest_request owner_net"

lemma owner_net_joined_reachable: "net_reachable demo_network owner_net_joined"
  unfolding owner_net_joined_def
  by (rule net_reachable.step [OF owner_net_reachable]) (simp add: guest_request_def)

lemma guest_authenticate:
  "authenticate demo_network guest_peer (demo_certificate guest_identity 12) owner_net =
     (Inr Full, owner_net\<lparr>authenticated := {guest_peer}, authenticated_devices := [guest_peer \<mapsto> guest_device]\<rparr>)"
proof -
  have "validate_peer_certificate demo_network owner_net guest_peer (demo_certificate guest_identity 12) = Inr guest_device"
    by (simp add: validate_peer_certificate_def demo_certificate_valid demo_certificate_peer
        revocation_contains_def owner_net_def demo_net_node_def)
  then show ?thesis
    by (simp add: authenticate_def guest_device_def owner_net_def demo_net_node_def)
qed

lemma owner_net_accepted: "accepted_by_remote owner_net = {}"
  by (simp add: owner_net_def demo_net_node_def)

lemma owner_net_joined:
  "authenticated owner_net_joined = {guest_peer}"
  "authenticated_devices owner_net_joined = [guest_peer \<mapsto> guest_device]"
  by (simp_all add: owner_net_joined_def guest_request_def handle_plain_request_def guest_authenticate
      respond_def send_response_def op_bind_def op_return_def add_effect_def demo_swarm_def
      maybe_start_sync_def owner_net_accepted)

section \<open>Certificates and codes\<close>

text \<open>A certificate made for a device validates to its user and device and belongs to the peer
  identifier of the device's key; every valid certificate for that peer identifier names that device;
  and what is signed for a certificate is never what is signed for a revocation.\<close>

theorem device_certificate_binding:
  assumes "ed25519_correct C" and "libp2p_keys C L" and "device_from_seed L seed = Inr device"
  shows "validate_device_certificate C (create_device_certificate C user device t) =
      Inr \<lparr>auth_user = identity_user_id C user, auth_device = device_identity_id C device\<rparr> \<and>
    peer_id_from_certificate C L (create_device_certificate C user device t) = Inr (device_peer L device) \<and>
    (\<forall>c a. peer_id_from_certificate C L c = Inr (device_peer L device) \<longrightarrow>
       validate_device_certificate C c = Inr a \<longrightarrow> auth_device a = device_identity_id C device) \<and>
    (\<forall>r. certificate_bytes (create_device_certificate C user device t) \<noteq> revocation_bytes r)"
proof -
  let ?cert = "create_device_certificate C user device t"
  have dev: "device_key device = ed_public_key C seed" "device_peer L device = ed25519_peer L (device_key device)"
    using device_from_seed_ok [OF assms(2), of seed] assms(3) by auto
  obtain k where "keypair_ed25519 L k = Some (device_key device)"
    using assms(2) unfolding libp2p_keys_def dev(1) by blast
  then have key: "ed25519_key L (arr32_bytes (device_key device)) = Some (device_key device)"
    using assms(2) by (simp add: libp2p_keys_def)
  note valid = create_device_certificate_valid [OF assms(1), of user device t]
  have field: "cert_device_key ?cert = arr32_bytes (device_key device)"
    by (simp add: create_device_certificate_def Let_def)
  have peer: "peer_id_from_certificate C L ?cert = Inr (device_peer L device)"
    by (simp add: peer_id_from_certificate_def valid field key dev(2))
  have "auth_device a = device_identity_id C device"
    if "peer_id_from_certificate C L c = Inr (device_peer L device)" "validate_device_certificate C c = Inr a" for c a
  proof -
    have "cert_device_key c = arr32_bytes (device_key device)"
      using peer_id_from_certificate_device [OF assms(2) that(1) peer] field by simp
    then show ?thesis
      using that(2) by (auto simp: validate_device_certificate_Inr_iff device_identity_id_def)
  qed
  then show ?thesis using valid peer certificate_not_revocation by blast
qed

theorem device_certificate_binding_witness:
  "validate_device_certificate demo_crypto (create_device_certificate demo_crypto guest_identity (demo_device 12) 0) =
     Inr \<lparr>auth_user = UserId 2, auth_device = device_identity_id demo_crypto (demo_device 12)\<rparr> \<and>
   peer_id_from_certificate demo_crypto demo_libp2p
     (create_device_certificate demo_crypto guest_identity (demo_device 12) 0) = Inr guest_peer"
  using device_certificate_binding [OF demo_crypto_correct demo_libp2p_keys demo_device_seed [of 12],
      of guest_identity 0]
  by (simp add: demo_users demo_device_peer)


text \<open>C25: a bootstrap code that \<open>create_code\<close> hands out is within the length limit, and reading it
  back gives the invitation, the peer and the address it was made from.  The address is a direct QUIC
  address without a peer, or a route that ends in one relay peer and the circuit marker.\<close>

theorem bootstrap_code_roundtrip:
  assumes "bootstrap_codecs_ok B" and "create_code B package peer address = Inr code"
  shows "length code \<le> MAX_BOOTSTRAP_CODE_CHARS \<and>
    (\<exists>e. parse_code B code = Inr e \<and> validate_envelope B e =
       Inr \<lparr>boot_invite_package = package, boot_peer_id = peer, boot_address = address\<rparr>) \<and>
    (\<exists>base. address = base @ [QuicV1] \<and> list_ex is_udp base \<and> (\<forall>p \<in> set base. \<not> is_p2p p \<and> p \<noteq> P2pCircuit) \<or>
       (\<exists>relay. address = base @ [P2p relay, P2pCircuit] \<and> (\<forall>p \<in> set base. \<not> is_p2p p \<and> p \<noteq> P2pCircuit) \<and>
          (list_ex is_tcp base \<or> list_ex is_udp base \<and> list_ex (\<lambda>p. p = QuicV1) base)))"
proof -
  have "direct_quic address \<or> relay_route address" and "length code \<le> MAX_BOOTSTRAP_CODE_CHARS"
    using assms(2) by (auto simp: create_code_Inr_iff)
  then show ?thesis
    using create_code_parses [OF assms] unfolding direct_quic_iff relay_route_iff by blast
qed

instance peer_id :: countable
  by countable_datatype

instance protocol :: countable
  by countable_datatype

text \<open>A demo text form: one character per byte, and addresses counted out in unary.\<close>

definition text_of_bytes :: "bytes \<Rightarrow> string" where
  "text_of_bytes bs = map (\<lambda>b. char_of (unat b)) bs"

definition text_of_address :: "multiaddr \<Rightarrow> string" where
  "text_of_address a = replicate (to_nat a) CHR ''/''"

lemma of_char_char_of_byte: "of_char (char_of (unat b)) = (b :: byte)"
proof -
  have "(of_char (char_of (unat b)) :: byte) = of_nat (of_char (char_of (unat b)))"
    by (simp only: of_nat_of_char)
  also have "\<dots> = of_nat (unat b)" by (simp add: mod_less [OF unat_byte_less])
  finally show ?thesis by simp
qed

lemma string_bytes_text [simp]: "string_bytes (text_of_bytes bs) = bs"
  by (induction bs) (simp_all add: string_bytes_def text_of_bytes_def of_char_char_of_byte)

definition demo_address :: multiaddr where
  "demo_address = [OtherProtocol ''/ip4/10.0.0.1'', Udp 4001, QuicV1]"

definition demo_codecs :: bootstrap_codecs where
  "demo_codecs =
     \<lparr>envelope_json = table_codec
        [(\<lparr>env_version = BOOTSTRAP_VERSION, env_invite_package = [1],
           env_peer_id = text_of_bytes (peer_to_bytes owner_peer),
           env_address = text_of_address demo_address\<rparr>, [9])],
      base64_encode = text_of_bytes, base64_decode = (\<lambda>s. Some (string_bytes s)),
      peer_to_string = (\<lambda>p. text_of_bytes (peer_to_bytes p)),
      peer_from_str = (\<lambda>s. Some (PeerId (string_bytes s))),
      address_to_string = text_of_address, address_from_str = (\<lambda>s. Some (from_nat (length s)))\<rparr>"

lemma demo_codecs_ok: "bootstrap_codecs_ok demo_codecs"
  by (simp add: bootstrap_codecs_ok_def demo_codecs_def table_codec_lossless text_of_address_def)

lemma demo_code: "create_code demo_codecs [1] owner_peer demo_address = Inr (CODE_PREFIX @ text_of_bytes [9])"
  by (simp add: create_code_def validate_address_def direct_quic_def positions_def demo_codecs_def table_codec_def
      demo_address_def MAX_CODE_PACKAGE_BYTES_def MAX_BOOTSTRAP_ENVELOPE_BYTES_def MAX_BOOTSTRAP_CODE_CHARS_def
      CODE_PREFIX_def text_of_bytes_def)

theorem bootstrap_code_roundtrip_witness:
  "\<exists>e. parse_code demo_codecs (CODE_PREFIX @ text_of_bytes [9]) = Inr e \<and> validate_envelope demo_codecs e =
     Inr \<lparr>boot_invite_package = [1], boot_peer_id = owner_peer, boot_address = demo_address\<rparr>"
  using bootstrap_code_roundtrip [OF demo_codecs_ok demo_code] by blast


section \<open>The network node\<close>

text \<open>C19: refinement: in every reachable node, every call of the interface and every event of the swarm
  either leaves the authorisation state alone or changes it by one of the moves of the abstract gate.\<close>

theorem network_refines_gate:
  assumes "net_reachable E s" and "permitted s input"
  shows "gate_of (net_step E W input s) = gate_of s \<or>
    gate_move E (gate_of s) (gate_of (net_step E W input s))"
  using net_step_refines [OF assms(2)] net_reachable_ok [OF assms(1)] by (auto simp: refines_def)

theorem network_refines_gate_witness:
  "gate_move demo_network (gate_of owner_net) (gate_of owner_net_joined)"
proof -
  have "permitted owner_net guest_request" by (simp add: guest_request_def)
  from network_refines_gate [OF owner_net_reachable this, of demo_swarm]
  have "gate_of owner_net_joined = gate_of owner_net \<or>
      gate_move demo_network (gate_of owner_net) (gate_of owner_net_joined)"
    by (simp add: owner_net_joined_def)
  moreover have "gate_devices (gate_of owner_net_joined) \<noteq> gate_devices (gate_of owner_net)"
    by (simp add: gate_of_def owner_net_joined) (simp add: owner_net_def demo_net_node_def)
  ultimately show ?thesis by metis
qed

text \<open>C20: in every reachable node, an authenticated peer is backed by a valid certificate whose key has
  that very peer identifier, for a device that is not revoked and whose user is allowed or which is
  trusted infrastructure; synchronisation is started only with such peers that accepted the node too.\<close>

theorem network_authenticated_vouched:
  assumes "net_reachable E s"
  shows "sync_started s \<subseteq> authenticated s \<inter> accepted_by_remote s \<and>
    (\<forall>p \<in> authenticated s. \<exists>d cert. authenticated_devices s p = Some d \<and>
       validate_device_certificate (np_crypto E) cert = Inr d \<and>
       peer_id_from_certificate (np_crypto E) (np_libp2p E) cert = Inr p \<and>
       \<not> revocation_contains (revocations s) (auth_user d) (auth_device d) \<and>
       (auth_user d \<in> allowed_users s \<or> auth_device d \<in> trusted_infrastructure_devices s))"
proof -
  have ok: "gate_ok E (gate_of s)" and c: "coupled s" using net_reachable_ok [OF assms] by blast+
  have "\<exists>d cert. authenticated_devices s p = Some d \<and>
       validate_device_certificate (np_crypto E) cert = Inr d \<and>
       peer_id_from_certificate (np_crypto E) (np_libp2p E) cert = Inr p \<and>
       \<not> revocation_contains (revocations s) (auth_user d) (auth_device d) \<and>
       (auth_user d \<in> allowed_users s \<or> auth_device d \<in> trusted_infrastructure_devices s)"
    if p: "p \<in> authenticated s" for p
  proof -
    obtain d where d: "authenticated_devices s p = Some d" using c p by (auto simp: coupled_def)
    then have "vouched E (revocations s) p d \<and> admitted (gate_of s) d"
      using gate_okD(1) [OF ok, of p d] by (simp add: gate_of_def)
    then show ?thesis
      using d by (auto simp: vouched_def certified_def admitted_def revocation_contains_def gate_of_def)
  qed
  moreover have "sync_started s \<subseteq> authenticated s \<inter> accepted_by_remote s"
    using c unfolding coupled_def by blast
  ultimately show ?thesis by blast
qed

theorem network_authenticated_vouched_witness:
  "guest_peer \<in> authenticated owner_net_joined \<and>
   (\<exists>d cert. authenticated_devices owner_net_joined guest_peer = Some d \<and>
      validate_device_certificate demo_crypto cert = Inr d \<and>
      peer_id_from_certificate demo_crypto demo_libp2p cert = Inr guest_peer)"
  using network_authenticated_vouched [OF owner_net_joined_reachable] by (auto simp: owner_net_joined(1))

text \<open>C21: an event of the swarm changes the synchronisation peer only by messages it carries, received
  in order, and only when they come from a peer that is already authenticated.\<close>

theorem network_sync_gated:
  "\<exists>done. net_sync (snd (handle_swarm_event E W ev s)) = sync_after E done (net_sync s) \<and>
     (done = [] \<or> (\<exists>p ms. offered_sync ev = Some (p, ms) \<and> p \<in> authenticated s \<and> prefix done ms))"
  by (rule handle_swarm_event_after)

text \<open>C22: disclosure, for every call of the interface and every event of the swarm: a request fits a network
  frame, and it is the node's own certificate to a new connection, a synchronisation message to an
  authenticated peer, or a step of the configured bootstrap with its target, the acceptance only once the
  endpoint is approved; a response answers the request on its channel, with events only for an
  authenticated peer and with the ancestry of an invitation only for a signature of the node's pending
  challenge by the invitation's capability, or it is the verdict on a pending acceptance; all but the
  verdict are measured against the frame.\<close>

theorem network_disclosure:
  "logs (proper E (may_ask E s input (authenticated (net_step E W input s))) (may_answer E s input)) s
     (net_step E W input s)"
  by (rule net_step_logs)

text \<open>C23: replacing the authorisation keeps authenticated exactly those peers whose device the new
  projection admits; every other one is disconnected and loses its synchronisation, and what it sends
  afterwards is refused.\<close>

theorem network_reauthorise_exact:
  assumes "net_reachable E s" and "set order = dom (authenticated_devices s)"
    and "t = replace_authorization order users devices s"
  shows "authenticated t = {p. \<exists>d. authenticated_devices s p = Some d \<and>
      (auth_user d \<in> users \<or> auth_device d \<in> devices)} \<and>
    sync_started t \<subseteq> authenticated t \<and>
    (\<forall>p \<in> authenticated s - authenticated t. DisconnectPeer p \<in> set (swarm_effects t) \<and>
       (\<forall>m. handle_request E W p (SyncRequest m) t = ((Rejected NotAuthenticated, None), t)))"
proof -
  have c: "coupled s" using net_reachable_ok [OF assms(1)] by blast
  then have ct: "coupled t"
    using replace_authorization_refines [OF assms(2), of E users devices] assms(3) by (simp add: refines_def)
  let ?s1 = "s\<lparr>allowed_users := users, trusted_infrastructure_devices := devices\<rparr>"
  let ?rej = "filter (\<lambda>p. case authenticated_devices ?s1 p of None \<Rightarrow> False
    | Some d \<Rightarrow> \<not> authorised ?s1 d) order"
  have t: "t = fold drop_peer ?rej ?s1" by (simp add: assms(3) replace_authorization_def Let_def)
  have auth: "authenticated t = {p. \<exists>d. authenticated_devices s p = Some d \<and>
      (auth_user d \<in> users \<or> auth_device d \<in> devices)}"
  proof (rule set_eqI)
    fix p
    have "authenticated_devices t p = (if p \<in> set ?rej then None else authenticated_devices s p)"
      by (simp only: t fold_drop_peer(1)) simp
    moreover have "p \<in> authenticated t \<longleftrightarrow> authenticated_devices t p \<noteq> None"
      using ct by (auto simp: coupled_def)
    ultimately show "p \<in> authenticated t \<longleftrightarrow> p \<in> {p. \<exists>d. authenticated_devices s p = Some d \<and>
        (auth_user d \<in> users \<or> auth_device d \<in> devices)}"
      using assms(2) by (cases "authenticated_devices s p") (auto simp: authorised_def)
  qed
  have "DisconnectPeer p \<in> set (swarm_effects t)" if "p \<in> set ?rej" for p
    using fold_drop_peer_effects [of p ?rej ?s1] that by (simp only: t)
  moreover have "p \<in> set ?rej" if "p \<in> authenticated s - authenticated t" for p
    using that c assms(2) by (auto simp: auth coupled_def authorised_def split: option.splits)
  ultimately have gone: "DisconnectPeer p \<in> set (swarm_effects t)" if "p \<in> authenticated s - authenticated t" for p
    using that by blast
  have "sync_started t \<subseteq> authenticated t" using ct unfolding coupled_def by blast
  with auth gone show ?thesis by (intro conjI ballI allI) (blast, blast, blast, simp)
qed

theorem network_reauthorise_exact_witness:
  "authenticated (replace_authorization [guest_peer] {UserId 1} {} owner_net_joined) = {}"
  using network_reauthorise_exact [OF owner_net_joined_reachable _ refl, of "[guest_peer]" "{UserId 1}" "{}"]
  by (simp add: owner_net_joined guest_device_def)


text \<open>C24: an honest newcomer gets in: when a node offers an invitation and another node of the same
  community, whose certificate is not revoked there, is set up to use it, then the challenge, the
  signature of the proof bytes the newcomer derives from it with the invitation's capability, and the
  newcomer's signed acceptance are each accepted; once approved, the newcomer's peer is authenticated,
  its user allowed, and the invitation used up.\<close>

theorem network_bootstrap_succeeds:
  assumes "ed25519_correct (np_crypto E)"
    and server: "bootstrap_grants s i = Some grant"
      "grant_capability_key grant = capability_key (np_crypto E) cap"
      "pending_acceptances s (local_peer c) = None" "(auth_user d, auth_device d) \<notin> revocations s"
    and client: "validate_device_certificate (np_crypto E) (certificate c) = Inr d"
      "peer_id_from_certificate (np_crypto E) (np_libp2p E) (certificate c) = Inr (local_peer c)"
      "bootstrap_target c = Some \<lparr>target_peer = local_peer s, target_invitation = i, endpoint_approved = a\<rparr>"
      "peer_community (net_sync c) = peer_community (net_sync s)"
    and acceptance: "validate_event (np_crypto E) e = Inr ()"
      "author_id (np_crypto E) e = Inr (auth_user d)" "i \<in> set (parents (content e))"
      "community_id (content e) = Some (peer_community (net_sync s))"
    and "channel_open W ch"
  shows "\<exists>proof s1 s2 s3.
    begin_bootstrap E W (local_peer c) (certificate c) i s = (BootstrapChallenge i (os_nonce W), s1) \<and>
    handle_response E (local_peer s) (BootstrapChallenge i (os_nonce W)) c =
      (Inr (BootstrapChallengeEvent (local_peer s) i proof), c) \<and>
    prove_bootstrap E (local_peer c) i (arr64_bytes (capability_sign (np_crypto E) cap proof)) s1 =
      (BootstrapAncestry i (grant_ancestry grant), s2) \<and>
    handle_bootstrap_acceptance E W (local_peer c) i e ch s2 =
      (Inr (BootstrapAcceptanceEvent (local_peer c) (auth_user d) i e), s3) \<and>
    (let t = snd (resolve_bootstrap_acceptance E W (local_peer c) True s3) in
       is_authenticated t (local_peer c) \<and> auth_user d \<in> allowed_users t \<and>
       bootstrap_grants t i = None \<and> SendResponse ch BootstrapAccepted \<in> set (swarm_effects t))"
proof -
  let ?C = "np_crypto E" and ?p = "local_peer c"
  let ?proof = "possession_proof_bytes ?C (peer_community (net_sync s)) i (auth_user d) (auth_device d)
    ?p (local_peer s) (os_nonce W)"
  let ?s1 = "s\<lparr>pending_challenges := (pending_challenges s)(?p \<mapsto>
    \<lparr>challenge_invitation = i, challenge_device = d, challenge_proof_bytes = ?proof\<rparr>)\<rparr>"
  let ?s2 = "s\<lparr>pending_challenges := (pending_challenges s)(?p := None),
    proved_bootstraps := (proved_bootstraps s)(?p \<mapsto> \<lparr>proved_invitation = i, proved_device = d\<rparr>)\<rparr>"
  let ?s3 = "s\<lparr>pending_challenges := (pending_challenges s)(?p := None),
    proved_bootstraps := (proved_bootstraps s)(?p := None),
    pending_acceptances := (pending_acceptances s)(?p \<mapsto>
      \<lparr>acceptance_invitation = i, acceptance_device = d, acceptance_channel = ch\<rparr>)\<rparr>"
  let ?sig = "arr64_bytes (capability_sign ?C cap ?proof)"
  have "validate_peer_certificate E s ?p (certificate c) = Inr d"
    using client(1,2) server(4) by (simp add: validate_peer_certificate_Inr)
  then have s1: "begin_bootstrap E W ?p (certificate c) i s = (BootstrapChallenge i (os_nonce W), ?s1)"
    using server(1) by (simp add: begin_bootstrap_def)
  have challenge: "handle_response E (local_peer s) (BootstrapChallenge i (os_nonce W)) c =
      (Inr (BootstrapChallengeEvent (local_peer s) i ?proof), c)"
    using client(1,3,4) by (simp add: target_with_def)
  have "verify ?C (arr32_bytes (grant_capability_key grant)) ?proof ?sig = Inr ()"
    using identity_sign_verify [OF assms(1), of "identity_from_seed (capability_seed cap)" ?proof] server(2)
    by (simp add: capability_key_def capability_sign_def)
  then have s2: "prove_bootstrap E ?p i ?sig ?s1 = (BootstrapAncestry i (grant_ancestry grant), ?s2)"
    using server(1) by (simp add: prove_bootstrap_def SIGNATURE_LEN_def)
  have s3: "handle_bootstrap_acceptance E W ?p i e ch ?s2 =
      (Inr (BootstrapAcceptanceEvent ?p (auth_user d) i e), ?s3)"
    using server(1,3) acceptance by (simp add: handle_bootstrap_acceptance_def acceptance_valid_def)
  obtain u where u: "resolve_bootstrap_acceptance E W ?p True ?s3 = maybe_start_sync E ?p u"
      "authenticated u = insert ?p (authenticated s)" "bootstrap_grants u = (bootstrap_grants s)(i := None)"
      "allowed_users u = insert (auth_user d) (allowed_users s)"
      "SendResponse ch BootstrapAccepted \<in> set (swarm_effects u)"
    using assms(14) by (simp add: resolve_bootstrap_acceptance_def op_bind_def send_response_def add_effect_def)
  show ?thesis
    using s1 challenge s2 s3 maybe_start_sync_frame [where E = E and peer = ?p and s = u] u
    by (intro exI [of _ ?proof] exI [of _ ?s1] exI [of _ ?s2] exI [of _ ?s3])
      (auto simp: is_authenticated_def Let_def simp del: handle_response.simps)
qed


definition demo_grant :: bootstrap_grant where
  "demo_grant = \<lparr>grant_invitation = EventId 247, grant_capability_key = capability_key demo_crypto demo_capability,
     grant_ancestry = [demo_genesis, demo_invite]\<rparr>"

definition offering_net :: network_node where
  "offering_net = owner_net\<lparr>allowed_users := {UserId 1}, bootstrap_grants := [EventId 247 \<mapsto> demo_grant]\<rparr>"

definition guest_net :: network_node where
  "guest_net = (demo_net_node guest_identity 12 demo_peer {})
     \<lparr>bootstrap_target := Some \<lparr>target_peer = owner_peer, target_invitation = EventId 247, endpoint_approved = True\<rparr>\<rparr>"

lemma demo_net_simps [simp]:
  "local_peer offering_net = owner_peer" "local_peer guest_net = guest_peer"
  "certificate guest_net = demo_certificate guest_identity 12"
  "peer_community (net_sync offering_net) = demo_community" "peer_community (net_sync guest_net) = demo_community"
  by (simp_all add: offering_net_def guest_net_def owner_net_def demo_net_node_def demo_device_peer
      demo_peer_def demo_full_peer_def)

theorem network_bootstrap_succeeds_witness:
  "\<exists>proof s1 s2 s3.
     begin_bootstrap demo_network demo_swarm guest_peer (demo_certificate guest_identity 12) (EventId 247) offering_net =
       (BootstrapChallenge (EventId 247) (os_nonce demo_swarm), s1) \<and>
     prove_bootstrap demo_network guest_peer (EventId 247)
       (arr64_bytes (capability_sign demo_crypto demo_capability proof)) s1 =
       (BootstrapAncestry (EventId 247) [demo_genesis, demo_invite], s2) \<and>
     handle_bootstrap_acceptance demo_network demo_swarm guest_peer (EventId 247) demo_accept 0 s2 =
       (Inr (BootstrapAcceptanceEvent guest_peer (UserId 2) (EventId 247) demo_accept), s3) \<and>
     is_authenticated (snd (resolve_bootstrap_acceptance demo_network demo_swarm guest_peer True s3)) guest_peer"
proof -
  have "bootstrap_grants offering_net (EventId 247) = Some demo_grant"
    "pending_acceptances offering_net guest_peer = None" "revocations offering_net = {}"
    "channel_open demo_swarm 0"
    by (simp_all add: offering_net_def owner_net_def demo_net_node_def demo_swarm_def)
  moreover have "bootstrap_target guest_net =
      Some \<lparr>target_peer = owner_peer, target_invitation = EventId 247, endpoint_approved = True\<rparr>"
    by (simp add: guest_net_def)
  ultimately show ?thesis
    using network_bootstrap_succeeds [where E = demo_network and s = offering_net and c = guest_net
        and i = "EventId 247" and grant = demo_grant and cap = demo_capability and d = guest_device
        and a = True and e = demo_accept and W = demo_swarm and ch = 0]
      demo_crypto_correct demo_certificate_valid(2) demo_certificate_peer(2)
    by (simp add: demo_grant_def guest_device_def Let_def del: handle_response.simps) blast
qed

end
