(* ===== verification/State_Files.thy ===== *)
theory State_Files
  imports Auth
begin

text \<open>
  \<open>crates/cli/src/state.rs\<close>: the private state directory of the command line client (the Unix build).

  The file system is the record \<open>filesystem\<close>: what is at a path, the lock holders, the process's
  \<open>umask\<close>, and \<open>fs_fault\<close>, which says which calls the operating system fails and how.  A path is a
  string; \<open>join_path\<close> is \<open>Path::join\<close>.  Random seeds and the clock are arguments.

  The lemmas show that a directory initialised once loads back to the same identity, that
  initialisation never touches an existing identity file, and that nothing is loaded from a directory
  or a file that is a symbolic link or open to other users.
\<close>

section \<open>The file system\<close>

datatype io_error =
    NotFound
  | AlreadyExists
  | NotADirectory
  | OtherIo string

text \<open>
  Permission bits are the low bits of the mode.  A symbolic link holds what it leads to: nothing, a
  directory (\<open>Some None\<close>) or a file with its content.
\<close>

datatype fs_entry =
    FsDir u32
  | FsFile u32 bytes
  | FsSymlink "bytes option option"

datatype fs_call =
    FsMetadata string
  | FsCreateDir string
  | FsSetPermissions string
  | FsOpen string
  | FsCreateNew string
  | FsWrite string
  | FsSync string
  | FsRead string
  | FsFileMetadata string
  | FsTryLock string

record filesystem =
  fs_entries :: "string \<rightharpoonup> fs_entry"
  fs_locks :: "string set"
  fs_umask :: u32
  fs_fault :: "fs_call \<Rightarrow> io_error option"
  fs_partial :: "string \<Rightarrow> nat"                \<comment> \<open>how much a failing write leaves behind\<close>

definition fs_try :: "fs_call \<Rightarrow> filesystem \<Rightarrow> io_error + unit" where
  "fs_try call fs = (case fs_fault fs call of Some err \<Rightarrow> Inl err | None \<Rightarrow> Inr ())"

definition join_path :: "string \<Rightarrow> string \<Rightarrow> string" where
  "join_path directory name = directory @ ''/'' @ name"

definition symlink_metadata :: "string \<Rightarrow> filesystem \<Rightarrow> io_error + fs_entry" where
  "symlink_metadata path fs =
     res_bind (fs_try (FsMetadata path) fs) (\<lambda>_. ok_or (fs_entries fs path) NotFound)"

text \<open>\<open>Path::exists\<close> follows links and reads an error as absence.\<close>

definition path_exists :: "string \<Rightarrow> filesystem \<Rightarrow> bool" where
  "path_exists path fs =
     (case symlink_metadata path fs of
        Inl _ \<Rightarrow> False
      | Inr (FsSymlink target) \<Rightarrow> target \<noteq> None
      | Inr _ \<Rightarrow> True)"

fun entry_mode :: "fs_entry \<Rightarrow> u32" where
  "entry_mode (FsDir m) = m"
| "entry_mode (FsFile m _) = m"
| "entry_mode (FsSymlink _) = 511"

fun is_symlink :: "fs_entry \<Rightarrow> bool" where
  "is_symlink (FsSymlink _) = True"
| "is_symlink _ = False"

fun is_dir :: "fs_entry \<Rightarrow> bool" where
  "is_dir (FsDir _) = True"
| "is_dir _ = False"

definition put_entry :: "string \<Rightarrow> fs_entry \<Rightarrow> filesystem \<Rightarrow> filesystem" where
  "put_entry path entry fs = fs\<lparr>fs_entries := (fs_entries fs)(path \<mapsto> entry)\<rparr>"

text \<open>The mode of a new file or directory loses the bits of the \<open>umask\<close>.\<close>

definition masked :: "u32 \<Rightarrow> filesystem \<Rightarrow> u32" where
  "masked mode fs = and mode (not (fs_umask fs))"

section \<open>State files\<close>

definition IDENTITY_FILE :: string where
  "IDENTITY_FILE = ''identity.json''"

definition LOCK_FILE :: string where
  "LOCK_FILE = ''state.lock''"

definition STATE_VERSION :: u16 where
  "STATE_VERSION = 1"

definition MAX_IDENTITY_BYTES :: nat where
  "MAX_IDENTITY_BYTES = 4 * 1024"

datatype state_error =
    UnsupportedPermissions
  | SymbolicLink
  | AlreadyInitialized
  | NotInitialized
  | AlreadyInUse
  | InsecurePermissions
  | StateTooLarge
  | StateUnsupportedVersion
  | StateInvalidSystemTime
  | StateIo io_error
  | StateJson
  | StateAuth auth_error

record persisted_state =
  pers_version :: u16
  pers_user_seed :: arr32
  pers_device_seed :: arr32
  pers_created_at :: i64

record 'k node_state =
  state_user :: identity
  state_device :: "'k device_identity"
  state_created_at :: i64
  state_directory :: string

definition state_from_seeds ::
  "'k libp2p \<Rightarrow> string \<Rightarrow> arr32 \<Rightarrow> arr32 \<Rightarrow> i64 \<Rightarrow> state_error + 'k node_state" where
  "state_from_seeds L directory user_seed device_seed created_at =
     res_bind (map_err StateAuth (device_from_seed L device_seed)) (\<lambda>device.
     Inr \<lparr>state_user = identity_from_seed user_seed, state_device = device,
          state_created_at = created_at, state_directory = directory\<rparr>)"

text \<open>The clock in milliseconds since the Unix epoch, negative before it.\<close>

definition state_now_ms :: "int \<Rightarrow> state_error + i64" where
  "state_now_ms clock =
     (if clock < 0 then Inl StateInvalidSystemTime
      else if clock \<ge> 2 ^ 63 then Inl StateInvalidSystemTime
      else Inr (word_of_int clock))"

definition validate_private_mode :: "fs_entry \<Rightarrow> state_error + unit" where
  "validate_private_mode entry =
     (if and (entry_mode entry) 63 = 0 then Inr () else Inl InsecurePermissions)"

text \<open>\<open>fs::create_dir_all\<close>: every missing directory on the way, the outermost first.\<close>

fun path_prefixes :: "string \<Rightarrow> string \<Rightarrow> string list" where
  "path_prefixes acc [] = [acc]"
| "path_prefixes acc (c # rest) =
     (if c = CHR ''/'' \<and> acc \<noteq> [] then acc # path_prefixes (acc @ [c]) rest
      else path_prefixes (acc @ [c]) rest)"

definition make_dir :: "string \<Rightarrow> (state_error, filesystem, unit) op" where
  "make_dir path fs =
     (case fs_entries fs path of
        Some (FsDir _) \<Rightarrow> (Inr (), fs)
      | Some (FsSymlink (Some None)) \<Rightarrow> (Inr (), fs)
      | Some _ \<Rightarrow> (Inl (StateIo AlreadyExists), fs)
      | None \<Rightarrow>
          (case fs_try (FsCreateDir path) fs of
             Inl err \<Rightarrow> (Inl (StateIo err), fs)
           | Inr _ \<Rightarrow> (Inr (), put_entry path (FsDir (masked 511 fs)) fs)))"

definition create_dir_all :: "string \<Rightarrow> (state_error, filesystem, unit) op" where
  "create_dir_all path = op_each make_dir (path_prefixes [] path)"

definition prepare_directory :: "string \<Rightarrow> (state_error, filesystem, unit) op" where
  "prepare_directory directory fs =
     op_bind
       (case symlink_metadata directory fs of
          Inr entry \<Rightarrow>
            if is_symlink entry then op_fail SymbolicLink
            else if \<not> is_dir entry then op_fail (StateIo NotADirectory)
            else op_return ()
        | Inl err \<Rightarrow> if err = NotFound then create_dir_all directory else op_fail (StateIo err))
       (\<lambda>_ fs.
        case fs_try (FsSetPermissions directory) fs of
          Inl err \<Rightarrow> (Inl (StateIo err), fs)
        | Inr _ \<Rightarrow> (Inr (), put_entry directory (FsDir 448) fs)) fs"

definition validate_directory :: "string \<Rightarrow> filesystem \<Rightarrow> state_error + unit" where
  "validate_directory directory fs =
     (case symlink_metadata directory fs of
        Inl err \<Rightarrow> Inl (if err = NotFound then NotInitialized else StateIo err)
      | Inr entry \<Rightarrow>
          if is_symlink entry then Inl SymbolicLink
          else if \<not> is_dir entry then Inl NotInitialized
          else validate_private_mode entry)"

text \<open>\<open>create_new\<close> fails when anything is at the path; a failing write leaves a part behind.\<close>

definition write_private_file :: "string \<Rightarrow> bytes \<Rightarrow> (state_error, filesystem, unit) op" where
  "write_private_file path bs fs =
     (case fs_try (FsCreateNew path) fs of
        Inl err \<Rightarrow> (Inl (if err = AlreadyExists then AlreadyInitialized else StateIo err), fs)
      | Inr _ \<Rightarrow>
          if fs_entries fs path \<noteq> None then (Inl AlreadyInitialized, fs)
          else
            (let mode = masked 384 fs in
             case fs_try (FsWrite path) fs of
               Inl err \<Rightarrow>
                 (Inl (StateIo err), put_entry path (FsFile mode (take (fs_partial fs path) bs)) fs)
             | Inr _ \<Rightarrow>
                 (let fs1 = put_entry path (FsFile mode bs) fs in
                  case fs_try (FsSync path) fs1 of
                    Inl err \<Rightarrow> (Inl (StateIo err), fs1)
                  | Inr _ \<Rightarrow> (Inr (), fs1))))"

definition state_initialize ::
  "'k libp2p \<Rightarrow> persisted_state codec \<Rightarrow> string \<Rightarrow> arr32 \<Rightarrow> arr32 \<Rightarrow> int \<Rightarrow>
     (state_error, filesystem, 'k node_state) op" where
  "state_initialize L K directory user_seed device_seed clock =
     op_bind (prepare_directory directory) (\<lambda>_ fs.
     let identity_path = join_path directory IDENTITY_FILE in
     if path_exists identity_path fs then (Inl AlreadyInitialized, fs)
     else
       op_bind (op_lift (state_now_ms clock)) (\<lambda>created_at.
       op_bind
         (op_lift (ok_or (to_vec K \<lparr>pers_version = STATE_VERSION, pers_user_seed = user_seed,
                                   pers_device_seed = device_seed, pers_created_at = created_at\<rparr>)
                    StateJson)) (\<lambda>encoded fs.
       if length encoded > MAX_IDENTITY_BYTES then (Inl StateTooLarge, fs)
       else
         op_bind (write_private_file identity_path encoded) (\<lambda>_.
         op_lift (state_from_seeds L directory user_seed device_seed created_at)) fs)) fs)"

text \<open>\<open>File::open(path)?.take(limit + 1).read_to_end(..)\<close>, which follows links.\<close>

definition read_limited :: "string \<Rightarrow> nat \<Rightarrow> filesystem \<Rightarrow> io_error + bytes" where
  "read_limited path limit fs =
     res_bind (fs_try (FsOpen path) fs) (\<lambda>_.
     case fs_entries fs path of
       Some (FsFile _ bs) \<Rightarrow> res_bind (fs_try (FsRead path) fs) (\<lambda>_. Inr (take (limit + 1) bs))
     | Some (FsSymlink (Some (Some bs))) \<Rightarrow> res_bind (fs_try (FsRead path) fs) (\<lambda>_. Inr (take (limit + 1) bs))
     | None \<Rightarrow> Inl NotFound
     | Some (FsSymlink None) \<Rightarrow> Inl NotFound
     | Some _ \<Rightarrow> Inl (OtherIo ''Is a directory''))"

definition state_load ::
  "'k libp2p \<Rightarrow> persisted_state codec \<Rightarrow> string \<Rightarrow> filesystem \<Rightarrow> state_error + 'k node_state" where
  "state_load L K directory fs =
     res_bind (validate_directory directory fs) (\<lambda>_.
     let identity_path = join_path directory IDENTITY_FILE in
     res_bind (map_err (\<lambda>err. if err = NotFound then NotInitialized else StateIo err)
                 (symlink_metadata identity_path fs)) (\<lambda>metadata.
     if is_symlink metadata then Inl SymbolicLink
     else
       res_bind (validate_private_mode metadata) (\<lambda>_.
       res_bind (map_err StateIo (read_limited identity_path MAX_IDENTITY_BYTES fs)) (\<lambda>bs.
       if length bs > MAX_IDENTITY_BYTES then Inl StateTooLarge
       else
         res_bind (ok_or (from_slice K bs) StateJson) (\<lambda>persisted.
         if pers_version persisted \<noteq> STATE_VERSION then Inl StateUnsupportedVersion
         else state_from_seeds L directory (pers_user_seed persisted) (pers_device_seed persisted)
                (pers_created_at persisted))))))"

text \<open>\<open>acquire_lock\<close>: the lock file is created when it is missing; a lock is held until it is dropped.\<close>

definition acquire_lock :: "'k node_state \<Rightarrow> (state_error, filesystem, unit) op" where
  "acquire_lock st fs =
     (let lock_path = join_path (state_directory st) LOCK_FILE in
      if (case symlink_metadata lock_path fs of Inl _ \<Rightarrow> False | Inr entry \<Rightarrow> is_symlink entry)
      then (Inl SymbolicLink, fs)
      else
        (case fs_try (FsOpen lock_path) fs of
           Inl err \<Rightarrow> (Inl (StateIo err), fs)
         | Inr _ \<Rightarrow>
             (let fs1 = (if fs_entries fs lock_path = None
                         then put_entry lock_path (FsFile (masked 384 fs) []) fs else fs) in
              case fs_entries fs1 lock_path of
                None \<Rightarrow> (Inl (StateIo NotFound), fs1)
              | Some (FsDir _) \<Rightarrow> (Inl (StateIo (OtherIo ''Is a directory'')), fs1)
              | Some entry \<Rightarrow>
                  (case res_bind (map_err StateIo (fs_try (FsFileMetadata lock_path) fs1))
                          (\<lambda>_. validate_private_mode entry) of
                     Inl err \<Rightarrow> (Inl err, fs1)
                   | Inr _ \<Rightarrow>
                       if lock_path \<in> fs_locks fs1 then (Inl AlreadyInUse, fs1)
                       else
                         (case fs_try (FsTryLock lock_path) fs1 of
                            Inl err \<Rightarrow> (Inl (StateIo err), fs1)
                          | Inr _ \<Rightarrow> (Inr (), fs1\<lparr>fs_locks := insert lock_path (fs_locks fs1)\<rparr>))))))"

definition database_path :: "'k node_state \<Rightarrow> string" where
  "database_path st = join_path (state_directory st) ''events.sqlite3''"


section \<open>Private state\<close>

lemma join_path_neq [simp]: "join_path d n \<noteq> d" "d \<noteq> join_path d n"
proof -
  have "length (join_path d n) > length d" by (simp add: join_path_def)
  then show "join_path d n \<noteq> d" "d \<noteq> join_path d n" by fastforce+
qed

lemma put_entry_simps [simp]:
  "fs_entries (put_entry p e fs) = (fs_entries fs)(p \<mapsto> e)"
  "fs_fault (put_entry p e fs) = fs_fault fs" "fs_umask (put_entry p e fs) = fs_umask fs"
  "fs_locks (put_entry p e fs) = fs_locks fs"
  by (simp_all add: put_entry_def)

lemma fs_try_put_entry [simp]: "fs_try c (put_entry p e fs) = fs_try c fs"
  by (simp add: fs_try_def)

lemma private_directory_mask: "and (448 :: u32) 63 = 0"
  by simp

lemma private_file_mask: "and (masked 384 fs) 63 = 0"
proof -
  have "and (and 384 m) 63 = and m (and 384 (63 :: u32))" for m by (simp only: ac_simps and.assoc)
  moreover have "and 384 (63 :: u32) = 0" by simp
  ultimately show ?thesis by (simp add: masked_def)
qed

lemma path_prefixes_length: "p \<in> set (path_prefixes acc rest) \<Longrightarrow> length p \<le> length acc + length rest"
  by (induction acc rest rule: path_prefixes.induct) (auto split: if_splits)

lemma make_dir_frame:
  "path \<noteq> p \<Longrightarrow> fs_entries (snd (make_dir p fs)) path = fs_entries fs path"
  "fs_fault (snd (make_dir p fs)) = fs_fault fs"
  by (auto simp: make_dir_def split: option.split fs_entry.split sum.split)

lemma make_dirs_frame:
  "path \<notin> set ps \<Longrightarrow> fs_entries (snd (op_each make_dir ps fs)) path = fs_entries fs path"
  "fs_fault (snd (op_each make_dir ps fs)) = fs_fault fs"
proof (induction ps arbitrary: fs)
  case Nil
  {
    case 1 then show ?case by (simp add: op_return_def)
  next
    case 2 then show ?case by (simp add: op_return_def)
  }
next
  case (Cons p ps)
  {
    case 1 then show ?case
      using Cons.IH(1) [of "snd (make_dir p fs)"] make_dir_frame(1) [of path p fs]
      by (cases "make_dir p fs"; cases "fst (make_dir p fs)") (auto simp: op_bind_def)
  next
    case 2 then show ?case
      using Cons.IH(2) [of "snd (make_dir p fs)"] make_dir_frame(2) [of p fs]
      by (cases "make_dir p fs"; cases "fst (make_dir p fs)") (auto simp: op_bind_def)
  }
qed

text \<open>Preparing a directory touches neither what is in it nor what the system calls do.\<close>

lemma prepare_directory_frame:
  "length directory < length path \<Longrightarrow> fs_entries (snd (prepare_directory directory fs)) path = fs_entries fs path"
  "fs_fault (snd (prepare_directory directory fs)) = fs_fault fs"
proof -
  let ?first = "case symlink_metadata directory fs of
          Inr entry \<Rightarrow>
            if is_symlink entry then op_fail SymbolicLink
            else if \<not> is_dir entry then op_fail (StateIo NotADirectory)
            else op_return ()
        | Inl err \<Rightarrow> if err = NotFound then create_dir_all directory else op_fail (StateIo err)"
  have fault: "fs_fault (snd (?first fs)) = fs_fault fs"
    by (simp add: op_fail_def op_return_def create_dir_all_def make_dirs_frame split: sum.split)
  show "fs_fault (snd (prepare_directory directory fs)) = fs_fault fs"
    using fault by (cases "?first fs"; cases "fst (?first fs)") (auto simp: prepare_directory_def op_bind_def split: sum.split)
  assume len: "length directory < length path"
  then have "path \<notin> set (path_prefixes [] directory)" using path_prefixes_length [of path "[]" directory] by auto
  then have "fs_entries (snd (?first fs)) path = fs_entries fs path"
    by (simp add: op_fail_def op_return_def create_dir_all_def make_dirs_frame split: sum.split)
  moreover have "path \<noteq> directory" using len by auto
  ultimately show "fs_entries (snd (prepare_directory directory fs)) path = fs_entries fs path"
    by (cases "?first fs"; cases "fst (?first fs)") (auto simp: prepare_directory_def op_bind_def split: sum.split)
qed

lemma prepare_directory_Inr:
  assumes "prepare_directory directory fs = (Inr u, fs')"
  shows "fs_entries fs' directory = Some (FsDir 448)"
proof -
  obtain fs1 where "(case fs_try (FsSetPermissions directory) fs1 of
          Inl err \<Rightarrow> (Inl (StateIo err), fs1)
        | Inr _ \<Rightarrow> (Inr (), put_entry directory (FsDir 448) fs1)) = (Inr u, fs')"
    using assms unfolding prepare_directory_def op_bind_Inr_iff by blast
  then show ?thesis by (cases "fs_try (FsSetPermissions directory) fs1") auto
qed

lemma join_path_longer: "length directory < length (join_path directory name)"
  by (simp add: join_path_def)

lemma write_private_file_Inr:
  assumes "write_private_file path bs fs = (Inr u, fs')"
  shows "fs_entries fs path = None" and "fs_entries fs' = (fs_entries fs)(path \<mapsto> FsFile (masked 384 fs) bs)"
    and "fs_fault fs' = fs_fault fs"
  using assms
  by (auto simp: write_private_file_def Let_def split: sum.splits if_splits)

lemma write_private_file_exists:
  "fs_entries fs path = Some x \<Longrightarrow> \<exists>err. write_private_file path bs fs = (Inl err, fs)"
  by (auto simp: write_private_file_def split: sum.split)

text \<open>What a successful initialisation leaves behind.\<close>

lemma state_initialize_Inr:
  assumes "state_initialize L K directory user_seed device_seed clock fs = (Inr st, fs')"
  obtains created encoded m where "state_now_ms clock = Inr created"
    and "to_vec K \<lparr>pers_version = STATE_VERSION, pers_user_seed = user_seed,
           pers_device_seed = device_seed, pers_created_at = created\<rparr> = Some encoded"
    and "length encoded \<le> MAX_IDENTITY_BYTES" and "and m 63 = 0"
    and "fs_entries fs (join_path directory IDENTITY_FILE) = None"
    and "fs_entries fs' directory = Some (FsDir 448)"
    and "fs_entries fs' (join_path directory IDENTITY_FILE) = Some (FsFile m encoded)"
    and "state_from_seeds L directory user_seed device_seed created = Inr st"
proof -
  let ?path = "join_path directory IDENTITY_FILE"
  obtain u fs1 where prep: "prepare_directory directory fs = (Inr u, fs1)"
    and rest: "\<not> path_exists ?path fs1" and
      later: "op_bind (op_lift (state_now_ms clock)) (\<lambda>created_at.
         op_bind
           (op_lift (ok_or (to_vec K \<lparr>pers_version = STATE_VERSION, pers_user_seed = user_seed,
                                     pers_device_seed = device_seed, pers_created_at = created_at\<rparr>)
                      StateJson)) (\<lambda>encoded fs.
         if length encoded > MAX_IDENTITY_BYTES then (Inl StateTooLarge, fs)
         else
           op_bind (write_private_file ?path encoded) (\<lambda>_.
           op_lift (state_from_seeds L directory user_seed device_seed created_at)) fs)) fs1 = (Inr st, fs')"
    using assms by (auto simp: state_initialize_def op_bind_Inr_iff [of "prepare_directory directory"] Let_def
        split: if_splits)
  obtain created encoded fs2 where c: "state_now_ms clock = Inr created"
    and e: "to_vec K \<lparr>pers_version = STATE_VERSION, pers_user_seed = user_seed,
           pers_device_seed = device_seed, pers_created_at = created\<rparr> = Some encoded"
      "length encoded \<le> MAX_IDENTITY_BYTES"
    and w: "write_private_file ?path encoded fs1 = (Inr (), fs2)"
    and st: "state_from_seeds L directory user_seed device_seed created = Inr st" "fs' = fs2"
    using later by (auto simp: op_bind_Inr_iff op_lift_def ok_or_Inr_iff split: if_splits)
  have "fs_entries fs ?path = None"
    using write_private_file_Inr(1) [OF w] prepare_directory_frame(1) [OF join_path_longer [of directory IDENTITY_FILE], of fs]
      prep by simp
  then show thesis
    using c e st write_private_file_Inr(2) [OF w] prepare_directory_Inr [OF prep]
    by (intro that [of created encoded "masked 384 fs1"]) (simp_all add: private_file_mask)
qed

text \<open>Initialising and then loading gives the same state, as long as the system calls succeed.\<close>

lemma state_initialize_load:
  assumes "codec_lossless K" and "state_initialize L K directory user_seed device_seed clock fs = (Inr st, fs')"
    and "\<And>call. fs_fault fs' call = None"
  shows "state_load L K directory fs' = Inr st"
proof -
  obtain created encoded m where "length encoded \<le> MAX_IDENTITY_BYTES" "and m 63 = 0"
    and e: "to_vec K \<lparr>pers_version = STATE_VERSION, pers_user_seed = user_seed,
           pers_device_seed = device_seed, pers_created_at = created\<rparr> = Some encoded"
    and "fs_entries fs' directory = Some (FsDir 448)"
    and "fs_entries fs' (join_path directory IDENTITY_FILE) = Some (FsFile m encoded)"
    and "state_from_seeds L directory user_seed device_seed created = Inr st"
    by (rule state_initialize_Inr [OF assms(2)])
  moreover have "fs_try call fs' = Inr ()" for call using assms(3) by (simp add: fs_try_def)
  ultimately show ?thesis
    using codec_losslessD [OF assms(1) e] private_directory_mask
    by (simp add: state_load_def validate_directory_def symlink_metadata_def validate_private_mode_def
        read_limited_def Let_def min_def)
qed

text \<open>An existing entry at the identity path is never changed, and initialisation fails.\<close>

lemma state_initialize_keeps:
  assumes "fs_entries fs (join_path directory IDENTITY_FILE) = Some x"
    and "state_initialize L K directory user_seed device_seed clock fs = (r, fs')"
  shows "fs_entries fs' (join_path directory IDENTITY_FILE) = Some x \<and> (\<exists>err. r = Inl err)"
proof -
  let ?path = "join_path directory IDENTITY_FILE"
  obtain p fs1 where prep: "prepare_directory directory fs = (p, fs1)" by fastforce
  have x: "fs_entries fs1 ?path = Some x"
    using prepare_directory_frame(1) [OF join_path_longer [of directory IDENTITY_FILE], of fs] prep assms(1) by simp
  then have w: "\<exists>err. write_private_file ?path bs fs1 = (Inl err, fs1)" for bs
    by (rule write_private_file_exists)
  have err: "\<exists>err. r = Inl err"
  proof (cases r)
    case (Inr st)
    then show ?thesis using state_initialize_Inr [OF assms(2) [unfolded Inr]] assms(1) by (metis option.distinct(1))
  qed simp
  have "fs' = fs1"
    using assms(2) prep w
    by (cases p)
      (auto simp: state_initialize_def op_bind_def op_lift_def Let_def split: sum.splits prod.splits if_splits,
        (metis prod.inject sum.distinct(1))+)
  then show ?thesis using x err by simp
qed

text \<open>What is loaded comes from a private directory and a private regular file.\<close>

lemma state_load_private:
  assumes "state_load L K directory fs = Inr st"
  shows "\<exists>dm fm bs. fs_entries fs directory = Some (FsDir dm) \<and> and dm 63 = 0 \<and>
    fs_entries fs (join_path directory IDENTITY_FILE) = Some (FsFile fm bs) \<and> and fm 63 = 0 \<and>
    length bs \<le> MAX_IDENTITY_BYTES"
proof -
  obtain d where d: "fs_entries fs directory = Some d" "is_dir d" "and (entry_mode d) 63 = 0"
    using assms by (auto simp: state_load_def res_bind_Inr_iff validate_directory_def symlink_metadata_def
        validate_private_mode_def ok_or_Inr_iff split: sum.splits if_splits)
  obtain f bs where f: "fs_entries fs (join_path directory IDENTITY_FILE) = Some f" "\<not> is_symlink f"
    "and (entry_mode f) 63 = 0"
    and r: "read_limited (join_path directory IDENTITY_FILE) MAX_IDENTITY_BYTES fs = Inr bs"
      "length bs \<le> MAX_IDENTITY_BYTES"
    using assms by (auto simp: state_load_def res_bind_Inr_iff symlink_metadata_def map_err_Inr_iff Let_def
        validate_private_mode_def ok_or_Inr_iff split: if_splits)
  show ?thesis
    using d f r by (cases d; cases f) (auto simp: read_limited_def res_bind_Inr_iff)
qed

text \<open>A lock is held by one process at a time.\<close>

lemma acquire_lock_exclusive:
  assumes "acquire_lock st fs = (Inr u, fs')" and "state_directory st' = state_directory st"
  shows "\<exists>err fs''. acquire_lock st' fs' = (Inl err, fs'')"
proof -
  have "join_path (state_directory st) LOCK_FILE \<in> fs_locks fs'"
    using assms(1) by (auto simp: acquire_lock_def Let_def split: if_splits sum.splits option.splits fs_entry.splits)
  then show ?thesis
    using assms(2) by (auto simp: acquire_lock_def Let_def split: sum.split option.split fs_entry.split)
qed

end
