(* ===== verification/Cli_Base.thy ===== *)
theory Cli_Base
  imports Network State_Files Archive Chat_Resolve "HOL-Library.Char_ord"
begin

text \<open>
  \<open>crates/cli/src/main.rs\<close>: errors, options and argument parsing of the command line client.

  The hex encoding, the textual forms of peers and addresses and the JSON of the listings are not part
  of the repository; they are fields of \<open>cli_params\<close>.  Error texts that come from those libraries are
  left out of \<open>cli_error\<close>; the client's own texts are kept.
\<close>

section \<open>Errors\<close>

datatype cli_error =
    CliArguments string
  | CliHex
  | CliPeerId
  | CliMultiaddr
  | CliInvalidSystemTime
  | CliState state_error
  | CliStorage storage_error
  | CliJson
  | CliArchive archive_error
  | CliNode node_error
  | CliChat chat_error
  | CliInvite invite_error
  | CliBootstrap bootstrap_error
  | CliProtocol protocol_error
  | CliSync sync_error
  | CliNetwork network_error
  | WrongDatabaseCommunity
  | DatabaseNotEmpty
  | ProfileRejected
  | MissingInvitation
  | UntrustedBootstrapEndpoint
  | MissingHomeServer
  | WrongHomeServerIdentity
  | InvalidHomeServerPublicKey
  | UnsupportedHomeServerEndpoint
  | IncompleteArchive
  | CliOutput io_error

definition MAX_ALLOWED_USERS :: nat where
  "MAX_ALLOWED_USERS = 256"

definition DEFAULT_HOME_SERVER_STORE_BYTES :: u64 where
  "DEFAULT_HOME_SERVER_STORE_BYTES = 512 * 1024 * 1024"

definition MAX_CHANNEL_NAME_BYTES :: nat where
  "MAX_CHANNEL_NAME_BYTES = 80"

definition MAX_MESSAGE_BYTES :: nat where
  "MAX_MESSAGE_BYTES = 4000"

section \<open>Options\<close>

type_synonym options = "(string, string list) btree"

fun options_parse_loop :: "options \<Rightarrow> string list \<Rightarrow> cli_error + options" where
  "options_parse_loop opts [] = Inr opts"
| "options_parse_loop opts (option # rest) =
     (if take 2 option \<noteq> ''--'' then Inl (CliArguments (''expected an option, got '' @ option))
      else
        (case rest of
           [] \<Rightarrow> Inl (CliArguments (''missing value for '' @ option))
         | v # rest' \<Rightarrow>
             options_parse_loop
               (bt_insert option ((case bt_get opts option of None \<Rightarrow> [] | Some vs \<Rightarrow> vs) @ [v]) opts) rest'))"

definition options_parse :: "string list \<Rightarrow> cli_error + options" where
  "options_parse arguments = options_parse_loop [] arguments"

definition require_one :: "options \<Rightarrow> string \<Rightarrow> cli_error + string" where
  "require_one opts name =
     (case bt_get opts name of
        Some [v] \<Rightarrow> Inr v
      | Some _ \<Rightarrow> Inl (CliArguments (name @ '' must be provided exactly once''))
      | None \<Rightarrow> Inl (CliArguments (''missing '' @ name)))"

definition optional_one :: "options \<Rightarrow> string \<Rightarrow> cli_error + string option" where
  "optional_one opts name =
     (case bt_get opts name of
        Some [v] \<Rightarrow> Inr (Some v)
      | Some _ \<Rightarrow> Inl (CliArguments (name @ '' may be provided only once''))
      | None \<Rightarrow> Inr None)"

definition many :: "options \<Rightarrow> string \<Rightarrow> string list" where
  "many opts name = (case bt_get opts name of Some vs \<Rightarrow> vs | None \<Rightarrow> [])"

definition allow_only :: "options \<Rightarrow> string list \<Rightarrow> cli_error + unit" where
  "allow_only opts allowed =
     (case find (\<lambda>name. name \<notin> set allowed) (bt_keys opts) of
        Some unknown \<Rightarrow> Inl (CliArguments (''unknown option '' @ unknown))
      | None \<Rightarrow> Inr ())"

section \<open>Argument values\<close>

record channel_view =
  cv_channel_id :: string
  cv_name :: string

record message_view =
  mv_event_id :: string
  mv_channel_id :: string
  mv_author_id :: string
  mv_timestamp_ms :: i64
  mv_text :: string

record 'k cli_params =
  cp_network :: "'k network_params"
  cp_payloads :: "chat_payload codec"
  cp_archive :: "archive_wire codec"
  cp_packages :: "invite_package codec"
  cp_persisted :: "persisted_state codec"
  cp_bootstrap :: bootstrap_codecs
  cp_hex_decode :: "string \<Rightarrow> bytes option"
  cp_hex_encode :: "bytes \<Rightarrow> string"
  cp_channels_json :: "channel_view list \<Rightarrow> string option"
  cp_messages_json :: "message_view list \<Rightarrow> string option"
  cp_debug_peer :: "peer_id option \<Rightarrow> string"       \<comment> \<open>\<open>{:?}\<close> of an optional peer\<close>
  cp_peer_order :: "peer_id set \<Rightarrow> peer_id list"     \<comment> \<open>a set of peers in the order of \<open>PeerId\<close>\<close>

definition peer_order_ok :: "'k cli_params \<Rightarrow> bool" where
  "peer_order_ok X \<longleftrightarrow> (\<forall>S. finite S \<longrightarrow> set (cp_peer_order X S) = S \<and> distinct (cp_peer_order X S))"

definition parse_hex_32 :: "'k cli_params \<Rightarrow> string \<Rightarrow> cli_error + arr32" where
  "parse_hex_32 X v =
     (if length v \<noteq> 64 then Inl (CliArguments ''expected exactly 32 bytes of hex'')
      else
        res_bind (ok_or (cp_hex_decode X v) CliHex) (\<lambda>bs.
        ok_or (to_arr32 bs) (CliArguments ''expected exactly 32 bytes of hex'')))"

definition parse_user :: "'k cli_params \<Rightarrow> string \<Rightarrow> cli_error + user_id" where
  "parse_user X v = res_bind (parse_hex_32 X v) (\<lambda>a. Inr (UserId a))"

definition parse_community :: "'k cli_params \<Rightarrow> string \<Rightarrow> cli_error + community_id" where
  "parse_community X v = res_bind (parse_hex_32 X v) (\<lambda>a. Inr (CommunityId a))"

definition parse_allowed_users :: "'k cli_params \<Rightarrow> string list \<Rightarrow> cli_error + user_id set" where
  "parse_allowed_users X vs =
     (if length vs > MAX_ALLOWED_USERS
      then Inl (CliArguments ''at most 256 --allow-user values are accepted'')
      else res_bind (try_map (parse_user X) vs) (\<lambda>users. Inr (set users)))"

definition parse_multiaddr :: "'k cli_params \<Rightarrow> string \<Rightarrow> cli_error + multiaddr" where
  "parse_multiaddr X v = ok_or (address_from_str (cp_bootstrap X) v) CliMultiaddr"

definition parse_dial :: "'k cli_params \<Rightarrow> options \<Rightarrow> cli_error + (peer_id \<times> multiaddr) option" where
  "parse_dial X opts =
     res_bind (optional_one opts ''--dial-peer'') (\<lambda>peer.
     res_bind (optional_one opts ''--dial-address'') (\<lambda>address.
     case (peer, address) of
       (None, None) \<Rightarrow> Inr None
     | (Some p, Some a) \<Rightarrow>
         res_bind (ok_or (peer_from_str (cp_bootstrap X) p) CliPeerId) (\<lambda>p'.
         res_bind (parse_multiaddr X a) (\<lambda>a'. Inr (Some (p', a'))))
     | _ \<Rightarrow> Inl (CliArguments ''--dial-peer and --dial-address must be supplied together'')))"

definition home_server_target ::
  "'k cli_params \<Rightarrow> home_server_binding \<Rightarrow> cli_error + (peer_id \<times> multiaddr)" where
  "home_server_target X binding =
     (let L = np_libp2p (cp_network X) in
      res_bind (ok_or (ed25519_key L (arr32_bytes (hs_server_public_key binding))) InvalidHomeServerPublicKey) (\<lambda>pk.
      res_bind
        (ok_or (find (\<lambda>a. a \<noteq> None) (map (address_from_str (cp_bootstrap X)) (hs_endpoints binding)))
          UnsupportedHomeServerEndpoint) (\<lambda>address.
      Inr (ed25519_peer L pk, the address))))"

text \<open>
  \<open>str::parse\<close> for an unsigned integer of 64 bits: an optional plus sign, at least one digit, only
  digits, and a value below \<open>2 ^ 64\<close>.
\<close>

definition digit_of :: "char \<Rightarrow> nat option" where
  "digit_of c = (if 48 \<le> (of_char c :: nat) \<and> (of_char c :: nat) \<le> 57 then Some (of_char c - 48) else None)"

fun parse_digits :: "nat \<Rightarrow> string \<Rightarrow> nat option" where
  "parse_digits acc [] = Some acc"
| "parse_digits acc (c # cs) =
     (case digit_of c of
        None \<Rightarrow> None
      | Some d \<Rightarrow> let v = acc * 10 + d in if v \<ge> 2 ^ 64 then None else parse_digits v cs)"

definition parse_unsigned :: "string \<Rightarrow> u64 option" where
  "parse_unsigned s =
     (let digits = (case s of [] \<Rightarrow> [] | c # cs \<Rightarrow> if c = CHR ''+'' then cs else s)
      in if digits = [] then None else map_option word_of_nat (parse_digits 0 digits))"

definition parse_positive :: "string \<Rightarrow> string \<Rightarrow> string \<Rightarrow> cli_error + u64" where
  "parse_positive invalid zero v =
     res_bind (ok_or (parse_unsigned v) (CliArguments invalid)) (\<lambda>parsed.
     if parsed = 0 then Inl (CliArguments zero) else Inr parsed)"

definition parse_positive_usize :: "string \<Rightarrow> cli_error + u64" where
  "parse_positive_usize =
     parse_positive ''event count must be a positive integer'' ''event count must be greater than zero''"

definition parse_positive_u64 :: "string \<Rightarrow> cli_error + u64" where
  "parse_positive_u64 =
     parse_positive ''byte count must be a positive integer'' ''byte count must be greater than zero''"

definition parse_positive_milliseconds :: "string \<Rightarrow> cli_error + u64" where
  "parse_positive_milliseconds =
     parse_positive ''timeout must be a positive integer'' ''timeout must be greater than zero''"

definition cli_now_ms :: "int \<Rightarrow> cli_error + i64" where
  "cli_now_ms clock =
     (if clock < 0 then Inl CliInvalidSystemTime
      else if clock \<ge> 2 ^ 63 then Inl CliInvalidSystemTime
      else Inr (word_of_int clock))"


section \<open>Options collect every value of a name in order\<close>

text \<open>The pairs of a well-formed argument list.\<close>

fun option_pairs :: "string list \<Rightarrow> (string \<times> string) list" where
  "option_pairs (option # v # rest) = (option, v) # option_pairs rest"
| "option_pairs _ = []"

lemma options_parse_loop_Inr:
  assumes "options_parse_loop opts args = Inr opts'" and "bt_ok opts"
  shows "bt_ok opts' \<and> many opts' name =
    many opts name @ map snd (filter (\<lambda>p. fst p = name) (option_pairs args))"
  using assms
proof (induction opts args rule: options_parse_loop.induct)
  case (1 opts)
  then show ?case by simp
next
  case (2 opts option rest)
  then obtain v rest' where rest: "rest = v # rest'" and opt: "take 2 option = ''--''"
    by (auto split: if_splits list.splits)
  let ?opts = "bt_insert option ((case bt_get opts option of None \<Rightarrow> [] | Some vs \<Rightarrow> vs) @ [v]) opts"
  have ok: "bt_ok ?opts" using 2(3) by (rule bt_ok_insert)
  have "bt_ok opts' \<and> many opts' name = many ?opts name @ map snd (filter (\<lambda>p. fst p = name) (option_pairs rest'))"
    using 2(1) [OF _ rest] 2(2) opt ok by (simp add: rest)
  moreover have "many ?opts name = many opts name @ (if option = name then [v] else [])"
    using 2(3) by (auto simp: many_def bt_simps split: option.splits)
  ultimately show ?case by (auto simp: rest)
qed

end
