(* ===== verification/Import_Sort.thy ===== *)
theory Import_Sort
  imports Import
begin

text \<open>
  The topological sort of \<open>ingest_archive\<close> is correct.  \<open>kahn_inv\<close> is the invariant of its loop;
  \<open>parents_first\<close> is what the resulting order promises, and what lets each batch be taken completely.
\<close>

section \<open>Counting parents\<close>

definition awaited :: "(event_id, signed_event) btree \<Rightarrow> event_id set \<Rightarrow> signed_event \<Rightarrow> event_id list" where
  "awaited pending placed e =
     filter (\<lambda>q. bt_contains_key pending q \<and> q \<notin> placed) (parents (content e))"

text \<open>The children recorded for \<open>q\<close> by the pending events \<open>xs\<close>.\<close>

definition kids :: "(event_id, signed_event) btree \<Rightarrow> (event_id \<times> signed_event) list \<Rightarrow> event_id \<Rightarrow> event_id list" where
  "kids pending xs q =
     (if bt_contains_key pending q then map fst (filter (\<lambda>p. q \<in> set (parents (content (snd p)))) xs) else [])"

lemma children_of_insert:
  "children_of (bt_insert k v m) q = (if q = k then v else children_of m q)"
  by (simp add: children_of_def bt_get_insert)

lemma children_of_remove: "q \<noteq> i \<Longrightarrow> children_of (bt_remove i m) q = children_of m q"
  by (simp add: children_of_def bt_get_remove)

lemma count_parent_fold:
  assumes "distinct ps" and "\<forall>q \<in> set ps. bt_contains_key pending q \<or> q \<in> known"
  shows "\<exists>children'. try_fold (count_parent pending known i) ps (n, children) =
      Inr (n + length (filter (bt_contains_key pending) ps), children') \<and>
    (\<forall>q. children_of children' q =
       children_of children q @ (if bt_contains_key pending q \<and> q \<in> set ps then [i] else []))"
  using assms
proof (induction ps arbitrary: n children)
  case Nil
  then show ?case by simp
next
  case (Cons q ps)
  let ?c = "if bt_contains_key pending q then bt_insert q (children_of children q @ [i]) children else children"
  let ?n = "if bt_contains_key pending q then n + 1 else n"
  have step: "count_parent pending known i (n, children) q = Inr (?n, ?c)"
    using Cons.prems(2) by (auto simp: count_parent_def children_of_def)
  obtain children' where fold: "try_fold (count_parent pending known i) ps (?n, ?c) =
      Inr (?n + length (filter (bt_contains_key pending) ps), children')"
    and kids: "\<forall>r. children_of children' r =
       children_of ?c r @ (if bt_contains_key pending r \<and> r \<in> set ps then [i] else [])"
    using Cons.IH [of ?n ?c] Cons.prems by auto
  show ?case
    using fold kids step Cons.prems(1) by (intro exI [of _ children']) (auto simp: children_of_insert)
qed

lemma count_parent_missing:
  assumes "try_fold (count_parent pending known i) ps st = Inr st'"
  shows "\<forall>q \<in> set ps. bt_contains_key pending q \<or> q \<in> known"
  using assms
proof (induction ps arbitrary: st)
  case (Cons q ps)
  then show ?case by (auto simp: res_bind_Inr_iff count_parent_def split_beta split: if_splits)
qed simp

lemma map_of_snoc_new: "a \<notin> fst ` set ys \<Longrightarrow> map_of (ys @ [(a, b)]) = (map_of ys)(a \<mapsto> b)"
  by (induction ys) (auto simp: fun_eq_iff)

lemma count_parents_fold:
  assumes "distinct (map fst xs)" and "\<forall>p \<in> set xs. distinct (parents (content (snd p)))"
    and "\<forall>p \<in> set xs. \<forall>q \<in> set (parents (content (snd p))). bt_contains_key pending q \<or> q \<in> known"
  shows "\<exists>k. try_fold (count_event pending known) xs \<lparr>k_remaining = Map.empty, k_children = []\<rparr> = Inr k \<and>
    k_remaining k = map_of (map (\<lambda>p. (fst p, length (awaited pending {} (snd p)))) xs) \<and>
    (\<forall>q. children_of (k_children k) q = kids pending xs q)"
  using assms
proof (induction xs rule: rev_induct)
  case Nil
  then show ?case by (simp add: children_of_def kids_def bt_get_def)
next
  case (snoc p xs)
  obtain k where k: "try_fold (count_event pending known) xs \<lparr>k_remaining = Map.empty, k_children = []\<rparr> = Inr k"
    "k_remaining k = map_of (map (\<lambda>p. (fst p, length (awaited pending {} (snd p)))) xs)"
    "\<forall>q. children_of (k_children k) q = kids pending xs q"
    using snoc by auto
  obtain ch where ch: "try_fold (count_parent pending known (fst p)) (parents (content (snd p))) (0, k_children k) =
      Inr (length (awaited pending {} (snd p)), ch)"
    "\<forall>q. children_of ch q = children_of (k_children k) q @
       (if bt_contains_key pending q \<and> q \<in> set (parents (content (snd p))) then [fst p] else [])"
    using count_parent_fold [of "parents (content (snd p))" pending known "fst p" 0 "k_children k"] snoc.prems
    by (auto simp: awaited_def)
  have step: "count_event pending known k p =
      Inr \<lparr>k_remaining = (k_remaining k)(fst p \<mapsto> length (awaited pending {} (snd p))), k_children = ch\<rparr>"
    by (simp add: count_event_def ch(1))
  have new: "fst p \<notin> fst ` set xs" using snoc.prems(1) by simp
  have "(k_remaining k)(fst p \<mapsto> length (awaited pending {} (snd p))) =
      map_of (map (\<lambda>p. (fst p, length (awaited pending {} (snd p)))) (xs @ [p]))"
    using new by (simp add: k(2) map_of_snoc_new image_image del: map_of_append)
  moreover have "children_of ch q = kids pending (xs @ [p]) q" for q
    using ch(2) k(3) by (simp add: kids_def)
  ultimately show ?case using k(1) step by (simp add: try_fold_append)
qed


lemma bt_map_of: "map_of (map (\<lambda>p. (fst p, f (snd p))) m) = (\<lambda>i. map_option f (bt_get m i))"
  by (induction m) (auto simp: bt_get_def fun_eq_iff)

lemma count_parents_ok:
  assumes "bt_ok pending" and "\<forall>e \<in> set (bt_values pending). distinct (parents (content e))"
    and "\<forall>e \<in> set (bt_values pending). \<forall>q \<in> set (parents (content e)). bt_contains_key pending q \<or> q \<in> known"
  shows "\<exists>k. count_parents pending known = Inr k \<and>
    k_remaining k = (\<lambda>i. map_option (\<lambda>e. length (awaited pending {} e)) (bt_get pending i)) \<and>
    (\<forall>q. children_of (k_children k) q = kids pending pending q)"
  using count_parents_fold [of pending pending known] bt_ok_distinct [OF assms(1)] assms(2,3)
    bt_map_of [of "\<lambda>e. length (awaited pending {} e)" pending]
  by (auto simp: count_parents_def bt_keys_def bt_values_def)

section \<open>The loop\<close>

definition parents_first :: "(event_id, signed_event) btree \<Rightarrow> event_id list \<Rightarrow> bool" where
  "parents_first pending order \<longleftrightarrow>
     (\<forall>n < length order. \<forall>e. bt_get pending (order ! n) = Some e \<longrightarrow>
        (\<forall>q \<in> set (parents (content e)). bt_contains_key pending q \<longrightarrow> q \<in> set (take n order)))"

definition kahn_inv ::
  "(event_id, signed_event) btree \<Rightarrow> event_id set \<Rightarrow> (event_id \<rightharpoonup> nat) \<Rightarrow> (event_id, event_id list) btree \<Rightarrow>
     event_id list \<Rightarrow> bool" where
  "kahn_inv pending ready remaining children order \<longleftrightarrow>
     distinct order \<and> set order \<subseteq> set (bt_keys pending) \<and> parents_first pending order \<and>
     remaining = (\<lambda>i. map_option (\<lambda>e. length (awaited pending (set order) e)) (bt_get pending i)) \<and>
     (\<forall>q. q \<notin> set order \<longrightarrow> children_of children q = kids pending pending q) \<and>
     ready = {i. remaining i = Some 0 \<and> i \<notin> set order}"

lemma release_children:
  assumes "distinct cs" and "\<forall>c \<in> set cs. remaining c = Some (Suc (n c))"
  shows "try_fold release_child cs (ready, remaining) =
    Inr (ready \<union> {c \<in> set cs. n c = 0}, \<lambda>c. if c \<in> set cs then Some (n c) else remaining c)"
  using assms
proof (induction cs arbitrary: ready remaining)
  case Nil
  then show ?case by simp
next
  case (Cons c cs)
  let ?ready = "if n c = 0 then insert c ready else ready"
  have "release_child (ready, remaining) c = Inr (?ready, remaining(c \<mapsto> n c))"
    using Cons.prems(2) by (simp add: release_child_def)
  moreover have "try_fold release_child cs (?ready, remaining(c \<mapsto> n c)) =
      Inr (?ready \<union> {c \<in> set cs. n c = 0},
        \<lambda>d. if d \<in> set cs then Some (n d) else (remaining(c \<mapsto> n c)) d)"
    using Cons.prems by (intro Cons.IH) auto
  ultimately show ?case by (auto simp: fun_eq_iff)
qed

text \<open>Placing \<open>i\<close> removes it from what the others await.\<close>

lemma awaited_insert:
  assumes "distinct (parents (content e))" and "bt_contains_key pending i" and "i \<notin> placed"
  shows "length (awaited pending placed e) =
    length (awaited pending (insert i placed) e) + (if i \<in> set (parents (content e)) then 1 else 0)"
proof -
  have "length (filter (\<lambda>q. bt_contains_key pending q \<and> q \<notin> placed) ps) =
      length (filter (\<lambda>q. bt_contains_key pending q \<and> q \<notin> insert i placed) ps) + (if i \<in> set ps then 1 else 0)"
    if "distinct ps" for ps
    using that assms(2,3) by (induction ps) auto
  then show ?thesis using assms(1) by (simp add: awaited_def)
qed

lemma set_kids:
  assumes "bt_ok pending" and "bt_contains_key pending i"
  shows "distinct (kids pending pending i)"
    and "c \<in> set (kids pending pending i) \<longleftrightarrow>
      (\<exists>e. bt_get pending c = Some e \<and> i \<in> set (parents (content e)))"
proof -
  have d: "distinct (map fst pending)" using bt_ok_distinct [OF assms(1)] by (simp add: bt_keys_def)
  then show "distinct (kids pending pending i)"
    using assms(2) by (auto simp: kids_def distinct_map inj_on_def)
  show "c \<in> set (kids pending pending i) \<longleftrightarrow>
      (\<exists>e. bt_get pending c = Some e \<and> i \<in> set (parents (content e)))"
    using assms(2) d by (force simp: kids_def bt_get_def map_of_eq_Some_iff)
qed

lemma parents_first_snoc:
  assumes "parents_first pending order" and "\<And>e q. bt_get pending i = Some e \<Longrightarrow> q \<in> set (parents (content e)) \<Longrightarrow>
    bt_contains_key pending q \<Longrightarrow> q \<in> set order"
  shows "parents_first pending (order @ [i])"
  using assms by (auto simp: parents_first_def nth_append less_Suc_eq)


text \<open>One round: the smallest ready event is placed and its children are released.\<close>

lemma kahn_step:
  assumes ok: "bt_ok pending" and dist: "\<forall>e \<in> set (bt_values pending). distinct (parents (content e))"
    and inv: "kahn_inv pending ready remaining children order" and i: "i \<in> ready"
  shows "\<exists>ready' remaining'.
    try_fold release_child (children_of children i) (ready - {i}, remaining) = Inr (ready', remaining') \<and>
    kahn_inv pending ready' remaining' (bt_remove i children) (order @ [i])"
proof -
  let ?rem = "\<lambda>placed j. map_option (\<lambda>e. length (awaited pending placed e)) (bt_get pending j)"
  have rem: "remaining = ?rem (set order)" and ready: "ready = {i. remaining i = Some 0 \<and> i \<notin> set order}"
    and first: "parents_first pending order" and keys: "set order \<subseteq> set (bt_keys pending)" and "distinct order"
    and ch: "\<forall>q. q \<notin> set order \<longrightarrow> children_of children q = kids pending pending q"
    using inv by (simp_all add: kahn_inv_def)
  have io: "i \<notin> set order" using i ready by simp
  obtain e where e: "bt_get pending i = Some e" "awaited pending (set order) e = []"
    using i ready by (auto simp: rem)
  have ip: "bt_contains_key pending i" using e(1) by (simp add: bt_contains_key_iff)
  have dp: "distinct (parents (content d))" if "bt_get pending c = Some d" for c d
    using dist that by (metis bt_contains_key_iff bt_values_def image_eqI list.set_map map_of_SomeD bt_get_def snd_conv)
  have kid: "c \<in> set (children_of children i) \<longleftrightarrow> (\<exists>d. bt_get pending c = Some d \<and> i \<in> set (parents (content d)))" for c
    using ch io set_kids(2) [OF ok ip] by simp
  let ?n = "\<lambda>c. length (awaited pending (insert i (set order)) (the (bt_get pending c)))"
  have suc: "remaining c = Some (Suc (?n c))" if "c \<in> set (children_of children i)" for c
  proof -
    obtain d where d: "bt_get pending c = Some d" "i \<in> set (parents (content d))" using kid \<open>c \<in> _\<close> by blast
    then show ?thesis using awaited_insert [OF dp [OF d(1)] ip io] by (simp add: rem)
  qed
  have later: "c \<notin> set order \<and> c \<noteq> i" if c: "c \<in> set (children_of children i)" for c
  proof -
    obtain d where d: "bt_get pending c = Some d" "i \<in> set (parents (content d))" using kid c by blast
    have "c \<notin> set order"
    proof
      assume "c \<in> set order"
      then obtain n where "n < length order" "order ! n = c" by (auto simp: in_set_conv_nth)
      then have "i \<in> set (take n order)" using first d ip unfolding parents_first_def by blast
      then show False using io by (meson in_set_takeD)
    qed
    moreover have "c \<noteq> i" using suc [OF c] i ready by auto
    ultimately show ?thesis by blast
  qed
  have release: "try_fold release_child (children_of children i) (ready - {i}, remaining) =
      Inr (ready - {i} \<union> {c \<in> set (children_of children i). ?n c = 0},
        \<lambda>c. if c \<in> set (children_of children i) then Some (?n c) else remaining c)"
    using ch io set_kids(1) [OF ok ip] suc by (intro release_children) auto
  have rem': "(\<lambda>c. if c \<in> set (children_of children i) then Some (?n c) else remaining c) =
      ?rem (set (order @ [i]))"
  proof (rule ext)
    fix c
    show "(if c \<in> set (children_of children i) then Some (?n c) else remaining c) = ?rem (set (order @ [i])) c"
    proof (cases "bt_get pending c")
      case None
      then show ?thesis using kid by (simp add: rem)
    next
      case (Some d)
      then show ?thesis using kid awaited_insert [OF dp [OF Some] ip io] by (auto simp: rem)
    qed
  qed
  have "parents_first pending (order @ [i])"
    by (rule parents_first_snoc [OF first])
      (use e in \<open>auto simp: awaited_def filter_empty_conv\<close>)
  moreover have "ready - {i} \<union> {c \<in> set (children_of children i). ?n c = 0} =
      {c. ?rem (set (order @ [i])) c = Some 0 \<and> c \<notin> set (order @ [i])}"
  proof (rule set_eqI)
    fix c
    have rem_c: "?rem (set (order @ [i])) c = (if c \<in> set (children_of children i) then Some (?n c) else remaining c)"
      by (simp only: fun_cong [OF rem', symmetric])
    show "c \<in> ready - {i} \<union> {c \<in> set (children_of children i). ?n c = 0} \<longleftrightarrow>
        c \<in> {c. ?rem (set (order @ [i])) c = Some 0 \<and> c \<notin> set (order @ [i])}"
      unfolding mem_Collect_eq rem_c
    proof (cases "c \<in> set (children_of children i)")
      case True
      then show "c \<in> ready - {i} \<union> {c \<in> set (children_of children i). ?n c = 0} \<longleftrightarrow>
          (if c \<in> set (children_of children i) then Some (?n c) else remaining c) = Some 0 \<and> c \<notin> set (order @ [i])"
        using later [OF True] suc [OF True] by (simp add: ready)
    next
      case False
      then show "c \<in> ready - {i} \<union> {c \<in> set (children_of children i). ?n c = 0} \<longleftrightarrow>
          (if c \<in> set (children_of children i) then Some (?n c) else remaining c) = Some 0 \<and> c \<notin> set (order @ [i])"
        by (auto simp: ready)
    qed
  qed
  moreover have "children_of (bt_remove i children) q = kids pending pending q" if "q \<notin> set (order @ [i])" for q
    using ch that by (simp add: children_of_remove)
  ultimately have "kahn_inv pending (ready - {i} \<union> {c \<in> set (children_of children i). ?n c = 0})
      (?rem (set (order @ [i]))) (bt_remove i children) (order @ [i])"
    unfolding kahn_inv_def using \<open>distinct order\<close> io keys ip by (auto simp: bt_contains_key_def)
  then show ?thesis using release rem' by auto
qed


lemma sorted_list_of_set_Cons:
  assumes "sorted_list_of_set S = i # js"
  shows "i \<in> S"
  using assms by (metis list.set_intros(1) list.distinct(1) set_sorted_list_of_set sorted_list_of_set.fold_insort_key.infinite)

text \<open>The loop ends with an order in which no event is left that could still be placed.\<close>

lemma topological_ok:
  assumes "bt_ok pending" and "\<forall>e \<in> set (bt_values pending). distinct (parents (content e))"
    and "kahn_inv pending ready remaining children order"
  shows "\<exists>order' remaining' children'. topological ready remaining children order = Inr order' \<and>
    kahn_inv pending {} remaining' children' order'"
  using assms
proof (induction ready remaining children order rule: topological.induct)
  case (1 ready remaining children order)
  show ?case
  proof (cases "sorted_list_of_set ready")
    case Nil
    have "ready \<subseteq> set (bt_keys pending)"
      using "1.prems"(3) by (auto simp: kahn_inv_def bt_keys_iff_get)
    then have "ready = {}" using Nil finite_subset by (metis List.finite_set sorted_list_of_set_eq_Nil_iff)
    then show ?thesis using Nil "1.prems"(3) by (subst topological.simps) auto
  next
    case (Cons i js)
    have i: "i \<in> ready" by (rule sorted_list_of_set_Cons [OF Cons])
    obtain ready' remaining' where
      r: "try_fold release_child (children_of children i) (ready - {i}, remaining) = Inr (ready', remaining')"
      and inv: "kahn_inv pending ready' remaining' (bt_remove i children) (order @ [i])"
      using kahn_step [OF "1.prems" i] by blast
    show ?thesis
      using "1.IH" [OF Cons r refl "1.prems"(1,2) inv] Cons r by (subst topological.simps) simp
  qed
qed

text \<open>In an acyclic set everything is placed.\<close>

lemma kahn_complete:
  assumes inv: "kahn_inv pending {} remaining children order"
    and wf: "wf (parent_relation (set (bt_values pending)))"
    and keys: "\<And>i e. bt_get pending i = Some e \<Longrightarrow> event_id e = i"
  shows "set order = set (bt_keys pending)"
proof (rule ccontr)
  let ?S = "set (bt_keys pending) - set order"
  assume "set order \<noteq> set (bt_keys pending)"
  then have "?S \<noteq> {}" using inv by (auto simp: kahn_inv_def)
  then obtain i where i: "i \<in> ?S"
    and min: "\<forall>e \<in> set (bt_values pending). event_id e = i \<longrightarrow> (\<forall>q \<in> set (parents (content e)). q \<notin> ?S)"
    using parent_minimal [OF wf, of ?S] by (auto simp del: Diff_iff)
  obtain e where e: "bt_get pending i = Some e" using i by (auto simp: bt_keys_iff_get)
  then have "e \<in> set (bt_values pending)"
    by (auto simp: bt_get_def bt_values_def dest: map_of_SomeD intro: rev_image_eqI)
  then have "awaited pending (set order) e = []"
    using min keys [OF e] by (auto simp: awaited_def filter_empty_conv bt_contains_key_def)
  moreover have "remaining i \<noteq> Some 0" using inv i unfolding kahn_inv_def by blast
  ultimately show False using inv e by (auto simp: kahn_inv_def)
qed

lemma archive_order_ok:
  assumes ok: "bt_ok pending" and dist: "\<forall>e \<in> set (bt_values pending). distinct (parents (content e))"
    and closed: "\<forall>e \<in> set (bt_values pending). \<forall>q \<in> set (parents (content e)). bt_contains_key pending q \<or> q \<in> known"
    and wf: "wf (parent_relation (set (bt_values pending)))"
    and keys: "\<And>i e. bt_get pending i = Some e \<Longrightarrow> event_id e = i"
  shows "\<exists>order. archive_order pending known = Inr order \<and> distinct order \<and>
    set order = set (bt_keys pending) \<and> parents_first pending order"
proof -
  obtain k where k: "count_parents pending known = Inr k"
    "k_remaining k = (\<lambda>i. map_option (\<lambda>e. length (awaited pending {} e)) (bt_get pending i))"
    "\<forall>q. children_of (k_children k) q = kids pending pending q"
    using count_parents_ok [OF ok dist closed] by blast
  let ?ready = "set (filter (\<lambda>i. k_remaining k i = Some 0) (bt_keys pending))"
  have "?ready = {i. k_remaining k i = Some 0}"
    using k(2) by (auto simp: bt_keys_iff_get)
  then have "kahn_inv pending ?ready (k_remaining k) (k_children k) []"
    using k by (simp add: kahn_inv_def parents_first_def)
  then obtain order remaining' children' where
    order: "topological ?ready (k_remaining k) (k_children k) [] = Inr order"
    and inv: "kahn_inv pending {} remaining' children' order"
    using topological_ok [OF ok dist] by blast
  have set: "set order = set (bt_keys pending)" by (rule kahn_complete [OF inv wf keys])
  have "distinct order" and "parents_first pending order" using inv by (simp_all add: kahn_inv_def)
  moreover have "length order = length pending"
    using distinct_card [OF \<open>distinct order\<close>] distinct_card [OF bt_ok_distinct [OF ok]] set by simp
  ultimately show ?thesis using k(1) order set by (simp add: archive_order_def)
qed

end
