(* ===== verification/Import_Correct.thy ===== *)
theory Import_Correct
  imports Import_Sort Sync_Peer
begin

text \<open>
  Importing an archive: a node takes every batch of the sorted events completely, so \<open>ingest_archive\<close>
  of an acyclic, parent-closed set of valid events leaves exactly these events known in addition, and
  never reports an incomplete archive.
\<close>

section \<open>One batch\<close>

lemma take_batch_ok:
  assumes "distinct ids" and "set ids \<subseteq> set (bt_keys pending)"
  shows "fst (take_batch pending ids) = map (\<lambda>i. the (bt_get pending i)) ids"
    and "bt_get (snd (take_batch pending ids)) = (\<lambda>j. if j \<in> set ids then None else bt_get pending j)"
  using assms
proof (induction ids arbitrary: pending)
  case Nil
  {
    case 1 then show ?case by simp
  next
    case 2 then show ?case by simp
  }
next
  case (Cons i ids)
  {
    case 1
    then obtain e where e: "bt_get pending i = Some e" by (auto simp: bt_keys_iff_get)
    have "fst (take_batch (bt_remove i pending) ids) = map (\<lambda>j. the (bt_get (bt_remove i pending) j)) ids"
      using 1 by (intro Cons.IH(1)) (auto simp: bt_keys_remove)
    moreover have "map (\<lambda>j. the (bt_get (bt_remove i pending) j)) ids = map (\<lambda>j. the (bt_get pending j)) ids"
      using 1 by (intro map_cong) (auto simp: bt_get_remove)
    ultimately show ?case using e by (simp add: split_beta)
  next
    case 2
    then obtain e where e: "bt_get pending i = Some e" by (auto simp: bt_keys_iff_get)
    have "bt_get (snd (take_batch (bt_remove i pending) ids)) =
        (\<lambda>j. if j \<in> set ids then None else bt_get (bt_remove i pending) j)"
      using 2 by (intro Cons.IH(2)) (auto simp: bt_keys_remove)
    then show ?case using e by (auto simp: split_beta bt_get_remove fun_eq_iff)
  }
qed

text \<open>A batch listed with parents before children belongs to the closure of what is known.\<close>

lemma ordered_closure:
  assumes map: "\<And>n. n < length ids \<Longrightarrow> M (ids ! n) = Some (ev (ids ! n))"
    and par: "\<And>n q. n < length ids \<Longrightarrow> q \<in> set (parents (content (ev (ids ! n)))) \<Longrightarrow> q \<in> K \<or> q \<in> set (take n ids)"
    and n: "n < length ids"
  shows "ids ! n \<in> ingest_closure K M"
  using n
proof (induction n rule: less_induct)
  case (less n)
  have "q \<in> ingest_closure K M" if "q \<in> set (parents (content (ev (ids ! n))))" for q
    using par [OF less.prems that]
  proof
    assume "q \<in> set (take n ids)"
    then obtain m where "m < n" "m < length ids" "q = ids ! m" by (auto simp: in_set_conv_nth)
    then show ?thesis using less.IH by simp
  qed (rule closure_known)
  then show ?case using closure_ready [of M "ids ! n"] map [OF less.prems] by blast
qed

lemma ingest_ordered:
  assumes node: "node_ok C J core" and uniq: "ids_unique (universe J core batch)"
    and ids: "map event_id batch = ids"
    and par: "\<And>n q. n < length ids \<Longrightarrow> q \<in> set (parents (content (batch ! n))) \<Longrightarrow>
      q \<in> node_known core \<or> q \<in> set (take n ids)"
    and ing: "ingest_batch C J batch core = (res, core')"
  shows "node_ok C J core' \<and> ran (store_abs J (node_store core')) \<subseteq> universe J core batch \<and>
    node_known core \<subseteq> node_known core' \<and> node_known core' \<subseteq> node_known core \<union> set ids \<and>
    (case res of Inl err \<Rightarrow> (\<exists>e. err = CliNode e) | Inr n \<Rightarrow> node_known core' = node_known core \<union> set ids)"
proof -
  have set: "event_id ` set batch = set ids" using ids by force
  have uniqb: "ids_unique (set batch)" by (rule ids_unique_subset [OF uniq]) (simp add: universe_def)
  have "set ids \<subseteq> ingest_closure (node_known core) (batch_map batch)"
  proof
    fix i assume "i \<in> set ids"
    then obtain n where n: "n < length ids" "i = ids ! n" by (auto simp: in_set_conv_nth)
    let ?ev = "\<lambda>j. the (batch_map batch j)"
    have ev: "batch_map batch (ids ! m) = Some (batch ! m)" if m: "m < length ids" for m
    proof -
      have len: "m < length batch" using m ids by auto
      then have "event_id (batch ! m) = ids ! m" using ids by auto
      then show ?thesis using batch_map_unique [OF uniqb nth_mem [OF len]] by simp
    qed
    have "ids ! n \<in> ingest_closure (node_known core) (batch_map batch)"
      by (rule ordered_closure [where ev = ?ev]) (use ev par n in auto)
    then show "i \<in> ingest_closure (node_known core) (batch_map batch)" using n by simp
  qed
  then have closure: "ingest_closure (node_known core) (batch_map batch) = node_known core \<union> set ids"
    using closure_subset [of "node_known core" "batch_map batch"] set batch_map_dom [of batch]
    by (auto intro: closure_known)
  obtain r where r: "ingest C J core batch = (r, core')"
    using ing by (cases "ingest C J core batch"; cases "fst (ingest C J core batch)")
      (auto simp: ingest_batch_def split: if_splits)
  note keep = ingest_preserves [OF node uniq r]
  have ran: "ran (store_abs J (node_store core')) \<subseteq> universe J core batch"
  proof (cases "ingest_check C core batch")
    case (Inl err)
    then show ?thesis using r by (simp add: ingest_def universe_def)
  next
    case (Inr c)
    then show ?thesis using ingest_frame [OF node uniq Inr r] by blast
  qed
  show ?thesis
  proof (cases r)
    case (Inl err)
    then show ?thesis using ing r keep ran closure by (auto simp: ingest_batch_def)
  next
    case (Inr report)
    note res = ingest_computes_closure [OF node uniq r [unfolded Inr]]
    have "report_unresolved report = []" using res(2) closure set by (simp add: unresolved_ids_def)
    then show ?thesis using ing r Inr keep ran res(1) closure by (auto simp: ingest_batch_def)
  qed
qed

section \<open>All batches\<close>

lemma ingest_batches_ok:
  assumes "0 < n" and "n \<le> MAX_PENDING_EVENTS" and "node_ok C J core" and "ids_unique U"
    and "set (bt_values pending0) \<union> ran (store_abs J (node_store core)) \<subseteq> U"
    and "distinct rest" and "\<And>i. i \<in> set rest \<Longrightarrow> \<exists>e. bt_get pending i = Some e \<and> bt_get pending0 i = Some e \<and> event_id e = i"
    and "\<And>k e q. k < length rest \<Longrightarrow> bt_get pending0 (rest ! k) = Some e \<Longrightarrow> q \<in> set (parents (content e)) \<Longrightarrow>
      q \<in> node_known core \<or> q \<in> set (take k rest)"
    and "ingest_batches C J pending (chunks n rest) count0 core = (res, core')"
  shows "node_ok C J core' \<and> node_known core \<subseteq> node_known core' \<and>
    node_known core' \<subseteq> node_known core \<union> set rest \<and>
    (case res of Inl err \<Rightarrow> (\<exists>e. err = CliNode e) | Inr m \<Rightarrow> node_known core' = node_known core \<union> set rest)"
  using assms
proof (induction n rest arbitrary: pending count0 core rule: chunks.induct)
  case (1 n rest)
  show ?case
  proof (cases "rest = []")
    case True
    then show ?thesis using 1(10) 1(4) by (auto simp: op_return_def)
  next
    case False
    let ?ids = "take n rest"
    let ?batch = "map (\<lambda>i. the (bt_get pending i)) ?ids"
    have sub: "set ?ids \<subseteq> set rest" by (rule set_take_subset)
    have dist: "distinct ?ids" using 1(7) by simp
    have pend: "set ?ids \<subseteq> set (bt_keys pending)" using 1(8) subsetD [OF sub] by (fastforce simp: bt_keys_iff_get)
    obtain pending' where tb: "take_batch pending ?ids = (?batch, pending')"
      and rem: "bt_get pending' = (\<lambda>j. if j \<in> set ?ids then None else bt_get pending j)"
      using take_batch_ok [OF dist pend] by (metis prod.collapse)
    have val: "the (bt_get pending i) \<in> set (bt_values pending0) \<and> event_id (the (bt_get pending i)) = i \<and>
        bt_get pending0 i = Some (the (bt_get pending i))" if i: "i \<in> set rest" for i
      using 1(8) [OF i] by (auto simp: bt_get_def bt_values_def dest: map_of_SomeD intro: rev_image_eqI)
    have inU: "universe J core ?batch \<subseteq> U" using 1(6) val sub by (auto simp: universe_def)
    have uniq: "ids_unique (universe J core ?batch)" by (rule ids_unique_subset [OF 1(5) inU])
    have ids: "map event_id ?batch = ?ids" unfolding map_map
      by (rule map_idI) (use val subsetD [OF sub] in \<open>auto simp: comp_def\<close>)
    have par: "q \<in> node_known core \<or> q \<in> set (take k ?ids)"
      if k: "k < length ?ids" and q: "q \<in> set (parents (content (?batch ! k)))" for k q
    proof -
      have kn: "k < n" "k < length rest" using k by auto
      then have b: "?batch ! k = the (bt_get pending (rest ! k))" and t: "take k ?ids = take k rest"
        by (simp_all add: min_def)
      show ?thesis using 1(9) [OF kn(2) _ q] val [OF nth_mem [OF kn(2)]] unfolding b t by blast
    qed
    obtain r core1 where b: "ingest_batch C J ?batch core = (r, core1)" by fastforce
    note one = ingest_ordered [OF 1(4) uniq ids par b]
    have split: "set rest = set ?ids \<union> set (drop n rest)" by (metis append_take_drop_id set_append)
    have step: "ingest_batches C J pending (chunks n rest) count0 core =
        op_bind (ingest_batch C J ?batch) (\<lambda>m. ingest_batches C J pending' (chunks n (drop n rest)) (count0 + m)) core"
      using 1(2) False by (simp add: chunks_step tb)
    show ?thesis
    proof (cases r)
      case (Inl err)
      then show ?thesis using 1(10) b one split by (auto simp: step op_bind_def)
    next
      case (Inr m)
      then have rest: "ingest_batches C J pending' (chunks n (drop n rest)) (count0 + m) core1 = (res, core')"
        using 1(10) b by (simp add: step op_bind_def)
      have known1: "node_known core1 = node_known core \<union> set ?ids" using one Inr by simp
      have "node_ok C J core' \<and> node_known core1 \<subseteq> node_known core' \<and>
          node_known core' \<subseteq> node_known core1 \<union> set (drop n rest) \<and>
          (case res of Inl err \<Rightarrow> (\<exists>e. err = CliNode e)
           | Inr m \<Rightarrow> node_known core' = node_known core1 \<union> set (drop n rest))"
      proof (rule 1(1) [OF _ 1(2,3) _ 1(5) _ _ _ _ rest])
        show "\<not> (n = 0 \<or> rest = [])" using 1(2) False by simp
        show "node_ok C J core1" using one by blast
        show "set (bt_values pending0) \<union> ran (store_abs J (node_store core1)) \<subseteq> U" using one inU 1(6) by blast
        show "distinct (drop n rest)" using 1(7) by simp
        show "\<exists>e. bt_get pending' i = Some e \<and> bt_get pending0 i = Some e \<and> event_id e = i"
          if i: "i \<in> set (drop n rest)" for i
        proof -
          have "i \<notin> set ?ids" using i 1(7) by (metis IntI append_take_drop_id distinct_append empty_iff)
          then show ?thesis using 1(8) [of i] i split rem by auto
        qed
        show "q \<in> node_known core1 \<or> q \<in> set (take k (drop n rest))"
          if k: "k < length (drop n rest)" and e: "bt_get pending0 (drop n rest ! k) = Some e"
            and q: "q \<in> set (parents (content e))" for k e q
          using 1(9) [of "n + k" e q] k e q known1 by (auto simp: take_add)
      qed
      then show ?thesis using known1 split by (auto split: sum.splits)
    qed
  qed
qed

section \<open>The whole archive\<close>

lemma pending_of_get:
  assumes "ids_unique (set events)"
  shows "bt_get (pending_of known events) i = Some e \<longleftrightarrow> e \<in> set events \<and> event_id e = i \<and> i \<notin> known"
proof -
  let ?es = "filter (\<lambda>e. event_id e \<notin> known) events"
  have "bt_get (pending_of known events) = batch_map ?es"
    by (simp add: pending_of_def batch_map_def bt_get_of_list)
  moreover have "ids_unique (set ?es)" using assms by (rule ids_unique_subset) auto
  ultimately show ?thesis using batch_map_iff [of ?es] by auto
qed

lemma pending_of_ok [simp]: "bt_ok (pending_of known events)"
  by (simp add: pending_of_def)

lemma pending_of_values:
  assumes "ids_unique (set events)"
  shows "set (bt_values (pending_of known events)) = {e \<in> set events. event_id e \<notin> known}"
  using pending_of_get [OF assms] bt_values_iff [OF pending_of_ok, of _ known events] by auto

lemma archive_order_pending:
  assumes uniq: "ids_unique (set events)" and valid: "\<forall>e \<in> set events. validate_event C e = Inr ()"
    and closed: "\<forall>e \<in> set events. set (parents (content e)) \<subseteq> known \<union> event_id ` set events"
    and wf: "wf (parent_relation (set events))"
  obtains order where "archive_order (pending_of known events) known = Inr order" and "distinct order"
    and "set order = event_id ` set events - known"
    and "\<forall>i \<in> set order. \<exists>e. bt_get (pending_of known events) i = Some e \<and> event_id e = i"
    and "\<forall>k e q. k < length order \<longrightarrow> bt_get (pending_of known events) (order ! k) = Some e \<longrightarrow>
      q \<in> set (parents (content e)) \<longrightarrow> q \<in> known \<or> q \<in> set (take k order)"
proof -
  let ?pending = "pending_of known events"
  note get = pending_of_get [OF uniq, of known] and vals = pending_of_values [OF uniq, of known]
  have keys: "set (bt_keys ?pending) = event_id ` set events - known"
    using get by (auto simp: bt_keys_iff_get)
  have "wf (parent_relation (set (bt_values ?pending)))"
    by (rule wf_subset [OF wf]) (auto simp: parent_relation_def vals)
  moreover have "\<forall>e \<in> set (bt_values ?pending). distinct (parents (content e))"
    using valid vals by (auto simp: validate_event_Inr_iff strictly_sorted_distinct)
  moreover have "\<forall>e \<in> set (bt_values ?pending). \<forall>q \<in> set (parents (content e)). bt_contains_key ?pending q \<or> q \<in> known"
    using closed vals keys by (fastforce simp: bt_contains_key_def)
  ultimately obtain order where order: "archive_order ?pending known = Inr order" "distinct order"
      "set order = set (bt_keys ?pending)" "parents_first ?pending order"
    using archive_order_ok [of ?pending known] get by auto
  show thesis
  proof (rule that [OF order(1,2)])
    show "set order = event_id ` set events - known" using order(3) keys by simp
    show "\<forall>i \<in> set order. \<exists>e. bt_get ?pending i = Some e \<and> event_id e = i"
      using order(3) get by (auto simp: bt_keys_iff_get)
    show "\<forall>k e q. k < length order \<longrightarrow> bt_get ?pending (order ! k) = Some e \<longrightarrow>
        q \<in> set (parents (content e)) \<longrightarrow> q \<in> known \<or> q \<in> set (take k order)"
      using closed get keys order(4) unfolding parents_first_def bt_contains_key_def by blast
  qed
qed

lemma ingest_archive_eq:
  assumes "archive_order (pending_of (node_known core) events) (node_known core) = Inr order"
    and "ingest_batches C J (pending_of (node_known core) events) (chunks MAX_PENDING_EVENTS order) 0 core = (r, core1)"
  shows "ingest_archive C J events core =
    (case r of Inl err \<Rightarrow> Inl err
     | Inr m \<Rightarrow> Inr (m, length (filter (\<lambda>e. event_id e \<in> node_known core) events)), core1)"
  using assms by (auto simp: ingest_archive_def op_bind_def op_lift_def op_return_def Let_def split: sum.splits)

lemma ingest_archive_ok:
  assumes node: "node_ok C J core" and uniq: "ids_unique (universe J core events)"
    and valid: "\<forall>e \<in> set events. validate_event C e = Inr ()"
    and closed: "\<forall>e \<in> set events. set (parents (content e)) \<subseteq> node_known core \<union> event_id ` set events"
    and wf: "wf (parent_relation (set events))"
    and run: "ingest_archive C J events core = (res, core')"
  shows "node_ok C J core' \<and> node_known core \<subseteq> node_known core' \<and>
    node_known core' \<subseteq> node_known core \<union> event_id ` set events \<and>
    (case res of Inl err \<Rightarrow> (\<exists>e. err = CliNode e)
     | Inr (inserted, already) \<Rightarrow> node_known core' = node_known core \<union> event_id ` set events)"
proof -
  let ?known = "node_known core"
  let ?pending = "pending_of ?known events"
  have uniqe: "ids_unique (set events)" by (rule ids_unique_subset [OF uniq]) (simp add: universe_def)
  obtain order where order: "archive_order ?pending ?known = Inr order" "distinct order"
      "set order = event_id ` set events - ?known"
    and get: "\<forall>i \<in> set order. \<exists>e. bt_get ?pending i = Some e \<and> event_id e = i"
    and par: "\<forall>k e q. k < length order \<longrightarrow> bt_get ?pending (order ! k) = Some e \<longrightarrow>
      q \<in> set (parents (content e)) \<longrightarrow> q \<in> ?known \<or> q \<in> set (take k order)"
    using archive_order_pending [OF uniqe valid closed wf] .
  obtain r core1 where b: "ingest_batches C J ?pending (chunks MAX_PENDING_EVENTS order) 0 core = (r, core1)" by fastforce
  have "node_ok C J core1 \<and> ?known \<subseteq> node_known core1 \<and> node_known core1 \<subseteq> ?known \<union> set order \<and>
      (case r of Inl err \<Rightarrow> (\<exists>e. err = CliNode e) | Inr m \<Rightarrow> node_known core1 = ?known \<union> set order)"
  proof (rule ingest_batches_ok [where ?pending0.0 = ?pending, OF _ order_refl node uniq _ order(2) _ _ b])
    show "0 < MAX_PENDING_EVENTS" by (simp add: MAX_PENDING_EVENTS_def)
    show "set (bt_values ?pending) \<union> ran (store_abs J (node_store core)) \<subseteq> universe J core events"
      using pending_of_values [OF uniqe] by (auto simp: universe_def)
  qed (use get par in blast)+
  moreover have "?known \<union> set order = ?known \<union> event_id ` set events" using order(3) by auto
  ultimately show ?thesis using run ingest_archive_eq [OF order(1) b] by (cases r) auto
qed

section \<open>Imports succeed when the storage does\<close>

text \<open>Inserts do not fail and every event can be encoded.\<close>

definition storage_ready :: "signed_event codec \<Rightarrow> event_store \<Rightarrow> signed_event set \<Rightarrow> bool" where
  "storage_ready J s E \<longleftrightarrow> (\<forall>i. \<not> sql_fails s (SqlInsert i)) \<and> (\<forall>e \<in> E. \<exists>bs. to_vec J e = Some bs)"

lemma store_insert_ready:
  assumes "storage_ready J s E" and "e \<in> E" and "validate_event C e = Inr ()"
  shows "\<exists>out s'. store_insert C J s e = Inr (out, s') \<and> storage_ready J s' E"
proof -
  obtain bs where bs: "to_vec J e = Some bs" using assms(1,2) by (auto simp: storage_ready_def)
  have "\<not> sql_fails s (SqlInsert (event_id e))" using assms(1) by (simp add: storage_ready_def)
  then show ?thesis
    using bs assms(1,3) by (cases "bt_contains_key (events_table s) (event_id e)")
      (simp_all add: store_insert_def storage_ready_def)
qed

definition ingest_ready_inv :: "signed_event codec \<Rightarrow> signed_event set \<Rightarrow> ingest_state \<Rightarrow> bool" where
  "ingest_ready_inv J E st \<longleftrightarrow>
     storage_ready J (node_store (ing_node st)) E \<and> (\<forall>i e. bt_get (ing_pending st) i = Some e \<longrightarrow> e \<in> E)"

lemma ingest_one_ready:
  assumes "ingest_ready_inv J E st" and "\<forall>e \<in> E. validate_event C e = Inr ()"
    and "bt_get (ing_pending st) i = Some e"
  shows "\<exists>st'. ingest_one C J c st i = Inr st' \<and> ingest_ready_inv J E st'"
proof -
  have "e \<in> E" using assms(1,3) by (auto simp: ingest_ready_inv_def)
  then obtain out s' where ins: "store_insert C J (node_store (ing_node st)) e = Inr (out, s')" "storage_ready J s' E"
    using store_insert_ready [of J "node_store (ing_node st)" E e C] assms(1,2) by (auto simp: ingest_ready_inv_def)
  then show ?thesis
    using assms(1,3) by (simp add: ingest_one_def ingest_ready_inv_def bt_get_remove Let_def)
qed

lemma ingest_loop_ready:
  assumes "ingest_ready_inv J E st" and "\<forall>e \<in> E. validate_event C e = Inr ()" and "bt_ok (ing_pending st)"
  shows "\<exists>st'. ingest_loop C J c st = Inr st' \<and> ingest_ready_inv J E st'"
  using assms
proof (induction C J c st rule: ingest_loop.induct)
  case (1 C J c st)
  let ?ready = "ingest_ready st"
  have step: "ingest_ready_inv J E t'"
    if "ingest_ready_inv J E t" "bt_get (ing_pending t) i = Some e" "ingest_one C J c t i = Inr t'" for t i e t'
    using ingest_one_ready [OF that(1) "1.prems"(2) that(2), of c] that(3) by auto
  have keep: "ingest_ready_inv J E st1 \<and> bt_ok (ing_pending st1)"
    if "try_fold (ingest_one C J c) ids st = Inr st1" "set ids \<subseteq> set ?ready" for ids st1
    by (rule ingest_fold_rule [where I = "ingest_ready_inv J E", OF _ "1.prems"(1,3) that(2,1)]) (rule step)
  show ?case
  proof (cases "?ready = []")
    case True
    then show ?thesis using "1.prems"(1) by (simp add: ingest_loop.simps [of C J c st])
  next
    case False
    have "\<exists>st1. try_fold (ingest_one C J c) ?ready st = Inr st1"
    proof (rule ccontr)
      assume "\<not> ?thesis"
      then obtain p where p: "try_fold (ingest_one C J c) ?ready st = Inl p" by (cases "try_fold (ingest_one C J c) ?ready st") auto
      obtain ys i zs st1 where r: "?ready = ys @ i # zs" "try_fold (ingest_one C J c) ys st = Inr st1"
        "ingest_one C J c st1 i = Inl p"
        using try_fold_error [OF p] by blast
      obtain e where "bt_get (ing_pending st1) i = Some e" using ingest_ready_pending [OF "1.prems"(3) r(1,2)] by blast
      then show False
        using ingest_one_ready [OF _ "1.prems"(2), of J st1 i e c] keep [OF r(2)] r(1,3) by auto
    qed
    then obtain st1 where st1: "try_fold (ingest_one C J c) ?ready st = Inr st1" by blast
    show ?thesis
      using "1.IH" [OF refl False st1 _ "1.prems"(2)] keep [OF st1] False st1 by (simp add: ingest_loop.simps [of C J c st])
  qed
qed

lemma ingest_succeeds:
  assumes "ingest_check C core batch = Inr c" and "storage_ready J (node_store core) E" and "set batch \<subseteq> E"
    and "\<forall>e \<in> E. validate_event C e = Inr ()"
  shows "\<exists>r core'. ingest C J core batch = (Inr r, core') \<and> storage_ready J (node_store core') E"
proof -
  let ?st = "\<lparr>ing_node = core, ing_pending = bt_of_list (map (\<lambda>e. (event_id e, e)) batch),
           ing_inserted = 0, ing_already_present = 0\<rparr>"
  have "ingest_ready_inv J E ?st"
    using assms(2,3) batch_map_Some [of batch] by (auto simp: ingest_ready_inv_def batch_map_def)
  then obtain st' where "ingest_loop C J c ?st = Inr st'" "ingest_ready_inv J E st'"
    using ingest_loop_ready [OF _ assms(4), of J ?st c] by auto
  then show ?thesis using assms(1) by (simp add: ingest_def ingest_ready_inv_def)
qed

text \<open>
  A batch of a community's events is taken when the node is in the community, or when it is empty and
  the batch brings the genesis.
\<close>

definition joins :: "community_id \<Rightarrow> core_node \<Rightarrow> signed_event list \<Rightarrow> bool" where
  "joins c core batch \<longleftrightarrow>
     node_community core = Some c \<or>
     node_community core = None \<and> (\<exists>g \<in> set batch. community_id (content g) = None)"

lemma ingest_joined:
  assumes node: "node_ok C J core" and uniq: "ids_unique (universe J core batch)"
    and check: "ingest_check C core batch = Inr c" and join: "joins c core batch"
    and ing: "ingest C J core batch = (Inr r, core')"
  shows "node_community core' = Some c"
proof (cases "node_community core")
  case (Some d)
  then show ?thesis using ingest_frame [OF node uniq check ing] join by (simp add: joins_def)
next
  case None
  then obtain g where g: "g \<in> set batch" "community_id (content g) = None" using join by (auto simp: joins_def)
  have "parents (content g) = []"
    using valid_event_genesis_iff [of C g] ingest_check_Inr(2) [OF check] g by blast
  moreover have "batch_map batch (event_id g) = Some g"
    by (rule batch_map_unique [OF ids_unique_subset [OF uniq] g(1)]) (simp add: universe_def)
  ultimately have "event_id g \<in> ingest_closure (node_known core) (batch_map batch)" by (auto intro: closure_ready)
  then have "event_id g \<in> node_known core'" using ingest_computes_closure(1) [OF node uniq ing] by simp
  moreover have "node_ok C J core'" using ingest_preserves [OF node uniq ing] by blast
  ultimately obtain d where "node_community core' = Some d" unfolding node_ok_def by blast
  then show ?thesis using ingest_frame [OF node uniq check ing] by auto
qed

text \<open>No batch of an import fails at the node.\<close>

lemma take_batch_values:
  "set (fst (take_batch pending ids)) \<subseteq> set (bt_values pending) \<and>
   set (bt_values (snd (take_batch pending ids))) \<subseteq> set (bt_values pending)"
proof (induction ids arbitrary: pending)
  case (Cons i ids)
  have "set (bt_values (bt_remove i pending)) \<subseteq> set (bt_values pending)"
    by (auto simp: bt_values_def bt_remove_def)
  moreover have "e \<in> set (bt_values pending)" if "bt_get pending i = Some e" for e
    using that by (auto simp: bt_get_def bt_values_def dest: map_of_SomeD intro: rev_image_eqI)
  ultimately show ?case using Cons [of pending] Cons [of "bt_remove i pending"]
    by (auto simp: split_beta split: option.splits)
qed simp

lemma take_batch_length: "length (fst (take_batch pending ids)) \<le> length ids"
  by (induction ids arbitrary: pending) (auto simp: split_beta split: option.split intro: le_SucI)

lemma ingest_batches_succeed:
  assumes valid: "\<forall>e \<in> E. validate_event C e = Inr ()" and com: "\<forall>e \<in> E. in_community c e"
    and U: "ids_unique U" "E \<subseteq> U"
    and "node_ok C J core" and "ran (store_abs J (node_store core)) \<subseteq> U" and "storage_ready J (node_store core) E"
    and "set (bt_values pending) \<subseteq> E" and "\<forall>ids \<in> set idss. length ids \<le> MAX_PENDING_EVENTS"
    and "idss \<noteq> [] \<longrightarrow> joins c core (fst (take_batch pending (hd idss)))"
    and "ingest_batches C J pending idss n core = (res, core')"
  shows "res \<noteq> Inl (CliNode err)"
  using assms(5-)
proof (induction idss arbitrary: pending n core)
  case Nil
  then show ?case by (auto simp: op_return_def)
next
  case (Cons ids idss)
  let ?batch = "fst (take_batch pending ids)" and ?pending = "snd (take_batch pending ids)"
  have sub: "set ?batch \<subseteq> E" "set (bt_values ?pending) \<subseteq> E"
    using take_batch_values [of pending ids] Cons.prems(4) by auto
  have check: "ingest_check C core ?batch = Inr c"
    using valid com sub(1) Cons.prems(5,6) take_batch_length [of pending ids]
    by (intro ingest_check_total) (auto simp: joins_def)
  obtain r core1 where ing: "ingest C J core ?batch = (Inr r, core1)" and ready: "storage_ready J (node_store core1) E"
    using ingest_succeeds [OF check Cons.prems(3) sub(1) valid] by blast
  have inU: "universe J core ?batch \<subseteq> U" using Cons.prems(2) sub(1) U(2) by (auto simp: universe_def)
  have uniq: "ids_unique (universe J core ?batch)" by (rule ids_unique_subset [OF U(1) inU])
  have ok: "node_ok C J core1" using ingest_preserves [OF Cons.prems(1) uniq ing] by blast
  have ran: "ran (store_abs J (node_store core1)) \<subseteq> U"
    using ingest_frame [OF Cons.prems(1) uniq check ing] inU by blast
  have "node_community core1 = Some c"
    using ingest_joined [OF Cons.prems(1) uniq check _ ing] Cons.prems(6) by simp
  then have join: "idss \<noteq> [] \<longrightarrow> joins c core1 (fst (take_batch ?pending (hd idss)))" by (simp add: joins_def)
  show ?case
  proof (cases "report_unresolved r = []")
    case True
    then have "ingest_batches C J ?pending idss (n + report_inserted r) core1 = (res, core')"
      using Cons.prems(7) ing by (simp add: split_beta op_bind_def ingest_batch_def)
    then show ?thesis using Cons.IH [OF ok ran ready sub(2) _ join] Cons.prems(5) by simp
  next
    case False
    then show ?thesis using Cons.prems(7) ing by (auto simp: split_beta op_bind_def ingest_batch_def)
  qed
qed

lemma ingest_archive_succeeds:
  assumes node: "node_ok C J core" and uniq: "ids_unique (universe J core events)"
    and valid: "\<forall>e \<in> set events. validate_event C e = Inr ()"
    and closed: "\<forall>e \<in> set events. set (parents (content e)) \<subseteq> node_known core \<union> event_id ` set events"
    and wf: "wf (parent_relation (set events))"
    and com: "\<forall>e \<in> set events. in_community c e" "node_community core \<in> {None, Some c}"
    and ready: "storage_ready J (node_store core) (set events)"
  shows "\<exists>inserted already core'. ingest_archive C J events core = (Inr (inserted, already), core')"
proof -
  let ?known = "node_known core"
  let ?pending = "pending_of ?known events"
  have uniqe: "ids_unique (set events)" by (rule ids_unique_subset [OF uniq]) (simp add: universe_def)
  obtain order where order: "archive_order ?pending ?known = Inr order" "distinct order"
      "set order = event_id ` set events - ?known"
    and get: "\<forall>i \<in> set order. \<exists>e. bt_get ?pending i = Some e \<and> event_id e = i"
    and par: "\<forall>k e q. k < length order \<longrightarrow> bt_get ?pending (order ! k) = Some e \<longrightarrow>
      q \<in> set (parents (content e)) \<longrightarrow> q \<in> ?known \<or> q \<in> set (take k order)"
    using archive_order_pending [OF uniqe valid closed wf] .
  have first: "joins c core (fst (take_batch ?pending (take MAX_PENDING_EVENTS order)))" if ne: "order \<noteq> []"
  proof (cases "node_community core")
    case None
    have empty: "?known = {}" using node None unfolding node_ok_def by auto
    obtain e where e: "bt_get ?pending (order ! 0) = Some e" using get nth_mem [of 0 order] ne by blast
    have "parents (content e) = []" using par [rule_format, OF _ e] ne empty by (cases "parents (content e)") auto
    moreover have "e \<in> set events" using pending_of_get [OF uniqe] e by blast
    ultimately have gen: "community_id (content e) = None" using valid_event_genesis_iff [of C e] valid by blast
    have hd: "order ! 0 \<in> set (take MAX_PENDING_EVENTS order)"
      using ne by (cases order) (simp_all add: MAX_PENDING_EVENTS_def)
    have "set (take MAX_PENDING_EVENTS order) \<subseteq> set (bt_keys ?pending)"
      using get set_take_subset [of MAX_PENDING_EVENTS order] by (fastforce simp: bt_keys_iff_get)
    then have "fst (take_batch ?pending (take MAX_PENDING_EVENTS order)) =
        map (\<lambda>i. the (bt_get ?pending i)) (take MAX_PENDING_EVENTS order)"
      using order(2) by (intro take_batch_ok(1)) simp_all
    then have "e \<in> set (fst (take_batch ?pending (take MAX_PENDING_EVENTS order)))"
      using e hd by (auto intro!: rev_image_eqI [OF hd])
    then show ?thesis using gen None by (auto simp: joins_def)
  qed (use com(2) in \<open>auto simp: joins_def\<close>)
  obtain r core1 where b: "ingest_batches C J ?pending (chunks MAX_PENDING_EVENTS order) 0 core = (r, core1)" by fastforce
  have "r \<noteq> Inl (CliNode err)" for err
  proof (rule ingest_batches_succeed [OF valid com(1) uniq _ node _ ready _ _ _ b])
    show "set (bt_values ?pending) \<subseteq> set events" using pending_of_values [OF uniqe] by auto
    show "\<forall>ids \<in> set (chunks MAX_PENDING_EVENTS order). length ids \<le> MAX_PENDING_EVENTS" using chunks_length by blast
    show "chunks MAX_PENDING_EVENTS order \<noteq> [] \<longrightarrow>
        joins c core (fst (take_batch ?pending (hd (chunks MAX_PENDING_EVENTS order))))"
      using first by (cases "order = []") (simp_all add: chunks_step MAX_PENDING_EVENTS_def)
  qed (simp_all add: universe_def)
  moreover have "\<exists>e. err = CliNode e" if "r = Inl err" for err
    using ingest_archive_ok [OF node uniq valid closed wf ingest_archive_eq [OF order(1) b]] that by simp
  ultimately show ?thesis using ingest_archive_eq [OF order(1) b] by (cases r) auto
qed

end
