(* ===== verification/Commands.thy ===== *)
theory Commands
  imports Import
begin

text \<open>
  \<open>crates/cli/src/main.rs\<close>: the commands that work on the local database.

  The world of a command is the record \<open>cli_world\<close>: the file system, the database behind each path,
  which SQL statements fail, what has been printed so far and whether flushing them fails.
  \<open>w_changes\<close> is a history that nothing reads: every change of a database, with the locks held at that
  moment.  A command is an
  operation on the world; random values and the clock are its arguments.  The lock of the state
  directory is released when a command returns (\<open>with_lock\<close>).  SQLite makes every insert durable, so
  \<open>on_node\<close> writes the table back also when an operation of the node fails.
\<close>

section \<open>The world\<close>

text \<open>An entry of the history, which is no part of the program: \<open>save_table\<close> adds it.\<close>

record database_change =
  change_path :: string
  change_from :: "(event_id, event_row) btree option"
  change_to :: "(event_id, event_row) btree"
  change_locks :: "string set"

record cli_world =
  w_fs :: filesystem
  w_databases :: "string \<Rightarrow> (event_id, event_row) btree option"
  w_sql :: "sql_statement \<Rightarrow> bool"
  w_output :: "string list"
  w_flush :: "io_error option"
  w_changes :: "database_change list"

type_synonym 'a cli_op = "(cli_error, cli_world, 'a) op"

abbreviation cp_crypto :: "'k cli_params \<Rightarrow> crypto" where
  "cp_crypto X \<equiv> np_crypto (cp_network X)"

abbreviation cp_events :: "'k cli_params \<Rightarrow> signed_event codec" where
  "cp_events X \<equiv> np_event_json (cp_network X)"

abbreviation cp_libp2p :: "'k cli_params \<Rightarrow> 'k libp2p" where
  "cp_libp2p X \<equiv> np_libp2p (cp_network X)"

definition print_text :: "string \<Rightarrow> unit cli_op" where
  "print_text text = op_modify (\<lambda>w. w\<lparr>w_output := w_output w @ [text]\<rparr>)"

definition println :: "string \<Rightarrow> unit cli_op" where
  "println line = print_text (line @ [CHR 0x0A])"

definition flush :: "unit cli_op" where
  "flush w = (case w_flush w of None \<Rightarrow> Inr () | Some err \<Rightarrow> Inl (CliOutput err), w)"

definition on_fs :: "(state_error, filesystem, 'a) op \<Rightarrow> 'a cli_op" where
  "on_fs m w = (let (r, fs) = m (w_fs w) in (map_err CliState r, w\<lparr>w_fs := fs\<rparr>))"

definition on_output_fs :: "(io_error, filesystem, 'a) op \<Rightarrow> 'a cli_op" where
  "on_output_fs m w = (let (r, fs) = m (w_fs w) in (map_err CliOutput r, w\<lparr>w_fs := fs\<rparr>))"

definition release_lock :: "'k node_state \<Rightarrow> filesystem \<Rightarrow> filesystem" where
  "release_lock st fs = fs\<lparr>fs_locks := fs_locks fs - {join_path (state_directory st) LOCK_FILE}\<rparr>"

text \<open>\<open>let _lock = state.acquire_lock()?;\<close> before the rest of a command.\<close>

definition with_lock :: "'k node_state \<Rightarrow> 'a cli_op \<Rightarrow> 'a cli_op" where
  "with_lock st rest =
     op_bind (on_fs (acquire_lock st)) (\<lambda>_ w.
     let (r, w') = rest w in (r, w'\<lparr>w_fs := release_lock st (w_fs w')\<rparr>))"

definition load_state :: "'k cli_params \<Rightarrow> options \<Rightarrow> 'k node_state cli_op" where
  "load_state X opts =
     op_bind (op_lift (require_one opts ''--state'')) (\<lambda>directory w.
     (map_err CliState (state_load (cp_libp2p X) (cp_persisted X) directory (w_fs w)), w))"

text \<open>What the SQL statements of an operation leave in the database, committed when it ends.\<close>

definition save_table :: "'k node_state \<Rightarrow> event_store \<Rightarrow> cli_world \<Rightarrow> cli_world" where
  "save_table st s w =
     (let path = database_path st; old = w_databases w path in
      if old = Some (events_table s) then w
      else w\<lparr>w_databases := (w_databases w)(path := Some (events_table s)),
              w_changes := w_changes w @
                [\<lparr>change_path = path, change_from = old, change_to = events_table s,
                  change_locks = fs_locks (w_fs w)\<rparr>]\<rparr>)"

lemma save_table_simps [simp]:
  "w_databases (save_table st s w) = (w_databases w)(database_path st := Some (events_table s))"
  "w_fs (save_table st s w) = w_fs w" "w_sql (save_table st s w) = w_sql w"
  "w_output (save_table st s w) = w_output w" "w_flush (save_table st s w) = w_flush w"
  by (auto simp: save_table_def Let_def)

lemma save_table_same: "w_databases w (database_path st) = Some (events_table s) \<Longrightarrow> save_table st s w = w"
  by (simp add: save_table_def)

text \<open>\<open>EventStore::open(state.database_path())\<close> creates a missing database.\<close>

definition open_store :: "'k node_state \<Rightarrow> event_store cli_op" where
  "open_store st w =
     (case store_open (w_sql w) (w_databases w (database_path st)) of
        Inl err \<Rightarrow> (Inl (CliStorage err), w)
      | Inr s \<Rightarrow> (Inr s, save_table st s w))"

definition on_node ::
  "'k node_state \<Rightarrow> core_node \<Rightarrow> (cli_error, core_node, 'a) op \<Rightarrow> ('a \<times> core_node) cli_op" where
  "on_node st core m w =
     (let (r, core') = m core; w' = save_table st (node_store core') w
      in (case r of Inl err \<Rightarrow> Inl err | Inr x \<Rightarrow> Inr (x, core'), w'))"

definition node_ingest ::
  "'k cli_params \<Rightarrow> signed_event list \<Rightarrow> (cli_error, core_node, ingest_report) op" where
  "node_ingest X events core =
     (let (r, core') = ingest (cp_crypto X) (cp_events X) core events in (map_err CliNode r, core'))"

section \<open>Text\<close>

text \<open>The encodings of the characters that \<open>str::trim\<close> removes.\<close>

definition whitespace :: "string list" where
  "whitespace =
     [[CHR 0x09], [CHR 0x0A], [CHR 0x0B], [CHR 0x0C], [CHR 0x0D], [CHR 0x20],
      [CHR 0xC2, CHR 0x85], [CHR 0xC2, CHR 0xA0], [CHR 0xE1, CHR 0x9A, CHR 0x80],
      [CHR 0xE2, CHR 0x80, CHR 0x80], [CHR 0xE2, CHR 0x80, CHR 0x81], [CHR 0xE2, CHR 0x80, CHR 0x82],
      [CHR 0xE2, CHR 0x80, CHR 0x83], [CHR 0xE2, CHR 0x80, CHR 0x84], [CHR 0xE2, CHR 0x80, CHR 0x85],
      [CHR 0xE2, CHR 0x80, CHR 0x86], [CHR 0xE2, CHR 0x80, CHR 0x87], [CHR 0xE2, CHR 0x80, CHR 0x88],
      [CHR 0xE2, CHR 0x80, CHR 0x89], [CHR 0xE2, CHR 0x80, CHR 0x8A], [CHR 0xE2, CHR 0x80, CHR 0xA8],
      [CHR 0xE2, CHR 0x80, CHR 0xA9], [CHR 0xE2, CHR 0x80, CHR 0xAF], [CHR 0xE2, CHR 0x81, CHR 0x9F],
      [CHR 0xE3, CHR 0x80, CHR 0x80]]"

function strip_any :: "string list \<Rightarrow> string \<Rightarrow> string" where
  "strip_any ws s =
     (case find (\<lambda>w. w \<noteq> [] \<and> take (length w) s = w) ws of
        None \<Rightarrow> s
      | Some w \<Rightarrow> strip_any ws (drop (length w) s))"
  by pat_completeness auto
termination
proof (relation "measure (\<lambda>(ws, s). length s)")
  fix ws :: "string list" and s w
  assume "find (\<lambda>w. w \<noteq> [] \<and> take (length w) s = w) ws = Some w"
  then have "w \<noteq> []" "take (length w) s = w" by (auto simp: find_Some_iff)
  then have "0 < length w" "s \<noteq> []" by auto
  then show "((ws, drop (length w) s), (ws, s)) \<in> measure (\<lambda>(ws, s). length s)" by simp
qed simp

declare strip_any.simps [simp del]

definition trim :: "string \<Rightarrow> string" where
  "trim s = rev (strip_any (map rev whitespace) (rev (strip_any whitespace s)))"

fun show_nat :: "nat \<Rightarrow> string" where
  "show_nat n =
     (if n < 10 then [char_of (48 + n)] else show_nat (n div 10) @ [char_of (48 + n mod 10)])"

declare show_nat.simps [simp del]

section \<open>Identity commands\<close>

text \<open>A signed number is printed with its sign.\<close>

definition show_i64 :: "i64 \<Rightarrow> string" where
  "show_i64 x = (if sint x < 0 then ''-'' @ show_nat (nat (- sint x)) else show_nat (nat (sint x)))"

definition print_identity :: "'k cli_params \<Rightarrow> 'k node_state \<Rightarrow> unit cli_op" where
  "print_identity X st =
     op_bind (println (''USER_ID='' @ cp_hex_encode X (user_bytes (identity_user_id (cp_crypto X) (state_user st))))) (\<lambda>_.
     op_bind (println (''PEER_ID='' @ peer_to_string (cp_bootstrap X) (device_peer (cp_libp2p X) (state_device st)))) (\<lambda>_.
     op_bind (println (''DEVICE_PUBLIC_KEY='' @ cp_hex_encode X (arr32_bytes (device_key (state_device st))))) (\<lambda>_.
     op_bind (println (''STATE_CREATED_AT_MS='' @ show_i64 (state_created_at st))) (\<lambda>_.
     flush))))"

definition command_init :: "'k cli_params \<Rightarrow> arr32 \<Rightarrow> arr32 \<Rightarrow> int \<Rightarrow> options \<Rightarrow> unit cli_op" where
  "command_init X user_seed device_seed clock opts =
     op_bind (op_lift (allow_only opts [''--state''])) (\<lambda>_.
     op_bind (op_lift (require_one opts ''--state'')) (\<lambda>directory.
     op_bind (on_fs (state_initialize (cp_libp2p X) (cp_persisted X) directory user_seed device_seed clock)) (\<lambda>st.
     print_identity X st)))"

definition command_info :: "'k cli_params \<Rightarrow> options \<Rightarrow> unit cli_op" where
  "command_info X opts =
     op_bind (op_lift (allow_only opts [''--state''])) (\<lambda>_.
     op_bind (load_state X opts) (\<lambda>st.
     print_identity X st))"

section \<open>Communities, channels and messages\<close>

definition command_create_community :: "'k cli_params \<Rightarrow> int \<Rightarrow> options \<Rightarrow> unit cli_op" where
  "command_create_community X clock opts =
     op_bind (op_lift (allow_only opts [''--state'', ''--name''])) (\<lambda>_.
     op_bind (load_state X opts) (\<lambda>st.
     with_lock st (
     op_bind (open_store st) (\<lambda>s.
     op_bind (op_lift (map_err CliStorage (store_is_empty s))) (\<lambda>empty.
     if \<not> empty then op_fail DatabaseNotEmpty
     else
       op_bind (op_lift (require_one opts ''--name'')) (\<lambda>name.
       op_bind (op_lift (cli_now_ms clock)) (\<lambda>now.
       op_bind (op_lift (map_err CliChat (create_chat_genesis (cp_crypto X) (cp_payloads X) (state_user st) name now))) (\<lambda>genesis.
       op_bind (op_lift (map_err CliProtocol (community_id_of (cp_crypto X) genesis))) (\<lambda>community.
       op_bind (op_lift (map_err CliNode (node_open (cp_crypto X) (cp_events X) s None))) (\<lambda>core.
       op_bind (on_node st core (node_ingest X [genesis])) (\<lambda>_.
       println (''COMMUNITY_ID='' @ cp_hex_encode X (community_bytes community)))))))))))))"

definition open_community :: "'k cli_params \<Rightarrow> 'k node_state \<Rightarrow> community_id \<Rightarrow> core_node cli_op" where
  "open_community X st community =
     op_bind (open_store st) (\<lambda>s.
     op_bind (op_lift (map_err CliStorage (store_events (cp_crypto X) (cp_events X) s community))) (\<lambda>events.
     if events = [] then op_fail WrongDatabaseCommunity
     else op_lift (map_err CliNode (node_open (cp_crypto X) (cp_events X) s (Some community)))))"

definition require_candidate_accepted :: "'k cli_params \<Rightarrow> core_node \<Rightarrow> signed_event \<Rightarrow> cli_error + unit" where
  "require_candidate_accepted X core candidate =
     res_bind (map_err CliNode (all_events (cp_crypto X) (cp_events X) core)) (\<lambda>candidates.
     res_bind (map_err CliChat (resolve (cp_crypto X) (cp_payloads X) (candidates @ [candidate]))) (\<lambda>R.
     ensure (event_id candidate \<in> snap_event_ids (snapshot R)) ProfileRejected))"

text \<open>\<open>create_chat_event(state.user(), community, core.heads()?, now_ms()?, payload)?\<close>\<close>

definition local_event ::
  "'k cli_params \<Rightarrow> 'k node_state \<Rightarrow> community_id \<Rightarrow> core_node \<Rightarrow> int \<Rightarrow> chat_payload \<Rightarrow> cli_error + signed_event" where
  "local_event X st community core clock pl =
     res_bind (map_err CliNode (heads (cp_crypto X) (cp_events X) core)) (\<lambda>hs.
     res_bind (cli_now_ms clock) (\<lambda>now.
     map_err CliChat (create_chat_event (cp_crypto X) (cp_payloads X) (state_user st) community hs now pl)))"

definition command_create_channel :: "'k cli_params \<Rightarrow> arr32 \<Rightarrow> int \<Rightarrow> options \<Rightarrow> unit cli_op" where
  "command_create_channel X channel clock opts =
     op_bind (op_lift (allow_only opts [''--state'', ''--community'', ''--name''])) (\<lambda>_.
     op_bind (op_lift (require_one opts ''--name'')) (\<lambda>raw.
     let name = trim raw in
     if name = [] \<or> length name > MAX_CHANNEL_NAME_BYTES
     then op_fail (CliArguments ''channel name must contain 1 to 80 UTF-8 bytes'')
     else
       op_bind (load_state X opts) (\<lambda>st.
       with_lock st (
       op_bind (op_lift (res_bind (require_one opts ''--community'') (parse_community X))) (\<lambda>community.
       op_bind (open_community X st community) (\<lambda>core.
       op_bind (op_lift (local_event X st community core clock (ChannelCreate channel name))) (\<lambda>event.
       op_bind (op_lift (require_candidate_accepted X core event)) (\<lambda>_.
       op_bind (on_node st core (node_ingest X [event])) (\<lambda>_.
       op_bind (println (''CHANNEL_ID='' @ cp_hex_encode X (arr32_bytes channel))) (\<lambda>_.
       op_bind (println (''CHANNEL_EVENT_ID='' @ cp_hex_encode X (event_bytes (event_id event)))) (\<lambda>_.
       flush)))))))))))"

definition command_send_message :: "'k cli_params \<Rightarrow> int \<Rightarrow> options \<Rightarrow> unit cli_op" where
  "command_send_message X clock opts =
     op_bind (op_lift (allow_only opts [''--state'', ''--community'', ''--channel'', ''--text''])) (\<lambda>_.
     op_bind (op_lift (require_one opts ''--text'')) (\<lambda>raw.
     let text = trim raw in
     if text = [] \<or> length text > MAX_MESSAGE_BYTES
     then op_fail (CliArguments ''message must contain 1 to 4000 UTF-8 bytes'')
     else
       op_bind (load_state X opts) (\<lambda>st.
       with_lock st (
       op_bind (op_lift (res_bind (require_one opts ''--community'') (parse_community X))) (\<lambda>community.
       op_bind (op_lift (res_bind (require_one opts ''--channel'') (parse_hex_32 X))) (\<lambda>channel.
       op_bind (open_community X st community) (\<lambda>core.
       op_bind (op_lift (local_event X st community core clock (MessageCreate channel text))) (\<lambda>event.
       op_bind (op_lift (require_candidate_accepted X core event)) (\<lambda>_.
       op_bind (on_node st core (node_ingest X [event])) (\<lambda>_.
       op_bind (println (''MESSAGE_EVENT_ID='' @ cp_hex_encode X (event_bytes (event_id event)))) (\<lambda>_.
       flush)))))))))))"

definition channel_views :: "'k cli_params \<Rightarrow> event_id set \<Rightarrow> signed_event list \<Rightarrow> channel_view list" where
  "channel_views X accepted events =
     List.map_filter (\<lambda>e.
       case decode (cp_payloads X) e of
         Inr (ChannelCreate channel name) \<Rightarrow>
           Some \<lparr>cv_channel_id = cp_hex_encode X (arr32_bytes channel), cv_name = name\<rparr>
       | _ \<Rightarrow> None)
       (filter (\<lambda>e. event_id e \<in> accepted) events)"

definition command_list_channels :: "'k cli_params \<Rightarrow> options \<Rightarrow> unit cli_op" where
  "command_list_channels X opts =
     op_bind (op_lift (allow_only opts [''--state'', ''--community''])) (\<lambda>_.
     op_bind (load_state X opts) (\<lambda>st.
     op_bind (op_lift (res_bind (require_one opts ''--community'') (parse_community X))) (\<lambda>community.
     op_bind (open_community X st community) (\<lambda>core.
     op_bind (op_lift (map_err CliNode (all_events (cp_crypto X) (cp_events X) core))) (\<lambda>events.
     op_bind (op_lift (map_err CliChat (resolve (cp_crypto X) (cp_payloads X) events))) (\<lambda>R.
     op_bind (op_lift (ok_or (cp_channels_json X (channel_views X (snap_event_ids (snapshot R)) events)) CliJson)) (\<lambda>json.
     op_bind (println json) (\<lambda>_.
     flush))))))))"

text \<open>One round of the loop over \<open>accepted_in_order\<close>.\<close>

definition message_view_of ::
  "'k cli_params \<Rightarrow> (event_id, signed_event) btree \<Rightarrow> arr32 option \<Rightarrow> message_view list \<Rightarrow> event_id \<Rightarrow>
     cli_error + message_view list" where
  "message_view_of X by_id selected messages i =
     res_bind (ok_or (bt_get by_id i) ProfileRejected) (\<lambda>event.
     res_bind (map_err CliChat (decode (cp_payloads X) event)) (\<lambda>pl.
     case pl of
       MessageCreate channel text \<Rightarrow>
         if selected \<noteq> None \<and> selected \<noteq> Some channel then Inr messages
         else
           res_bind (map_err CliProtocol (author_id (cp_crypto X) event)) (\<lambda>author.
           Inr (messages @
             [\<lparr>mv_event_id = cp_hex_encode X (event_bytes (event_id event)),
               mv_channel_id = cp_hex_encode X (arr32_bytes channel),
               mv_author_id = cp_hex_encode X (user_bytes author),
               mv_timestamp_ms = timestamp_ms (content event), mv_text = text\<rparr>]))
     | _ \<Rightarrow> Inr messages))"

definition message_views ::
  "'k cli_params \<Rightarrow> arr32 option \<Rightarrow> signed_event list \<Rightarrow> event_id list \<Rightarrow> cli_error + message_view list" where
  "message_views X selected events order =
     try_fold (message_view_of X (bt_of_list (map (\<lambda>e. (event_id e, e)) events)) selected) order []"

text \<open>\<open>.map(f).transpose()\<close> on an optional value.\<close>

definition transposed :: "('a \<Rightarrow> 'e + 'b) \<Rightarrow> 'a option \<Rightarrow> 'e + 'b option" where
  "transposed f v = (case v of None \<Rightarrow> Inr None | Some x \<Rightarrow> res_bind (f x) (\<lambda>y. Inr (Some y)))"

definition command_list_messages :: "'k cli_params \<Rightarrow> options \<Rightarrow> unit cli_op" where
  "command_list_messages X opts =
     op_bind (op_lift (allow_only opts [''--state'', ''--community'', ''--channel''])) (\<lambda>_.
     op_bind (load_state X opts) (\<lambda>st.
     op_bind (op_lift (res_bind (require_one opts ''--community'') (parse_community X))) (\<lambda>community.
     op_bind (op_lift (res_bind (optional_one opts ''--channel'') (transposed (parse_hex_32 X)))) (\<lambda>selected.
     op_bind (open_community X st community) (\<lambda>core.
     op_bind (op_lift (map_err CliNode (all_events (cp_crypto X) (cp_events X) core))) (\<lambda>events.
     op_bind (op_lift (map_err CliChat (resolve (cp_crypto X) (cp_payloads X) events))) (\<lambda>R.
     op_bind (op_lift (message_views X selected events (accepted_in_order R))) (\<lambda>messages.
     op_bind (op_lift (ok_or (cp_messages_json X messages) CliJson)) (\<lambda>json.
     op_bind (println json) (\<lambda>_.
     flush))))))))))"

section \<open>Home servers and invitations\<close>

definition command_set_home_server :: "'k cli_params \<Rightarrow> int \<Rightarrow> options \<Rightarrow> unit cli_op" where
  "command_set_home_server X clock opts =
     op_bind (op_lift (allow_only opts [''--state'', ''--community'', ''--server-public-key'', ''--endpoint''])) (\<lambda>_.
     op_bind (load_state X opts) (\<lambda>st.
     with_lock st (
     op_bind (op_lift (res_bind (require_one opts ''--community'') (parse_community X))) (\<lambda>community.
     op_bind (op_lift (res_bind (require_one opts ''--server-public-key'') (parse_hex_32 X))) (\<lambda>server_key.
     op_bind (op_lift (ok_or (ed25519_key (cp_libp2p X) (arr32_bytes server_key)) InvalidHomeServerPublicKey)) (\<lambda>_.
     op_bind (open_community X st community) (\<lambda>core.
     op_bind (op_lift (local_event X st community core clock
       (HomeServerSet (arr32_bytes server_key) (many opts ''--endpoint'')))) (\<lambda>declaration.
     op_bind (op_lift (map_err CliNode (all_events (cp_crypto X) (cp_events X) core))) (\<lambda>candidates.
     op_bind (op_lift (map_err CliChat (resolve (cp_crypto X) (cp_payloads X) (candidates @ [declaration])))) (\<lambda>R.
     if \<not> (case snap_home_server (snapshot R) of
             None \<Rightarrow> False
           | Some binding \<Rightarrow>
               hs_declaration binding = event_id declaration \<and> hs_server_public_key binding = server_key)
     then op_fail ProfileRejected
     else
       op_bind (on_node st core (node_ingest X [declaration])) (\<lambda>_.
       op_bind (println (''HOME_SERVER_DECLARATION_ID='' @ cp_hex_encode X (event_bytes (event_id declaration)))) (\<lambda>_.
       op_bind (println (''HOME_SERVER_ID='' @
         cp_hex_encode X (arr32_bytes (home_server_word (home_server_from_public_key (cp_crypto X) server_key))))) (\<lambda>_.
       flush)))))))))))))"

definition invite_endpoint ::
  "'k cli_params \<Rightarrow> 'k node_state \<Rightarrow> options \<Rightarrow> signed_event list \<Rightarrow> cli_error + (peer_id \<times> multiaddr)" where
  "invite_endpoint X st opts existing =
     res_bind (optional_one opts ''--address'') (\<lambda>address.
     case address of
       Some a \<Rightarrow> res_bind (parse_multiaddr X a) (\<lambda>a'. Inr (device_peer (cp_libp2p X) (state_device st), a'))
     | None \<Rightarrow>
         res_bind (map_err CliChat (resolve (cp_crypto X) (cp_payloads X) existing)) (\<lambda>R.
         res_bind (ok_or (snap_home_server (snapshot R)) MissingHomeServer) (home_server_target X)))"

definition command_create_invite :: "'k cli_params \<Rightarrow> arr32 \<Rightarrow> int \<Rightarrow> options \<Rightarrow> unit cli_op" where
  "command_create_invite X capability_random clock opts =
     op_bind (op_lift (allow_only opts [''--state'', ''--community'', ''--address''])) (\<lambda>_.
     op_bind (load_state X opts) (\<lambda>st.
     with_lock st (
     op_bind (op_lift (res_bind (require_one opts ''--community'') (parse_community X))) (\<lambda>community.
     op_bind (open_store st) (\<lambda>s.
     op_bind (op_lift (map_err CliNode (node_open (cp_crypto X) (cp_events X) s (Some community)))) (\<lambda>core.
     op_bind (op_lift (map_err CliNode (all_events (cp_crypto X) (cp_events X) core))) (\<lambda>existing.
     op_bind (op_lift (invite_endpoint X st opts existing)) (\<lambda>(peer, address).
     let capability = InviteCapability capability_random in
     op_bind (op_lift (local_event X st community core clock (invitation_payload (cp_crypto X) capability))) (\<lambda>invn.
     op_bind (op_lift (map_err CliChat (resolve (cp_crypto X) (cp_payloads X) (existing @ [invn])))) (\<lambda>R.
     if event_id invn \<notin> snap_event_ids (snapshot R) \<or>
        \<not> bt_contains_key (snap_active_invitations (snapshot R)) (event_id invn)
     then op_fail ProfileRejected
     else
       op_bind (op_lift (map_err CliInvite (encode_package (cp_packages X) capability community (event_id invn)))) (\<lambda>package.
       op_bind (op_lift (map_err CliBootstrap (create_code (cp_bootstrap X) package peer address))) (\<lambda>code.
       op_bind (on_node st core (node_ingest X [invn])) (\<lambda>_.
       op_bind (println (''INVITATION_ID='' @ cp_hex_encode X (event_bytes (event_id invn)))) (\<lambda>_.
       op_bind (println (''INVITE_CODE='' @ code)) (\<lambda>_.
       flush)))))))))))))))"

section \<open>Archives\<close>

definition create_private_output :: "string \<Rightarrow> (io_error, filesystem, unit) op" where
  "create_private_output path fs =
     (case fs_try (FsCreateNew path) fs of
        Inl err \<Rightarrow> (Inl err, fs)
      | Inr _ \<Rightarrow>
          if fs_entries fs path \<noteq> None then (Inl AlreadyExists, fs)
          else (Inr (), put_entry path (FsFile (masked 384 fs) []) fs))"

text \<open>\<open>file.write_all(&bytes)?; file.sync_all()?\<close> on the file just created.\<close>

definition write_output :: "string \<Rightarrow> bytes \<Rightarrow> (io_error, filesystem, unit) op" where
  "write_output path bs fs =
     (case fs_try (FsWrite path) fs of
        Inl err \<Rightarrow> (Inl err, put_entry path (FsFile (masked 384 fs) (take (fs_partial fs path) bs)) fs)
      | Inr _ \<Rightarrow> (fs_try (FsSync path) fs, put_entry path (FsFile (masked 384 fs) bs) fs))"

definition command_export_community :: "'k cli_params \<Rightarrow> options \<Rightarrow> unit cli_op" where
  "command_export_community X opts =
     op_bind (op_lift (allow_only opts [''--state'', ''--community'', ''--output''])) (\<lambda>_.
     op_bind (load_state X opts) (\<lambda>st.
     with_lock st (
     op_bind (op_lift (res_bind (require_one opts ''--community'') (parse_community X))) (\<lambda>community.
     op_bind (open_community X st community) (\<lambda>core.
     op_bind (op_lift (map_err CliNode (all_events (cp_crypto X) (cp_events X) core))) (\<lambda>events.
     op_bind (op_lift (map_err CliArchive (archive_encode (cp_crypto X) (cp_archive X) community events))) (\<lambda>bs.
     op_bind (op_lift (require_one opts ''--output'')) (\<lambda>path.
     op_bind (on_output_fs (create_private_output path)) (\<lambda>_.
     op_bind (on_output_fs (write_output path bs)) (\<lambda>_.
     op_bind (println (''EXPORTED_COMMUNITY='' @ cp_hex_encode X (community_bytes community))) (\<lambda>_.
     op_bind (println (''EXPORTED_EVENTS='' @ show_nat (card (node_known core)))) (\<lambda>_.
     op_bind (println (''EXPORTED_BYTES='' @ show_nat (length bs))) (\<lambda>_.
     flush)))))))))))))"

definition read_archive_file :: "string \<Rightarrow> bytes cli_op" where
  "read_archive_file path w =
     (res_bind (map_err CliOutput (read_limited path MAX_ARCHIVE_BYTES (w_fs w))) (\<lambda>bs.
      if length bs > MAX_ARCHIVE_BYTES then Inl (CliArchive ArchiveTooLarge) else Inr bs), w)"

definition command_import_community :: "'k cli_params \<Rightarrow> options \<Rightarrow> unit cli_op" where
  "command_import_community X opts =
     op_bind (op_lift (allow_only opts [''--state'', ''--input''])) (\<lambda>_.
     op_bind (load_state X opts) (\<lambda>st.
     with_lock st (
     op_bind (op_lift (require_one opts ''--input'')) (\<lambda>path.
     op_bind (read_archive_file path) (\<lambda>bs.
     op_bind (op_lift (map_err CliArchive (res_bind (archive_parse (cp_archive X) bs) (validate_wire (cp_crypto X))))) (\<lambda>validated.
     let community = archive_community validated in
     op_bind (op_lift (map_err CliChat (resolve (cp_crypto X) (cp_payloads X) (archive_events validated)))) (\<lambda>projected.
     if snap_community (snapshot projected) \<noteq> Some community then op_fail ProfileRejected
     else
       op_bind (open_store st) (\<lambda>s.
       op_bind (op_lift (map_err CliStorage (store_is_empty s))) (\<lambda>empty.
       op_bind
         (if empty then op_return ()
          else op_bind (op_lift (map_err CliStorage (store_events (cp_crypto X) (cp_events X) s community))) (\<lambda>events.
               if events = [] then op_fail WrongDatabaseCommunity else op_return ())) (\<lambda>_.
       op_bind (op_lift (map_err CliNode
         (node_open (cp_crypto X) (cp_events X) s (if empty then None else Some community)))) (\<lambda>core.
       op_bind (on_node st core (ingest_archive (cp_crypto X) (cp_events X) (snd (archive_into_parts validated))))
         (\<lambda>((inserted, already_present), core').
       op_bind (op_lift (map_err CliNode (all_events (cp_crypto X) (cp_events X) core'))) (\<lambda>events.
       op_bind (op_lift (map_err CliChat (resolve (cp_crypto X) (cp_payloads X) events))) (\<lambda>final_projection.
       if snap_community (snapshot final_projection) \<noteq> Some community then op_fail ProfileRejected
       else
         op_bind (println (''IMPORTED_COMMUNITY='' @ cp_hex_encode X (community_bytes community))) (\<lambda>_.
         op_bind (println (''IMPORTED_EVENTS='' @ show_nat inserted)) (\<lambda>_.
         op_bind (println (''ALREADY_PRESENT='' @ show_nat already_present)) (\<lambda>_.
         flush)))))))))))))))))"

end
