(* ===== verification/Cli_Network.thy ===== *)
theory Cli_Network
  imports Commands
begin

text \<open>
  \<open>crates/cli/src/main.rs\<close>: the commands that run a network node (\<open>join\<close>, \<open>run\<close>, \<open>serve-community\<close>,
  \<open>sync-home-server\<close>) and the dispatch on the command's name.

  A running command is a \<open>cli_session\<close>: the world and the node.  The events of the swarm are a list;
  the clock, the answers of the swarm and the idle timer are functions of the number of events still to
  come (\<open>surroundings\<close>).  When the list is used up the command still waits: the loops return \<open>None\<close>, and
  the command is taken to be stopped there, which releases its lock.
\<close>

section \<open>Sessions\<close>

record cli_session =
  ses_world :: cli_world
  ses_node :: network_node

type_synonym 'a session_op = "(cli_error, cli_session, 'a) op"

text \<open>
  \<open>sur_idle n = Some k\<close>: the idle timer that is running when \<open>n\<close> events are still to come fires after
  the next \<open>k\<close> of them.
\<close>

record surroundings =
  sur_clock :: "nat \<Rightarrow> int"
  sur_swarm :: "nat \<Rightarrow> swarm"
  sur_idle :: "nat \<Rightarrow> nat option"

definition on_world :: "'a cli_op \<Rightarrow> 'a session_op" where
  "on_world m s = (let (r, w) = m (ses_world s) in (r, s\<lparr>ses_world := w\<rparr>))"

definition on_network :: "'a net_op \<Rightarrow> 'a session_op" where
  "on_network m s = (let (r, n) = m (ses_node s) in (map_err CliNetwork r, s\<lparr>ses_node := n\<rparr>))"

definition say :: "string \<Rightarrow> unit session_op" where
  "say line = on_world (println line)"

text \<open>\<open>network.sync_peer_mut().node_mut().ingest(events)?\<close>\<close>

definition network_ingest :: "'k cli_params \<Rightarrow> signed_event list \<Rightarrow> (cli_error, network_node, unit) op" where
  "network_ingest X events n =
     (let (r, core) = node_ingest X events (peer_node (net_sync n))
      in (res_bind r (\<lambda>_. Inr ()), n\<lparr>net_sync := (net_sync n)\<lparr>peer_node := core\<rparr>\<rparr>))"

definition on_cli_node :: "(cli_error, network_node, 'a) op \<Rightarrow> 'a session_op" where
  "on_cli_node m s = (let (r, n) = m (ses_node s) in (r, s\<lparr>ses_node := n\<rparr>))"

text \<open>A network node works on the state's database until the command ends.\<close>

definition run_session ::
  "'k node_state \<Rightarrow> network_node \<Rightarrow> 'a session_op \<Rightarrow> 'a cli_op" where
  "run_session st node m w =
     (let (r, s) = m \<lparr>ses_world = w, ses_node = node\<rparr>
      in (r, save_table st (node_store (peer_node (net_sync (ses_node s)))) (ses_world s)))"

section \<open>Authorisation from the resolved community\<close>

datatype network_role = RolePeer | RoleHomeServer

datatype dial_mode = DialExplicit | DialHomeServer

text \<open>The check that a home server is the one the community declares.\<close>

definition require_home_server ::
  "network_role \<Rightarrow> home_server_binding option \<Rightarrow> arr32 \<Rightarrow> cli_error + unit" where
  "require_home_server role home local_key =
     (if role = RoleHomeServer \<and>
         \<not> (case home of None \<Rightarrow> False | Some binding \<Rightarrow> hs_server_public_key binding = local_key)
      then Inl (if home \<noteq> None then WrongHomeServerIdentity else MissingHomeServer)
      else Inr ())"

definition collect_grants ::
  "'k cli_params \<Rightarrow> core_node \<Rightarrow> (event_id, arr32) btree \<Rightarrow> cli_error + bootstrap_grant list" where
  "collect_grants X core invitations =
     try_map (\<lambda>(invn, key).
       res_bind (map_err CliNode (ancestry (cp_crypto X) (cp_events X) core invn MAX_BOOTSTRAP_ANCESTRY_EVENTS)) (\<lambda>events.
       Inr \<lparr>grant_invitation = invn, grant_capability_key = key, grant_ancestry = events\<rparr>)) invitations"

definition infrastructure_devices :: "'k cli_params \<Rightarrow> home_server_binding option \<Rightarrow> device_id set" where
  "infrastructure_devices X home =
     (case home of
        None \<Rightarrow> {}
      | Some binding \<Rightarrow> {device_from_public_key (cp_crypto X) (hs_server_public_key binding)})"

definition cli_replace_authorization ::
  "'k cli_params \<Rightarrow> user_id set \<Rightarrow> device_id set \<Rightarrow> network_node \<Rightarrow> network_node" where
  "cli_replace_authorization X users devices n =
     replace_authorization (cp_peer_order X (dom (authenticated_devices n))) users devices n"

definition refresh_profile ::
  "'k cli_params \<Rightarrow> network_role \<Rightarrow> arr32 \<Rightarrow> core_node \<Rightarrow> cli_error + (chat_snapshot \<times> bootstrap_grant list)" where
  "refresh_profile X role local_key core =
     res_bind (map_err CliNode (all_events (cp_crypto X) (cp_events X) core)) (\<lambda>events.
     res_bind (map_err CliChat (resolve (cp_crypto X) (cp_payloads X) events)) (\<lambda>R.
     res_bind (require_home_server role (snap_home_server (snapshot R)) local_key) (\<lambda>_.
     res_bind (collect_grants X core (snap_active_invitations (snapshot R))) (\<lambda>grants.
     Inr (snapshot R, grants)))))"

definition refresh_network_authorization ::
  "'k cli_params \<Rightarrow> user_id set \<Rightarrow> network_role \<Rightarrow> arr32 \<Rightarrow> (cli_error, network_node, unit) op" where
  "refresh_network_authorization X explicit role local_key n =
     (case refresh_profile X role local_key (peer_node (net_sync n)) of
        Inl err \<Rightarrow> (Inl err, n)
      | Inr (snap, grants) \<Rightarrow>
          (let (r, n') =
             replace_bootstrap_grants (cp_network X) grants
               (cli_replace_authorization X (explicit \<union> snap_members snap)
                  (infrastructure_devices X (snap_home_server snap)) n)
           in (map_err CliNetwork r, n')))"

section \<open>Joining a community\<close>

text \<open>\<open>CONNECTED={peer} via=..\<close> and the other lines both loops print.\<close>

fun event_lines :: "'k cli_params \<Rightarrow> network_event \<Rightarrow> string list" where
  "event_lines X (ConnectedEvent peer relayed) =
     [''CONNECTED='' @ peer_to_string (cp_bootstrap X) peer @ '' via='' @ (if relayed then ''relay'' else ''direct'')]"
| "event_lines X (RelayConnectedEvent peer) = [''RELAY_CONNECTED='' @ peer_to_string (cp_bootstrap X) peer]"
| "event_lines X (RelayDisconnectedEvent peer) = [''RELAY_DISCONNECTED='' @ peer_to_string (cp_bootstrap X) peer]"
| "event_lines X (RelayReservationAcceptedEvent peer) =
     [''RELAY_RESERVATION_ACCEPTED='' @ peer_to_string (cp_bootstrap X) peer]"
| "event_lines X (RelayCircuitEstablishedEvent relay remote) =
     [''RELAY_CIRCUIT_ESTABLISHED relay='' @ cp_debug_peer X relay @ '' remote='' @ cp_debug_peer X remote]"
| "event_lines X (RelayConnectionFailedEvent relay reason) =
     [''RELAY_CONNECTION_FAILED='' @ cp_debug_peer X relay @ '' reason='' @ reason]"
| "event_lines X (ObservedAddressEvent peer address) =
     [''OBSERVED_ADDRESS='' @ address_to_string (cp_bootstrap X) address @ '' observer='' @
        peer_to_string (cp_bootstrap X) peer]"
| "event_lines X (HolePunchSucceededEvent peer) = [''HOLE_PUNCH_SUCCEEDED='' @ peer_to_string (cp_bootstrap X) peer]"
| "event_lines X (HolePunchFailedEvent peer reason) =
     [''HOLE_PUNCH_FAILED='' @ peer_to_string (cp_bootstrap X) peer @ '' reason='' @ reason,
      ''RELAY_FALLBACK='' @ peer_to_string (cp_bootstrap X) peer]"
| "event_lines X (AuthenticatedEvent peer) = [''AUTHENTICATED='' @ peer_to_string (cp_bootstrap X) peer]"
| "event_lines X (SyncProgressEvent peer) = [''SYNC_PROGRESS='' @ peer_to_string (cp_bootstrap X) peer]"
| "event_lines X (DisconnectedEvent peer) = [''DISCONNECTED='' @ peer_to_string (cp_bootstrap X) peer]"
| "event_lines X (ListeningEvent address) = [''LISTEN_ADDRESS='' @ address_to_string (cp_bootstrap X) address]"
| "event_lines X (RequestFailedEvent peer reason) =
     [''REQUEST_FAILED='' @ peer_to_string (cp_bootstrap X) peer @ '' reason='' @ reason]"
| "event_lines X (BootstrapChallengeEvent peer _ _) =
     [''UNEXPECTED_BOOTSTRAP_CHALLENGE='' @ peer_to_string (cp_bootstrap X) peer]"
| "event_lines X (BootstrapAncestryEvent peer _ _) =
     [''UNEXPECTED_BOOTSTRAP_ANCESTRY='' @ peer_to_string (cp_bootstrap X) peer]"
| "event_lines X (BootstrapAcceptedEvent peer) =
     [''UNEXPECTED_BOOTSTRAP_ACCEPTED='' @ peer_to_string (cp_bootstrap X) peer]"
| "event_lines X (BootstrapAcceptanceEvent _ _ _ _) = []"

text \<open>Whether the endpoint that serves the invitation is a member or the declared home server.\<close>

definition trusted_endpoint ::
  "'k cli_params \<Rightarrow> chat_snapshot \<Rightarrow> user_id \<Rightarrow> device_id \<Rightarrow> bool" where
  "trusted_endpoint X snap user device \<longleftrightarrow>
     user \<in> snap_members snap \<or>
     (case snap_home_server snap of
        None \<Rightarrow> False
      | Some binding \<Rightarrow> device_from_public_key (cp_crypto X) (hs_server_public_key binding) = device)"

text \<open>\<open>NetworkEvent::BootstrapAncestry\<close>, after the invitation has been taken out of \<open>prepared\<close>.\<close>

definition join_ancestry ::
  "'k cli_params \<Rightarrow> 'k node_state \<Rightarrow> int \<Rightarrow> prepared_invite \<Rightarrow> peer_id \<Rightarrow> event_id \<Rightarrow> signed_event list \<Rightarrow>
     unit session_op" where
  "join_ancestry X st clock prepared peer invn events =
     op_bind (op_lift (ok_or (find (\<lambda>e. event_id e = invn) events) MissingInvitation)) (\<lambda>invitation_event.
     op_bind (op_lift (map_err CliInvite (prepared_validate (cp_crypto X) (cp_payloads X) prepared invitation_event))) (\<lambda>validated.
     op_bind (op_lift (map_err CliChat (resolve (cp_crypto X) (cp_payloads X) events))) (\<lambda>R.
     if \<not> bt_contains_key (snap_active_invitations (snapshot R)) invn then op_fail ProfileRejected
     else
       op_bind (\<lambda>s. (ok_or (provisional_user (ses_node s) peer) UntrustedBootstrapEndpoint, s)) (\<lambda>user.
       op_bind (\<lambda>s. (ok_or (provisional_device (ses_node s) peer) UntrustedBootstrapEndpoint, s)) (\<lambda>device.
       if \<not> trusted_endpoint X (snapshot R) user device then op_fail UntrustedBootstrapEndpoint
       else
         op_bind (on_network (approve_bootstrap_endpoint peer)) (\<lambda>_.
         op_bind (on_cli_node (network_ingest X events)) (\<lambda>_.
         op_bind (op_lift (cli_now_ms clock)) (\<lambda>now.
         op_bind (op_lift (map_err CliChat
           (create_acceptance (cp_crypto X) (cp_payloads X) validated (state_user st) [invn] now))) (\<lambda>acceptance.
         op_bind (op_lift (map_err CliChat (resolve (cp_crypto X) (cp_payloads X) (events @ [acceptance])))) (\<lambda>accepted.
         if event_id acceptance \<notin> snap_event_ids (snapshot accepted) \<or>
            identity_user_id (cp_crypto X) (state_user st) \<notin> snap_members (snapshot accepted)
         then op_fail ProfileRejected
         else
           op_bind (on_cli_node (network_ingest X [acceptance])) (\<lambda>_.
           op_bind (on_network (submit_bootstrap_acceptance (cp_network X) peer invn acceptance)) (\<lambda>_.
           say (''BOOTSTRAP_ACCEPTANCE_SENT='' @ peer_to_string (cp_bootstrap X) peer)))))))))))))"

text \<open>One event of the loop of \<open>command_join\<close>: what is left of \<open>prepared\<close>, and whether the command is done.\<close>

fun join_event ::
  "'k cli_params \<Rightarrow> 'k node_state \<Rightarrow> int \<Rightarrow> prepared_invite option \<Rightarrow> network_event \<Rightarrow>
     (prepared_invite option \<times> bool) session_op" where
  "join_event X st clock prepared (RelayConnectionFailedEvent relay reason) =
     op_fail (CliNetwork (NetRequest (''relay '' @ cp_debug_peer X relay @ '' failed: '' @ reason)))"
| "join_event X st clock prepared (HolePunchFailedEvent peer reason) =
     op_bind (say (''HOLE_PUNCH_FAILED='' @ peer_to_string (cp_bootstrap X) peer @ '' reason='' @ reason @
       ''; RELAY_FALLBACK='' @ peer_to_string (cp_bootstrap X) peer)) (\<lambda>_. op_return (prepared, False))"
| "join_event X st clock prepared (BootstrapChallengeEvent peer invn proof_bytes) =
     op_bind (op_lift (ok_or prepared MissingInvitation)) (\<lambda>p.
     op_bind (on_network (submit_bootstrap_proof (cp_network X) peer invn
       (arr64_bytes (sign_possession_proof (cp_crypto X) p proof_bytes)))) (\<lambda>_.
     op_bind (say (''BOOTSTRAP_PROOF_SENT='' @ peer_to_string (cp_bootstrap X) peer)) (\<lambda>_.
     op_return (prepared, False))))"
| "join_event X st clock prepared (BootstrapAncestryEvent peer invn events) =
     (case prepared of
        None \<Rightarrow>
          op_bind (say (''DUPLICATE_BOOTSTRAP_ANCESTRY='' @ peer_to_string (cp_bootstrap X) peer))
            (\<lambda>_. op_return (None, False))
      | Some p \<Rightarrow> op_bind (join_ancestry X st clock p peer invn events) (\<lambda>_. op_return (None, False)))"
| "join_event X st clock prepared (BootstrapAcceptedEvent peer) =
     op_bind (say (''JOIN_COMPLETE='' @ peer_to_string (cp_bootstrap X) peer)) (\<lambda>_. op_return (prepared, True))"
| "join_event X st clock prepared (RequestFailedEvent peer reason) = op_fail (CliNetwork (NetRequest reason))"
| "join_event X st clock prepared (BootstrapAcceptanceEvent peer user invn acceptance) = op_fail ProfileRejected"
| "join_event X st clock prepared ev =
     op_bind (op_each say (event_lines X ev)) (\<lambda>_. op_return (prepared, False))"

lemma next_event_shorter:
  "next_event E evs s = ((Some r, rest), t) \<Longrightarrow> length rest < length evs"
  by (induction E evs s rule: next_event.induct)
    (auto split: prod.splits sum.splits option.splits simp: less_Suc_eq)

function join_loop ::
  "'k cli_params \<Rightarrow> 'k node_state \<Rightarrow> surroundings \<Rightarrow> prepared_invite option \<Rightarrow> (swarm \<times> swarm_event) list \<Rightarrow>
     unit option session_op" where
  "join_loop X st V prepared evs s =
     (case next_event (cp_network X) evs (ses_node s) of
        ((None, _), n) \<Rightarrow> (Inr None, s\<lparr>ses_node := n\<rparr>)
      | ((Some (Inl err), _), n) \<Rightarrow> (Inl (CliNetwork err), s\<lparr>ses_node := n\<rparr>)
      | ((Some (Inr ev), rest), n) \<Rightarrow>
          (case op_bind (join_event X st (sur_clock V (length rest)) prepared ev)
                  (\<lambda>r. op_bind (on_world flush) (\<lambda>_. op_return r)) (s\<lparr>ses_node := n\<rparr>) of
             (Inl err, s') \<Rightarrow> (Inl err, s')
           | (Inr (prepared', finished), s') \<Rightarrow>
               if finished then (Inr (Some ()), s') else join_loop X st V prepared' rest s'))"
  by pat_completeness auto
termination
  by (relation "measure (\<lambda>(X, st, V, prepared, evs, s). length evs)") (auto dest: next_event_shorter [OF sym])

declare join_loop.simps [simp del]

definition command_join ::
  "'k cli_params \<Rightarrow> surroundings \<Rightarrow> (swarm \<times> swarm_event) list \<Rightarrow> options \<Rightarrow> unit option cli_op" where
  "command_join X V evs opts =
     op_bind (op_lift (allow_only opts [''--state'', ''--invite-code''])) (\<lambda>_.
     op_bind (load_state X opts) (\<lambda>st.
     with_lock st (
     op_bind (op_lift (require_one opts ''--invite-code'')) (\<lambda>code.
     op_bind (op_lift (map_err CliBootstrap
       (res_bind (parse_code (cp_bootstrap X) code) (validate_envelope (cp_bootstrap X))))) (\<lambda>envelope.
     op_bind (op_lift (map_err CliInvite
       (res_bind (parse_invite_package (cp_packages X) (boot_invite_package envelope)) invite_prepare))) (\<lambda>prepared.
     let community = prep_community prepared; W = sur_swarm V (length evs); peer = boot_peer_id envelope in
     op_bind (open_store st) (\<lambda>store.
     op_bind (op_lift (map_err CliStorage (store_is_empty store))) (\<lambda>empty.
     if \<not> empty then op_fail DatabaseNotEmpty
     else
       op_bind (op_lift (map_err CliNode (node_open (cp_crypto X) (cp_events X) store None))) (\<lambda>core.
       op_bind (op_lift (map_err CliSync (peer_new core community))) (\<lambda>sync.
       op_bind (op_lift (map_err CliNetwork
         (network_new (cp_network X) W (state_device st)
            (create_device_certificate (cp_crypto X) (state_user st) (state_device st) (state_created_at st))
            sync {} {}))) (\<lambda>node.
       run_session st node (
         op_bind (on_network (configure_bootstrap_target peer (prep_invitation prepared))) (\<lambda>_.
         op_bind (op_lift (parse_multiaddr X ''/ip4/0.0.0.0/udp/0/quic-v1'')) (\<lambda>address.
         op_bind (on_network (listen W address)) (\<lambda>_.
         op_bind (on_network (dial W peer (boot_address envelope))) (\<lambda>_.
         op_bind (say (''COMMUNITY_ID='' @ cp_hex_encode X (community_bytes community))) (\<lambda>_.
         op_bind (say (''BOOTSTRAP_PEER='' @ peer_to_string (cp_bootstrap X) peer)) (\<lambda>_.
         op_bind (on_world flush) (\<lambda>_.
         join_loop X st V (Some prepared) evs)))))))))))))))))))"

section \<open>Running a node\<close>

text \<open>\<open>NetworkEvent::BootstrapAcceptance\<close>: the community decides whether a newcomer gets in.\<close>

definition decide_acceptance ::
  "'k cli_params \<Rightarrow> swarm \<Rightarrow> peer_id \<Rightarrow> user_id \<Rightarrow> event_id \<Rightarrow> signed_event \<Rightarrow> (cli_error, network_node, bool) op" where
  "decide_acceptance X W peer user invn acceptance n =
     (case res_bind (map_err CliNode (all_events (cp_crypto X) (cp_events X) (peer_node (net_sync n)))) (\<lambda>candidates.
           map_err CliChat (resolve (cp_crypto X) (cp_payloads X) (candidates @ [acceptance]))) of
        Inl err \<Rightarrow> (Inl err, n)
      | Inr R \<Rightarrow>
          (let approved = event_id acceptance \<in> snap_event_ids (snapshot R) \<and>
                 user \<in> snap_members (snapshot R) \<and>
                 \<not> bt_contains_key (snap_active_invitations (snapshot R)) invn
           in op_bind (if approved then network_ingest X [acceptance] else op_return ()) (\<lambda>_ n'.
              (let (r, n'') = resolve_bootstrap_acceptance (cp_network X) W peer approved n'
               in (map_err CliNetwork (res_bind r (\<lambda>_. Inr approved)), n''))) n))"

definition show_bool :: "bool \<Rightarrow> string" where
  "show_bool b = (if b then ''true'' else ''false'')"

fun network_event_step :: "'k cli_params \<Rightarrow> swarm \<Rightarrow> network_event \<Rightarrow> unit session_op" where
  "network_event_step X W (BootstrapAcceptanceEvent peer user invn acceptance) =
     op_bind (on_cli_node (decide_acceptance X W peer user invn acceptance)) (\<lambda>approved.
     say (''BOOTSTRAP_DECISION='' @ peer_to_string (cp_bootstrap X) peer @ '' approved='' @ show_bool approved))"
| "network_event_step X W ev = op_each say (event_lines X ev)"

record 'k network_config =
  nc_state :: "'k node_state"
  nc_role :: network_role
  nc_explicit_users :: "user_id set"
  nc_exit_after :: "u64 option"
  nc_idle :: "u64 option"

definition known_count :: "network_node \<Rightarrow> nat" where
  "known_count n = card (node_known (peer_node (net_sync n)))"

definition sync_complete :: "unit option session_op" where
  "sync_complete s =
     op_bind (say (''SYNC_COMPLETE events='' @ show_nat (known_count (ses_node s)))) (\<lambda>_.
     op_bind (on_world flush) (\<lambda>_. op_return (Some ()))) s"

definition is_sync_progress :: "network_event \<Rightarrow> bool" where
  "is_sync_progress ev = (case ev of SyncProgressEvent _ \<Rightarrow> True | _ \<Rightarrow> False)"

definition network_round ::
  "'k cli_params \<Rightarrow> 'k network_config \<Rightarrow> swarm \<Rightarrow> network_event \<Rightarrow> unit session_op" where
  "network_round X G W ev =
     op_bind (network_event_step X W ev) (\<lambda>_.
     op_bind (on_cli_node (refresh_network_authorization X (nc_explicit_users G) (nc_role G)
       (device_key (state_device (nc_state G))))) (\<lambda>_.
     on_world flush))"

text \<open>Whether the idle timer fires before the next event is reported, and the node it leaves.\<close>

definition idle_fires ::
  "'k cli_params \<Rightarrow> 'k network_config \<Rightarrow> surroundings \<Rightarrow> bool \<Rightarrow> (swarm \<times> swarm_event) list \<Rightarrow> network_node \<Rightarrow>
     network_node option" where
  "idle_fires X G V started evs n =
     (if started \<and> nc_idle G \<noteq> None
      then
        (case sur_idle V (length evs) of
           None \<Rightarrow> None
         | Some k \<Rightarrow>
             (case next_event (cp_network X) (take k evs) n of
                ((None, _), n') \<Rightarrow> Some n'
              | _ \<Rightarrow> None))
      else None)"

function network_loop ::
  "'k cli_params \<Rightarrow> 'k network_config \<Rightarrow> surroundings \<Rightarrow> bool \<Rightarrow> (swarm \<times> swarm_event) list \<Rightarrow>
     unit option session_op" where
  "network_loop X G V started evs s =
     (case idle_fires X G V started evs (ses_node s) of
        Some n \<Rightarrow> sync_complete (s\<lparr>ses_node := n\<rparr>)
      | None \<Rightarrow>
     (case next_event (cp_network X) evs (ses_node s) of
        ((None, _), n) \<Rightarrow> (Inr None, s\<lparr>ses_node := n\<rparr>)
      | ((Some (Inl err), _), n) \<Rightarrow> (Inl (CliNetwork err), s\<lparr>ses_node := n\<rparr>)
      | ((Some (Inr ev), rest), n) \<Rightarrow>
          (case network_round X G (sur_swarm V (length rest)) ev (s\<lparr>ses_node := n\<rparr>) of
             (Inl err, s') \<Rightarrow> (Inl err, s')
           | (Inr _, s') \<Rightarrow>
               if is_sync_progress ev \<and>
                  (case nc_exit_after G of None \<Rightarrow> False | Some count \<Rightarrow> known_count (ses_node s') \<ge> unat count)
               then sync_complete s'
               else network_loop X G V (started \<or> is_sync_progress ev) rest s')))"
  by pat_completeness auto
termination
  by (relation "measure (\<lambda>(X, G, V, started, evs, s). length evs)") (auto dest: next_event_shorter [OF sym])

declare network_loop.simps [simp del]

fun network_options :: "network_role \<Rightarrow> dial_mode \<Rightarrow> options \<Rightarrow> cli_error + unit" where
  "network_options RolePeer DialExplicit opts =
     allow_only opts [''--state'', ''--community'', ''--listen'', ''--relay-address'', ''--allow-user'',
       ''--dial-peer'', ''--dial-address'', ''--exit-after-events'', ''--idle-timeout-ms'']"
| "network_options RolePeer DialHomeServer opts =
     allow_only opts [''--state'', ''--community'', ''--listen'', ''--relay-address'',
       ''--exit-after-events'', ''--idle-timeout-ms'']"
| "network_options RoleHomeServer DialExplicit opts =
     allow_only opts [''--state'', ''--community'', ''--listen'', ''--relay-address'', ''--max-store-bytes'']"
| "network_options RoleHomeServer DialHomeServer opts = Inl (CliArguments ''Home Server role cannot dial itself'')"

text \<open>The arguments of \<open>command_network\<close> after the state.\<close>

record network_arguments =
  na_community :: community_id
  na_listen :: multiaddr
  na_relay :: "multiaddr option"
  na_allowed :: "user_id set"
  na_dial :: "(peer_id \<times> multiaddr) option"
  na_exit_after :: "u64 option"
  na_idle :: "u64 option"
  na_max_store_bytes :: "u64 option"

definition parse_network_arguments ::
  "'k cli_params \<Rightarrow> network_role \<Rightarrow> dial_mode \<Rightarrow> options \<Rightarrow> cli_error + network_arguments" where
  "parse_network_arguments X role mode opts =
     res_bind (res_bind (require_one opts ''--community'') (parse_community X)) (\<lambda>community.
     res_bind (res_bind (require_one opts ''--listen'') (parse_multiaddr X)) (\<lambda>listen_on.
     res_bind (res_bind (optional_one opts ''--relay-address'') (transposed (parse_multiaddr X))) (\<lambda>relay.
     res_bind (parse_allowed_users X (many opts ''--allow-user'')) (\<lambda>allowed.
     res_bind (if mode = DialExplicit then parse_dial X opts else Inr None) (\<lambda>explicit_dial.
     res_bind (res_bind (optional_one opts ''--exit-after-events'') (transposed parse_positive_usize)) (\<lambda>exit_after.
     res_bind (res_bind (optional_one opts ''--idle-timeout-ms'') (transposed parse_positive_milliseconds)) (\<lambda>idle.
     res_bind
       (if role = RoleHomeServer
        then res_bind (res_bind (optional_one opts ''--max-store-bytes'') (transposed parse_positive_u64)) (\<lambda>v.
             Inr (Some (case v of None \<Rightarrow> DEFAULT_HOME_SERVER_STORE_BYTES | Some b \<Rightarrow> b)))
        else Inr None) (\<lambda>max_bytes.
     Inr \<lparr>na_community = community, na_listen = listen_on, na_relay = relay, na_allowed = allowed,
          na_dial = explicit_dial, na_exit_after = exit_after, na_idle = idle,
          na_max_store_bytes = max_bytes\<rparr>))))))))"

text \<open>The synchronisation peer, the authorisation and the grants a node starts with.\<close>

definition network_profile ::
  "'k cli_params \<Rightarrow> network_role \<Rightarrow> dial_mode \<Rightarrow> 'k node_state \<Rightarrow> network_arguments \<Rightarrow> core_node \<Rightarrow>
     cli_error + (chat_snapshot \<times> (peer_id \<times> multiaddr) option \<times> bootstrap_grant list)" where
  "network_profile X role mode st A core =
     res_bind (map_err CliNode (all_events (cp_crypto X) (cp_events X) core)) (\<lambda>events.
     res_bind (map_err CliChat (resolve (cp_crypto X) (cp_payloads X) events)) (\<lambda>R.
     let home = snap_home_server (snapshot R) in
     res_bind (require_home_server role home (device_key (state_device st))) (\<lambda>_.
     res_bind
       (if mode = DialExplicit then Inr (na_dial A)
        else res_bind (ok_or home MissingHomeServer) (\<lambda>binding.
             res_bind (home_server_target X binding) (\<lambda>t. Inr (Some t)))) (\<lambda>target.
     res_bind (collect_grants X core (snap_active_invitations (snapshot R))) (\<lambda>grants.
     Inr (snapshot R, target, grants))))))"

definition start_network ::
  "'k cli_params \<Rightarrow> swarm \<Rightarrow> 'k node_state \<Rightarrow> network_arguments \<Rightarrow> core_node \<Rightarrow> chat_snapshot \<Rightarrow> bootstrap_grant list \<Rightarrow>
     cli_error + network_node" where
  "start_network X W st A core snap grants =
     (let users = na_allowed A \<union> snap_members snap in
      res_bind (map_err CliSync (peer_new core (na_community A))) (\<lambda>sync.
      res_bind
        (case na_max_store_bytes A of
           None \<Rightarrow> Inr sync
         | Some limit \<Rightarrow> map_err CliSync (with_storage_quota sync limit)) (\<lambda>sync'.
      res_bind
        (map_err CliNetwork
          (network_new (cp_network X) W (state_device st)
             (create_device_certificate (cp_crypto X) (state_user st) (state_device st) (state_created_at st))
             sync' users {})) (\<lambda>node.
      let node' = cli_replace_authorization X users (infrastructure_devices X (snap_home_server snap)) node in
      res_bind (map_err CliNetwork (fst (op_each (register_bootstrap_grant (cp_network X)) grants node'))) (\<lambda>_.
      Inr (snd (op_each (register_bootstrap_grant (cp_network X)) grants node')))))))"

definition network_banner ::
  "'k cli_params \<Rightarrow> network_role \<Rightarrow> 'k node_state \<Rightarrow> network_arguments \<Rightarrow> network_node \<Rightarrow> string list" where
  "network_banner X role st A node =
     [''USER_ID='' @ cp_hex_encode X (user_bytes (identity_user_id (cp_crypto X) (state_user st))),
      ''PEER_ID='' @ peer_to_string (cp_bootstrap X) (local_peer node),
      ''COMMUNITY_ID='' @ cp_hex_encode X (community_bytes (na_community A)),
      ''ROLE='' @ (if role = RoleHomeServer then ''home-server'' else ''peer'')] @
     (case na_max_store_bytes A of None \<Rightarrow> [] | Some limit \<Rightarrow> [''MAX_STORE_BYTES='' @ show_nat (unat limit)])"

definition command_network ::
  "'k cli_params \<Rightarrow> surroundings \<Rightarrow> (swarm \<times> swarm_event) list \<Rightarrow> network_role \<Rightarrow> dial_mode \<Rightarrow> options \<Rightarrow>
     unit option cli_op" where
  "command_network X V evs role mode opts =
     op_bind (op_lift (network_options role mode opts)) (\<lambda>_.
     op_bind (load_state X opts) (\<lambda>st.
     with_lock st (
     op_bind (op_lift (parse_network_arguments X role mode opts)) (\<lambda>A.
     op_bind (open_store st) (\<lambda>store.
     op_bind (op_lift (map_err CliStorage (store_is_empty store))) (\<lambda>empty.
     op_bind (op_lift (if empty then Inr ()
       else res_bind (map_err CliStorage (store_events (cp_crypto X) (cp_events X) store (na_community A))) (\<lambda>events.
            if events = [] then Inl WrongDatabaseCommunity else Inr ()))) (\<lambda>_.
     op_bind (op_lift (map_err CliNode (node_open (cp_crypto X) (cp_events X) store
       (if empty then None else Some (na_community A))))) (\<lambda>core.
     op_bind (op_lift (network_profile X role mode st A core)) (\<lambda>(snap, target, grants).
     let W = sur_swarm V (length evs) in
     op_bind (op_lift (start_network X W st A core snap grants)) (\<lambda>node.
     run_session st node (
       op_bind (op_each say (network_banner X role st A node)) (\<lambda>_.
       op_bind (on_network (listen W (na_listen A))) (\<lambda>_.
       op_bind
         (case na_relay A of
            None \<Rightarrow> op_return ()
          | Some relay \<Rightarrow>
              op_bind (on_network (reserve_relay W relay)) (\<lambda>route.
              say (''RELAY_ROUTE='' @ address_to_string (cp_bootstrap X) route))) (\<lambda>_.
       op_bind
         (case target of
            None \<Rightarrow> op_return ()
          | Some (peer, address) \<Rightarrow> on_network (dial W peer address)) (\<lambda>_.
       op_bind (on_world flush) (\<lambda>_.
       network_loop X
         \<lparr>nc_state = st, nc_role = role, nc_explicit_users = na_allowed A,
          nc_exit_after = na_exit_after A, nc_idle = na_idle A\<rparr> V False evs))))))))))))))))"

section \<open>Dispatch\<close>

record cli_env =
  env_user_seed :: arr32
  env_device_seed :: arr32
  env_channel :: arr32
  env_capability :: arr32
  env_clock :: int
  env_surroundings :: surroundings
  env_events :: "(swarm \<times> swarm_event) list"

definition finished :: "unit cli_op \<Rightarrow> unit option cli_op" where
  "finished m = op_bind m (\<lambda>_. op_return (Some ()))"

definition run_options :: "'k cli_params \<Rightarrow> cli_env \<Rightarrow> string \<Rightarrow> options \<Rightarrow> unit option cli_op" where
  "run_options X env command opts =
     (if command = ''init'' then finished (command_init X (env_user_seed env) (env_device_seed env) (env_clock env) opts)
      else if command = ''info'' then finished (command_info X opts)
      else if command = ''create-community'' then finished (command_create_community X (env_clock env) opts)
      else if command = ''create-channel'' then finished (command_create_channel X (env_channel env) (env_clock env) opts)
      else if command = ''list-channels'' then finished (command_list_channels X opts)
      else if command = ''send-message'' then finished (command_send_message X (env_clock env) opts)
      else if command = ''list-messages'' then finished (command_list_messages X opts)
      else if command = ''set-home-server'' then finished (command_set_home_server X (env_clock env) opts)
      else if command = ''export-community'' then finished (command_export_community X opts)
      else if command = ''import-community'' then finished (command_import_community X opts)
      else if command = ''create-invite'' then finished (command_create_invite X (env_capability env) (env_clock env) opts)
      else if command = ''join'' then command_join X (env_surroundings env) (env_events env) opts
      else if command = ''run''
        then command_network X (env_surroundings env) (env_events env) RolePeer DialExplicit opts
      else if command = ''serve-community''
        then command_network X (env_surroundings env) (env_events env) RoleHomeServer DialExplicit opts
      else if command = ''sync-home-server''
        then command_network X (env_surroundings env) (env_events env) RolePeer DialHomeServer opts
      else op_fail (CliArguments (''unknown command '' @ command)))"

definition USAGE :: string where
  "USAGE =
     ''ChatCommons M2c-M3d diagnostic node'' @ [CHR 0x0A] @
     [CHR 0x0A] @
     ''Usage:'' @ [CHR 0x0A] @
     ''  chatcommons-node init --state <directory>'' @ [CHR 0x0A] @
     ''  chatcommons-node info --state <directory>'' @ [CHR 0x0A] @
     ''  chatcommons-node create-community --state <directory> --name <name>'' @ [CHR 0x0A] @
     ''  chatcommons-node create-channel --state <directory> --community <hex> --name <name>'' @ [CHR 0x0A] @
     ''  chatcommons-node list-channels --state <directory> --community <hex>'' @ [CHR 0x0A] @
     ''  chatcommons-node send-message --state <directory> --community <hex>'' @ [CHR 0x0A] @
     ''    --channel <hex> --text <message>'' @ [CHR 0x0A] @
     ''  chatcommons-node list-messages --state <directory> --community <hex>'' @ [CHR 0x0A] @
     ''    [--channel <hex>]'' @ [CHR 0x0A] @
     ''  chatcommons-node set-home-server --state <directory> --community <hex>'' @ [CHR 0x0A] @
     ''    --server-public-key <hex> --endpoint <multiaddr-or-url> [--endpoint <...> ...]'' @ [CHR 0x0A] @
     ''  chatcommons-node export-community --state <directory> --community <hex>'' @ [CHR 0x0A] @
     ''    --output <archive-file>'' @ [CHR 0x0A] @
     ''  chatcommons-node import-community --state <directory> --input <archive-file>'' @ [CHR 0x0A] @
     ''  chatcommons-node create-invite --state <directory> --community <hex>'' @ [CHR 0x0A] @
     ''    [--address <public-multiaddr>]'' @ [CHR 0x0A] @
     ''  chatcommons-node join --state <directory> --invite-code <code>'' @ [CHR 0x0A] @
     ''  chatcommons-node run --state <directory> --community <hex>'' @ [CHR 0x0A] @
     ''    --listen <multiaddr> [--allow-user <user-id-hex> ...]'' @ [CHR 0x0A] @
     ''    [--relay-address <relay-base-multiaddr>]'' @ [CHR 0x0A] @
     ''    [--dial-peer <peer-id> --dial-address <multiaddr>] [--exit-after-events <count>]'' @ [CHR 0x0A] @
     ''  chatcommons-node serve-community --state <directory> --community <hex>'' @ [CHR 0x0A] @
     ''    --listen <multiaddr> [--relay-address <relay-base-multiaddr>]'' @ [CHR 0x0A] @
     ''    [--max-store-bytes <bytes>]'' @ [CHR 0x0A] @
     ''  chatcommons-node sync-home-server --state <directory> --community <hex>'' @ [CHR 0x0A] @
     ''    --listen <multiaddr> [--relay-address <relay-base-multiaddr>]'' @ [CHR 0x0A] @
     ''    [--exit-after-events <count>] [--idle-timeout-ms <milliseconds>]'' @ [CHR 0x0A] @
     [CHR 0x0A] @
     ''This is a developer tool. Relay-assisted hole punching requires an explicit relay.'' @ [CHR 0x0A] @
     ''It has no discovery, production relay configuration, or GUI.'' @ [CHR 0x0A]"

text \<open>\<open>run\<close> on the arguments after the program's name.\<close>

definition run :: "'k cli_params \<Rightarrow> cli_env \<Rightarrow> string list \<Rightarrow> unit option cli_op" where
  "run X env arguments =
     (case arguments of
        [] \<Rightarrow> finished (print_text USAGE)
      | command # rest \<Rightarrow>
          if command = ''--help'' \<or> command = ''help'' then finished (print_text USAGE)
          else op_bind (op_lift (options_parse rest)) (run_options X env command))"

end
