(* ===== verification/Commands_Correct.thy ===== *)
theory Commands_Correct
  imports Import_Correct Cli_Network Chat_Run
begin

text \<open>
  What the local commands do to the database.  A node is \<open>whole\<close> when it is well-formed and knows
  everything its store holds; a database is whole for a community when the node opened on it is.  The
  commands keep databases whole, publish only events the community accepts, and an exported community is
  restored by an import.
\<close>

section \<open>Whole nodes\<close>

definition whole :: "crypto \<Rightarrow> signed_event codec \<Rightarrow> core_node \<Rightarrow> bool" where
  "whole C J node \<longleftrightarrow> node_ok C J node \<and> node_known node = dom (store_abs J (node_store node))"

definition whole_store :: "crypto \<Rightarrow> signed_event codec \<Rightarrow> community_id \<Rightarrow> event_store \<Rightarrow> bool" where
  "whole_store C J c s \<longleftrightarrow>
     whole C J \<lparr>node_store = s, node_community = Some c, node_known = dom (store_abs J s)\<rparr>"

lemma wholeD: "whole C J node \<Longrightarrow> node_ok C J node" "whole C J node \<Longrightarrow> node_known node = dom (store_abs J (node_store node))"
  by (simp_all add: whole_def)

lemma whole_store_ok: "whole_store C J c s \<Longrightarrow> store_ok C J s"
  by (simp add: whole_store_def whole_def node_ok_def)

lemma whole_store_member:
  assumes "whole_store C J c s" and "store_abs J s i = Some e"
  shows "in_community c e" and "set (parents (content e)) \<subseteq> dom (store_abs J s)"
proof -
  have "i \<in> dom (store_abs J s)" using assms(2) by blast
  then have "\<exists>d c'. store_abs J s i = Some d \<and> Some c = Some c' \<and> in_community c' d \<and>
      set (parents (content d)) \<subseteq> dom (store_abs J s)"
    using assms(1) unfolding whole_store_def whole_def node_ok_def by simp
  then show "in_community c e" and "set (parents (content e)) \<subseteq> dom (store_abs J s)"
    using assms(2) by auto
qed

lemma node_ok_abs:
  assumes "node_ok C J node" and "store_abs J (node_store node) i = Some e"
  shows "event_id e = i" and "validate_event C e = Inr ()"
  using store_abs_Some [of C J "node_store node" i e] assms by (simp_all add: node_ok_def)

text \<open>Opening a whole database gives a whole node.\<close>

lemma node_open_whole:
  assumes "whole_store C J c s" and "node_open C J s (Some c) = Inr node"
  shows "node = \<lparr>node_store = s, node_community = Some c, node_known = dom (store_abs J s)\<rparr>" and "whole C J node"
proof -
  note k = node_open_known [OF whole_store_ok [OF assms(1)] assms(2)]
  have "node_known node = dom (store_abs J s)"
    unfolding k(3) using whole_store_member(1) [OF assms(1)] by auto
  then show *: "node = \<lparr>node_store = s, node_community = Some c, node_known = dom (store_abs J s)\<rparr>"
    using k(1,2) by simp
  show "whole C J node" using assms(1) unfolding * whole_store_def .
qed

lemma whole_ingest:
  assumes w: "whole C J node" and uniq: "ids_unique (universe J node events)"
    and ing: "ingest C J node events = (res, node')"
  shows "whole C J node'"
proof -
  have ok: "node_ok C J node" and known: "node_known node = dom (store_abs J (node_store node))"
    using w by (simp_all add: whole_def)
  note keep = ingest_preserves [OF ok uniq ing]
  have ok': "node_ok C J node'" using keep by blast
  have "node_complete J node" using known by (auto simp: node_complete_def)
  note comp = ingest_complete [OF ok uniq this ing]
  have "dom (store_abs J (node_store node')) \<subseteq> node_known node'"
  proof (cases "ingest_check C node events")
    case (Inl err)
    then show ?thesis using ing known by (auto simp: ingest_def)
  next
    case (Inr c)
    note frame = ingest_frame [OF ok uniq Inr ing]
    show ?thesis
    proof
      fix i assume "i \<in> dom (store_abs J (node_store node'))"
      then obtain e where e: "store_abs J (node_store node') i = Some e" by blast
      have i: "event_id e = i" by (rule node_ok_abs [OF ok' e])
      consider "e \<in> set events" | j where "store_abs J (node_store node) j = Some e"
        using frame e by (auto simp: universe_def ran_def)
      then show "i \<in> node_known node'"
      proof cases
        case 1
        then have "in_community c e" using ingest_check_Inr(3) [OF Inr] by blast
        then show ?thesis using comp frame e i unfolding node_complete_def by blast
      next
        case 2
        then have "event_id e = j" using node_ok_abs [OF ok] by blast
        then show ?thesis using 2 i known keep by blast
      qed
    qed
  qed
  moreover have "node_known node' \<subseteq> dom (store_abs J (node_store node'))"
    using ok' by (fastforce simp: node_ok_def)
  ultimately show ?thesis using ok' by (auto simp: whole_def)
qed

lemma whole_store_of_node:
  assumes "whole C J node" and "node_community node = Some c"
  shows "whole_store C J c (node_store node)"
  using assms by (cases node) (simp add: whole_def whole_store_def)

lemma all_events_whole:
  assumes "whole C J node" and "all_events C J node = Inr es"
  shows "set es = ran (store_abs J (node_store node))"
  unfolding all_events_Inr(1) [OF wholeD(1) [OF assms(1)] assms(2)] wholeD(2) [OF assms(1)]
  using node_ok_abs(1) [OF wholeD(1) [OF assms(1)]] by (fastforce simp: ran_def)

text \<open>A store is determined by the identifiers it holds, among events with unique identifiers.\<close>

lemma keyed_ran:
  assumes uniq: "ids_unique U" and "F \<subseteq> U" and "ran M \<subseteq> U" and key: "\<And>i e. M i = Some e \<Longrightarrow> event_id e = i"
    and dom: "dom M = event_id ` F"
  shows "ran M = F"
proof (rule set_eqI)
  fix e
  show "e \<in> ran M \<longleftrightarrow> e \<in> F"
  proof
    assume "e \<in> ran M"
    then obtain i where i: "M i = Some e" by (auto simp: ran_def)
    then obtain f where f: "f \<in> F" "event_id f = i" using dom by (metis domI imageE)
    then have "f = e" using ids_uniqueD [OF uniq, of f e] assms(2,3) key [OF i] i by (auto intro: ranI)
    then show "e \<in> F" using f by simp
  next
    assume e: "e \<in> F"
    then obtain d where d: "M (event_id e) = Some d" using dom by (metis domD imageI)
    then have "d = e" using ids_uniqueD [OF uniq, of d e] assms(2,3) key [OF d] e by (auto intro: ranI)
    then show "e \<in> ran M" using d by (auto intro: ranI)
  qed
qed

lemma whole_ids: "whole C J node \<Longrightarrow> dom (store_abs J (node_store node)) = event_id ` ran (store_abs J (node_store node))"
  using node_ok_abs(1) [OF wholeD(1)] by (fastforce simp: ran_def dom_def image_iff)

text \<open>Ingesting an event whose parents are known adds exactly this event.\<close>

lemma ingest_single:
  assumes w: "whole C J node" and uniq: "ids_unique (insert e (ran (store_abs J (node_store node))))"
    and par: "set (parents (content e)) \<subseteq> node_known node"
    and ing: "ingest C J node [e] = (Inr r, node')"
  shows "whole C J node'" and "ran (store_abs J (node_store node')) = insert e (ran (store_abs J (node_store node)))"
proof -
  have uniq': "ids_unique (universe J node [e])" using uniq by (simp add: universe_def)
  show w': "whole C J node'" by (rule whole_ingest [OF w uniq' ing])
  obtain c where c: "ingest_check C node [e] = Inr c" by (rule ingest_Inr_loop [OF ing])
  have map: "batch_map [e] = [event_id e \<mapsto> e]" by (auto simp: batch_map_def bt_get_of_list)
  have "event_id e \<in> ingest_closure (node_known node) (batch_map [e])"
    by (rule closure_ready [of _ _ e]) (use par in \<open>auto simp: map intro: closure_known\<close>)
  then have "ingest_closure (node_known node) (batch_map [e]) = insert (event_id e) (node_known node)"
    using closure_subset [of "node_known node" "batch_map [e]"] by (auto simp: map intro: closure_known split: if_splits)
  then have "node_known node' = insert (event_id e) (node_known node)"
    using ingest_computes_closure(1) [OF wholeD(1) [OF w] uniq' ing] by simp
  then have "dom (store_abs J (node_store node')) = event_id ` insert e (ran (store_abs J (node_store node)))"
    using wholeD(2) [OF w] wholeD(2) [OF w'] whole_ids [OF w] by simp
  then show "ran (store_abs J (node_store node')) = insert e (ran (store_abs J (node_store node)))"
    using ingest_frame [OF wholeD(1) [OF w] uniq' c ing] node_ok_abs(1) [OF wholeD(1) [OF w']]
    by (intro keyed_ran [OF uniq]) (auto simp: universe_def)
qed

section \<open>Databases\<close>

definition database :: "'k node_state \<Rightarrow> cli_world \<Rightarrow> event_store" where
  "database st w =
     \<lparr>events_table = (case w_databases w (database_path st) of None \<Rightarrow> [] | Some t \<Rightarrow> t), sql_fails = w_sql w\<rparr>"

text \<open>The events the database of a state holds.\<close>

definition stored :: "'k cli_params \<Rightarrow> 'k node_state \<Rightarrow> cli_world \<Rightarrow> signed_event set" where
  "stored X st w = ran (store_abs (cp_events X) (database st w))"

lemma store_abs_table: "events_table s = events_table t \<Longrightarrow> store_abs J s = store_abs J t"
  by (simp add: store_abs_def fun_eq_iff)

lemma whole_store_table: "events_table s = events_table t \<Longrightarrow> whole_store C J c s = whole_store C J c t"
  using store_abs_table [of s t J] by (simp add: whole_store_def whole_def node_ok_def store_ok_def)

lemma database_simps [simp]:
  "database st (w\<lparr>w_fs := fs\<rparr>) = database st w" "database st (w\<lparr>w_output := out\<rparr>) = database st w"
  "events_table (database st (save_table st s w)) = events_table s"
  by (simp_all add: database_def)

lemma stored_simps [simp]:
  "stored X st (w\<lparr>w_fs := fs\<rparr>) = stored X st w" "stored X st (w\<lparr>w_output := out\<rparr>) = stored X st w"
  "stored X st (save_table st s w) = ran (store_abs (cp_events X) s)"
  using store_abs_table [of "database st (save_table st s w)" s] by (simp_all add: stored_def)

lemma whole_store_save [simp]: "whole_store C J c (database st (save_table st s w)) = whole_store C J c s"
  by (rule whole_store_table) simp

lemma open_store_Inr:
  assumes "open_store st w = (Inr s, w')"
  shows "s = database st w" and "w' = save_table st s w"
  using assms by (auto simp: open_store_def store_open_def database_def split: sum.splits if_splits)

lemma open_community_Inr:
  assumes "open_community X st c w = (Inr core, w')"
  shows "node_open (cp_crypto X) (cp_events X) (database st w) (Some c) = Inr core"
    and "w' = save_table st (database st w) w"
  using assms
  by (auto simp: open_community_def op_bind_Inr_iff op_lift_def op_fail_def map_err_Inr_iff dest: open_store_Inr
      split: if_splits)

lemma on_node_Inr:
  assumes "on_node st core m w = (Inr (x, core'), w')"
  shows "m core = (Inr x, core')" and "w' = save_table st (node_store core') w"
  using assms by (auto simp: on_node_def Let_def split: prod.splits sum.splits)

lemma node_ingest_Inr:
  "node_ingest X events core = (Inr r, core') \<longleftrightarrow>
     ingest (cp_crypto X) (cp_events X) core events = (Inr r, core')"
  by (auto simp: node_ingest_def map_err_Inr_iff split: prod.splits)

text \<open>Publishing an event: create it on the heads, have the community accept it, store it.\<close>

lemma local_event_Inr:
  assumes w: "whole (cp_crypto X) (cp_events X) core" and e: "local_event X st c core clock pl = Inr e"
  shows "set (parents (content e)) \<subseteq> node_known core"
    and "author_id (cp_crypto X) e = Inr (identity_user_id (cp_crypto X) (state_user st))"
    and "codec_lossless (cp_payloads X) \<Longrightarrow> \<forall>p n. pl \<noteq> CommunityCreate p n \<Longrightarrow> decode (cp_payloads X) e = Inr pl"
    and "validate_event (cp_crypto X) e = Inr () \<Longrightarrow> e \<notin> ran (store_abs (cp_events X) (node_store core))"
proof -
  obtain hs now bs where hs: "heads (cp_crypto X) (cp_events X) core = Inr hs" and bs: "to_vec (cp_payloads X) pl = Some bs"
    and e_def: "e = create_signed (cp_crypto X)
       \<lparr>protocol_version = PROTOCOL_VERSION, community_id = Some c, parents = hs,
        timestamp_ms = now, event_type = event_type_of pl, payload = bs\<rparr> (state_user st)"
    using e by (auto simp: local_event_def create_chat_event_def res_simps ok_or_Inr_iff)
  note heads = heads_Inr [OF wholeD(1) [OF w] hs]
  have par: "set (parents (content e)) = set hs" by (simp add: e_def)
  show "set (parents (content e)) \<subseteq> node_known core" using heads(2) par by auto
  show "author_id (cp_crypto X) e = Inr (identity_user_id (cp_crypto X) (state_user st))"
    unfolding e_def by (rule create_signed_author)
  show "decode (cp_payloads X) e = Inr pl"
    if "codec_lossless (cp_payloads X)" and "\<forall>p n. pl \<noteq> CommunityCreate p n"
    using codec_losslessD [OF that(1) bs] that(2) by (cases pl) (simp_all add: decode_def e_def)
  show "e \<notin> ran (store_abs (cp_events X) (node_store core))" if v: "validate_event (cp_crypto X) e = Inr ()"
  proof
    assume "e \<in> ran (store_abs (cp_events X) (node_store core))"
    then obtain i where i: "store_abs (cp_events X) (node_store core) i = Some e" by (auto simp: ran_def)
    then have "i \<in> node_known core" using wholeD(2) [OF w] by blast
    then have none: "set hs \<inter> set (parents (content e)) = {}" using heads(2) i by blast
    have "parents (content e) \<noteq> []" using valid_event_genesis_iff [OF v] by (simp add: e_def)
    then show False using none par by (metis inf.idem set_empty)
  qed
qed

lemma publish_ok:
  assumes w: "whole_store (cp_crypto X) (cp_events X) c (database st w)"
    and op: "open_community X st c w = (Inr core, w1)" and e: "local_event X st c core clock pl = Inr e"
    and ing: "on_node st core (node_ingest X [e]) w1 = (Inr r, w2)"
    and free: "collision_free (cp_crypto X) (insert e (stored X st w))"
  shows "whole_store (cp_crypto X) (cp_events X) c (database st w2)"
    and "stored X st w2 = insert e (stored X st w)" and "e \<notin> stored X st w"
proof -
  let ?C = "cp_crypto X" and ?J = "cp_events X"
  note core = node_open_whole [OF w open_community_Inr(1) [OF op]]
  have st: "stored X st w = ran (store_abs ?J (node_store core))" by (simp add: stored_def core(1))
  obtain rep core' where r: "r = (rep, core')" by fastforce
  have i: "ingest ?C ?J core [e] = (Inr rep, core')" and w2: "w2 = save_table st (node_store core') w1"
    using on_node_Inr [OF ing [unfolded r]] by (simp_all add: node_ingest_Inr)
  obtain c' where check: "ingest_check ?C core [e] = Inr c'" by (rule ingest_Inr_loop [OF i])
  have v: "validate_event ?C e = Inr ()" using ingest_check_Inr(2) [OF check] by simp
  have "\<forall>d \<in> insert e (stored X st w). validate_event ?C d = Inr ()"
    using v node_ok_abs(2) [OF wholeD(1) [OF core(2)]] by (auto simp: st ran_def)
  then have uniq: "ids_unique (insert e (ran (store_abs ?J (node_store core))))"
    using collision_free_ids_unique [OF free] by (simp add: st)
  note one = ingest_single [OF core(2) uniq local_event_Inr(1) [OF core(2) e] i]
  have "node_community core' = Some c"
    using ingest_frame [OF wholeD(1) [OF core(2)] _ check i] uniq by (simp add: universe_def core(1))
  then show "whole_store ?C ?J c (database st w2)" unfolding w2 whole_store_save by (rule whole_store_of_node [OF one(1)])
  show "stored X st w2 = insert e (stored X st w)" using one(2) by (simp add: w2 st)
  show "e \<notin> stored X st w" using local_event_Inr(4) [OF core(2) e v] by (simp add: st)
qed

lemma candidate_accepted:
  assumes w: "whole (cp_crypto X) (cp_events X) core" and acc: "require_candidate_accepted X core e = Inr ()"
    and free: "collision_free (cp_crypto X) (insert e (ran (store_abs (cp_events X) (node_store core))))"
    and es: "set es = insert e (ran (store_abs (cp_events X) (node_store core)))"
    and v: "validate_event (cp_crypto X) e = Inr ()"
  shows "\<exists>R. resolve (cp_crypto X) (cp_payloads X) es = Inr R \<and> event_id e \<in> snap_event_ids (snapshot R)"
proof -
  let ?C = "cp_crypto X"
  obtain cs R where cs: "all_events ?C (cp_events X) core = Inr cs"
    and R: "resolve ?C (cp_payloads X) (cs @ [e]) = Inr R" "event_id e \<in> snap_event_ids (snapshot R)"
    using acc by (auto simp: require_candidate_accepted_def res_simps)
  have set: "set es = set (cs @ [e])" using es all_events_whole [OF w cs] by simp
  have valid: "\<forall>d \<in> set es. validate_event ?C d = Inr ()"
    using v node_ok_abs(2) [OF wholeD(1) [OF w]] by (auto simp: es ran_def)
  then have "ids_unique (set es)" using collision_free_ids_unique free by (simp add: es)
  then have "resolve ?C (cp_payloads X) es = resolve ?C (cp_payloads X) (cs @ [e])"
    by (rule resolve_same_set [OF set _ valid])
  then show ?thesis using R by simp
qed

section \<open>Export and import\<close>

text \<open>What every ingestion of events from \<open>E\<close> keeps, an import from \<open>E\<close> keeps.\<close>

lemma ingest_batches_rule:
  assumes step: "\<And>core batch r core'. P core \<Longrightarrow> set batch \<subseteq> E \<Longrightarrow> ingest C J core batch = (r, core') \<Longrightarrow> P core'"
    and "P core" and "set (bt_values pending) \<subseteq> E" and "ingest_batches C J pending ids n core = (res, core')"
  shows "P core'"
  using assms(2-4)
proof (induction ids arbitrary: pending n core)
  case Nil
  then show ?case by (simp add: op_return_def)
next
  case (Cons i ids)
  let ?batch = "fst (take_batch pending i)" and ?pending = "snd (take_batch pending i)"
  obtain r core1 where b: "ingest C J core ?batch = (r, core1)" by fastforce
  have sub: "set ?batch \<subseteq> E" "set (bt_values ?pending) \<subseteq> E"
    using take_batch_values [of pending i] Cons.prems(2) by auto
  have one: "P core1" by (rule step [OF Cons.prems(1) sub(1) b])
  show ?case
  proof (cases "ingest_batch C J ?batch core")
    case (Pair r' core2)
    then have "core2 = core1" using b by (auto simp: ingest_batch_def split: sum.splits if_splits)
    then show ?thesis
      using Cons.prems(3) Cons.IH [OF one sub(2)] Pair one
      by (cases r') (auto simp: split_beta op_bind_def)
  qed
qed

lemma ingest_archive_rule:
  assumes "\<And>core batch r core'. P core \<Longrightarrow> set batch \<subseteq> set events \<Longrightarrow> ingest C J core batch = (r, core') \<Longrightarrow> P core'"
    and "P core" and "ids_unique (set events)" and "ingest_archive C J events core = (res, core')"
  shows "P core'"
proof (cases "archive_order (pending_of (node_known core) events) (node_known core)")
  case (Inl err)
  then show ?thesis using assms(2,4) by (simp add: ingest_archive_def op_bind_def op_lift_def Let_def)
next
  case (Inr order)
  let ?pending = "pending_of (node_known core) events"
  obtain r core1 where b: "ingest_batches C J ?pending (chunks MAX_PENDING_EVENTS order) 0 core = (r, core1)" by fastforce
  have sub: "set (bt_values ?pending) \<subseteq> set events" using pending_of_values [OF assms(3)] by auto
  have "P core1"
  proof (rule ingest_batches_rule [where P = P, OF _ assms(2) sub b])
    show "P core''" if "P a" "set batch \<subseteq> set events" "ingest C J a batch = (r', core'')" for a batch r' core''
      using that by (rule assms(1))
  qed
  moreover have "core' = core1"
    using assms(4) b Inr by (cases r) (auto simp: ingest_archive_def op_bind_def op_lift_def op_return_def Let_def)
  ultimately show ?thesis by simp
qed

lemma in_community_unique: "in_community c e \<Longrightarrow> in_community d e \<Longrightarrow> c = d"
  by (auto simp: in_community_def split: option.splits)

lemma ingest_archive_whole:
  assumes w: "whole C J core" and uniq: "ids_unique (universe J core events)"
    and valid: "\<forall>e \<in> set events. validate_event C e = Inr ()"
    and hist: "community_history c (set events)"
    and wf: "wf (parent_relation (set events))"
    and run: "ingest_archive C J events core = (Inr r, core')"
  shows "whole_store C J c (node_store core')"
    and "ran (store_abs J (node_store core')) = set events \<union> ran (store_abs J (node_store core))"
proof -
  let ?U = "universe J core events"
  have uniqe: "ids_unique (set events)" by (rule ids_unique_subset [OF uniq]) (simp add: universe_def)
  have step: "whole C J b \<and> ran (store_abs J (node_store b)) \<subseteq> ?U"
    if a: "whole C J a \<and> ran (store_abs J (node_store a)) \<subseteq> ?U" and sub: "set batch \<subseteq> set events"
      and ing: "ingest C J a batch = (res, b)" for a batch res b
  proof -
    have inU: "universe J a batch \<subseteq> ?U" using a sub by (auto simp: universe_def)
    have u: "ids_unique (universe J a batch)" by (rule ids_unique_subset [OF uniq inU])
    have "ran (store_abs J (node_store b)) \<subseteq> universe J a batch"
    proof (cases "ingest_check C a batch")
      case (Inl err)
      then show ?thesis using ing by (auto simp: ingest_def universe_def)
    next
      case (Inr c)
      then show ?thesis using ingest_frame [OF wholeD(1) [OF conjunct1 [OF a]] u Inr ing] by blast
    qed
    then show ?thesis using whole_ingest [OF conjunct1 [OF a] u ing] inU by blast
  qed
  have "whole C J core' \<and> ran (store_abs J (node_store core')) \<subseteq> ?U"
    by (rule ingest_archive_rule [where P = "\<lambda>a. whole C J a \<and> ran (store_abs J (node_store a)) \<subseteq> ?U", OF step _ uniqe run])
      (use w in \<open>auto simp: universe_def\<close>)
  then have w': "whole C J core'" and ran: "ran (store_abs J (node_store core')) \<subseteq> ?U" by auto
  have closed: "\<forall>e \<in> set events. set (parents (content e)) \<subseteq> node_known core \<union> event_id ` set events"
    using hist by (auto simp: community_history_def)
  have "node_known core' = node_known core \<union> event_id ` set events"
    using ingest_archive_ok [OF wholeD(1) [OF w] uniq valid closed wf run] by (cases r) simp
  then have dom: "dom (store_abs J (node_store core')) = event_id ` (set events \<union> ran (store_abs J (node_store core)))"
    using wholeD(2) [OF w] wholeD(2) [OF w'] whole_ids [OF w] by auto
  show *: "ran (store_abs J (node_store core')) = set events \<union> ran (store_abs J (node_store core))"
    by (rule keyed_ran [OF uniq _ ran _ dom]) (auto simp: universe_def node_ok_abs(1) [OF wholeD(1) [OF w']])
  obtain g where g: "g \<in> set events" using hist by (auto simp: community_history_def)
  then have "event_id g \<in> node_known core'" using wholeD(2) [OF w'] dom by auto
  moreover have "store_abs J (node_store core') (event_id g) = Some g"
  proof -
    have "g \<in> ran (store_abs J (node_store core'))" using g * by simp
    then obtain i where i: "store_abs J (node_store core') i = Some g" by (auto simp: ran_def)
    then show ?thesis using node_ok_abs(1) [OF wholeD(1) [OF w'] i] by simp
  qed
  ultimately obtain c' where "node_community core' = Some c'" "in_community c' g"
    using node_ok_known [OF wholeD(1) [OF w'], of "event_id g"] by (metis option.inject)
  moreover have "in_community c g" using g hist by (auto simp: community_history_def)
  ultimately have "node_community core' = Some c" using in_community_unique by blast
  then show "whole_store C J c (node_store core')" by (rule whole_store_of_node [OF w'])
qed

end
