(* ===== verification/Archive_Transfer.thy ===== *)
theory Archive_Transfer
  imports Commands_Correct
begin

text \<open>
  Moving a community between state directories: what \<open>export-community\<close> writes, and that
  \<open>import-community\<close> restores it whenever the disk and the database work (\<open>healthy\<close>).
\<close>

section \<open>Working storage\<close>

definition healthy :: "cli_world \<Rightarrow> bool" where
  "healthy w \<longleftrightarrow> fs_fault (w_fs w) = (\<lambda>_. None) \<and> w_sql w = (\<lambda>_. False) \<and> w_flush w = None"

lemma healthyD:
  assumes "healthy w"
  shows "fs_try call (w_fs w) = Inr ()" and "w_sql w q = False" and "w_flush w = None"
  using assms by (simp_all add: healthy_def fs_try_def)

lemma store_insert_sql: "store_insert C J s e = Inr (out, s') \<Longrightarrow> sql_fails s' = sql_fails s"
  by (auto simp: store_insert_def res_bind_Inr_iff split: if_splits)

lemma ingest_sql:
  assumes "ingest C J node events = (r, node')"
  shows "sql_fails (node_store node') = sql_fails (node_store node)"
proof (cases "ingest_check C node events")
  case (Inl err)
  then show ?thesis using assms by (simp add: ingest_def)
next
  case (Inr c)
  let ?st = "\<lparr>ing_node = node, ing_pending = bt_of_list (map (\<lambda>e. (event_id e, e)) events),
           ing_inserted = 0, ing_already_present = 0\<rparr>"
  let ?I = "\<lambda>st :: ingest_state. sql_fails (node_store (ing_node st)) = sql_fails (node_store node)"
  have "case ingest_loop C J c ?st of
      Inl (err, n) \<Rightarrow> \<exists>st. ?I st \<and> n = ing_node st
    | Inr st \<Rightarrow> ?I st \<and> bt_ok (ing_pending st) \<and> ingest_ready st = []"
    by (rule ingest_loop_rule [where I = ?I])
      (auto elim!: ingest_one_Inr dest: store_insert_sql)
  then show ?thesis using assms Inr by (auto simp: ingest_def split: sum.splits)
qed

lemma node_events_total:
  assumes "store_ok C J (node_store node)" and "\<forall>i. \<not> sql_fails (node_store node) (SqlSelect i)"
  shows "\<exists>es. node_events C J node ids = Inr es"
  using assms by (induction ids) (auto simp: store_get_ok)

lemma all_events_total:
  assumes "node_ok C J node" and "\<forall>i. \<not> sql_fails (node_store node) (SqlSelect i)"
  shows "\<exists>es. all_events C J node = Inr es"
  unfolding all_events_def by (rule node_events_total) (use assms in \<open>simp_all add: node_ok_def\<close>)

section \<open>Export\<close>

lemma with_lock_Inr:
  assumes "with_lock st m w = (Inr x, w')"
  obtains fs w1 where "acquire_lock st (w_fs w) = (Inr (), fs)" and "m (w\<lparr>w_fs := fs\<rparr>) = (Inr x, w1)"
    and "w' = w1\<lparr>w_fs := release_lock st (w_fs w1)\<rparr>"
  using assms by (auto simp: with_lock_def op_bind_Inr_iff on_fs_def map_err_Inr_iff split: prod.splits)

lemma acquire_lock_frame:
  assumes "acquire_lock st fs = (r, fs')"
  shows "fs_fault fs' = fs_fault fs"
    and "path \<noteq> join_path (state_directory st) LOCK_FILE \<Longrightarrow> fs_entries fs' path = fs_entries fs path"
  using assms by (auto simp: acquire_lock_def Let_def split: if_splits sum.splits option.splits fs_entry.splits)

lemma println_simp [simp]: "println line w = (Inr (), w\<lparr>w_output := w_output w @ [line @ [CHR 0x0A]]\<rparr>)"
  by (simp add: println_def print_text_def op_modify_def)

lemma flush_Inr [simp]: "flush w = (Inr u, w') \<longleftrightarrow> w_flush w = None \<and> w' = w"
  by (auto simp: flush_def split: option.splits)

lemma write_file_Inr:
  assumes "on_output_fs (create_private_output path) w = (Inr u, w1)" and "on_output_fs (write_output path bs) w1 = (Inr v, w2)"
  shows "fs_entries (w_fs w2) path = Some (FsFile (masked 384 (w_fs w1)) bs)" and "w2 = w\<lparr>w_fs := w_fs w2\<rparr>"
proof -
  show "fs_entries (w_fs w2) path = Some (FsFile (masked 384 (w_fs w1)) bs)"
    using assms(2) by (auto simp: on_output_fs_def write_output_def map_err_Inr_iff split: prod.splits sum.splits)
  show "w2 = w\<lparr>w_fs := w_fs w2\<rparr>"
    using assms by (auto simp: on_output_fs_def split: prod.splits)
qed

lemma export_ok:
  assumes w: "whole_store (cp_crypto X) (cp_events X) c (database st w)"
    and "load_state X opts w = (Inr st, w)"
    and "res_bind (require_one opts ''--community'') (parse_community X) = Inr c"
    and "require_one opts ''--output'' = Inr path"
    and run: "command_export_community X opts w = (Inr (), w')"
  shows "\<exists>es bs m. archive_encode (cp_crypto X) (cp_archive X) c es = Inr bs \<and> set es = stored X st w \<and>
    fs_entries (w_fs w') path = Some (FsFile m bs)"
proof -
  let ?C = "cp_crypto X" and ?J = "cp_events X"
  let ?body = "op_bind (op_lift (res_bind (require_one opts ''--community'') (parse_community X))) (\<lambda>community.
     op_bind (open_community X st community) (\<lambda>core.
     op_bind (op_lift (map_err CliNode (all_events ?C ?J core))) (\<lambda>events.
     op_bind (op_lift (map_err CliArchive (archive_encode ?C (cp_archive X) community events))) (\<lambda>bs.
     op_bind (op_lift (require_one opts ''--output'')) (\<lambda>path.
     op_bind (on_output_fs (create_private_output path)) (\<lambda>_.
     op_bind (on_output_fs (write_output path bs)) (\<lambda>_.
     op_bind (println (''EXPORTED_COMMUNITY='' @ cp_hex_encode X (community_bytes community))) (\<lambda>_.
     op_bind (println (''EXPORTED_EVENTS='' @ show_nat (card (node_known core)))) (\<lambda>_.
     op_bind (println (''EXPORTED_BYTES='' @ show_nat (length bs))) (\<lambda>_.
     flush))))))))))"
  have "with_lock st ?body w = (Inr (), w')"
    using run assms(2) by (simp add: command_export_community_def op_bind_Inr_iff) (auto simp: op_lift_def)
  then obtain fs w1 where lock: "acquire_lock st (w_fs w) = (Inr (), fs)"
    and body: "?body (w\<lparr>w_fs := fs\<rparr>) = (Inr (), w1)" and w': "w' = w1\<lparr>w_fs := release_lock st (w_fs w1)\<rparr>"
    by (rule with_lock_Inr)
  obtain core es bs w2 w3 w4 where core: "open_community X st c (w\<lparr>w_fs := fs\<rparr>) = (Inr core, w2)"
    and es: "all_events ?C ?J core = Inr es" and bs: "archive_encode ?C (cp_archive X) c es = Inr bs"
    and written: "on_output_fs (create_private_output path) w2 = (Inr (), w3)"
      "on_output_fs (write_output path bs) w3 = (Inr (), w4)" and w1: "w_fs w1 = w_fs w4"
    using body assms(3,4) by (auto simp: op_bind_Inr_iff op_lift_def map_err_Inr_iff)
  have "whole_store ?C ?J c (database st (w\<lparr>w_fs := fs\<rparr>))" using w by simp
  note node = node_open_whole [OF this open_community_Inr(1) [OF core]]
  have "set es = stored X st w" using all_events_whole [OF node(2) es] by (simp add: node(1) stored_def)
  moreover have "fs_entries (w_fs w') path = Some (FsFile (masked 384 (w_fs w3)) bs)"
    using write_file_Inr(1) [OF written] w1 by (simp add: w' release_lock_def)
  ultimately show ?thesis using bs by blast
qed

section \<open>Import\<close>

lemma op_bind_Inr [simp]: "m s = (Inr x, t) \<Longrightarrow> op_bind m f s = f x t"
  by (simp add: op_bind_def)

lemma ingest_archive_sql:
  assumes "ids_unique (set events)" and "ingest_archive C J events core = (res, core')"
  shows "sql_fails (node_store core') = sql_fails (node_store core)"
  by (rule ingest_archive_rule [where P = "\<lambda>n. sql_fails (node_store n) = sql_fails (node_store core)", OF _ refl assms])
    (simp add: ingest_sql)

lemma whole_empty:
  assumes "codec_lossless J" and "events_table s = []"
  shows "whole C J \<lparr>node_store = s, node_community = None, node_known = {}\<rparr>" and "store_abs J s = Map.empty"
proof -
  show abs: "store_abs J s = Map.empty" using assms(2) by (simp add: store_abs_def bt_get_def fun_eq_iff)
  show "whole C J \<lparr>node_store = s, node_community = None, node_known = {}\<rparr>"
    using assms by (simp add: whole_def node_ok_def store_ok_def abs)
qed

lemma read_archive_ok:
  assumes "healthy w" and "fs_entries (w_fs w) path = Some (FsFile m bs)" and "length bs \<le> MAX_ARCHIVE_BYTES"
  shows "read_archive_file path w = (Inr bs, w)"
  using assms healthyD(1) [OF assms(1)] by (simp add: read_archive_file_def read_limited_def)

text \<open>Ingesting an archive into an empty database.\<close>

lemma ingest_archive_fresh:
  assumes "codec_lossless J" and "events_table s = []" and "sql_fails s = (\<lambda>_. False)"
    and valid: "validate_wire C wire = Inr v"
    and enc: "\<forall>e \<in> set (archive_events v). \<exists>b. to_vec J e = Some b"
    and free: "collision_free C (set (archive_events v))" and wf: "wf (parent_relation (set (archive_events v)))"
  obtains inserted already core es
  where "ingest_archive C J (archive_events v) \<lparr>node_store = s, node_community = None, node_known = {}\<rparr> =
      (Inr (inserted, already), core)"
    and "ran (store_abs J (node_store core)) = set (archive_events v)"
    and "whole_store C J (archive_community v) (node_store core)"
    and "all_events C J core = Inr es" and "set es = set (archive_events v)"
    and "ids_unique (set es)" and "\<forall>e \<in> set es. validate_event C e = Inr ()"
proof -
  let ?core = "\<lparr>node_store = s, node_community = None, node_known = {}\<rparr>"
  let ?events = "archive_events v" and ?c = "archive_community v"
  note empty = whole_empty [OF assms(1,2)]
  have ev: "\<forall>e \<in> set ?events. validate_event C e = Inr ()" and hist: "community_history ?c (set ?events)"
    using valid by (auto simp: validate_wire_Inr_iff)
  have uniq: "ids_unique (set ?events)" by (rule collision_free_ids_unique [OF free ev])
  have U: "universe J ?core ?events = set ?events" by (simp add: universe_def empty(2))
  have uniqU: "ids_unique (universe J ?core ?events)" by (simp add: U uniq)
  have closed: "\<forall>e \<in> set ?events. set (parents (content e)) \<subseteq> node_known ?core \<union> event_id ` set ?events"
    using hist by (auto simp: community_history_def)
  have "storage_ready J (node_store ?core) (set ?events)" using assms(3) enc by (simp add: storage_ready_def)
  then obtain inserted already core where run: "ingest_archive C J ?events ?core = (Inr (inserted, already), core)"
    using ingest_archive_succeeds [OF wholeD(1) [OF empty(1)] uniqU ev closed wf, of ?c] hist
    by (auto simp: community_history_def)
  note whole = ingest_archive_whole [OF empty(1) uniqU ev hist wf run]
  have "node_ok C J core" using ingest_archive_ok [OF wholeD(1) [OF empty(1)] uniqU ev closed wf run] by blast
  moreover have "sql_fails (node_store core) = (\<lambda>_. False)" using ingest_archive_sql [OF uniq run] assms(3) by simp
  ultimately obtain es where es: "all_events C J core = Inr es" using all_events_total by fastforce
  have ran: "ran (store_abs J (node_store core)) = set ?events" using whole(2) by (simp add: empty(2))
  have "node_known core = dom (store_abs J (node_store core))"
    using ingest_archive_ok [OF wholeD(1) [OF empty(1)] uniqU ev closed wf run] ran
      store_abs_Some [OF whole_store_ok [OF whole(1)]] by (force simp: dom_def ran_def image_iff)
  then have "whole C J core" using \<open>node_ok C J core\<close> by (simp add: whole_def)
  then have "set es = set ?events" using all_events_whole es ran by blast
  then show thesis using that [OF run ran whole(1) es] uniq ev by simp
qed

lemma import_restores:
  assumes h: "healthy w" and st: "load_state X opts w = (Inr st, w)"
    and opts: "allow_only opts [''--state'', ''--input''] = Inr ()" "require_one opts ''--input'' = Inr path"
    and lock: "acquire_lock st (w_fs w) = (Inr (), fs)"
    and path: "path \<noteq> join_path (state_directory st) LOCK_FILE" "fs_entries (w_fs w) path = Some (FsFile m bs)"
    and v: "res_bind (archive_parse (cp_archive X) bs) (validate_wire (cp_crypto X)) = Inr v"
    and R: "resolve (cp_crypto X) (cp_payloads X) (archive_events v) = Inr R"
      "snap_community (snapshot R) = Some (archive_community v)"
    and empty: "events_table (database st w) = []"
    and J: "codec_lossless (cp_events X)" "\<forall>e \<in> set (archive_events v). \<exists>b. to_vec (cp_events X) e = Some b"
    and free: "collision_free (cp_crypto X) (set (archive_events v))"
    and wf: "wf (parent_relation (set (archive_events v)))"
  shows "\<exists>w'. command_import_community X opts w = (Inr (), w') \<and> stored X st w' = set (archive_events v) \<and>
    whole_store (cp_crypto X) (cp_events X) (archive_community v) (database st w')"
proof -
  let ?C = "cp_crypto X" and ?J = "cp_events X" and ?w0 = "w\<lparr>w_fs := fs\<rparr>"
  let ?s = "database st w"
  have h0: "healthy ?w0" using h acquire_lock_frame(1) [OF lock] by (simp add: healthy_def)
  obtain wire where wire: "archive_parse (cp_archive X) bs = Inr wire" "validate_wire ?C wire = Inr v"
    using v by (auto simp: res_bind_Inr_iff)
  have read: "read_archive_file path ?w0 = (Inr bs, ?w0)"
    using wire(1) path(2) acquire_lock_frame(2) [OF lock path(1)]
    by (intro read_archive_ok [OF h0]) (auto simp: archive_parse_def split: if_splits)
  have open_s: "open_store st ?w0 = (Inr ?s, save_table st ?s ?w0)"
    using healthyD(2) [OF h] by (simp add: open_store_def store_open_def database_def)
  have sql: "sql_fails ?s = (\<lambda>_. False)" using h by (simp add: database_def healthy_def)
  obtain inserted already core es where ing: "ingest_archive ?C ?J (archive_events v)
        \<lparr>node_store = ?s, node_community = None, node_known = {}\<rparr> = (Inr (inserted, already), core)"
    and ran: "ran (store_abs ?J (node_store core)) = set (archive_events v)"
    and whole: "whole_store ?C ?J (archive_community v) (node_store core)"
    and es: "all_events ?C ?J core = Inr es" "set es = set (archive_events v)" "ids_unique (set es)"
      "\<forall>e \<in> set es. validate_event ?C e = Inr ()"
    by (rule ingest_archive_fresh [OF J(1) empty sql wire(2) J(2) free wf])
  have R': "resolve ?C (cp_payloads X) es = Inr R" using resolve_same_set [OF es(2,3,4)] R(1) by simp
  let ?w1 = "save_table st (node_store core) (save_table st ?s ?w0)"
  have node: "on_node st \<lparr>node_store = ?s, node_community = None, node_known = {}\<rparr>
      (ingest_archive ?C ?J (archive_events v)) (save_table st ?s ?w0) = (Inr ((inserted, already), core), ?w1)"
    by (simp add: on_node_def ing)
  have flush1: "w_flush ?w1 = None" using healthyD(3) [OF h] by simp
  have "store_is_empty ?s = Inr True" using sql empty by (simp add: store_is_empty_def)
  then have "\<exists>out. command_import_community X opts w =
      (Inr (), ?w1\<lparr>w_output := out, w_fs := release_lock st fs\<rparr>)"
    using opts st lock read open_s v R R' es(1) node flush1
    by (simp add: command_import_community_def with_lock_def on_fs_def op_lift_def node_open_def
        archive_into_parts_def op_return_def Let_def flush_def)
      auto
  then obtain out where "command_import_community X opts w =
      (Inr (), ?w1\<lparr>w_output := out, w_fs := release_lock st fs\<rparr>)" by blast
  then show ?thesis using ran whole by simp
qed

end
