(* ===== verification/Cli_Guard.thy ===== *)
theory Cli_Guard
  imports Archive_Transfer Network_Refine
begin

text \<open>
  A node run by the command line client is guarded by its own community: after every event it handles,
  the peers it treats as authenticated are members of the community that its events resolve to, users
  named on the command line, or the declared home server.  An approved newcomer is such a member.
\<close>

section \<open>Finitely many peers\<close>

lemma dom_filter_some: "dom (\<lambda>p. case f p of None \<Rightarrow> None | Some d \<Rightarrow> if Q d then Some d else None) \<subseteq> dom f"
  by (auto split: option.splits)

lemma gate_move_finite: "gate_move E g g' \<Longrightarrow> finite (dom (gate_devices g)) \<Longrightarrow> finite (dom (gate_devices g'))"
  by (induction rule: gate_move.induct) (simp_all add: finite_subset [OF dom_filter_some])

lemma net_reachable_finite: "net_reachable E s \<Longrightarrow> finite (dom (authenticated_devices s))"
proof (induction rule: net_reachable.induct)
  case (start W device cert sync allowed revoked s)
  then show ?case using network_new_Inr [OF start] by (simp add: gate_init_def gate_of_def)
next
  case (step s input W)
  have "refines E s (net_step E W input s)"
    using net_step_refines [OF step.hyps(2), of E W] net_reachable_ok [OF step.hyps(1)] by simp
  then have "gate_of (net_step E W input s) = gate_of s \<or> gate_move E (gate_of s) (gate_of (net_step E W input s))"
    using net_reachable_ok [OF step.hyps(1)] by (auto simp: refines_def)
  moreover have dev: "gate_devices (gate_of t) = authenticated_devices t" for t by (simp add: gate_of_def)
  ultimately show ?case using gate_move_finite [of E "gate_of s"] step.IH unfolding dev [symmetric] by metis
qed

lemma replace_authorization_devices:
  assumes "set order = dom (authenticated_devices s)"
  shows "authenticated_devices (replace_authorization order users devices s) =
    (\<lambda>p. case authenticated_devices s p of None \<Rightarrow> None
         | Some d \<Rightarrow> if auth_user d \<in> users \<or> auth_device d \<in> devices then Some d else None)"
  using assms
  by (auto simp: replace_authorization_def Let_def fold_drop_peer(1) authorised_def fun_eq_iff split: option.splits)

lemma fold_drop_peer_sync: "net_sync (fold drop_peer ps s) = net_sync s"
  by (induction ps arbitrary: s) (simp_all add: drop_peer_def add_effect_def)

lemma replace_authorization_sync: "net_sync (replace_authorization order users devices s) = net_sync s"
  by (simp add: replace_authorization_def Let_def fold_drop_peer_sync)

lemma cli_replace_permitted:
  assumes "peer_order_ok X" and "finite (dom (authenticated_devices n))"
  shows "set (cp_peer_order X (dom (authenticated_devices n))) = dom (authenticated_devices n)"
  using assms by (simp add: peer_order_ok_def)

section \<open>Refreshing the authorisation\<close>

lemma grants_fold:
  assumes "try_fold (\<lambda>replacement grant.
      res_bind (validate_bootstrap_grant E s grant) (\<lambda>_. Inr (replacement(grant_invitation grant \<mapsto> grant)))) grants m = Inr m'"
  shows "dom m' = dom m \<union> grant_invitation ` set grants"
  using assms
proof (induction grants arbitrary: m)
  case (Cons grant grants)
  then have "dom m' = dom (m(grant_invitation grant \<mapsto> grant)) \<union> grant_invitation ` set grants"
    by (intro Cons.IH) (auto simp: res_bind_Inr_iff)
  then show ?case by auto
qed simp

lemma replace_bootstrap_grants_Inr:
  assumes "replace_bootstrap_grants E grants s = (Inr u, s')"
  shows "dom (bootstrap_grants s') = grant_invitation ` set grants" and "s' = s\<lparr>bootstrap_grants := bootstrap_grants s'\<rparr>"
proof -
  obtain m where m: "try_fold (\<lambda>replacement grant.
      res_bind (validate_bootstrap_grant E s grant) (\<lambda>_. Inr (replacement(grant_invitation grant \<mapsto> grant)))) grants Map.empty = Inr m"
    and s': "s' = s\<lparr>bootstrap_grants := m\<rparr>"
    using assms by (auto simp: replace_bootstrap_grants_def split: sum.splits)
  show "dom (bootstrap_grants s') = grant_invitation ` set grants" using grants_fold [OF m] by (simp add: s')
  show "s' = s\<lparr>bootstrap_grants := bootstrap_grants s'\<rparr>" by (simp add: s')
qed

lemma collect_grants_Inr:
  assumes "collect_grants X core invitations = Inr grants"
  shows "grant_invitation ` set grants = set (bt_keys invitations)"
  using assms
proof (induction invitations arbitrary: grants)
  case (Cons p invitations)
  then obtain g rest where "collect_grants X core invitations = Inr rest" "grants = g # rest" "grant_invitation g = fst p"
    by (cases p) (auto simp: collect_grants_def res_bind_Inr_iff)
  then show ?case using Cons.IH [of rest] by (simp add: bt_keys_def)
qed (simp add: collect_grants_def bt_keys_def)

text \<open>The node's peers and invitations agree with the community its events resolve to.\<close>

definition lets_in :: "'k cli_params \<Rightarrow> user_id set \<Rightarrow> chat_snapshot \<Rightarrow> authenticated_device \<Rightarrow> bool" where
  "lets_in X explicit snap d \<longleftrightarrow>
     auth_user d \<in> explicit \<union> snap_members snap \<or> auth_device d \<in> infrastructure_devices X (snap_home_server snap)"

definition guarded :: "'k cli_params \<Rightarrow> user_id set \<Rightarrow> network_node \<Rightarrow> bool" where
  "guarded X explicit n \<longleftrightarrow>
     (\<exists>es R. all_events (cp_crypto X) (cp_events X) (peer_node (net_sync n)) = Inr es \<and>
        resolve (cp_crypto X) (cp_payloads X) es = Inr R \<and>
        (\<forall>p \<in> authenticated n. \<exists>d. authenticated_devices n p = Some d \<and> lets_in X explicit (snapshot R) d) \<and>
        dom (bootstrap_grants n) = set (bt_keys (snap_active_invitations (snapshot R))))"

lemma refresh_guarded:
  assumes reach: "net_reachable (cp_network X) n" and order: "peer_order_ok X"
    and run: "refresh_network_authorization X explicit role key n = (Inr (), n')"
  shows "net_reachable (cp_network X) n'" and "guarded X explicit n'"
    and "net_sync n' = net_sync n"
    and "all_events (cp_crypto X) (cp_events X) (peer_node (net_sync n)) = Inr es \<Longrightarrow>
      resolve (cp_crypto X) (cp_payloads X) es = Inr R \<Longrightarrow> authenticated_devices n p = Some d \<Longrightarrow>
      lets_in X explicit (snapshot R) d \<Longrightarrow> p \<in> authenticated n'"
proof -
  obtain snap grants where prof: "refresh_profile X role key (peer_node (net_sync n)) = Inr (snap, grants)"
    using run by (auto simp: refresh_network_authorization_def split: sum.splits)
  let ?users = "explicit \<union> snap_members snap" and ?devices = "infrastructure_devices X (snap_home_server snap)"
  let ?m = "cli_replace_authorization X ?users ?devices n"
  have rg: "replace_bootstrap_grants (cp_network X) grants ?m = (Inr (), n')"
    using run prof by (auto simp: refresh_network_authorization_def map_err_Inr_iff split: prod.splits)
  obtain es' R' where es: "all_events (cp_crypto X) (cp_events X) (peer_node (net_sync n)) = Inr es'"
    and R: "resolve (cp_crypto X) (cp_payloads X) es' = Inr R'" and snap: "snap = snapshot R'"
    and grants: "collect_grants X (peer_node (net_sync n)) (snap_active_invitations (snapshot R')) = Inr grants"
    using prof by (auto simp: refresh_profile_def res_simps)
  note ord = cli_replace_permitted [OF order net_reachable_finite [OF reach]]
  have m: "net_reachable (cp_network X) ?m"
    using net_reachable.step [OF reach, of "ReplaceAuthorization (cp_peer_order X (dom (authenticated_devices n))) ?users ?devices"] ord
    by (simp add: cli_replace_authorization_def)
  show reach': "net_reachable (cp_network X) n'"
    using net_reachable.step [OF m, of "ReplaceGrants grants"] rg by simp
  note n' = replace_bootstrap_grants_Inr [OF rg]
  have dev: "authenticated_devices n' = authenticated_devices ?m" by (subst n'(2)) simp
  show sync: "net_sync n' = net_sync n"
    by (subst n'(2)) (simp add: cli_replace_authorization_def replace_authorization_sync)
  have devm: "authenticated_devices ?m = (\<lambda>p. case authenticated_devices n p of None \<Rightarrow> None
         | Some d \<Rightarrow> if auth_user d \<in> ?users \<or> auth_device d \<in> ?devices then Some d else None)"
    unfolding cli_replace_authorization_def by (rule replace_authorization_devices [OF ord])
  have auth: "authenticated n' = dom (authenticated_devices n')" "authenticated n = dom (authenticated_devices n)"
    using net_reachable_ok [OF reach'] net_reachable_ok [OF reach] by (auto simp: coupled_def)
  have "\<exists>d. authenticated_devices n' q = Some d \<and> lets_in X explicit (snapshot R') d"
    if "q \<in> authenticated n'" for q
    using that unfolding auth dev devm by (auto simp: lets_in_def snap split: option.splits if_splits)
  then show "guarded X explicit n'"
    unfolding guarded_def sync using es R n'(1) collect_grants_Inr [OF grants] by auto
  show "p \<in> authenticated n'"
    if "all_events (cp_crypto X) (cp_events X) (peer_node (net_sync n)) = Inr es"
      "resolve (cp_crypto X) (cp_payloads X) es = Inr R" "authenticated_devices n p = Some d"
      "lets_in X explicit (snapshot R) d"
    using that es R unfolding auth dev devm by (auto simp: lets_in_def snap)
qed

section \<open>Handling an event\<close>

lemma network_ingest_step:
  assumes "network_ingest X events n = (r, n')"
  obtains r' core where "ingest (cp_crypto X) (cp_events X) (peer_node (net_sync n)) events = (r', core)"
    and "n' = n\<lparr>net_sync := (net_sync n)\<lparr>peer_node := core\<rparr>\<rparr>"
    and "r = Inr () \<longleftrightarrow> (\<exists>report. r' = Inr report)"
  using assms
  by (cases "ingest (cp_crypto X) (cp_events X) (peer_node (net_sync n)) events")
    (auto simp: network_ingest_def node_ingest_def Let_def res_bind_Inr_iff map_err_Inr_iff)

lemma network_ingest_reachable:
  assumes "net_reachable E n" and "network_ingest X events n = (r, n')"
  shows "net_reachable E n'"
  using assms(2)
proof (rule network_ingest_step)
  fix r' core
  assume "n' = n\<lparr>net_sync := (net_sync n)\<lparr>peer_node := core\<rparr>\<rparr>"
  then show ?thesis
    using net_reachable.step [OF assms(1), of "SyncPeerMut ((net_sync n)\<lparr>peer_node := core\<rparr>)"] by simp
qed

lemma resolve_acceptance_reachable:
  assumes "net_reachable E n"
  shows "net_reachable E (snd (resolve_bootstrap_acceptance E W peer approved n))"
  using net_reachable.step [OF assms, of "ResolveAcceptance peer approved" W] by simp

lemma decide_reachable:
  assumes reach: "net_reachable (cp_network X) n"
    and run: "decide_acceptance X W peer user invn acceptance n = (r, n')"
  shows "net_reachable (cp_network X) n'"
proof -
  let ?first = "\<lambda>approved. if approved then network_ingest X [acceptance] else op_return ()"
  have first: "net_reachable (cp_network X) (snd (?first approved n))" for approved
    using network_ingest_reachable [OF reach, of X "[acceptance]"] reach
    by (cases "network_ingest X [acceptance] n") (simp add: op_return_def)
  have "n' = n \<or> (\<exists>approved. n' = snd (?first approved n)) \<or>
      (\<exists>approved. n' = snd (resolve_bootstrap_acceptance (cp_network X) W peer approved (snd (?first approved n))))"
    using run unfolding decide_acceptance_def Let_def op_bind_def
    by (auto split: sum.splits prod.splits if_splits simp: op_return_def)
  then show ?thesis using reach first resolve_acceptance_reachable by metis
qed

text \<open>Printing does not touch the node.\<close>

lemma on_world_node [simp]: "ses_node (snd (on_world m s)) = ses_node s"
  by (simp add: on_world_def split: prod.splits)

lemma say_each_node [simp]: "ses_node (snd (op_each say lines s)) = ses_node s"
proof (induction lines arbitrary: s)
  case (Cons line lines)
  have one: "say line s = (Inr (), snd (say line s))" by (simp add: say_def on_world_def)
  have "op_each say (line # lines) s = op_each say lines (snd (say line s))"
    using op_bind_Inr [of "say line" s "()" _ "\<lambda>_. op_each say lines", OF one] by simp
  then show ?case using Cons.IH [of "snd (say line s)"] by (simp only:) (simp add: say_def)
qed (simp add: op_return_def)

lemma network_event_step_reachable:
  assumes "net_reachable (cp_network X) (ses_node s)"
  shows "net_reachable (cp_network X) (ses_node (snd (network_event_step X W ev s)))"
proof (cases ev)
  case (BootstrapAcceptanceEvent peer user invn acceptance)
  obtain r n where "decide_acceptance X W peer user invn acceptance (ses_node s) = (r, n)" by fastforce
  with decide_reachable [OF assms this] show ?thesis
    by (cases r) (simp_all add: BootstrapAcceptanceEvent op_bind_def on_cli_node_def say_def)
qed (use assms in \<open>simp_all del: event_lines.simps op_each.simps\<close>)

text \<open>One round of the loop: handle the event, then refresh the authorisation.\<close>

lemma network_round_Inr:
  assumes reach: "net_reachable (cp_network X) (ses_node s)" and order: "peer_order_ok X"
    and run: "network_round X G W ev s = (Inr (), s')"
  obtains s1 where "network_event_step X W ev s = (Inr (), s1)"
    and "refresh_network_authorization X (nc_explicit_users G) (nc_role G) (device_key (state_device (nc_state G)))
      (ses_node s1) = (Inr (), ses_node s')"
    and "net_reachable (cp_network X) (ses_node s1)" and "net_reachable (cp_network X) (ses_node s')"
    and "guarded X (nc_explicit_users G) (ses_node s')"
proof -
  obtain s1 n where step: "network_event_step X W ev s = (Inr (), s1)"
    and ref: "refresh_network_authorization X (nc_explicit_users G) (nc_role G) (device_key (state_device (nc_state G)))
      (ses_node s1) = (Inr (), n)" and fl: "on_world flush (s1\<lparr>ses_node := n\<rparr>) = (Inr (), s')"
    using run by (auto simp: network_round_def op_bind_Inr_iff on_cli_node_def Let_def split: prod.splits) (metis prod.exhaust)
  have n: "ses_node s' = n" using on_world_node [of flush "s1\<lparr>ses_node := n\<rparr>"] fl by simp
  have r1: "net_reachable (cp_network X) (ses_node s1)"
    using network_event_step_reachable [OF reach, of W ev] step by simp
  show thesis
    using that [OF step] ref r1 refresh_guarded(1,2) [OF r1 order ref] by (simp add: n)
qed

text \<open>The node stays reachable through the whole loop, whatever ends it.\<close>

lemma next_event_reachable:
  "net_reachable E s \<Longrightarrow> next_event E evs s = (res, t) \<Longrightarrow> net_reachable E t"
proof (induction E evs s arbitrary: res t rule: next_event.induct)
  case (2 E W ev evs s)
  obtain r u where h: "handle_swarm_event E W ev s = (r, u)" by fastforce
  have u: "net_reachable E u" using net_reachable.step [OF 2(2), of "SwarmInput ev" W] h by simp
  show ?case using 2 u h by (auto split: sum.splits option.splits)
qed simp

lemma refresh_reachable:
  assumes reach: "net_reachable (cp_network X) n" and order: "peer_order_ok X"
  shows "net_reachable (cp_network X) (snd (refresh_network_authorization X explicit role key n))"
proof (cases "refresh_profile X role key (peer_node (net_sync n))")
  case (Inr p)
  let ?users = "explicit \<union> snap_members (fst p)" and ?devices = "infrastructure_devices X (snap_home_server (fst p))"
  let ?m = "cli_replace_authorization X ?users ?devices n"
  have "net_reachable (cp_network X) ?m"
    using net_reachable.step [OF reach, of "ReplaceAuthorization (cp_peer_order X (dom (authenticated_devices n))) ?users ?devices"]
      cli_replace_permitted [OF order net_reachable_finite [OF reach]]
    by (simp add: cli_replace_authorization_def)
  from net_reachable.step [OF this, of "ReplaceGrants (snd p)"] show ?thesis
    by (cases p) (simp add: refresh_network_authorization_def Inr Let_def split_beta)
qed (simp add: refresh_network_authorization_def reach)

lemma network_round_reachable:
  assumes "net_reachable (cp_network X) (ses_node s)" and "peer_order_ok X"
  shows "net_reachable (cp_network X) (ses_node (snd (network_round X G W ev s)))"
proof -
  obtain r s1 where step: "network_event_step X W ev s = (r, s1)" by fastforce
  have s1: "net_reachable (cp_network X) (ses_node s1)"
    using network_event_step_reachable [OF assms(1), of W ev] step by simp
  obtain r' n where ref: "refresh_network_authorization X (nc_explicit_users G) (nc_role G)
      (device_key (state_device (nc_state G))) (ses_node s1) = (r', n)" by fastforce
  have "net_reachable (cp_network X) n" using refresh_reachable [OF s1 assms(2)] ref by (metis snd_conv)
  then show ?thesis using step s1 ref
    by (cases r; cases r') (simp_all add: network_round_def op_bind_def on_cli_node_def)
qed

lemma sync_complete_node [simp]: "ses_node (snd (sync_complete s)) = ses_node s"
  by (simp add: sync_complete_def op_bind_def say_def on_world_def op_return_def split: prod.splits sum.splits)

lemma network_loop_reachable:
  assumes "net_reachable (cp_network X) (ses_node s)" and "peer_order_ok X"
  shows "net_reachable (cp_network X) (ses_node (snd (network_loop X G V started evs s)))"
  using assms
proof (induction X G V started evs s rule: network_loop.induct)
  case (1 X G V started evs s)
  show ?case
  proof (cases "idle_fires X G V started evs (ses_node s)")
    case (Some n)
    then have "\<exists>k res. next_event (cp_network X) (take k evs) (ses_node s) = (res, n)"
      by (auto simp: idle_fires_def split: if_splits option.splits prod.splits)
    then show ?thesis using next_event_reachable [OF 1(2)] Some by (auto simp: network_loop.simps)
  next
    case None
    obtain res rest n where nx: "next_event (cp_network X) evs (ses_node s) = ((res, rest), n)"
      by (metis prod.exhaust)
    have n: "net_reachable (cp_network X) n" by (rule next_event_reachable [OF 1(2) nx])
    show ?thesis
    proof (cases "\<exists>ev. res = Some (Inr ev)")
      case True
      then obtain ev where ev: "res = Some (Inr ev)" by blast
      let ?round = "network_round X G (sur_swarm V (length rest)) ev (s\<lparr>ses_node := n\<rparr>)"
      have r: "net_reachable (cp_network X) (ses_node (snd ?round))"
        using network_round_reachable [OF _ 1(3), of "s\<lparr>ses_node := n\<rparr>"] n by simp
      show ?thesis
        using r 1(1) [OF None nx [symmetric] refl _ refl] 1(3) None nx ev
        by (cases ?round) (auto simp: network_loop.simps [of X G V started evs s] split: sum.splits)
    next
      case False
      then show ?thesis
        using n None nx by (auto simp: network_loop.simps [of X G V started evs s] split: option.splits sum.splits)
    qed
  qed
qed

end
