(* ===== verification/Cli_Admission.thy ===== *)
theory Cli_Admission
  imports Cli_Guard
begin

text \<open>
  How a newcomer gets in: what \<open>decide_acceptance\<close> stores, that it lets in exactly those whose acceptance
  the community accepts, and that they are still let in after the authorisation is refreshed.
\<close>

section \<open>The decision\<close>

lemma resolve_accepted_parents:
  assumes R: "resolve C P events = Inr R" and uniq: "ids_unique (set events)"
    and e: "e \<in> set events" "event_id e \<in> snap_event_ids (snapshot R)"
  shows "set (parents (content e)) \<subseteq> event_id ` set events - {event_id e}"
proof (rule resolve_sound [OF R uniq])
  fix st assume run: "chat_run C P (set events) st (accepted_in_order R)"
    and snap: "snapshot R = snapshot_of st (set (accepted_in_order R))"
  have "event_id e \<in> set (accepted_in_order R)" using e(2) by (simp add: snap snapshot_of_def)
  then obtain before rest where split: "accepted_in_order R = before @ event_id e # rest" by (metis split_list)
  obtain d where d: "d \<in> set events" "event_id d = event_id e" "set (parents (content d)) \<subseteq> set before"
    by (rule chat_run_step [OF run [unfolded split]])
  have "d = e" by (rule ids_uniqueD [OF uniq d(1) e(1) d(2)])
  moreover have "set before \<subseteq> event_id ` set events" using chat_run_members [OF run] by (simp add: split)
  moreover have "event_id e \<notin> set before" using chat_run_distinct [OF run] by (simp add: split)
  ultimately show ?thesis using d(3) by blast
qed

lemma resolve_acceptance_True:
  assumes "resolve_bootstrap_acceptance E W peer True n = (Inr u, n')"
  obtains pending where "pending_acceptances n peer = Some pending" and "net_sync n' = net_sync n"
    and "peer \<in> authenticated n'" and "authenticated_devices n' peer = Some (acceptance_device pending)"
proof -
  obtain pending where p: "pending_acceptances n peer = Some pending"
    using assms by (cases "pending_acceptances n peer") (simp_all add: resolve_bootstrap_acceptance_def)
  let ?n1 = "n\<lparr>pending_acceptances := (pending_acceptances n)(peer := None),
       bootstrap_grants := (bootstrap_grants n)(acceptance_invitation pending := None),
       allowed_users := insert (auth_user (acceptance_device pending)) (allowed_users n),
       authenticated := insert peer (authenticated n),
       authenticated_devices := (authenticated_devices n)(peer \<mapsto> acceptance_device pending)\<rparr>"
  obtain v n2 where send: "send_response W (acceptance_channel pending) BootstrapAccepted ?n1 = (Inr v, n2)"
    and start: "maybe_start_sync E peer n2 = (Inr u, n')"
    using assms by (auto simp: resolve_bootstrap_acceptance_def p Let_def op_bind_Inr_iff)
  have "quiet ?n1 n2" "same_sync ?n1 n2"
    using quiet.send_response [of ?n1 W _ BootstrapAccepted] same_sync.send_response [of ?n1 W _ BootstrapAccepted] send
    by (metis snd_conv)+
  moreover have "quiet n2 n'" "same_sync n2 n'"
    using quiet.maybe_start_sync [of n2 E peer] same_sync.maybe_start_sync [of n2 E peer] start by (metis snd_conv)+
  ultimately have "gate_of n' = gate_of ?n1" "net_sync n' = net_sync n"
    by (simp_all add: quiet_def same_sync_def)
  then have "authenticated_devices n' = authenticated_devices ?n1"
    by (simp add: gate_of_def)
  moreover have "authenticated n' = authenticated n2"
    using maybe_start_sync_frame(1) [of E peer n2] start by simp
  moreover have "authenticated n2 = authenticated ?n1"
    using send by (auto simp: send_response_def add_effect_def split: if_splits)
  ultimately show thesis using that [OF p \<open>net_sync n' = net_sync n\<close>] by simp
qed

lemma decide_admits:
  fixes X n
  defines "N \<equiv> peer_node (net_sync n)"
  defines "E \<equiv> ran (store_abs (cp_events X) (node_store N))"
  assumes w: "whole (cp_crypto X) (cp_events X) N" and free: "collision_free (cp_crypto X) (insert acceptance E)"
    and run: "decide_acceptance X W peer user invn acceptance n = (Inr True, n')"
  shows "whole (cp_crypto X) (cp_events X) (peer_node (net_sync n'))"
    and "ran (store_abs (cp_events X) (node_store (peer_node (net_sync n')))) = insert acceptance E"
    and "\<exists>pending. pending_acceptances n peer = Some pending \<and> peer \<in> authenticated n' \<and>
      authenticated_devices n' peer = Some (acceptance_device pending)"
    and "\<And>es. set es = insert acceptance E \<Longrightarrow> \<exists>R. resolve (cp_crypto X) (cp_payloads X) es = Inr R \<and>
      event_id acceptance \<in> snap_event_ids (snapshot R) \<and> user \<in> snap_members (snapshot R) \<and>
      \<not> bt_contains_key (snap_active_invitations (snapshot R)) invn"
proof -
  let ?C = "cp_crypto X" and ?J = "cp_events X"
  let ?good = "\<lambda>R. event_id acceptance \<in> snap_event_ids (snapshot R) \<and> user \<in> snap_members (snapshot R) \<and>
     \<not> bt_contains_key (snap_active_invitations (snapshot R)) invn"
  obtain cs R where cs: "all_events ?C ?J N = Inr cs"
    and R: "resolve ?C (cp_payloads X) (cs @ [acceptance]) = Inr R"
    using run by (auto simp: decide_acceptance_def N_def res_simps split: sum.splits)
  obtain n1 r where first: "(if ?good R then network_ingest X [acceptance] else op_return ()) n = (Inr (), n1)"
    and second: "resolve_bootstrap_acceptance (cp_network X) W peer (?good R) n1 = (r, n')"
      "map_err CliNetwork (res_bind r (\<lambda>_. Inr (?good R))) = Inr True"
    using run R cs by (auto simp: decide_acceptance_def N_def [symmetric] Let_def op_bind_Inr_iff split: prod.splits)
      (metis prod.exhaust)
  have ok: "?good R" and ing: "network_ingest X [acceptance] n = (Inr (), n1)"
    and res: "resolve_bootstrap_acceptance (cp_network X) W peer True n1 = (Inr (), n')"
    using first second by (auto simp: map_err_Inr_iff res_bind_Inr_iff)
  have set: "set cs = E" using all_events_whole [OF w cs] by (simp add: E_def)
  obtain rep core where i: "ingest ?C ?J N [acceptance] = (Inr rep, core)"
    and n1: "n1 = n\<lparr>net_sync := (net_sync n)\<lparr>peer_node := core\<rparr>\<rparr>"
    using network_ingest_step [OF ing] by (metis N_def)
  obtain c where check: "ingest_check ?C N [acceptance] = Inr c" by (rule ingest_Inr_loop [OF i])
  have valid: "\<forall>d \<in> insert acceptance E. validate_event ?C d = Inr ()"
    using ingest_check_Inr(2) [OF check] node_ok_abs(2) [OF wholeD(1) [OF w]] by (auto simp: E_def ran_def)
  have uniq: "ids_unique (insert acceptance E)" by (rule collision_free_ids_unique [OF free valid])
  have par: "set (parents (content acceptance)) \<subseteq> node_known N"
    using resolve_accepted_parents [OF R _ _ conjunct1 [OF ok]] uniq set whole_ids [OF w] wholeD(2) [OF w] by (auto simp: E_def)
  note one = ingest_single [OF w uniq [unfolded E_def] par i]
  obtain pending where pending: "pending_acceptances n1 peer = Some pending" and sync: "net_sync n' = net_sync n1"
    and auth: "peer \<in> authenticated n'" "authenticated_devices n' peer = Some (acceptance_device pending)"
    by (rule resolve_acceptance_True [OF res])
  show "\<exists>R. resolve ?C (cp_payloads X) es = Inr R \<and> event_id acceptance \<in> snap_event_ids (snapshot R) \<and>
      user \<in> snap_members (snapshot R) \<and> \<not> bt_contains_key (snap_active_invitations (snapshot R)) invn"
    if es: "set es = insert acceptance E" for es
    using resolve_same_set [of es "cs @ [acceptance]" ?C "cp_payloads X"] es set uniq valid R ok by simp
  show "whole ?C ?J (peer_node (net_sync n'))" using one(1) by (simp add: sync n1)
  show "ran (store_abs ?J (node_store (peer_node (net_sync n')))) = insert acceptance E"
    using one(2) by (simp add: sync n1 E_def)
  show "\<exists>pending. pending_acceptances n peer = Some pending \<and> peer \<in> authenticated n' \<and>
      authenticated_devices n' peer = Some (acceptance_device pending)"
    using pending auth by (simp add: n1)
qed

text \<open>Whether the community with the events \<open>es\<close> lets the author of an acceptance in.\<close>

definition approves ::
  "'k cli_params \<Rightarrow> signed_event list \<Rightarrow> user_id \<Rightarrow> event_id \<Rightarrow> signed_event \<Rightarrow> bool" where
  "approves X es user invn acceptance \<longleftrightarrow>
     (case resolve (cp_crypto X) (cp_payloads X) (es @ [acceptance]) of
        Inl _ \<Rightarrow> False
      | Inr R \<Rightarrow> event_id acceptance \<in> snap_event_ids (snapshot R) \<and> user \<in> snap_members (snapshot R) \<and>
          \<not> bt_contains_key (snap_active_invitations (snapshot R)) invn)"

lemma decide_result:
  assumes "all_events (cp_crypto X) (cp_events X) (peer_node (net_sync n)) = Inr es"
    and "decide_acceptance X W peer user invn acceptance n = (Inr b, n')"
  shows "b \<longleftrightarrow> approves X es user invn acceptance" and "\<not> b \<Longrightarrow> net_sync n' = net_sync n"
proof -
  let ?good = "\<lambda>R. event_id acceptance \<in> snap_event_ids (snapshot R) \<and> user \<in> snap_members (snapshot R) \<and>
     \<not> bt_contains_key (snap_active_invitations (snapshot R)) invn"
  obtain R where R: "resolve (cp_crypto X) (cp_payloads X) (es @ [acceptance]) = Inr R"
    using assms by (auto simp: decide_acceptance_def map_err_Inr_iff split: sum.splits)
  obtain n1 r where first: "(if ?good R then network_ingest X [acceptance] else op_return ()) n = (Inr (), n1)"
    and second: "resolve_bootstrap_acceptance (cp_network X) W peer (?good R) n1 = (r, n')"
      "map_err CliNetwork (res_bind r (\<lambda>_. Inr (?good R))) = Inr b"
    using assms R by (auto simp: decide_acceptance_def Let_def op_bind_Inr_iff split: prod.splits)
      (metis prod.exhaust)
  show b: "b \<longleftrightarrow> approves X es user invn acceptance"
    using second(2) R by (auto simp: approves_def map_err_Inr_iff res_bind_Inr_iff)
  show "net_sync n' = net_sync n" if "\<not> b"
  proof -
    have no: "\<not> ?good R" using that b R by (simp add: approves_def)
    then have "n1 = n" using first by (auto simp: op_return_def)
    with second(1) no show ?thesis
      by (auto simp: resolve_bootstrap_acceptance_def send_response_def add_effect_def Let_def split: option.splits if_splits)
  qed
qed

section \<open>A round that decides\<close>

lemma network_round_decides:
  assumes "net_reachable (cp_network X) (ses_node s)" and "peer_order_ok X"
    and "network_round X G W (BootstrapAcceptanceEvent peer user invn acceptance) s = (Inr (), s')"
  obtains b n where "decide_acceptance X W peer user invn acceptance (ses_node s) = (Inr b, n)"
    and "refresh_network_authorization X (nc_explicit_users G) (nc_role G) (device_key (state_device (nc_state G))) n =
      (Inr (), ses_node s')"
    and "net_reachable (cp_network X) n"
proof (rule network_round_Inr [OF assms])
  fix s1
  assume step: "network_event_step X W (BootstrapAcceptanceEvent peer user invn acceptance) s = (Inr (), s1)"
    and ref: "refresh_network_authorization X (nc_explicit_users G) (nc_role G) (device_key (state_device (nc_state G)))
      (ses_node s1) = (Inr (), ses_node s')"
    and reach: "net_reachable (cp_network X) (ses_node s1)"
  obtain b n where d: "decide_acceptance X W peer user invn acceptance (ses_node s) = (Inr b, n)" and "ses_node s1 = n"
  proof -
    obtain r n where d: "decide_acceptance X W peer user invn acceptance (ses_node s) = (r, n)" by fastforce
    show thesis
    proof (cases r)
      case (Inl err)
      then show ?thesis using step d by (simp add: op_bind_def on_cli_node_def)
    next
      case (Inr b)
      then have "s1 = snd (say (''BOOTSTRAP_DECISION='' @ peer_to_string (cp_bootstrap X) peer @ '' approved='' @
          show_bool b) (s\<lparr>ses_node := n\<rparr>))"
        using step d by (simp del: append.simps add: op_bind_def on_cli_node_def)
      then have "ses_node s1 = n" by (simp only: say_def on_world_node) simp
      then show ?thesis using that d Inr by blast
    qed
  qed
  then show thesis using that [OF d] ref reach by simp
qed

text \<open>
  An approved newcomer's acceptance is stored, and the peer is still let in after the refresh; a refused
  one changes nothing of what is stored.
\<close>

lemma round_admits:
  fixes X s
  defines "N \<equiv> peer_node (net_sync (ses_node s))"
  defines "E \<equiv> ran (store_abs (cp_events X) (node_store N))"
  assumes reach: "net_reachable (cp_network X) (ses_node s)" and order: "peer_order_ok X"
    and w: "whole (cp_crypto X) (cp_events X) N" and free: "collision_free (cp_crypto X) (insert acceptance E)"
    and es: "all_events (cp_crypto X) (cp_events X) N = Inr es"
    and pending: "pending_acceptances (ses_node s) peer = Some a" "auth_user (acceptance_device a) = user"
    and run: "network_round X G W (BootstrapAcceptanceEvent peer user invn acceptance) s = (Inr (), s')"
  shows "approves X es user invn acceptance \<Longrightarrow>
      ran (store_abs (cp_events X) (node_store (peer_node (net_sync (ses_node s'))))) = insert acceptance E \<and>
      whole (cp_crypto X) (cp_events X) (peer_node (net_sync (ses_node s'))) \<and> peer \<in> authenticated (ses_node s')"
    and "\<not> approves X es user invn acceptance \<Longrightarrow> net_sync (ses_node s') = net_sync (ses_node s)"
proof -
  obtain b n where d: "decide_acceptance X W peer user invn acceptance (ses_node s) = (Inr b, n)"
    and ref: "refresh_network_authorization X (nc_explicit_users G) (nc_role G) (device_key (state_device (nc_state G))) n =
      (Inr (), ses_node s')" and n: "net_reachable (cp_network X) n"
    by (rule network_round_decides [OF reach order run])
  note b = decide_result [OF es [unfolded N_def] d]
  note fresh = refresh_guarded [OF n order ref]
  show "net_sync (ses_node s') = net_sync (ses_node s)" if "\<not> approves X es user invn acceptance"
    using b that fresh(3) by simp
  show "ran (store_abs (cp_events X) (node_store (peer_node (net_sync (ses_node s'))))) = insert acceptance E \<and>
      whole (cp_crypto X) (cp_events X) (peer_node (net_sync (ses_node s'))) \<and> peer \<in> authenticated (ses_node s')"
    if yes: "approves X es user invn acceptance"
  proof -
    have d': "decide_acceptance X W peer user invn acceptance (ses_node s) = (Inr True, n)" using d b(1) yes by simp
    note adm = decide_admits [OF w [unfolded N_def] free [unfolded E_def N_def] d']
    obtain fs where fs: "all_events (cp_crypto X) (cp_events X) (peer_node (net_sync n)) = Inr fs"
      using fresh(2) unfolding guarded_def fresh(3) by blast
    have "set fs = insert acceptance E" using all_events_whole [OF adm(1) fs] adm(2) by (simp add: E_def N_def)
    then obtain R where R: "resolve (cp_crypto X) (cp_payloads X) fs = Inr R" "user \<in> snap_members (snapshot R)"
      using adm(4) [of fs] by (auto simp: E_def N_def)
    have dev: "authenticated_devices n peer = Some (acceptance_device a)" using adm(3) pending(1) by auto
    have "lets_in X (nc_explicit_users G) (snapshot R) (acceptance_device a)"
      using R(2) pending(2) by (simp add: lets_in_def)
    then have "peer \<in> authenticated (ses_node s')" by (rule fresh(4) [OF fs R(1) dev])
    then show ?thesis using adm(1,2) by (simp add: fresh(3) E_def N_def)
  qed
qed

section \<open>Joining\<close>

lemma op_bind_lift: "op_bind (op_lift x) f s = (case x of Inl err \<Rightarrow> (Inl err, s) | Inr v \<Rightarrow> f v s)"
  by (simp add: op_bind_def op_lift_def split: sum.split)

lemma op_bind_read: "op_bind (\<lambda>s. (r s, s)) f s = (case r s of Inl err \<Rightarrow> (Inl err, s) | Inr v \<Rightarrow> f v s)"
  by (simp add: op_bind_def split: sum.split)

text \<open>A newcomer stores what an endpoint sends only when the events themselves vouch for the endpoint.\<close>

lemma join_ancestry_trusts:
  assumes "join_ancestry X st clock p peer invn events s = (r, s')" and "s' \<noteq> s"
  shows "\<exists>e v R user device. e \<in> set events \<and> event_id e = invn \<and>
    prepared_validate (cp_crypto X) (cp_payloads X) p e = Inr v \<and>
    resolve (cp_crypto X) (cp_payloads X) events = Inr R \<and>
    bt_contains_key (snap_active_invitations (snapshot R)) invn \<and>
    provisional_user (ses_node s) peer = Some user \<and> provisional_device (ses_node s) peer = Some device \<and>
    trusted_endpoint X (snapshot R) user device"
proof (cases "find (\<lambda>e. event_id e = invn) events")
  case None
  then show ?thesis using assms by (simp add: join_ancestry_def op_bind_lift)
next
  case (Some e)
  then have e: "e \<in> set events" "event_id e = invn" by (auto simp: find_Some_iff)
  obtain v where v: "prepared_validate (cp_crypto X) (cp_payloads X) p e = Inr v"
    using assms Some by (cases "prepared_validate (cp_crypto X) (cp_payloads X) p e") (simp_all add: join_ancestry_def op_bind_lift)
  obtain R where R: "resolve (cp_crypto X) (cp_payloads X) events = Inr R"
    using assms Some v by (cases "resolve (cp_crypto X) (cp_payloads X) events") (simp_all add: join_ancestry_def op_bind_lift)
  have act: "bt_contains_key (snap_active_invitations (snapshot R)) invn"
    using assms Some v R by (rule_tac ccontr) (simp add: join_ancestry_def op_bind_lift op_fail_def)
  obtain user where user: "provisional_user (ses_node s) peer = Some user"
    using assms Some v R act
    by (cases "provisional_user (ses_node s) peer") (simp_all add: join_ancestry_def op_bind_lift op_bind_read)
  obtain device where device: "provisional_device (ses_node s) peer = Some device"
    using assms Some v R act user
    by (cases "provisional_device (ses_node s) peer") (simp_all add: join_ancestry_def op_bind_lift op_bind_read)
  have "trusted_endpoint X (snapshot R) user device"
    using assms Some v R act user device
    by (rule_tac ccontr) (simp add: join_ancestry_def op_bind_lift op_bind_read op_fail_def)
  then show ?thesis using e v R act user device by blast
qed

definition session_sync :: "cli_session \<Rightarrow> cli_session \<Rightarrow> bool" where
  "session_sync s s' \<longleftrightarrow> same_sync (ses_node s) (ses_node s')"

interpretation session_sync: op_preorder session_sync
  by unfold_locales (simp_all add: session_sync_def same_sync_def)

lemma session_sync_ops:
  "session_sync s (snd (say line s))" "session_sync s (snd (on_world m s))"
  "(\<And>n. same_sync n (snd (m' n))) \<Longrightarrow> session_sync s (snd (on_network m' s))"
  by (simp_all add: session_sync_def same_sync_def say_def on_network_def Let_def split_beta)

lemmas session_sync_intros =
  session_sync.op_bind session_sync.op_return session_sync.op_fail session_sync.op_lift session_sync.op_each
  session_sync_ops same_sync.submit_proof

lemma join_event_sync:
  "\<forall>peer invn events. ev \<noteq> BootstrapAncestryEvent peer invn events \<Longrightarrow>
     session_sync s (snd (join_event X st clock prepared ev s))"
  "session_sync s (snd (join_event X st clock None ev s))"
  by (cases ev; simp only: join_event.simps option.case; (intro session_sync_intros | blast))+

lemma join_event_trusts:
  assumes run: "join_event X st clock prepared ev s = (r, s')" and diff: "net_sync (ses_node s') \<noteq> net_sync (ses_node s)"
  shows "\<exists>p peer invn events e v R user device. prepared = Some p \<and> ev = BootstrapAncestryEvent peer invn events \<and>
    e \<in> set events \<and> event_id e = invn \<and> prepared_validate (cp_crypto X) (cp_payloads X) p e = Inr v \<and>
    resolve (cp_crypto X) (cp_payloads X) events = Inr R \<and>
    bt_contains_key (snap_active_invitations (snapshot R)) invn \<and>
    provisional_user (ses_node s) peer = Some user \<and> provisional_device (ses_node s) peer = Some device \<and>
    trusted_endpoint X (snapshot R) user device"
proof -
  have "\<not> session_sync s (snd (join_event X st clock prepared ev s))" using run diff by (simp add: session_sync_def same_sync_def)
  then obtain peer invn events where ev: "ev = BootstrapAncestryEvent peer invn events" using join_event_sync by blast
  obtain p where p: "prepared = Some p"
    using \<open>\<not> session_sync s (snd (join_event X st clock prepared ev s))\<close> join_event_sync(2) by (cases prepared) blast+
  obtain r1 s1 where j: "join_ancestry X st clock p peer invn events s = (r1, s1)" by fastforce
  then have "s1 = s'" using run by (cases r1) (auto simp: ev p op_bind_def op_return_def)
  then have "s1 \<noteq> s" using diff by blast
  from join_ancestry_trusts [OF j this] show ?thesis using ev p by blast
qed

end
