(* ===== verification/Cli_Frame.thy ===== *)
theory Cli_Frame
  imports Cli_Admission
begin

text \<open>
  What a command does to databases.  A command changes at most one database, the one of the state
  directory it names, and only while it holds the lock of that directory, which it takes when nobody
  holds it and gives back.  The one exception are the listings, which take no lock and may create an empty
  database.  The statements are about the history \<open>w_changes\<close> of a world.
\<close>

section \<open>Relations between worlds\<close>

context op_preorder
begin

lemma op_if: "(b \<Longrightarrow> R s (snd (m s))) \<Longrightarrow> (\<not> b \<Longrightarrow> R s (snd (m' s))) \<Longrightarrow> R s (snd ((if b then m else m') s))"
  by simp

lemma op_option:
  "R s (snd (m s)) \<Longrightarrow> (\<And>x. R s (snd (f x s))) \<Longrightarrow> R s (snd ((case v of None \<Rightarrow> m | Some x \<Rightarrow> f x) s))"
  by (simp split: option.split)

lemma op_prod: "(\<And>x y. R s (snd (f x y s))) \<Longrightarrow> R s (snd ((case p of (x, y) \<Rightarrow> f x y) s))"
  by (simp split: prod.split)

end

definition apply_change ::
  "database_change \<Rightarrow> (string \<Rightarrow> (event_id, event_row) btree option) \<Rightarrow> string \<Rightarrow> (event_id, event_row) btree option" where
  "apply_change x d = d(change_path x := Some (change_to x))"

text \<open>The changes between two worlds account for the databases and satisfy \<open>P\<close>, given the locks held before.\<close>

definition changes :: "(string set \<Rightarrow> database_change \<Rightarrow> bool) \<Rightarrow> cli_world \<Rightarrow> cli_world \<Rightarrow> bool" where
  "changes P w w' \<longleftrightarrow>
     (\<exists>xs. w_changes w' = w_changes w @ xs \<and> w_databases w' = fold apply_change xs (w_databases w) \<and>
        (\<forall>x \<in> set xs. P (fs_locks (w_fs w)) x)) \<and>
     fs_locks (w_fs w') = fs_locks (w_fs w)"

interpretation changes: op_preorder "changes P" for P
proof unfold_locales
  fix s t u
  show "changes P s s" by (simp add: changes_def)
  assume st: "changes P s t" and tu: "changes P t u"
  obtain xs where xs: "w_changes t = w_changes s @ xs" "w_databases t = fold apply_change xs (w_databases s)"
      "\<forall>x \<in> set xs. P (fs_locks (w_fs s)) x" "fs_locks (w_fs t) = fs_locks (w_fs s)"
    using st by (auto simp: changes_def)
  obtain ys where ys: "w_changes u = w_changes t @ ys" "w_databases u = fold apply_change ys (w_databases t)"
      "\<forall>x \<in> set ys. P (fs_locks (w_fs t)) x" "fs_locks (w_fs u) = fs_locks (w_fs t)"
    using tu by (auto simp: changes_def)
  show "changes P s u"
    unfolding changes_def using xs ys by (intro conjI exI [of _ "xs @ ys"]) auto
qed

lemma changes_mono: "changes P w w' \<Longrightarrow> (\<And>x. P (fs_locks (w_fs w)) x \<Longrightarrow> Q (fs_locks (w_fs w)) x) \<Longrightarrow> changes Q w w'"
  unfolding changes_def by blast

lemma changes_same:
  "w_changes w' = w_changes w \<Longrightarrow> w_databases w' = w_databases w \<Longrightarrow> fs_locks (w_fs w') = fs_locks (w_fs w) \<Longrightarrow> changes P w w'"
  by (auto simp: changes_def)

named_theorems frame_intros

lemmas [frame_intros] = changes.op_bind changes.op_return changes.op_fail changes.op_lift changes.op_each
  changes.op_if changes.op_option changes.op_prod

lemma changes_output [frame_intros]:
  "changes P w (snd (print_text text w))" "changes P w (snd (println line w))" "changes P w (snd (flush w))"
  by (rule changes_same; simp add: print_text_def op_modify_def println_def flush_def)+

lemma changes_reading [frame_intros]:
  "changes P w (snd (read_archive_file path w))" "changes P w (snd (load_state X opts w))"
  by (rule changes_same; simp add: read_archive_file_def load_state_def op_bind_def op_lift_def split: sum.split)+

lemma changes_fs: "fs_locks (snd (m (w_fs w))) = fs_locks (w_fs w) \<Longrightarrow> changes P w (snd (on_fs m w))"
  by (cases "m (w_fs w)") (simp add: on_fs_def changes_same)

lemma changes_export [frame_intros]:
  "changes P w (snd (on_output_fs (create_private_output path) w))"
  "changes P w (snd (on_output_fs (write_output path bs) w))"
  by (rule changes_same; auto simp: on_output_fs_def create_private_output_def write_output_def Let_def
      split: sum.split option.split)+

section \<open>Locks\<close>

lemma make_dirs_locks: "fs_locks (snd (op_each make_dir ps fs)) = fs_locks fs"
proof (induction ps arbitrary: fs)
  case (Cons p ps)
  have "fs_locks (snd (make_dir p fs)) = fs_locks fs"
    by (auto simp: make_dir_def split: option.split fs_entry.split sum.split)
  then show ?case using Cons [of "snd (make_dir p fs)"] by (cases "make_dir p fs"; cases "fst (make_dir p fs)") (auto simp: op_bind_def)
qed (simp add: op_return_def)

text \<open>Initialising a directory takes no lock.\<close>

definition same_locks :: "filesystem \<Rightarrow> filesystem \<Rightarrow> bool" where
  "same_locks fs fs' \<longleftrightarrow> fs_locks fs' = fs_locks fs"

interpretation same_locks: op_preorder same_locks
  by unfold_locales (simp_all add: same_locks_def)

lemma prepare_directory_locks: "same_locks fs (snd (prepare_directory directory fs))"
  unfolding prepare_directory_def
  by (rule same_locks.op_bind)
    (auto simp: same_locks_def op_fail_def op_return_def create_dir_all_def make_dirs_locks split: sum.split)

lemma write_private_file_locks: "same_locks fs (snd (write_private_file path bs fs))"
  by (simp add: write_private_file_def same_locks_def Let_def split: sum.split)

lemma same_locks_if:
  "same_locks fs (snd (op_bind m f fs)) \<Longrightarrow> same_locks fs (snd (if b then (Inl err, fs) else op_bind m f fs))"
  by (simp add: same_locks.refl)

lemma state_initialize_locks: "same_locks fs (snd (state_initialize L K directory user_seed device_seed clock fs))"
  unfolding state_initialize_def Let_def
  by (rule same_locks.op_bind, rule prepare_directory_locks, rule same_locks_if, rule same_locks.op_bind,
      rule same_locks.op_lift, rule same_locks.op_bind, rule same_locks.op_lift, rule same_locks_if,
      rule same_locks.op_bind, rule write_private_file_locks, rule same_locks.op_lift)

definition lock_path :: "'k node_state \<Rightarrow> string" where
  "lock_path st = join_path (state_directory st) LOCK_FILE"

lemma acquire_lock_locks:
  "acquire_lock st fs = (Inr u, fs') \<Longrightarrow> lock_path st \<notin> fs_locks fs \<and> fs_locks fs' = insert (lock_path st) (fs_locks fs)"
  "acquire_lock st fs = (Inl err, fs') \<Longrightarrow> fs_locks fs' = fs_locks fs"
  by (auto simp: acquire_lock_def lock_path_def Let_def split: if_splits sum.splits option.splits fs_entry.splits)

section \<open>Changes of a database\<close>

text \<open>An operation on the database of \<open>st\<close>, under the locks held when it started.\<close>

definition own_change :: "'k node_state \<Rightarrow> string set \<Rightarrow> database_change \<Rightarrow> bool" where
  "own_change st L x \<longleftrightarrow> change_path x = database_path st \<and> change_locks x = L"

text \<open>A change made while the lock of \<open>st\<close> was held, which was free before.\<close>

definition under_lock :: "'k node_state \<Rightarrow> string set \<Rightarrow> database_change \<Rightarrow> bool" where
  "under_lock st L x \<longleftrightarrow>
     change_path x = database_path st \<and> lock_path st \<notin> L \<and> lock_path st \<in> change_locks x"

text \<open>Opening a database may create it, empty.\<close>

definition creation :: "'k node_state \<Rightarrow> string set \<Rightarrow> database_change \<Rightarrow> bool" where
  "creation st L x \<longleftrightarrow> change_path x = database_path st \<and> change_from x = None \<and> change_to x = []"

lemma changes_save:
  assumes "P (fs_locks (w_fs w)) \<lparr>change_path = database_path st, change_from = w_databases w (database_path st),
    change_to = events_table s, change_locks = fs_locks (w_fs w)\<rparr>"
  shows "changes P w (save_table st s w)"
  using assms by (auto simp: changes_def save_table_def Let_def apply_change_def)

lemma own_save [frame_intros]: "changes (own_change st) w (save_table st s w)"
  by (rule changes_save) (simp add: own_change_def)

lemma own_open_store [frame_intros]: "changes (own_change st) w (snd (open_store st w))"
  by (simp add: open_store_def changes.refl own_save split: sum.split)

lemma creation_open_store [frame_intros]: "changes (creation st) w (snd (open_store st w))"
proof (cases "w_databases w (database_path st)")
  case None
  then show ?thesis
    by (auto simp: open_store_def store_open_def changes.refl creation_def intro!: changes_save split: sum.split)
next
  case (Some t)
  then show ?thesis by (auto simp: open_store_def store_open_def changes.refl save_table_same split: sum.split)
qed

lemma changes_open_community [frame_intros]:
  "changes (own_change st) w (snd (open_community X st c w))" "changes (creation st) w (snd (open_community X st c w))"
  unfolding open_community_def by (intro frame_intros)+

lemma own_on_node [frame_intros]: "changes (own_change st) w (snd (on_node st core m w))"
  by (auto simp: on_node_def Let_def own_save split: prod.split sum.split)

section \<open>Sessions\<close>

text \<open>A running node only prints; its events are written back when the session ends.\<close>

definition session_keeps :: "cli_session \<Rightarrow> cli_session \<Rightarrow> bool" where
  "session_keeps s s' \<longleftrightarrow> (ses_world s')\<lparr>w_output := []\<rparr> = (ses_world s)\<lparr>w_output := []\<rparr>"

interpretation session: op_preorder session_keeps
  by unfold_locales (simp_all add: session_keeps_def)

lemma session_keeps_changes: "session_keeps s s' \<Longrightarrow> changes P (ses_world s) (ses_world s')"
  unfolding session_keeps_def
  by (rule changes_same; drule arg_cong [where f = w_changes] arg_cong [where f = w_databases] arg_cong [where f = w_fs]; simp)

lemmas [frame_intros] = session.op_bind session.op_return session.op_fail session.op_lift session.op_each
  session.op_if session.op_option session.op_prod

lemma session_ops [frame_intros]:
  "session_keeps s (snd (on_network m s))" "session_keeps s (snd (on_cli_node m' s))" "session_keeps s (snd (say line s))"
  "session_keeps s (snd (on_world flush s))"
  by (simp_all add: session_keeps_def on_network_def on_cli_node_def say_def on_world_def flush_def
      split: prod.split)

lemma session_node [simp]: "session_keeps s (s'\<lparr>ses_node := n\<rparr>) = session_keeps s s'"
  "session_keeps (s\<lparr>ses_node := n\<rparr>) s' = session_keeps s s'"
  by (simp_all add: session_keeps_def)

lemma own_run_session [frame_intros]:
  assumes "\<And>s. session_keeps s (snd (m s))"
  shows "changes (own_change st) w (snd (run_session st node m w))"
proof -
  let ?s = "snd (m \<lparr>ses_world = w, ses_node = node\<rparr>)"
  have "changes (own_change st) w (ses_world ?s)"
    using session_keeps_changes [OF assms] by (metis cli_session.select_convs(1))
  then show ?thesis
    using changes.trans [OF _ own_save] by (auto simp: run_session_def Let_def split: prod.split)
qed

lemma session_read [frame_intros]: "session_keeps s (snd ((\<lambda>s. (r s, s)) s))"
  by (simp add: session.refl)

lemma join_ancestry_keeps [frame_intros]: "session_keeps s (snd (join_ancestry X st clock p peer invn events s))"
  unfolding join_ancestry_def by (intro frame_intros)

lemma join_event_keeps [frame_intros]: "session_keeps s (snd (join_event X st clock prepared ev s))"
  by (cases ev; simp only: join_event.simps; intro frame_intros)

lemma join_loop_keeps [frame_intros]: "session_keeps s (snd (join_loop X st V prepared evs s))"
proof (induction X st V prepared evs s rule: join_loop.induct)
  case (1 X st V prepared evs s)
  obtain res rest n where nx: "next_event (cp_network X) evs (ses_node s) = ((res, rest), n)" by (metis prod.exhaust)
  show ?case
  proof (cases "\<exists>ev. res = Some (Inr ev)")
    case True
    then obtain ev where ev: "res = Some (Inr ev)" by blast
    let ?m = "op_bind (join_event X st (sur_clock V (length rest)) prepared ev)
        (\<lambda>r. op_bind (on_world flush) (\<lambda>_. op_return r))"
    obtain r s1 where m: "?m (s\<lparr>ses_node := n\<rparr>) = (r, s1)" by fastforce
    have "session_keeps (s\<lparr>ses_node := n\<rparr>) (snd (?m (s\<lparr>ses_node := n\<rparr>)))" by (intro frame_intros)
    then have s1: "session_keeps s s1" by (simp add: m)
    show ?thesis
    proof (cases r)
      case (Inr x)
      obtain prepared' fin where x: "x = (prepared', fin)" by fastforce
      have "session_keeps s1 (snd (join_loop X st V prepared' rest s1))" if "\<not> fin"
        using 1 [OF nx [symmetric] refl ev refl, of r s1 x prepared' fin] m Inr x that by simp
      then show ?thesis
        using nx ev m Inr x s1 session.trans [OF s1] by (simp add: join_loop.simps [of X st V prepared evs s])
    qed (use nx ev m s1 in \<open>simp add: join_loop.simps [of X st V prepared evs s]\<close>)
  next
    case False
    then show ?thesis using nx
      by (auto simp: join_loop.simps [of X st V prepared evs s] session.refl split: option.splits sum.splits)
  qed
qed

lemma network_round_keeps [frame_intros]: "session_keeps s (snd (network_round X G W ev s))"
proof -
  have "session_keeps t (snd (network_event_step X W ev t))" for t
    by (cases ev; simp only: network_event_step.simps; intro frame_intros)
  then show ?thesis unfolding network_round_def by (intro frame_intros)
qed

lemma sync_complete_keeps [frame_intros]: "session_keeps s (snd (sync_complete s))"
  unfolding sync_complete_def by (intro frame_intros)

lemma network_loop_keeps [frame_intros]: "session_keeps s (snd (network_loop X G V started evs s))"
proof (induction X G V started evs s rule: network_loop.induct)
  case (1 X G V started evs s)
  show ?case
  proof (cases "idle_fires X G V started evs (ses_node s)")
    case (Some n)
    then show ?thesis
      using sync_complete_keeps [of "s\<lparr>ses_node := n\<rparr>"] by (simp add: network_loop.simps [of X G V started evs s])
  next
    case None
    obtain res rest n where nx: "next_event (cp_network X) evs (ses_node s) = ((res, rest), n)" by (metis prod.exhaust)
    show ?thesis
    proof (cases "\<exists>ev. res = Some (Inr ev)")
      case True
      then obtain ev where ev: "res = Some (Inr ev)" by blast
      let ?round = "network_round X G (sur_swarm V (length rest)) ev (s\<lparr>ses_node := n\<rparr>)"
      obtain r s1 where m: "?round = (r, s1)" by fastforce
      have s1: "session_keeps s s1" using network_round_keeps [of "s\<lparr>ses_node := n\<rparr>" X G] m by (metis session_node(2) snd_conv)
      show ?thesis
        using 1 [OF None nx [symmetric] refl _ refl] None nx ev m s1 session.trans [OF s1] sync_complete_keeps
        by (auto simp: network_loop.simps [of X G V started evs s] split: sum.splits)
    next
      case False
      then show ?thesis
        using None nx by (auto simp: network_loop.simps [of X G V started evs s] session.refl split: option.splits sum.splits)
    qed
  qed
qed

section \<open>Commands\<close>

text \<open>An operation whose changes are of the kind \<open>Q\<close>, for the state that its options name.\<close>

definition confined ::
  "'k cli_params \<Rightarrow> options \<Rightarrow> ('k node_state \<Rightarrow> string set \<Rightarrow> database_change \<Rightarrow> bool) \<Rightarrow> 'a cli_op \<Rightarrow> bool" where
  "confined X opts Q m \<longleftrightarrow>
     (\<forall>w. changes (\<lambda>L x. \<exists>st. load_state X opts w = (Inr st, w) \<and> Q st L x) w (snd (m w)))"

lemma confined_same: "(\<And>P w. changes P w (snd (m w))) \<Longrightarrow> confined X opts Q m"
  by (simp add: confined_def)

lemma confined_mono: "confined X opts Q m \<Longrightarrow> (\<And>st L x. Q st L x \<Longrightarrow> Q' st L x) \<Longrightarrow> confined X opts Q' m"
  unfolding confined_def by (blast intro: changes_mono)

lemma confined_lift: "(\<And>x. confined X opts Q (f x)) \<Longrightarrow> confined X opts Q (op_bind (op_lift r) f)"
  by (cases r) (simp_all add: confined_def op_bind_def op_lift_def changes.refl)

lemma confined_if: "(b \<Longrightarrow> confined X opts Q m) \<Longrightarrow> (\<not> b \<Longrightarrow> confined X opts Q m') \<Longrightarrow> confined X opts Q (if b then m else m')"
  by simp

lemma confined_finished: "confined X opts Q m \<Longrightarrow> confined X opts Q (finished m)"
proof -
  have "snd (finished m w) = snd (m w)" for w
    by (cases "m w"; cases "fst (m w)") (simp_all add: finished_def op_bind_def op_return_def)
  then show "confined X opts Q m \<Longrightarrow> confined X opts Q (finished m)" by (simp add: confined_def)
qed

lemma confined_load:
  assumes m: "\<And>st w. changes (Q st) w (snd (m st w))"
  shows "confined X opts Q (op_bind (load_state X opts) m)"
  unfolding confined_def
proof
  fix w
  obtain r where load: "load_state X opts w = (r, w)"
    by (cases "require_one opts ''--state''") (simp_all add: load_state_def op_bind_def op_lift_def)
  show "changes (\<lambda>L x. \<exists>st. load_state X opts w = (Inr st, w) \<and> Q st L x) w (snd (op_bind (load_state X opts) m w))"
  proof (cases r)
    case (Inr st)
    then show ?thesis using load changes_mono [OF m [of st w]] by (simp add: op_bind_def)
  qed (simp add: op_bind_def load changes.refl)
qed

lemma with_lock_changes:
  assumes m: "\<And>w. changes (own_change st) w (snd (m w))"
  shows "changes (under_lock st) w (snd (with_lock st m w))"
proof -
  obtain l fs where lock: "acquire_lock st (w_fs w) = (l, fs)" by fastforce
  show ?thesis
  proof (cases l)
    case (Inl err)
    then show ?thesis
      using acquire_lock_locks(2) [of st "w_fs w" err fs] lock
      by (intro changes_same) (simp_all add: with_lock_def op_bind_def on_fs_def)
  next
    case (Inr u)
    let ?w1 = "w\<lparr>w_fs := fs\<rparr>"
    have locks: "lock_path st \<notin> fs_locks (w_fs w)" "fs_locks fs = insert (lock_path st) (fs_locks (w_fs w))"
      using acquire_lock_locks(1) [of st "w_fs w" u fs] lock Inr by simp_all
    obtain xs where xs: "w_changes (snd (m ?w1)) = w_changes w @ xs"
        "w_databases (snd (m ?w1)) = fold apply_change xs (w_databases w)" "\<forall>x \<in> set xs. own_change st (fs_locks fs) x"
        "fs_locks (w_fs (snd (m ?w1))) = fs_locks fs"
      using m [of ?w1] by (auto simp: changes_def)
    have run: "snd (with_lock st m w) = (snd (m ?w1))\<lparr>w_fs := release_lock st (w_fs (snd (m ?w1)))\<rparr>"
      using lock Inr by (simp add: with_lock_def op_bind_def on_fs_def split: prod.split)
    show ?thesis
      unfolding changes_def run
      using xs locks by (auto simp: release_lock_def lock_path_def own_change_def under_lock_def)
  qed
qed

lemma confined_locked:
  assumes "\<And>st w. changes (own_change st) w (snd (m st w))"
  shows "confined X opts under_lock (op_bind (load_state X opts) (\<lambda>st. with_lock st (m st)))"
  by (intro confined_load with_lock_changes assms)

lemma reading_commands:
  "changes P w (snd (command_init X user_seed device_seed clock opts w))"
  "changes P w (snd (command_info X opts w))"
  unfolding command_init_def command_info_def print_identity_def
  by (intro frame_intros changes_fs state_initialize_locks [unfolded same_locks_def])+

lemma listing_commands:
  "confined X opts creation (command_list_channels X opts)" "confined X opts creation (command_list_messages X opts)"
  unfolding command_list_channels_def command_list_messages_def
  by (intro confined_lift confined_load frame_intros)+

lemma writing_commands:
  "confined X opts under_lock (command_create_community X clock opts)"
  "confined X opts under_lock (command_create_channel X channel clock opts)"
  "confined X opts under_lock (command_send_message X clock opts)"
  "confined X opts under_lock (command_set_home_server X clock opts)"
  "confined X opts under_lock (command_create_invite X capability clock opts)"
  "confined X opts under_lock (command_export_community X opts)"
  "confined X opts under_lock (command_import_community X opts)"
  "confined X opts under_lock (command_join X V evs opts)"
  "confined X opts under_lock (command_network X V evs role mode opts)"
  unfolding command_create_community_def command_create_channel_def command_send_message_def
    command_set_home_server_def command_create_invite_def command_export_community_def
    command_import_community_def command_join_def command_network_def Let_def case_prod_unfold
  by (intro confined_lift confined_if confined_locked confined_same [OF changes.op_fail] frame_intros)+

text \<open>The changes a command may make.\<close>

definition allowed_change :: "string \<Rightarrow> 'k node_state \<Rightarrow> string set \<Rightarrow> database_change \<Rightarrow> bool" where
  "allowed_change command st L x \<longleftrightarrow>
     under_lock st L x \<or> (command \<in> {''list-channels'', ''list-messages''} \<and> creation st L x)"

lemma confined_allowed:
  "confined X opts under_lock m \<Longrightarrow> confined X opts (allowed_change command) m"
  "confined X opts creation m \<Longrightarrow> command \<in> {''list-channels'', ''list-messages''} \<Longrightarrow>
     confined X opts (allowed_change command) m"
  by (erule confined_mono, simp add: allowed_change_def)+

lemmas command_changes = writing_commands [THEN confined_allowed(1)] listing_commands [THEN confined_allowed(2)]
  confined_same [OF reading_commands(1)] confined_same [OF reading_commands(2)] confined_same [OF changes.op_fail]

lemma run_options_confined: "confined X opts (allowed_change command) (run_options X env command opts)"
  unfolding run_options_def
  by (intro confined_if; (rule confined_finished)?; rule command_changes; simp)

end
