(* ===== verification/Cli_Demo.thy ===== *)
theory Cli_Demo
  imports Cli_Frame Network_Properties Core_Properties Chat_Properties
begin

text \<open>
  A demo client on which the properties of the command line client are instantiated: two state
  directories of the owner, one with the demo community in its database and one empty.
\<close>

section \<open>Parameters\<close>

definition peer_list :: "peer_id set \<Rightarrow> peer_id list" where
  "peer_list S = map from_nat (sorted_list_of_set (to_nat ` S))"

definition demo_persisted :: persisted_state where
  "demo_persisted = \<lparr>pers_version = STATE_VERSION, pers_user_seed = 1, pers_device_seed = 11, pers_created_at = 0\<rparr>"

text \<open>Hexadecimal text stands in as the bytes written twice, and JSON as the number of the listed values.\<close>

definition channel_numbers :: "channel_view \<Rightarrow> nat list \<times> nat list" where
  "channel_numbers v = (map of_char (cv_channel_id v), map of_char (cv_name v))"

definition message_numbers :: "message_view \<Rightarrow> nat list \<times> nat list \<times> nat list \<times> nat \<times> nat list" where
  "message_numbers v =
     (map of_char (mv_event_id v), map of_char (mv_channel_id v), map of_char (mv_author_id v),
      unat (mv_timestamp_ms v), map of_char (mv_text v))"

definition number_text :: "'a :: countable \<Rightarrow> string" where
  "number_text x = replicate (to_nat x) (CHR ''1'')"

definition demo_cli :: "arr32 cli_params" where
  "demo_cli =
     \<lparr>cp_network = demo_network, cp_payloads = demo_payloads, cp_archive = table_codec [(demo_wire, [7])],
      cp_packages = table_codec [], cp_persisted = table_codec [(demo_persisted, [5])],
      cp_bootstrap = demo_codecs, cp_hex_decode = (\<lambda>s. Some (string_bytes (take 32 s))),
      cp_hex_encode = (\<lambda>bs. text_of_bytes (bs @ bs)),
      cp_channels_json = (\<lambda>vs. Some (number_text (map channel_numbers vs))),
      cp_messages_json = (\<lambda>vs. Some (number_text (map message_numbers vs))), cp_debug_peer = (\<lambda>_. []), cp_peer_order = peer_list\<rparr>"

lemma demo_peer_order: "peer_order_ok demo_cli"
proof -
  have "set (peer_list S) = S \<and> distinct (peer_list S)" if "finite S" for S
  proof -
    have "set (peer_list S) = from_nat ` to_nat ` S" using that by (simp add: peer_list_def)
    moreover have "inj_on (from_nat :: nat \<Rightarrow> peer_id) (to_nat ` S)" by (rule inj_onI) auto
    ultimately show ?thesis using that by (simp add: peer_list_def distinct_map image_image)
  qed
  then show ?thesis by (simp add: peer_order_ok_def demo_cli_def)
qed

lemma demo_cli_simps [simp]:
  "cp_network demo_cli = demo_network" "cp_payloads demo_cli = demo_payloads"
  "cp_archive demo_cli = table_codec [(demo_wire, [7])]"
  "cp_persisted demo_cli = table_codec [(demo_persisted, [5])]"
  by (simp_all add: demo_cli_def)

definition demo_hex :: string where
  "demo_hex = text_of_bytes (community_bytes demo_community @ community_bytes demo_community)"

lemma demo_parse_community [simp]: "parse_community demo_cli demo_hex = Inr demo_community"
proof -
  have len: "length (community_bytes demo_community) = 32"
    by (simp add: community_bytes_def demo_community_def)
  have "take 32 demo_hex = text_of_bytes (community_bytes demo_community)"
    using len by (simp add: demo_hex_def text_of_bytes_def)
  moreover have "length demo_hex = 64" using len by (simp add: demo_hex_def text_of_bytes_def)
  ultimately show ?thesis
    by (simp add: parse_community_def parse_hex_32_def demo_cli_def)
      (simp add: community_bytes_def demo_community_def)
qed

section \<open>State directories and databases\<close>

definition demo_state :: "string \<Rightarrow> arr32 node_state" where
  "demo_state d =
     \<lparr>state_user = owner_identity, state_device = demo_device 11, state_created_at = 0, state_directory = d\<rparr>"

definition demo_fs :: filesystem where
  "demo_fs =
     \<lparr>fs_entries = [''s'' \<mapsto> FsDir 448, ''s/identity.json'' \<mapsto> FsFile 384 [5],
                    ''t'' \<mapsto> FsDir 448, ''t/identity.json'' \<mapsto> FsFile 384 [5],
                    ''client.json'' \<mapsto> FsFile 420 [6]],
      fs_locks = {}, fs_umask = 0, fs_fault = (\<lambda>_. None), fs_partial = (\<lambda>_. 0)\<rparr>"

definition demo_world :: cli_world where
  "demo_world =
     \<lparr>w_fs = demo_fs, w_databases = [''s/events.sqlite3'' \<mapsto> events_table (node_store demo_full_node)],
      w_sql = (\<lambda>_. False), w_output = [], w_flush = None, w_changes = []\<rparr>"

lemma demo_load:
  assumes "d = ''s'' \<or> d = ''t''" and "fs_fault fs = (\<lambda>_. None)" and "fs_entries fs d = Some (FsDir 448)"
    and "fs_entries fs (join_path d IDENTITY_FILE) = Some (FsFile 384 [5])"
  shows "state_load demo_libp2p (table_codec [(demo_persisted, [5])]) d fs = Inr (demo_state d)"
  using assms(2-4)
  by (simp add: state_load_def validate_directory_def symlink_metadata_def fs_try_def validate_private_mode_def
      read_limited_def MAX_IDENTITY_BYTES_def table_codec_def demo_persisted_def state_from_seeds_def demo_device_seed
      demo_state_def owner_identity_def Let_def)

lemma demo_whole: "whole demo_crypto demo_json demo_full_node"
  using demo_full_ok by (simp add: whole_def demo_full_abs) (auto simp: demo_full_node_def)

lemma demo_table [simp]: "w_databases demo_world ''s/events.sqlite3'' = Some (events_table (node_store demo_full_node))"
  by (simp add: demo_world_def)

lemma demo_database: "database (demo_state ''s'') demo_world = node_store demo_full_node"
  by (simp add: database_def database_path_def demo_state_def join_path_def demo_world_def demo_full_node_def)

lemma demo_whole_store: "whole_store demo_crypto demo_json demo_community (database (demo_state ''s'') demo_world)"
  unfolding demo_database by (rule whole_store_of_node [OF demo_whole]) (simp add: demo_full_node_def)

lemma demo_stored: "stored demo_cli (demo_state ''s'') demo_world = set demo_events"
  by (auto simp: stored_def demo_database demo_full_abs demo_events_def ran_map_upd)

lemma demo_resolve_set: "set es = set demo_events \<Longrightarrow> resolve demo_crypto demo_payloads es = Inr demo_resolution"
  using resolve_same_set [of demo_events es demo_crypto demo_payloads] demo_resolve demo_ids_unique demo_events_valid
  by simp

section \<open>Exporting the demo community\<close>

definition export_options :: options where
  "export_options = [(''--community'', [demo_hex]), (''--output'', [''f'']), (''--state'', [''s''])]"

definition import_options :: options where
  "import_options = [(''--input'', [''f'']), (''--state'', [''t''])]"

lemma demo_load_state:
  "load_state demo_cli export_options demo_world = (Inr (demo_state ''s''), demo_world)"
  by (simp add: load_state_def op_bind_def op_lift_def require_one_def bt_get_def export_options_def demo_load
      demo_world_def demo_fs_def join_path_def IDENTITY_FILE_def)

definition exported_fs :: filesystem where
  "exported_fs = demo_fs\<lparr>fs_entries := (fs_entries demo_fs)
     (''s/state.lock'' \<mapsto> FsFile 384 [], ''f'' \<mapsto> FsFile 384 [7])\<rparr>"

lemma demo_all_events: "all_events demo_crypto demo_json demo_full_node = Inr [demo_genesis, demo_invite, demo_accept]"
proof -
  have "sorted_list_of_set {EventId 248, EventId 247, EventId 185} = [EventId 185, EventId 247, EventId 248]"
    by (simp add: less_eq_event_id_def)
  then show ?thesis
    by (simp add: all_events_def demo_full_node_def demo_row_def store_get_def bt_get_def decode_stored_def)
qed

lemma demo_encode:
  "archive_encode demo_crypto (table_codec [(demo_wire, [7])]) demo_community [demo_genesis, demo_invite, demo_accept] = Inr [7]"
proof -
  have sorted: "sort_key event_id [demo_genesis, demo_invite, demo_accept] = [demo_genesis, demo_invite, demo_accept]"
    by (simp add: less_eq_event_id_def)
  show ?thesis
    unfolding archive_encode_def sorted
    by (simp add: validate_wire_def Let_def MAX_ARCHIVE_EVENTS_def less_event_id_def table_codec_def
        demo_wire_def MAX_ARCHIVE_BYTES_def)
qed

lemma demo_lock:
  "acquire_lock (demo_state ''s'') demo_fs =
     (Inr (), demo_fs\<lparr>fs_entries := (fs_entries demo_fs)(''s/state.lock'' \<mapsto> FsFile 384 []), fs_locks := {''s/state.lock''}\<rparr>)"
  by (simp add: acquire_lock_def Let_def demo_state_def join_path_def LOCK_FILE_def symlink_metadata_def fs_try_def
      demo_fs_def put_entry_def masked_def validate_private_mode_def)

lemma demo_open: "open_community demo_cli (demo_state ''s'') demo_community w = (Inr demo_full_node, w)"
  if "w_databases w = w_databases demo_world" "w_sql w = (\<lambda>_. False)"
proof -
  have db: "database (demo_state ''s'') w = node_store demo_full_node"
    using that demo_database by (simp add: database_def demo_world_def)
  have save: "save_table (demo_state ''s'') (node_store demo_full_node) w = w"
    using that by (simp add: save_table_same database_path_def demo_state_def join_path_def)
  have ev: "store_events demo_crypto demo_json (node_store demo_full_node) demo_community =
      Inr [demo_genesis, demo_invite, demo_accept]"
    by (simp add: store_events_def demo_full_node_def demo_row_def row_selected_def decode_stored_def
        event_bytes_def community_bytes_def demo_community_def)
  have "open_store (demo_state ''s'') w = (Inr (node_store demo_full_node), w)"
    using that save db by (simp add: open_store_def store_open_def database_def database_path_def demo_state_def join_path_def)
  then show ?thesis
    using ev by (simp add: open_community_def op_lift_def node_open_def Let_def)
      (auto simp: demo_full_node_def)
qed

lemma demo_export:
  "\<exists>out. command_export_community demo_cli export_options demo_world =
     (Inr (), demo_world\<lparr>w_fs := exported_fs, w_output := out\<rparr>)"
proof -
  let ?fs = "demo_fs\<lparr>fs_entries := (fs_entries demo_fs)(''s/state.lock'' \<mapsto> FsFile 384 []), fs_locks := {''s/state.lock''}\<rparr>"
  have opts: "allow_only export_options [''--state'', ''--community'', ''--output''] = Inr ()"
    "require_one export_options ''--community'' = Inr demo_hex" "require_one export_options ''--output'' = Inr ''f''"
    by (simp_all add: allow_only_def bt_keys_def require_one_def bt_get_def export_options_def)
  have lock: "on_fs (acquire_lock (demo_state ''s'')) demo_world = (Inr (), demo_world\<lparr>w_fs := ?fs\<rparr>)"
    using demo_lock by (simp add: on_fs_def demo_world_def)
  have opn: "open_community demo_cli (demo_state ''s'') demo_community (demo_world\<lparr>w_fs := ?fs\<rparr>) =
      (Inr demo_full_node, demo_world\<lparr>w_fs := ?fs\<rparr>)"
    by (rule demo_open) (simp_all add: demo_world_def)
  have written: "on_output_fs (create_private_output ''f'') (demo_world\<lparr>w_fs := ?fs\<rparr>) =
      (Inr (), demo_world\<lparr>w_fs := put_entry ''f'' (FsFile 384 []) ?fs\<rparr>)"
    "on_output_fs (write_output ''f'' [7]) (demo_world\<lparr>w_fs := put_entry ''f'' (FsFile 384 []) ?fs\<rparr>) =
      (Inr (), demo_world\<lparr>w_fs := put_entry ''f'' (FsFile 384 [7]) ?fs\<rparr>)"
    by (simp_all add: on_output_fs_def create_private_output_def write_output_def fs_try_def demo_fs_def masked_def put_entry_def)
  have rel: "release_lock (demo_state ''s'') (put_entry ''f'' (FsFile 384 [7]) ?fs) = exported_fs"
    by (simp add: release_lock_def demo_state_def join_path_def LOCK_FILE_def exported_fs_def put_entry_def demo_fs_def)
  show ?thesis
    using opts demo_load_state lock opn demo_all_events demo_encode written rel
    by (simp add: command_export_community_def op_lift_def with_lock_def flush_def demo_world_def)
qed

section \<open>A community with a channel\<close>

definition talk_channel :: signed_event where
  "talk_channel = demo_event owner_identity (EventId 185) ''chat.channel.create'' [1, 2, 3, 4]"

definition talk_message :: signed_event where
  "talk_message = demo_event owner_identity (EventId 250) ''chat.message.create'' [1, 2, 3, 4, 5]"

definition talk_payloads :: "chat_payload codec" where
  "talk_payloads = table_codec
     [(CommunityCreate PROFILE_ID ''demo'', [1]), (ChannelCreate 9 ''c'', [1, 2, 3, 4]),
      (MessageCreate 9 ''m'', [1, 2, 3, 4, 5])]"

lemma talk_ids [simp]: "event_id talk_channel = EventId 250" "event_id talk_message = EventId 251"
  by (simp_all add: talk_channel_def talk_message_def demo_event_def demo_event_id)

lemma talk_contents [simp]:
  "parents (content talk_channel) = [EventId 185]" "community_id (content talk_channel) = Some demo_community"
  "parents (content talk_message) = [EventId 250]" "community_id (content talk_message) = Some demo_community"
  by (simp_all add: talk_channel_def talk_message_def demo_event_def)

lemma talk_valid [simp]:
  "validate_event demo_crypto talk_channel = Inr ()" "validate_event demo_crypto talk_message = Inr ()"
  unfolding talk_channel_def talk_message_def demo_event_def
  by (rule create_signed_valid [OF demo_crypto_correct];
      simp add: MAX_EVENT_TYPE_BYTES_def MAX_PAYLOAD_BYTES_def MAX_PARENTS_def)+

lemma talk_authors [simp]:
  "author_id demo_crypto talk_channel = Inr (UserId 1)" "author_id demo_crypto talk_message = Inr (UserId 1)"
  by (simp_all add: talk_channel_def talk_message_def demo_event_def create_signed_author demo_users)

lemma talk_decode [simp]:
  "decode talk_payloads demo_genesis = Inr (CommunityCreate PROFILE_ID ''demo'')"
  "decode talk_payloads talk_channel = Inr (ChannelCreate 9 ''c'')"
  "decode talk_payloads talk_message = Inr (MessageCreate 9 ''m'')"
  by (simp_all add: decode_Inr_iff talk_payloads_def table_codec_def demo_genesis_def create_genesis_def
      talk_channel_def talk_message_def demo_event_def)

lemma talk_distinct [simp]:
  "demo_genesis \<noteq> talk_channel" "demo_genesis \<noteq> talk_message" "talk_channel \<noteq> talk_message"
  "talk_channel \<noteq> demo_genesis" "talk_message \<noteq> demo_genesis" "talk_message \<noteq> talk_channel"
  by (auto dest!: arg_cong [where f = event_id])

definition talk_json :: "signed_event codec" where
  "talk_json = table_codec [(demo_genesis, [1]), (talk_channel, [2]), (talk_message, [3])]"

lemma talk_json_simps [simp]:
  "to_vec talk_json demo_genesis = Some [1]" "to_vec talk_json talk_channel = Some [2]"
  "to_vec talk_json talk_message = Some [3]"
  "from_slice talk_json [1] = Some demo_genesis" "from_slice talk_json [2] = Some talk_channel"
  "from_slice talk_json [3] = Some talk_message"
  by (simp_all add: talk_json_def table_codec_def)

lemma talk_lossless: "codec_lossless talk_json" "codec_lossless talk_payloads"
  unfolding talk_json_def talk_payloads_def by (rule table_codec_lossless; simp)+

definition talk_cli :: "arr32 cli_params" where
  "talk_cli = demo_cli\<lparr>cp_network := demo_network\<lparr>np_event_json := talk_json\<rparr>, cp_payloads := talk_payloads\<rparr>"

lemma talk_cli_simps [simp]:
  "np_crypto (cp_network talk_cli) = demo_crypto" "np_event_json (cp_network talk_cli) = talk_json"
  "np_libp2p (cp_network talk_cli) = demo_libp2p" "cp_payloads talk_cli = talk_payloads"
  "cp_persisted talk_cli = table_codec [(demo_persisted, [5])]"
  "parse_hex_32 talk_cli = parse_hex_32 demo_cli" "parse_community talk_cli = parse_community demo_cli"
  by (simp_all add: talk_cli_def parse_hex_32_def parse_community_def fun_eq_iff)

definition talk_store :: event_store where
  "talk_store = \<lparr>events_table = [(EventId 185, demo_row None [1]), (EventId 250, demo_row (Some demo_community) [2])],
     sql_fails = (\<lambda>_. False)\<rparr>"

definition talk_node :: core_node where
  "talk_node = \<lparr>node_store = talk_store, node_community = Some demo_community, node_known = {EventId 185, EventId 250}\<rparr>"

lemma talk_abs: "store_abs talk_json talk_store = [EventId 185 \<mapsto> demo_genesis, EventId 250 \<mapsto> talk_channel]"
  by (auto simp: store_abs_def talk_store_def demo_row_def bt_get_def fun_eq_iff)

lemma talk_store_ok: "store_ok demo_crypto talk_json talk_store"
  by (simp add: store_ok_def talk_lossless talk_store_def bt_ok_def bt_keys_def less_event_id_def row_ok_def demo_row_def)

lemma talk_whole: "whole demo_crypto talk_json talk_node"
  by (simp add: whole_def node_ok_def talk_node_def talk_store_ok talk_abs in_community_def insert_commute)

lemma talk_open: "node_open demo_crypto talk_json talk_store (Some demo_community) = Inr talk_node"
  by (simp add: node_open_def store_events_def talk_store_def talk_node_def demo_row_def row_selected_def
      decode_stored_def event_bytes_def community_bytes_def demo_community_def)

lemma talk_heads: "heads demo_crypto talk_json talk_node = Inr [EventId 250]"
  by (simp add: heads_def talk_node_def talk_store_def demo_row_def store_get_def bt_get_def decode_stored_def
      less_eq_event_id_def insert_Diff_if)

lemma talk_all_events: "all_events demo_crypto talk_json talk_node = Inr [demo_genesis, talk_channel]"
  by (simp add: all_events_def talk_node_def talk_store_def demo_row_def store_get_def bt_get_def decode_stored_def
      less_eq_event_id_def)

lemma talk_resolve:
  "\<exists>R. resolve demo_crypto talk_payloads [demo_genesis, talk_channel, talk_message] = Inr R \<and>
     EventId 251 \<in> snap_event_ids (snapshot R)"
  by (simp add: resolve_def scan_events_def scan_one_def scan_empty_def bt_or_insert_def
      resolve_loop.simps resolve_ready_def index_def
      bt_get_def resolve_one_def Let_def bt_contains_key_def validate_context_def is_community_create_def
      require_admin_def chat_state_default_def less_event_id_def
      less_eq_event_id_def snapshot_of_def bt_keys_def active_invitations_def bt_of_list_def List.map_filter_def
      insert_Diff_if)

definition talk_world :: cli_world where
  "talk_world = demo_world\<lparr>w_databases := [''s/events.sqlite3'' \<mapsto> events_table talk_store]\<rparr>"

lemma talk_database: "database (demo_state ''s'') talk_world = talk_store"
  by (simp add: database_def database_path_def demo_state_def join_path_def talk_world_def demo_world_def talk_store_def)

lemma talk_stored: "stored talk_cli (demo_state ''s'') talk_world = {demo_genesis, talk_channel}"
  by (auto simp: stored_def talk_database talk_abs ran_map_upd)

definition talk_hex :: string where
  "talk_hex = text_of_bytes (arr32_bytes 9 @ arr32_bytes 9)"

lemma talk_parse_channel [simp]: "parse_hex_32 demo_cli talk_hex = Inr 9"
  by (simp add: parse_hex_32_def talk_hex_def demo_cli_def text_of_bytes_def [of "_ @ _"])
    (simp add: text_of_bytes_def [symmetric])

definition talk_options :: options where
  "talk_options = [(''--channel'', [talk_hex]), (''--community'', [demo_hex]), (''--state'', [''s'']), (''--text'', [''m''])]"

lemma talk_trim: "trim ''m'' = ''m''"
  by (simp add: trim_def whitespace_def strip_any.simps)

lemma talk_event: "local_event talk_cli (demo_state ''s'') demo_community talk_node 0 (MessageCreate 9 ''m'') = Inr talk_message"
  by (simp add: local_event_def talk_heads cli_now_ms_def create_chat_event_def talk_payloads_def table_codec_def
      talk_message_def demo_event_def demo_state_def)

lemma talk_accepted: "require_candidate_accepted talk_cli talk_node talk_message = Inr ()"
  using talk_resolve by (auto simp: require_candidate_accepted_def talk_all_events ensure_def)

lemma talk_ingest: "\<exists>r core. node_ingest talk_cli [talk_message] talk_node = (Inr r, core)"
  by (simp add: node_ingest_def ingest_def ingest_check_def talk_node_def talk_store_def demo_row_def
      in_community_def ingest_loop.simps ingest_ready_def ingest_one_def Let_def bt_of_list_def bt_get_def bt_remove_def
      bt_contains_key_def less_event_id_def store_insert_def MAX_PENDING_EVENTS_def)

lemma talk_load: "load_state talk_cli talk_options talk_world = (Inr (demo_state ''s''), talk_world)"
  by (simp add: load_state_def op_bind_def op_lift_def require_one_def bt_get_def talk_options_def demo_load
      talk_world_def demo_world_def demo_fs_def join_path_def IDENTITY_FILE_def)

lemma talk_options_simps:
  "allow_only talk_options [''--state'', ''--community'', ''--channel'', ''--text''] = Inr ()"
  "require_one talk_options ''--text'' = Inr ''m''"
  "res_bind (require_one talk_options ''--community'') (parse_community talk_cli) = Inr demo_community"
  "res_bind (require_one talk_options ''--channel'') (parse_hex_32 talk_cli) = Inr 9"
  by (simp_all add: allow_only_def bt_keys_def require_one_def bt_get_def talk_options_def)

lemma talk_send: "\<exists>w. command_send_message talk_cli 0 talk_options talk_world = (Inr (), w)"
proof -
  obtain fs where lock: "on_fs (acquire_lock (demo_state ''s'')) talk_world = (Inr (), talk_world\<lparr>w_fs := fs\<rparr>)"
    using demo_lock by (simp add: on_fs_def talk_world_def demo_world_def)
  let ?w = "talk_world\<lparr>w_fs := fs\<rparr>"
  have "open_store (demo_state ''s'') ?w = (Inr talk_store, save_table (demo_state ''s'') talk_store ?w)"
    using talk_database by (simp add: open_store_def store_open_def database_def talk_world_def demo_world_def)
  moreover have "store_events demo_crypto talk_json talk_store demo_community = Inr [demo_genesis, talk_channel]"
    by (simp add: store_events_def talk_store_def demo_row_def row_selected_def decode_stored_def event_bytes_def
        community_bytes_def demo_community_def)
  ultimately have opn: "open_community talk_cli (demo_state ''s'') demo_community ?w =
      (Inr talk_node, save_table (demo_state ''s'') talk_store ?w)" (is "_ = (_, ?w1)")
    using talk_open by (simp add: open_community_def op_lift_def)
  obtain r core where ing: "node_ingest talk_cli [talk_message] talk_node = (Inr r, core)" using talk_ingest by blast
  then have node: "on_node (demo_state ''s'') talk_node (node_ingest talk_cli [talk_message]) ?w1 =
      (Inr (r, core), save_table (demo_state ''s'') (node_store core) ?w1)"
    by (simp add: on_node_def)
  have "w_flush (save_table (demo_state ''s'') (node_store core) ?w1) = None"
    by (simp add: talk_world_def demo_world_def)
  then show ?thesis
    using talk_options_simps talk_load talk_trim lock opn talk_event talk_accepted node
    by (simp add: command_send_message_def op_lift_def with_lock_def flush_def MAX_MESSAGE_BYTES_def Let_def)
qed

section \<open>A running demo node\<close>

definition demo_config :: "arr32 network_config" where
  "demo_config = \<lparr>nc_state = demo_state ''s'', nc_role = RolePeer, nc_explicit_users = {}, nc_exit_after = None, nc_idle = None\<rparr>"

lemma demo_refresh:
  assumes "peer_node (net_sync n) = demo_full_node"
  shows "\<exists>n'. refresh_network_authorization demo_cli {} RolePeer key n = (Inr (), n') \<and> net_sync n' = net_sync n"
proof -
  have "resolve demo_crypto demo_payloads [demo_genesis, demo_invite, demo_accept] = Inr demo_resolution"
    by (rule demo_resolve_set) (auto simp: demo_events_def)
  then have "refresh_profile demo_cli RolePeer key demo_full_node = Inr (snapshot demo_resolution, [])"
    by (simp add: refresh_profile_def demo_all_events require_home_server_def collect_grants_def demo_resolution_def)
  then show ?thesis 
    by (simp add: refresh_network_authorization_def assms replace_bootstrap_grants_def cli_replace_authorization_def
        replace_authorization_sync)
qed

lemma demo_round:
  assumes "network_event_step demo_cli W ev s = (Inr (), s1)" and "peer_node (net_sync (ses_node s1)) = demo_full_node"
    and "w_flush (ses_world s1) = None"
  shows "\<exists>s'. network_round demo_cli demo_config W ev s = (Inr (), s') \<and> peer_node (net_sync (ses_node s')) = demo_full_node"
proof -
  obtain n' where "refresh_network_authorization demo_cli {} RolePeer (device_key (state_device (demo_state ''s''))) (ses_node s1) =
      (Inr (), n')" "net_sync n' = net_sync (ses_node s1)" using demo_refresh [OF assms(2)] by blast
  then show ?thesis
    using assms by (simp add: network_round_def demo_config_def on_cli_node_def on_world_def flush_def)
qed

lemma owner_net_joined_sync: "net_sync owner_net_joined = demo_full_peer"
  by (simp add: owner_net_joined_def guest_request_def handle_plain_request_def guest_authenticate
      respond_def send_response_def op_bind_def op_return_def add_effect_def demo_swarm_def
      maybe_start_sync_def owner_net_accepted) (simp add: owner_net_def demo_net_node_def)

section \<open>A demo node that waits for a decision\<close>

definition half_node :: core_node where
  "half_node =
     \<lparr>node_store =
        \<lparr>events_table = [(EventId 185, demo_row None [1]), (EventId 247, demo_row (Some demo_community) [2])],
         sql_fails = (\<lambda>_. False)\<rparr>,
      node_community = Some demo_community, node_known = {EventId 185, EventId 247}\<rparr>"

lemma half_abs: "store_abs demo_json (node_store half_node) = [EventId 185 \<mapsto> demo_genesis, EventId 247 \<mapsto> demo_invite]"
  by (auto simp: store_abs_def half_node_def demo_row_def bt_get_def fun_eq_iff)

lemma half_whole: "whole demo_crypto demo_json half_node"
  by (simp add: whole_def node_ok_def half_abs in_community_def insert_commute)
    (auto simp: store_ok_def half_node_def demo_json_lossless bt_ok_def bt_keys_def less_event_id_def row_ok_def demo_row_def)

lemma half_events: "all_events demo_crypto demo_json half_node = Inr [demo_genesis, demo_invite]"
  by (simp add: all_events_def half_node_def demo_row_def store_get_def bt_get_def decode_stored_def
      less_eq_event_id_def)

definition half_peer :: sync_peer where
  "half_peer = demo_peer\<lparr>peer_node := half_node\<rparr>"

definition waiting_net :: "swarm_effect list \<Rightarrow> network_node" where
  "waiting_net effects = owner_net\<lparr>net_sync := half_peer, bootstrap_grants := [EventId 247 \<mapsto> demo_grant],
     pending_acceptances := [guest_peer \<mapsto>
       \<lparr>acceptance_invitation = EventId 247, acceptance_device = guest_device, acceptance_channel = 0\<rparr>],
     swarm_effects := effects\<rparr>"

definition guest_asks :: "network_request \<Rightarrow> net_input" where
  "guest_asks request = SwarmInput (BehaviourEvent (RequestResponseEvent (RequestMessage guest_peer request 0)))"

definition granting_net :: network_node where
  "granting_net = owner_net\<lparr>net_sync := half_peer, bootstrap_grants := [EventId 247 \<mapsto> demo_grant]\<rparr>"

lemma granting_reachable: "net_reachable demo_network granting_net"
proof -
  let ?n = "owner_net\<lparr>net_sync := half_peer\<rparr>"
  have "net_reachable demo_network ?n"
    using net_reachable.step [OF owner_net_reachable, of "SyncPeerMut half_peer"]
    by (simp add: half_peer_def) (simp add: owner_net_def demo_net_node_def demo_full_peer_def)
  moreover have "register_bootstrap_grant demo_network demo_grant ?n = (Inr (), granting_net)"
    by (simp add: register_bootstrap_grant_def validate_bootstrap_grant_def demo_grant_def MAX_BOOTSTRAP_ANCESTRY_EVENTS_def
        in_community_def half_peer_def demo_peer_def ensure_def MAX_NETWORK_FRAME_BYTES_def granting_net_def)
      (simp add: owner_net_def demo_net_node_def)
  ultimately show ?thesis using net_reachable.step [of demo_network ?n "RegisterGrant demo_grant"] by simp
qed

lemma granting_simps [simp]:
  "bootstrap_grants granting_net = [EventId 247 \<mapsto> demo_grant]" "pending_challenges granting_net = Map.empty"
  "proved_bootstraps granting_net = Map.empty" "pending_acceptances granting_net = Map.empty"
  "net_sync granting_net = half_peer" "peer_community half_peer = demo_community"
  by (simp_all add: granting_net_def owner_net_def demo_net_node_def half_peer_def demo_peer_def)

lemmas guest_asks_simps = guest_asks_def handle_plain_request_def respond_def send_response_def op_bind_def op_return_def
  add_effect_def demo_swarm_def Let_def

lemma guest_begins:
  "\<exists>proof effects. net_step demo_network demo_swarm (guest_asks (BootstrapBegin (demo_certificate guest_identity 12) (EventId 247)))
     granting_net = granting_net\<lparr>pending_challenges := [guest_peer \<mapsto>
       \<lparr>challenge_invitation = EventId 247, challenge_device = guest_device, challenge_proof_bytes = proof\<rparr>],
       swarm_effects := effects\<rparr>"
proof -
  have "validate_peer_certificate demo_network granting_net guest_peer (demo_certificate guest_identity 12) = Inr guest_device"
    by (simp add: validate_peer_certificate_def demo_certificate_valid demo_certificate_peer
        revocation_contains_def granting_net_def owner_net_def demo_net_node_def)
  then show ?thesis by (simp add: guest_asks_simps begin_bootstrap_def) blast
qed

lemma guest_proves:
  "\<exists>effects'. net_step demo_network demo_swarm (guest_asks (BootstrapProve (EventId 247) (arr64_bytes 0)))
     (granting_net\<lparr>pending_challenges := [guest_peer \<mapsto>
       \<lparr>challenge_invitation = EventId 247, challenge_device = guest_device, challenge_proof_bytes = proof\<rparr>],
       swarm_effects := effects\<rparr>) =
     granting_net\<lparr>pending_challenges := Map.empty, proved_bootstraps := [guest_peer \<mapsto>
       \<lparr>proved_invitation = EventId 247, proved_device = guest_device\<rparr>], swarm_effects := effects'\<rparr>"
proof -
  have "verify demo_crypto (arr32_bytes key) msg (arr64_bytes 0) = Inr ()" for key msg
    by (simp add: verify_def ensure_def) (simp add: demo_crypto_def)
  then show ?thesis by (simp add: guest_asks_simps prove_bootstrap_def SIGNATURE_LEN_def demo_grant_def is_ok_def) blast
qed

lemma guest_accepts:
  "net_step demo_network demo_swarm (guest_asks (BootstrapAccept (EventId 247) demo_accept))
     (granting_net\<lparr>pending_challenges := Map.empty, proved_bootstraps := [guest_peer \<mapsto>
       \<lparr>proved_invitation = EventId 247, proved_device = guest_device\<rparr>], swarm_effects := effects\<rparr>) = waiting_net effects"
  by (simp add: guest_asks_simps handle_bootstrap_acceptance_def acceptance_valid_def is_ok_def res_ok_def guest_device_def
      waiting_net_def) (simp add: granting_net_def owner_net_def demo_net_node_def)

lemma waiting_reachable: "\<exists>effects. net_reachable demo_network (waiting_net effects)"
proof -
  have step: "net_reachable demo_network (net_step demo_network demo_swarm (guest_asks request) n)"
    if "net_reachable demo_network n" for n request
    by (rule net_reachable.step [OF that]) (simp add: guest_asks_def)
  show ?thesis
    using step [OF step [OF step [OF granting_reachable]]] guest_begins guest_proves guest_accepts by metis
qed

definition waiting_session :: "swarm_effect list \<Rightarrow> cli_session" where
  "waiting_session effects = \<lparr>ses_world = demo_world, ses_node = waiting_net effects\<rparr>"

lemma half_ingest:
  "ingest demo_crypto demo_json half_node [demo_accept] =
     (Inr \<lparr>report_inserted = 1, report_already_present = 0, report_unresolved = []\<rparr>, demo_full_node)"
  by (simp add: ingest_def ingest_check_def half_node_def demo_full_node_def demo_row_def
      in_community_def ingest_loop.simps ingest_ready_def ingest_one_def Let_def bt_of_list_def bt_get_def bt_remove_def
      bt_contains_key_def less_event_id_def store_insert_def MAX_PENDING_EVENTS_def insert_commute)

lemma waiting_decides:
  "\<exists>n. decide_acceptance demo_cli demo_swarm guest_peer (UserId 2) (EventId 247) demo_accept (waiting_net effects) = (Inr True, n) \<and>
     peer_node (net_sync n) = demo_full_node"
proof -
  have core: "net_sync (waiting_net effects) = half_peer" "peer_node half_peer = half_node"
    by (simp_all add: waiting_net_def half_peer_def)
  have R: "resolve demo_crypto demo_payloads [demo_genesis, demo_invite, demo_accept] = Inr demo_resolution"
    by (rule demo_resolve_set) (auto simp: demo_events_def)
  let ?n = "(waiting_net effects)\<lparr>net_sync := half_peer\<lparr>peer_node := demo_full_node\<rparr>\<rparr>"
  have ing: "network_ingest demo_cli [demo_accept] (waiting_net effects) = (Inr (), ?n)"
    by (simp add: network_ingest_def node_ingest_def core half_ingest)
  have "\<exists>n. resolve_bootstrap_acceptance demo_network demo_swarm guest_peer True ?n = (Inr (), n) \<and>
      peer_node (net_sync n) = demo_full_node"
    by (simp add: resolve_bootstrap_acceptance_def waiting_net_def send_response_def demo_swarm_def add_effect_def
        maybe_start_sync_def owner_net_accepted op_bind_def Let_def)
  then obtain n where "resolve_bootstrap_acceptance demo_network demo_swarm guest_peer True ?n = (Inr (), n)"
      "peer_node (net_sync n) = demo_full_node" by blast
  then show ?thesis
    using ing R by (simp add: decide_acceptance_def core half_events demo_resolution_def bt_contains_key_def bt_keys_def)
qed

lemma waiting_round:
  "\<exists>s'. network_round demo_cli demo_config demo_swarm (BootstrapAcceptanceEvent guest_peer (UserId 2) (EventId 247) demo_accept)
     (waiting_session effects) = (Inr (), s')"
proof -
  obtain n where d: "decide_acceptance demo_cli demo_swarm guest_peer (UserId 2) (EventId 247) demo_accept (waiting_net effects) = (Inr True, n)"
    and n: "peer_node (net_sync n) = demo_full_node"
    using waiting_decides by blast
  obtain w where "network_event_step demo_cli demo_swarm (BootstrapAcceptanceEvent guest_peer (UserId 2) (EventId 247) demo_accept)
      (waiting_session effects) = (Inr (), \<lparr>ses_world = w, ses_node = n\<rparr>)" and "w_flush w = None"
    using d by (simp add: on_cli_node_def waiting_session_def say_def on_world_def demo_world_def)
  then show ?thesis using demo_round [of demo_swarm _ "waiting_session effects"] n by fastforce
qed

end
