(* ===== verification/Cli_Files.thy ===== *)
theory Cli_Files
  imports Cli_Frame
begin

text \<open>
  What a command leaves alone in the file system: apart from \<open>init\<close> and \<open>export-community\<close>, only lock files
  change.
\<close>

definition unlocked :: "string \<Rightarrow> bool" where
  "unlocked path \<longleftrightarrow> (\<forall>directory. path \<noteq> join_path directory LOCK_FILE)"

definition keeps_file :: "string \<Rightarrow> cli_world \<Rightarrow> cli_world \<Rightarrow> bool" where
  "keeps_file path w w' \<longleftrightarrow>
     fs_entries (w_fs w') path = fs_entries (w_fs w) path \<and> fs_fault (w_fs w') = fs_fault (w_fs w) \<and>
     w_sql w' = w_sql w \<and> w_flush w' = w_flush w"

interpretation files: op_preorder "keeps_file path" for path
  by unfold_locales (simp_all add: keeps_file_def)

named_theorems file_intros

lemmas [file_intros] = files.op_bind files.op_return files.op_fail files.op_lift files.op_each
  files.op_if files.op_option files.op_prod

lemma keeps_file_world [file_intros]:
  "keeps_file path w (snd (print_text text w))" "keeps_file path w (snd (println line w))" "keeps_file path w (snd (flush w))"
  "keeps_file path w (snd (load_state X opts w))" "keeps_file path w (snd (open_store st w))"
  "keeps_file path w (snd (on_node st core m w))"
  by (simp_all add: print_text_def op_modify_def flush_def load_state_def op_bind_def op_lift_def open_store_def
      on_node_def Let_def keeps_file_def split: prod.split sum.split)

lemma keeps_file_community [file_intros]: "keeps_file path w (snd (open_community X st c w))"
  unfolding open_community_def by (intro file_intros)

lemma keeps_file_session [file_intros]:
  assumes "\<And>s. session_keeps s (snd (m s))"
  shows "keeps_file path w (snd (run_session st node m w))"
proof -
  let ?s = "\<lparr>ses_world = w, ses_node = node\<rparr>"
  have "(ses_world (snd (m ?s)))\<lparr>w_output := []\<rparr> = w\<lparr>w_output := []\<rparr>"
    using assms [of ?s] by (simp add: session_keeps_def)
  then have "w_fs (ses_world (snd (m ?s))) = w_fs w" "w_sql (ses_world (snd (m ?s))) = w_sql w"
      "w_flush (ses_world (snd (m ?s))) = w_flush w"
    by (cases "ses_world (snd (m ?s))"; cases w; simp)+
  then show ?thesis
    by (auto simp: run_session_def keeps_file_def Let_def split: prod.split)
qed

lemma keeps_file_lock:
  assumes "unlocked path" and "\<And>w. keeps_file path w (snd (m w))"
  shows "keeps_file path w (snd (with_lock st m w))"
  unfolding with_lock_def
proof (rule files.op_bind)
  show "keeps_file path w (snd (on_fs (acquire_lock st) w))"
    using acquire_lock_frame [of st "w_fs w"] assms(1)
    by (auto simp: on_fs_def keeps_file_def unlocked_def split: prod.split)
  show "keeps_file path w (snd (let (r, w') = m w in (r, w'\<lparr>w_fs := release_lock st (w_fs w')\<rparr>)))" for w
    using assms(2) [of w] by (auto simp: keeps_file_def release_lock_def split: prod.split)
qed

lemma commands_keep_file:
  assumes path: "unlocked path"
  shows "keeps_file path w (snd (command_info X opts w))"
    and "keeps_file path w (snd (command_list_channels X opts w))"
    and "keeps_file path w (snd (command_list_messages X opts w))"
    and "keeps_file path w (snd (command_send_message X clock opts w))"
    and "keeps_file path w (snd (command_join X V evs opts w))"
    and "keeps_file path w (snd (command_network X V evs role mode opts w))"
  unfolding command_info_def print_identity_def command_list_channels_def command_list_messages_def
    command_send_message_def command_join_def command_network_def Let_def case_prod_unfold
  by (intro keeps_file_lock path file_intros frame_intros)+

end
