(* ===== verification/Listing.thy ===== *)
theory Listing
  imports Cli_Files
begin

text \<open>
  \<open>list-channels\<close> and \<open>list-messages\<close> on a whole database: they succeed, and what they print is what the
  stored events resolve to.
\<close>

section \<open>Opening a community\<close>

lemma store_events_total:
  assumes "store_ok C J s" and "\<not> sql_fails s (SqlSelectCommunity c)"
  shows "\<exists>es. store_events C J s c = Inr es"
proof -
  have "decode_stored C J (row_body (snd p)) = Inr (the (from_slice J (row_body (snd p))))"
    if "p \<in> set (events_table s)" for p
    by (rule decode_stored_row) (use assms(1) that in \<open>auto simp: store_ok_def\<close>)
  then have "try_map (\<lambda>p. decode_stored C J (row_body (snd p))) (filter (row_selected c) (events_table s)) =
      Inr (map (\<lambda>p. the (from_slice J (row_body (snd p)))) (filter (row_selected c) (events_table s)))"
    by (intro try_map_map) auto
  then show ?thesis using assms(2) by (simp add: store_events_def)
qed

lemma open_community_total:
  assumes "healthy w" and "whole_store (cp_crypto X) (cp_events X) c (database st w)" and "stored X st w \<noteq> {}"
  shows "open_community X st c w =
    (Inr \<lparr>node_store = database st w, node_community = Some c,
          node_known = dom (store_abs (cp_events X) (database st w))\<rparr>, save_table st (database st w) w)"
proof -
  let ?C = "cp_crypto X" and ?J = "cp_events X" and ?s = "database st w"
  have ok: "store_ok ?C ?J ?s" by (rule whole_store_ok [OF assms(2)])
  have sql: "sql_fails ?s = (\<lambda>_. False)" using assms(1) by (simp add: database_def healthy_def)
  obtain es where es: "store_events ?C ?J ?s c = Inr es" using store_events_total [OF ok] sql by fastforce
  have all: "store_abs ?J ?s i = Some e \<Longrightarrow> e \<in> set es" for i e
    using store_events_ok(2) [OF ok es] whole_store_member(1) [OF assms(2)] store_abs_Some [OF ok] by fastforce
  then have ne: "es \<noteq> []" using assms(3) by (auto simp: stored_def ran_def)
  then obtain core where core: "node_open ?C ?J ?s (Some c) = Inr core" by (simp add: node_open_def es)
  have "open_store st w = (Inr ?s, save_table st ?s w)"
    using healthyD(2) [OF assms(1)] by (simp add: open_store_def store_open_def database_def)
  then show ?thesis
    using es ne core node_open_whole(1) [OF assms(2) core] by (simp add: open_community_def op_lift_def)
qed

lemma stored_unique:
  assumes "whole_store (cp_crypto X) (cp_events X) c (database st w)"
  shows "ids_unique (stored X st w)" and "\<forall>e \<in> stored X st w. validate_event (cp_crypto X) e = Inr ()"
  using store_abs_Some [OF whole_store_ok [OF assms]]
  by (fastforce simp: stored_def ids_unique_def ran_def)+

lemma open_events:
  assumes "healthy w" and whole: "whole_store (cp_crypto X) (cp_events X) c (database st w)" and "stored X st w \<noteq> {}"
  obtains core es R where "open_community X st c w = (Inr core, save_table st (database st w) w)"
    and "all_events (cp_crypto X) (cp_events X) core = Inr es" and "set es = stored X st w"
    and "resolve (cp_crypto X) (cp_payloads X) es = Inr R"
proof -
  let ?core = "\<lparr>node_store = database st w, node_community = Some c,
          node_known = dom (store_abs (cp_events X) (database st w))\<rparr>"
  have w: "whole (cp_crypto X) (cp_events X) ?core" using whole by (simp add: whole_store_def)
  have sql: "\<forall>i. \<not> sql_fails (node_store ?core) (SqlSelect i)" using assms(1) by (simp add: database_def healthy_def)
  obtain es where es: "all_events (cp_crypto X) (cp_events X) ?core = Inr es"
    using all_events_total [OF wholeD(1) [OF w] sql] by blast
  have set: "set es = stored X st w" using all_events_whole [OF w es] by (simp add: stored_def)
  obtain R where "resolve (cp_crypto X) (cp_payloads X) es = Inr R"
    using resolve_succeeds stored_unique(2) [OF whole] set by metis
  then show thesis using that open_community_total [OF assms] es set by blast
qed

section \<open>Channels of a run\<close>

definition opens :: "chat_payload codec \<Rightarrow> signed_event set \<Rightarrow> event_id set \<Rightarrow> arr32 \<Rightarrow> bool" where
  "opens P E ids channel \<longleftrightarrow>
     (\<exists>e \<in> E. event_id e \<in> ids \<and> (\<exists>name. decode P e = Inr (ChannelCreate channel name)))"

lemma chat_run_channels: "chat_run C P E st ids \<Longrightarrow> channel \<in> cs_channels st \<Longrightarrow> opens P E (set ids) channel"
proof (induction rule: chat_run.induct)
  case run_start
  then show ?case by (simp add: chat_state_default_def)
next
  case (run_accept st ids e pl author)
  have mono: "opens P E (set ids) channel \<Longrightarrow> opens P E (set (ids @ [event_id e])) channel" by (auto simp: opens_def)
  have "channel \<in> cs_channels st \<or> (\<exists>name. pl = ChannelCreate channel name)"
    using run_accept.prems by (cases pl) (auto split: option.splits)
  then show ?case
  proof
    assume "\<exists>name. pl = ChannelCreate channel name"
    then show ?thesis using run_accept.hyps(2,4) by (auto simp: opens_def)
  qed (use run_accept.IH mono in blast)
qed

text \<open>An accepted message is in a channel that an accepted event created.\<close>

lemma accepted_message_channel:
  assumes "resolve C P es = Inr R" and uniq: "ids_unique (set es)"
    and "e \<in> set es" and "event_id e \<in> set (accepted_in_order R)" and "decode P e = Inr (MessageCreate channel text)"
  shows "opens P (set es) (set (accepted_in_order R)) channel"
proof (rule resolve_sound [OF assms(1,2)])
  fix st assume run: "chat_run C P (set es) st (accepted_in_order R)"
  obtain before rest where order: "accepted_in_order R = before @ event_id e # rest" using assms(4) by (auto simp: in_set_conv_decomp)
  obtain st' d pl author where d: "chat_run C P (set es) st' before" "d \<in> set es" "event_id d = event_id e"
      "decode P d = Inr pl" "validate_context C st' d pl author (set before) = Inr ()"
    by (rule chat_run_step [OF run [unfolded order]])
  have "d = e" using ids_uniqueD [OF uniq d(2) assms(3) d(3)] .
  then have "channel \<in> cs_channels st'"
    using d(4,5) assms(5) by (auto simp: validate_context_def is_community_create_def split: if_splits)
  then show ?thesis using chat_run_channels [OF d(1)] by (fastforce simp: opens_def order)
qed

section \<open>Views\<close>

definition view_of :: "'k cli_params \<Rightarrow> signed_event \<Rightarrow> arr32 \<Rightarrow> user_id \<Rightarrow> string \<Rightarrow> message_view" where
  "view_of X e channel author text =
     \<lparr>mv_event_id = cp_hex_encode X (event_bytes (event_id e)), mv_channel_id = cp_hex_encode X (arr32_bytes channel),
      mv_author_id = cp_hex_encode X (user_bytes author), mv_timestamp_ms = timestamp_ms (content e), mv_text = text\<rparr>"

lemma message_fold:
  assumes "\<And>i. i \<in> set ids \<Longrightarrow> \<exists>e pl author. bt_get by_id i = Some e \<and> decode (cp_payloads X) e = Inr pl \<and>
      author_id (cp_crypto X) e = Inr author"
  shows "\<exists>vs. try_fold (message_view_of X by_id None) ids ms = Inr vs \<and> set ms \<subseteq> set vs \<and>
    (\<forall>i e channel text author. i \<in> set ids \<longrightarrow> bt_get by_id i = Some e \<longrightarrow>
       decode (cp_payloads X) e = Inr (MessageCreate channel text) \<longrightarrow> author_id (cp_crypto X) e = Inr author \<longrightarrow>
       view_of X e channel author text \<in> set vs)"
  using assms
proof (induction ids arbitrary: ms)
  case (Cons i ids)
  obtain e pl author where e: "bt_get by_id i = Some e" "decode (cp_payloads X) e = Inr pl" "author_id (cp_crypto X) e = Inr author"
    using Cons.prems [of i] by auto
  let ?new = "case pl of MessageCreate channel text \<Rightarrow> [view_of X e channel author text] | _ \<Rightarrow> []"
  have one: "message_view_of X by_id None ms i = Inr (ms @ ?new)"
    using e by (cases pl) (simp_all add: message_view_of_def view_of_def)
  obtain vs where "try_fold (message_view_of X by_id None) ids (ms @ ?new) = Inr vs" "set (ms @ ?new) \<subseteq> set vs"
      "\<forall>i e channel text author. i \<in> set ids \<longrightarrow> bt_get by_id i = Some e \<longrightarrow>
       decode (cp_payloads X) e = Inr (MessageCreate channel text) \<longrightarrow> author_id (cp_crypto X) e = Inr author \<longrightarrow>
       view_of X e channel author text \<in> set vs"
    using Cons.IH [of "ms @ ?new"] Cons.prems by auto
  then show ?case using one e by (intro exI [of _ vs]) (auto split: chat_payload.splits)
qed simp

lemma message_views_ok:
  assumes "resolve (cp_crypto X) (cp_payloads X) es = Inr R" and uniq: "ids_unique (set es)"
  obtains vs where "message_views X None es (accepted_in_order R) = Inr vs"
    and "\<And>e channel text author. e \<in> set es \<Longrightarrow> event_id e \<in> set (accepted_in_order R) \<Longrightarrow>
       decode (cp_payloads X) e = Inr (MessageCreate channel text) \<Longrightarrow> author_id (cp_crypto X) e = Inr author \<Longrightarrow>
       view_of X e channel author text \<in> set vs"
proof (rule resolve_sound [OF assms])
  fix st assume run: "chat_run (cp_crypto X) (cp_payloads X) (set es) st (accepted_in_order R)"
  let ?by_id = "bt_of_list (map (\<lambda>e. (event_id e, e)) es)"
  have get: "bt_get ?by_id (event_id e) = Some e" if "e \<in> set es" for e
  proof -
    have "event_id e \<in> set (bt_keys ?by_id)" using that by (force simp: bt_keys_of_list)
    then obtain d where "bt_get ?by_id (event_id e) = Some d" by (auto simp: bt_keys_iff_get)
    then show ?thesis using ids_uniqueD [OF uniq _ that] by (auto simp: bt_get_of_list dest!: map_of_SomeD)
  qed
  have "\<exists>e pl author. bt_get ?by_id i = Some e \<and> decode (cp_payloads X) e = Inr pl \<and> author_id (cp_crypto X) e = Inr author"
    if i: "i \<in> set (accepted_in_order R)" for i
  proof -
    obtain xs ys where order: "accepted_in_order R = xs @ i # ys" using i by (auto simp: in_set_conv_decomp)
    show ?thesis by (rule chat_run_step [OF run [unfolded order]]) (use get in blast)
  qed
  then obtain vs where vs: "try_fold (message_view_of X ?by_id None) (accepted_in_order R) [] = Inr vs"
      "\<forall>i e channel text author. i \<in> set (accepted_in_order R) \<longrightarrow> bt_get ?by_id i = Some e \<longrightarrow>
       decode (cp_payloads X) e = Inr (MessageCreate channel text) \<longrightarrow> author_id (cp_crypto X) e = Inr author \<longrightarrow>
       view_of X e channel author text \<in> set vs"
    using message_fold [of "accepted_in_order R" ?by_id X "[]"] by auto
  show thesis by (rule that [of vs]) (use vs get in \<open>auto simp: message_views_def\<close>)
qed

lemma channel_views_opens:
  assumes "opens (cp_payloads X) (set es) accepted channel"
  shows "cp_hex_encode X (arr32_bytes channel) \<in> cv_channel_id ` set (channel_views X accepted es)"
proof -
  obtain e name where e: "e \<in> set es" "event_id e \<in> accepted" "decode (cp_payloads X) e = Inr (ChannelCreate channel name)"
    using assms by (auto simp: opens_def)
  then have "\<lparr>cv_channel_id = cp_hex_encode X (arr32_bytes channel), cv_name = name\<rparr> \<in> set (channel_views X accepted es)"
    unfolding channel_views_def set_map_filter by force
  then show ?thesis by force
qed

section \<open>The commands\<close>

text \<open>Both commands open the community and print one line.\<close>

lemma list_commands:
  assumes h: "healthy w" and load: "load_state X opts w = (Inr st, w)"
    and whole: "whole_store (cp_crypto X) (cp_events X) c (database st w)" and "stored X st w \<noteq> {}"
    and c: "res_bind (require_one opts ''--community'') (parse_community X) = Inr c"
    and none: "optional_one opts ''--channel'' = Inr None"
    and allow: "allow_only opts [''--state'', ''--community''] = Inr ()"
      "allow_only opts [''--state'', ''--community'', ''--channel''] = Inr ()"
  obtains es R vs where "set es = stored X st w" and "resolve (cp_crypto X) (cp_payloads X) es = Inr R"
    and "message_views X None es (accepted_in_order R) = Inr vs"
    and "\<And>e channel text author. e \<in> stored X st w \<Longrightarrow> event_id e \<in> set (accepted_in_order R) \<Longrightarrow>
       decode (cp_payloads X) e = Inr (MessageCreate channel text) \<Longrightarrow> author_id (cp_crypto X) e = Inr author \<Longrightarrow>
       view_of X e channel author text \<in> set vs"
    and "\<And>json. cp_channels_json X (channel_views X (snap_event_ids (snapshot R)) es) = Some json \<Longrightarrow>
       command_list_channels X opts w =
         (Inr (), (save_table st (database st w) w)\<lparr>w_output := w_output w @ [json @ [CHR 0x0A]]\<rparr>)"
    and "\<And>json. cp_messages_json X vs = Some json \<Longrightarrow>
       command_list_messages X opts w =
         (Inr (), (save_table st (database st w) w)\<lparr>w_output := w_output w @ [json @ [CHR 0x0A]]\<rparr>)"
proof -
  obtain core es R where op: "open_community X st c w = (Inr core, save_table st (database st w) w)"
    and es: "all_events (cp_crypto X) (cp_events X) core = Inr es" "set es = stored X st w"
    and R: "resolve (cp_crypto X) (cp_payloads X) es = Inr R"
    by (rule open_events [OF h whole assms(4)])
  have uniq: "ids_unique (set es)" using stored_unique(1) [OF whole] es(2) by simp
  obtain vs where vs: "message_views X None es (accepted_in_order R) = Inr vs"
    and mem: "\<And>e channel text author. e \<in> set es \<Longrightarrow> event_id e \<in> set (accepted_in_order R) \<Longrightarrow>
       decode (cp_payloads X) e = Inr (MessageCreate channel text) \<Longrightarrow> author_id (cp_crypto X) e = Inr author \<Longrightarrow>
       view_of X e channel author text \<in> set vs"
    by (rule message_views_ok [OF R uniq]) blast
  have fl: "w_flush (save_table st (database st w) w) = None" "w_output (save_table st (database st w) w) = w_output w"
    using healthyD(3) [OF h] by simp_all
  have channels: "command_list_channels X opts w =
      (Inr (), (save_table st (database st w) w)\<lparr>w_output := w_output w @ [json @ [CHR 0x0A]]\<rparr>)"
    if "cp_channels_json X (channel_views X (snap_event_ids (snapshot R)) es) = Some json" for json
    using that allow(1) load c op es(1) R fl by (simp add: command_list_channels_def op_lift_def flush_def)
  have messages: "command_list_messages X opts w =
      (Inr (), (save_table st (database st w) w)\<lparr>w_output := w_output w @ [json @ [CHR 0x0A]]\<rparr>)"
    if "cp_messages_json X vs = Some json" for json
    using that allow(2) load c none op es(1) R vs fl
    by (simp add: command_list_messages_def op_lift_def flush_def transposed_def)
  show thesis by (rule that [OF es(2) R vs mem [unfolded es(2)] channels messages])
qed

section \<open>Publishing\<close>

text \<open>The steps of a successful \<open>send-message\<close>.\<close>

lemma send_message_Inr:
  assumes "load_state X opts w = (Inr st, w)"
    and "res_bind (require_one opts ''--community'') (parse_community X) = Inr c"
    and "res_bind (require_one opts ''--channel'') (parse_hex_32 X) = Inr channel"
    and "require_one opts ''--text'' = Inr raw"
    and run: "command_send_message X clock opts w = (Inr (), w')"
  obtains fs core e w2 r w3 where "open_community X st c (w\<lparr>w_fs := fs\<rparr>) = (Inr core, w2)"
    and "local_event X st c core clock (MessageCreate channel (trim raw)) = Inr e"
    and "require_candidate_accepted X core e = Inr ()"
    and "on_node st core (node_ingest X [e]) w2 = (Inr r, w3)"
    and "stored X st w' = stored X st w3" and "database st w' = database st w3"
proof -
  let ?body = "op_bind (op_lift (res_bind (require_one opts ''--community'') (parse_community X))) (\<lambda>community.
       op_bind (op_lift (res_bind (require_one opts ''--channel'') (parse_hex_32 X))) (\<lambda>channel.
       op_bind (open_community X st community) (\<lambda>core.
       op_bind (op_lift (local_event X st community core clock (MessageCreate channel (trim raw)))) (\<lambda>event.
       op_bind (op_lift (require_candidate_accepted X core event)) (\<lambda>_.
       op_bind (on_node st core (node_ingest X [event])) (\<lambda>_.
       op_bind (println (''MESSAGE_EVENT_ID='' @ cp_hex_encode X (event_bytes (event_id event)))) (\<lambda>_.
       flush)))))))"
  have "with_lock st ?body w = (Inr (), w')"
    using run assms(1,4) unfolding command_send_message_def
    by (auto simp: op_bind_Inr_iff [of "op_lift _"] op_lift_def op_fail_def Let_def split: if_splits)
  then obtain fs w1 where body: "?body (w\<lparr>w_fs := fs\<rparr>) = (Inr (), w1)" and w': "w' = w1\<lparr>w_fs := release_lock st (w_fs w1)\<rparr>"
    by (rule with_lock_Inr)
  obtain core e w2 r w3 where op: "open_community X st c (w\<lparr>w_fs := fs\<rparr>) = (Inr core, w2)"
    and e: "local_event X st c core clock (MessageCreate channel (trim raw)) = Inr e" and acc: "require_candidate_accepted X core e = Inr ()"
    and ing: "on_node st core (node_ingest X [e]) w2 = (Inr r, w3)" and w3: "stored X st w1 = stored X st w3" "database st w1 = database st w3"
    using body assms(2,3) by (auto simp: op_bind_Inr_iff op_lift_def)
  show thesis by (rule that [OF op e acc ing]) (use w3 in \<open>simp_all add: w'\<close>)
qed

text \<open>What a successful \<open>send-message\<close> has added to the database.\<close>

lemma send_message_publishes:
  assumes w: "whole_store (cp_crypto X) (cp_events X) c (database st w)"
    and "load_state X opts w = (Inr st, w)" and "codec_lossless (cp_payloads X)"
    and "res_bind (require_one opts ''--community'') (parse_community X) = Inr c"
    and "res_bind (require_one opts ''--channel'') (parse_hex_32 X) = Inr channel"
    and "require_one opts ''--text'' = Inr raw"
    and run: "command_send_message X clock opts w = (Inr (), w')"
  obtains core e where "node_open (cp_crypto X) (cp_events X) (database st w) (Some c) = Inr core"
    and "local_event X st c core clock (MessageCreate channel (trim raw)) = Inr e"
    and "decode (cp_payloads X) e = Inr (MessageCreate channel (trim raw))"
    and "author_id (cp_crypto X) e = Inr (identity_user_id (cp_crypto X) (state_user st))"
    and "collision_free (cp_crypto X) (insert e (stored X st w)) \<longrightarrow>
       e \<notin> stored X st w \<and> stored X st w' = insert e (stored X st w) \<and>
       whole_store (cp_crypto X) (cp_events X) c (database st w') \<and>
       (\<forall>es. set es = stored X st w' \<longrightarrow>
          (\<exists>R. resolve (cp_crypto X) (cp_payloads X) es = Inr R \<and> event_id e \<in> snap_event_ids (snapshot R)))"
proof -
  let ?pl = "MessageCreate channel (trim raw)"
  obtain fs core e w2 r w3 where op: "open_community X st c (w\<lparr>w_fs := fs\<rparr>) = (Inr core, w2)"
    and e: "local_event X st c core clock ?pl = Inr e" and acc: "require_candidate_accepted X core e = Inr ()"
    and ing: "on_node st core (node_ingest X [e]) w2 = (Inr r, w3)"
    and w3: "stored X st w' = stored X st w3" "database st w' = database st w3"
    by (rule send_message_Inr [OF assms(2,4-6) run])
  have w0: "whole_store (cp_crypto X) (cp_events X) c (database st (w\<lparr>w_fs := fs\<rparr>))" using w by simp
  note core = node_open_whole [OF w0 open_community_Inr(1) [OF op]]
  have st: "stored X st w = ran (store_abs (cp_events X) (node_store core))" by (simp add: stored_def core(1))
  have dec: "decode (cp_payloads X) e = Inr ?pl"
    by (rule local_event_Inr(3) [OF core(2) e assms(3)]) simp
  have "e \<notin> stored X st w \<and> stored X st w' = insert e (stored X st w) \<and>
       whole_store (cp_crypto X) (cp_events X) c (database st w') \<and>
       (\<forall>es. set es = stored X st w' \<longrightarrow>
          (\<exists>R. resolve (cp_crypto X) (cp_payloads X) es = Inr R \<and> event_id e \<in> snap_event_ids (snapshot R)))"
    if free: "collision_free (cp_crypto X) (insert e (stored X st w))"
  proof -
    note pub = publish_ok [OF w0 op e ing]
    obtain rep core' where "r = (rep, core')" by fastforce
    then have i: "ingest (cp_crypto X) (cp_events X) core [e] = (Inr rep, core')"
      using on_node_Inr(1) [of st core "node_ingest X [e]" w2] ing by (simp add: node_ingest_Inr)
    obtain c' where "ingest_check (cp_crypto X) core [e] = Inr c'" by (rule ingest_Inr_loop [OF i])
    then have val: "validate_event (cp_crypto X) e = Inr ()" using ingest_check_Inr(2) by fastforce
    have "\<exists>R. resolve (cp_crypto X) (cp_payloads X) es = Inr R \<and> event_id e \<in> snap_event_ids (snapshot R)"
      if "set es = insert e (stored X st w)" for es
      by (rule candidate_accepted [OF core(2) acc _ _ val]) (use free that st in simp_all)
    then show ?thesis using pub free w3 by simp
  qed
  moreover have "node_open (cp_crypto X) (cp_events X) (database st w) (Some c) = Inr core"
    using open_community_Inr(1) [OF op] by simp
  ultimately show thesis using that [OF _ e dec local_event_Inr(2) [OF core(2) e]] by blast
qed

end
