(* ===== verification/Cli_Properties.thy ===== *)
theory Cli_Properties
  imports Cli_Demo Listing
begin

text \<open>
  The properties of the command line client: private state, archives, publishing, and the gate a running
  node keeps.
\<close>

section \<open>State directories\<close>

text \<open>C33: an initialised state directory loads back to the same identities from a private directory and a
  private file; initialising it again fails and leaves the identity file as it is.\<close>

theorem state_directory_roundtrip:
  assumes "codec_lossless K" and "\<And>call. fs_fault fs' call = None"
    and "state_initialize L K directory user_seed device_seed clock fs = (Inr st, fs')"
  shows "state_load L K directory fs' = Inr st \<and> state_user st = identity_from_seed user_seed \<and>
    (\<exists>dm fm bs. fs_entries fs' directory = Some (FsDir dm) \<and> and dm 63 = 0 \<and>
       fs_entries fs' (join_path directory IDENTITY_FILE) = Some (FsFile fm bs) \<and> and fm 63 = 0 \<and>
       (case state_initialize L K directory other_user other_device later fs' of
          (r, fs'') \<Rightarrow> (\<exists>err. r = Inl err) \<and>
            fs_entries fs'' (join_path directory IDENTITY_FILE) = Some (FsFile fm bs)))"
proof -
  have load: "state_load L K directory fs' = Inr st" by (rule state_initialize_load [OF assms(1,3,2)])
  obtain dm fm bs where priv: "fs_entries fs' directory = Some (FsDir dm)" "and dm 63 = 0"
      "fs_entries fs' (join_path directory IDENTITY_FILE) = Some (FsFile fm bs)" "and fm 63 = 0"
    using state_load_private [OF load] by blast
  have "state_user st = identity_from_seed user_seed"
    by (rule state_initialize_Inr [OF assms(3)]) (auto simp: state_from_seeds_def res_bind_Inr_iff)
  then show ?thesis
    using load priv state_initialize_keeps [OF priv(3), of L K other_user other_device later]
    by (cases "state_initialize L K directory other_user other_device later fs'") blast
qed

definition fresh_fs :: filesystem where
  "fresh_fs = \<lparr>fs_entries = Map.empty, fs_locks = {}, fs_umask = 0, fs_fault = (\<lambda>_. None), fs_partial = (\<lambda>_. 0)\<rparr>"

theorem state_directory_roundtrip_witness:
  "\<exists>st fs'. state_initialize demo_libp2p (cp_persisted demo_cli) ''s'' 1 11 0 fresh_fs = (Inr st, fs') \<and>
     state_load demo_libp2p (cp_persisted demo_cli) ''s'' fs' = Inr st"
proof -
  obtain fs' where run: "state_initialize demo_libp2p (cp_persisted demo_cli) ''s'' 1 11 0 fresh_fs = (Inr (demo_state ''s''), fs')"
    and fault: "\<And>call. fs_fault fs' call = None"
    by (simp add: state_initialize_def prepare_directory_def symlink_metadata_def create_dir_all_def make_dir_def fs_try_def
        fresh_fs_def op_return_def op_lift_def path_exists_def join_path_def IDENTITY_FILE_def state_now_ms_def
        table_codec_def demo_persisted_def MAX_IDENTITY_BYTES_def write_private_file_def put_entry_def state_from_seeds_def
        demo_device_seed demo_state_def owner_identity_def Let_def)
  have lossless: "codec_lossless (cp_persisted demo_cli)" by (simp add: table_codec_lossless)
  show ?thesis using run state_directory_roundtrip [OF lossless fault run, of 0 0 0] by blast
qed

text \<open>C31: isolation: whatever the command line, the databases after a command are those before it with a list of
  changes applied, each to the database of the state directory that the command line names, and each made
  while the lock of that directory was held, which nobody held before the command and which is given back;
  only \<open>list-channels\<close> and \<open>list-messages\<close> take no lock, and they change a database only by creating a
  missing one, empty.\<close>

theorem commands_isolated:
  "\<exists>xs. w_changes (snd (run X env arguments w)) = w_changes w @ xs \<and>
    w_databases (snd (run X env arguments w)) = fold apply_change xs (w_databases w) \<and>
    fs_locks (w_fs (snd (run X env arguments w))) = fs_locks (w_fs w) \<and>
    (\<forall>x \<in> set xs. \<exists>command rest opts st. arguments = command # rest \<and> options_parse rest = Inr opts \<and>
       load_state X opts w = (Inr st, w) \<and> change_path x = database_path st \<and>
       (lock_path st \<notin> fs_locks (w_fs w) \<and> lock_path st \<in> change_locks x \<or>
        command \<in> {''list-channels'', ''list-messages''} \<and> change_from x = None \<and> change_to x = []))"
  (is "\<exists>xs. ?log xs \<and> ?replay xs \<and> ?locks \<and> (\<forall>x \<in> set xs. ?ok x)")
proof -
  have quiet: ?thesis if frame: "\<And>P. changes P w (snd (run X env arguments w))"
    using frame [of "\<lambda>_ _. False"] by (auto simp: changes_def)
  have usage: "changes P w (snd (finished (print_text USAGE) w))" for P
    by (simp add: finished_def changes.op_bind changes_output changes.op_return)
  show ?thesis
  proof (cases arguments)
    case Nil
    then show ?thesis using usage by (intro quiet) (simp add: run_def)
  next
    case (Cons command rest)
    show ?thesis
    proof (cases "command = ''--help'' \<or> command = ''help''")
      case True
      then show ?thesis using usage by (intro quiet) (simp add: run_def Cons)
    next
      case False
      then have run: "run X env arguments = op_bind (op_lift (options_parse rest)) (run_options X env command)"
        by (simp add: run_def Cons)
      show ?thesis
      proof (cases "options_parse rest")
        case (Inl err)
        then show ?thesis by (intro quiet) (simp add: run op_bind_def op_lift_def changes.refl)
      next
        case (Inr opts)
        have snd: "snd (run X env arguments w) = snd (run_options X env command opts w)"
          by (simp add: run Inr op_bind_def op_lift_def)
        obtain xs where "?log xs" "?replay xs" ?locks
          and xs: "\<forall>x \<in> set xs. \<exists>st. load_state X opts w = (Inr st, w) \<and> allowed_change command st (fs_locks (w_fs w)) x"
          using run_options_confined [of X opts command env] unfolding confined_def changes_def snd by blast
        moreover have "?ok x" if x: "x \<in> set xs" for x
        proof -
          obtain st where "load_state X opts w = (Inr st, w)" "allowed_change command st (fs_locks (w_fs w)) x"
            using xs x by blast
          then show ?thesis
            using Cons Inr by (intro exI [of _ command] exI [of _ rest] exI [of _ opts] exI [of _ st])
              (auto simp: allowed_change_def under_lock_def creation_def)
        qed
        ultimately show ?thesis by blast
      qed
    qed
  qed
qed

text \<open>The witness sends a message: the database has changed, and every change was made under the lock.\<close>

lemma talk_whole_store:
  "whole_store (cp_crypto talk_cli) (cp_events talk_cli) demo_community (database (demo_state ''s'') talk_world)"
  using whole_store_of_node [OF talk_whole, of demo_community] by (simp add: talk_database talk_node_def)

lemma talk_free: "collision_free demo_crypto {talk_message, demo_genesis, talk_channel}"
  using valid_event_id [OF demo_valid(1)] valid_event_id [OF talk_valid(1)] valid_event_id [OF talk_valid(2)]
  by (auto simp: collision_free_def)

lemma talk_new: "talk_message \<noteq> demo_genesis" "talk_message \<noteq> talk_channel"
  by (rule notI, drule arg_cong [where f = event_id], simp)+

definition talk_arguments :: "string list" where
  "talk_arguments = [''send-message'', ''--state'', ''s'', ''--community'', demo_hex, ''--channel'', talk_hex, ''--text'', ''m'']"

lemma talk_parse: "options_parse (tl talk_arguments) = Inr talk_options"
  by (simp add: talk_arguments_def options_parse_def bt_get_def talk_options_def)

definition talk_env :: cli_env where
  "talk_env = \<lparr>env_user_seed = 1, env_device_seed = 11, env_channel = 9, env_capability = 0, env_clock = 0,
     env_surroundings = \<lparr>sur_clock = (\<lambda>_. 0), sur_swarm = (\<lambda>_. demo_swarm), sur_idle = (\<lambda>_. None)\<rparr>,
     env_events = []\<rparr>"

lemma talk_run:
  "\<exists>w. run talk_cli talk_env talk_arguments talk_world = (Inr (Some ()), w) \<and> w_databases w \<noteq> w_databases talk_world"
proof -
  obtain w where send: "command_send_message talk_cli 0 talk_options talk_world = (Inr (), w)" using talk_send by blast
  have lossless: "codec_lossless (cp_payloads talk_cli)" by (simp add: talk_lossless)
  obtain e where e: "collision_free (cp_crypto talk_cli) (insert e (stored talk_cli (demo_state ''s'') talk_world)) \<longrightarrow>
        e \<notin> stored talk_cli (demo_state ''s'') talk_world \<and>
        stored talk_cli (demo_state ''s'') w = insert e (stored talk_cli (demo_state ''s'') talk_world)"
      "e = talk_message"
    by (rule send_message_publishes [OF talk_whole_store talk_load lossless talk_options_simps(3,4,2) send])
      (auto simp: talk_database talk_open talk_trim talk_event)
  then have "stored talk_cli (demo_state ''s'') w \<noteq> stored talk_cli (demo_state ''s'') talk_world"
    using talk_free talk_new by (auto simp: talk_stored insert_absorb dest: equalityD1)
  then have "database (demo_state ''s'') w \<noteq> database (demo_state ''s'') talk_world" by (auto simp: stored_def)
  then have "w_databases w \<noteq> w_databases talk_world \<or> w_sql w \<noteq> w_sql talk_world" by (auto simp: database_def)
  moreover have "w_sql w = w_sql talk_world"
    using commands_keep_file(4) [of "''x''" talk_world talk_cli 0 talk_options] send
    by (simp add: keeps_file_def unlocked_def join_path_def LOCK_FILE_def)
  moreover have "run talk_cli talk_env talk_arguments talk_world = (Inr (Some ()), w)"
    using send talk_parse
    by (simp add: talk_arguments_def talk_env_def run_def run_options_def op_lift_def op_bind_def finished_def op_return_def)
  ultimately show ?thesis by blast
qed

theorem commands_isolated_witness:
  "\<exists>w. run talk_cli talk_env talk_arguments talk_world = (Inr (Some ()), w) \<and> w_changes w \<noteq> [] \<and>
     (\<forall>x \<in> set (w_changes w). change_path x = ''s/events.sqlite3'' \<and> ''s/state.lock'' \<in> change_locks x)"
proof -
  obtain w where w: "run talk_cli talk_env talk_arguments talk_world = (Inr (Some ()), w)"
      "w_databases w \<noteq> w_databases talk_world"
    using talk_run by blast
  moreover have "w_changes talk_world = []" by (simp add: talk_world_def demo_world_def)
  ultimately show ?thesis
    using commands_isolated [of talk_cli talk_env talk_arguments talk_world] talk_load talk_parse
    by (auto simp: talk_arguments_def demo_state_def lock_path_def database_path_def join_path_def LOCK_FILE_def)
qed

section \<open>Archives\<close>

text \<open>C32: importing an archive into a well-formed node takes in every event: when the archive is valid,
  of the node's community and closed under parents, and the storage works, the import succeeds whatever
  the order and the number of its events, and the node then knows exactly what it knew and the archive's
  events.\<close>

theorem archive_import_exact:
  assumes "node_ok C J core" and "ids_unique (universe J core events)"
    and "\<forall>e \<in> set events. validate_event C e = Inr ()"
    and "\<forall>e \<in> set events. set (parents (content e)) \<subseteq> node_known core \<union> event_id ` set events"
    and "wf (parent_relation (set events))"
    and "\<forall>e \<in> set events. in_community c e" and "node_community core \<in> {None, Some c}"
    and "storage_ready J (node_store core) (set events)"
  shows "\<exists>inserted already core'. ingest_archive C J events core = (Inr (inserted, already), core') \<and>
    node_ok C J core' \<and> node_known core' = node_known core \<union> event_id ` set events"
proof -
  obtain inserted already core' where run: "ingest_archive C J events core = (Inr (inserted, already), core')"
    using ingest_archive_succeeds [OF assms] by blast
  show ?thesis using run ingest_archive_ok [OF assms(1-5) run] by auto
qed

lemma demo_parents: "parent_relation (set demo_events) \<subseteq> measure (\<lambda>i. unat (event_word i))"
  by (auto simp: parent_relation_def demo_events_def)

theorem archive_import_exact_witness:
  "\<exists>inserted already core'. ingest_archive demo_crypto demo_json demo_events demo_node = (Inr (inserted, already), core') \<and>
     node_known core' = {EventId 248, EventId 185, EventId 247}"
proof -
  have "ids_unique (universe demo_json demo_node demo_events)" using demo_universe demo_ids_unique by simp
  moreover have "\<forall>e \<in> set demo_events. set (parents (content e)) \<subseteq> node_known demo_node \<union> event_id ` set demo_events"
    "\<forall>e \<in> set demo_events. in_community demo_community e" "node_community demo_node \<in> {None, Some demo_community}"
    "storage_ready demo_json (node_store demo_node) (set demo_events)" "node_known demo_node = {}"
    by (simp_all add: demo_events_def in_community_def demo_node_def storage_ready_def demo_store_def)
  moreover have "wf (parent_relation (set demo_events))" by (rule wf_subset [OF wf_measure demo_parents])
  ultimately show ?thesis
    using archive_import_exact [OF demo_node_ok _ demo_events_valid] by (fastforce simp: demo_events_def)
qed

lemma try_fold_fails:
  assumes "x \<in> set xs" and "\<And>st. \<exists>err. f st x = Inl err"
  shows "\<exists>err. try_fold f xs st = Inl err"
  using assms(1)
proof (induction xs arbitrary: st)
  case (Cons y ys)
  then show ?case using assms(2) [of st] by (cases "f st y") auto
qed simp

lemma try_fold_error_kind:
  assumes "try_fold f xs st = Inl err" and "\<And>st x err. f st x = Inl err \<Longrightarrow> P err"
  shows "P err"
  using try_fold_error [OF assms(1)] assms(2) by blast

lemma count_parents_error: "count_parents pending known = Inl err \<Longrightarrow> err = IncompleteArchive"
  unfolding count_parents_def
proof (erule try_fold_error_kind)
  fix k p err'
  assume "count_event pending known k p = Inl err'"
  then have "try_fold (count_parent pending known (fst p)) (parents (content (snd p))) (0, k_children k) = Inl err'"
    by (auto simp: count_event_def res_bind_def split: sum.splits)
  then show "err' = IncompleteArchive"
    by (rule try_fold_error_kind) (auto simp: count_parent_def split: if_splits)
qed

text \<open>An archive with a new event whose parent neither the node nor the archive has is refused before
  anything is stored.\<close>

theorem archive_incomplete_refused:
  assumes "ids_unique (set events)" and "e \<in> set events" and "event_id e \<notin> node_known core"
    and "p \<in> set (parents (content e))" and "p \<notin> node_known core \<union> event_id ` set events"
  shows "ingest_archive C J events core = (Inl IncompleteArchive, core)"
proof -
  let ?known = "node_known core"
  let ?pending = "pending_of ?known events"
  have "bt_get ?pending (event_id e) = Some e" using pending_of_get [OF assms(1)] assms(2,3) by blast
  then have e: "(event_id e, e) \<in> set ?pending" by (auto simp: bt_get_def dest: map_of_SomeD)
  have "bt_get ?pending p = None" using pending_of_get [OF assms(1), of ?known p] assms(5) by fastforce
  then have "\<exists>err. count_parent ?pending ?known (event_id e) st p = Inl err" for st
    using assms(5) by (cases st) (simp add: count_parent_def bt_contains_key_def bt_keys_iff_get)
  then have "\<exists>err. count_event ?pending ?known k (event_id e, e) = Inl err" for k
    using try_fold_fails [OF assms(4), of "count_parent ?pending ?known (event_id e)"]
    by (metis (no_types, lifting) count_event_def fst_conv res_bind_simps(1) snd_conv)
  then obtain err where "count_parents ?pending ?known = Inl err"
    using try_fold_fails [OF e, of "count_event ?pending ?known"] unfolding count_parents_def by blast
  then show ?thesis
    using count_parents_error by (simp add: ingest_archive_def archive_order_def op_bind_def op_lift_def Let_def)
qed

theorem archive_incomplete_refused_witness:
  "ingest_archive demo_crypto demo_json [demo_invite] demo_node = (Inl IncompleteArchive, demo_node)"
  by (rule archive_incomplete_refused [of _ demo_invite _ "EventId 185"])
    (simp_all add: ids_unique_def demo_node_def)

lemma stored_row:
  assumes "store_ok C J s" and "e \<in> ran (store_abs J s)"
  shows "validate_event C e = Inr () \<and> (\<exists>b. to_vec J e = Some b)"
  using assms store_ok_row [OF assms(1)]
  by (fastforce simp: ran_def store_abs_def row_ok_def split: option.splits)

text \<open>C26: moving a community: what \<open>export-community\<close> wrote, \<open>import-community\<close> restores in an empty state
  directory: afterwards both databases hold the same events.\<close>

theorem community_transfer:
  assumes source: "whole_store (cp_crypto X) (cp_events X) c (database st w)"
      "load_state X opts w = (Inr st, w)"
      "res_bind (require_one opts ''--community'') (parse_community X) = Inr c" "require_one opts ''--output'' = Inr path"
    and export: "command_export_community X opts w = (Inr (), w1)"
    and codecs: "codec_lossless (cp_archive X)" "codec_lossless (cp_events X)"
    and history: "collision_free (cp_crypto X) (stored X st w)" "wf (parent_relation (stored X st w))"
      "\<forall>es R. set es = stored X st w \<longrightarrow> resolve (cp_crypto X) (cp_payloads X) es = Inr R \<longrightarrow>
        snap_community (snapshot R) = Some c"
    and target: "healthy w1" "load_state X opts' w1 = (Inr st', w1)" "events_table (database st' w1) = []"
      "allow_only opts' [''--state'', ''--input''] = Inr ()" "require_one opts' ''--input'' = Inr path"
      "acquire_lock st' (w_fs w1) = (Inr (), fs)" "path \<noteq> join_path (state_directory st') LOCK_FILE"
  shows "\<exists>w2. command_import_community X opts' w1 = (Inr (), w2) \<and> stored X st' w2 = stored X st w \<and>
    whole_store (cp_crypto X) (cp_events X) c (database st' w2)"
proof -
  let ?C = "cp_crypto X"
  obtain es bs m where enc: "archive_encode ?C (cp_archive X) c es = Inr bs" "set es = stored X st w"
    and written: "fs_entries (w_fs w1) path = Some (FsFile m bs)"
    using export_ok [OF source export] by blast
  let ?v = "\<lparr>archive_community = c, archive_events = sort_key event_id es\<rparr>"
  have v: "res_bind (archive_parse (cp_archive X) bs) (validate_wire ?C) = Inr ?v"
    by (rule archive_roundtrip [OF codecs(1) enc(1)])
  have set: "set (archive_events ?v) = stored X st w" by (simp add: enc(2))
  have row: "validate_event ?C e = Inr () \<and> (\<exists>b. to_vec (cp_events X) e = Some b)" if "e \<in> stored X st w" for e
    using that stored_row [OF whole_store_ok [OF source(1)]] by (simp add: stored_def)
  obtain R where R: "resolve ?C (cp_payloads X) (archive_events ?v) = Inr R"
    using resolve_succeeds [of ?C "cp_payloads X" "archive_events ?v"] row set by auto
  have com: "snap_community (snapshot R) = Some (archive_community ?v)" using history(3) [rule_format, OF set R] by simp
  have "\<exists>w2. command_import_community X opts' w1 = (Inr (), w2) \<and> stored X st' w2 = set (archive_events ?v) \<and>
    whole_store ?C (cp_events X) (archive_community ?v) (database st' w2)"
    by (rule import_restores [OF target(1,2,4,5,6,7) written v R com target(3) codecs(2)])
      (use history row in \<open>simp_all add: enc(2)\<close>)
  then show ?thesis by (simp add: enc(2))
qed

theorem community_transfer_witness:
  "\<exists>w1 w2. command_export_community demo_cli export_options demo_world = (Inr (), w1) \<and>
     command_import_community demo_cli import_options w1 = (Inr (), w2) \<and>
     stored demo_cli (demo_state ''t'') w2 = set demo_events"
proof -
  obtain out where export: "command_export_community demo_cli export_options demo_world =
      (Inr (), demo_world\<lparr>w_fs := exported_fs, w_output := out\<rparr>)" (is "_ = (_, ?w1)")
    using demo_export by blast
  have load: "load_state demo_cli import_options ?w1 = (Inr (demo_state ''t''), ?w1)"
    by (simp add: load_state_def op_bind_def op_lift_def require_one_def bt_get_def import_options_def demo_load
        exported_fs_def demo_fs_def join_path_def IDENTITY_FILE_def)
  have opts: "allow_only import_options [''--state'', ''--input''] = Inr ()" "require_one import_options ''--input'' = Inr ''f''"
    "require_one export_options ''--output'' = Inr ''f''"
    "res_bind (require_one export_options ''--community'') (parse_community demo_cli) = Inr demo_community"
    by (simp_all add: allow_only_def bt_keys_def require_one_def bt_get_def import_options_def export_options_def)
  obtain fs where lock: "acquire_lock (demo_state ''t'') (w_fs ?w1) = (Inr (), fs)"
    by (simp add: acquire_lock_def Let_def demo_state_def join_path_def LOCK_FILE_def symlink_metadata_def fs_try_def
        exported_fs_def demo_fs_def put_entry_def masked_def validate_private_mode_def)
  have free: "collision_free demo_crypto (stored demo_cli (demo_state ''s'') demo_world)"
    "wf (parent_relation (stored demo_cli (demo_state ''s'') demo_world))"
    using demo_collision_free wf_subset [OF wf_measure demo_parents] by (simp_all add: demo_stored)
  have com: "\<forall>es R. set es = stored demo_cli (demo_state ''s'') demo_world \<longrightarrow> resolve demo_crypto demo_payloads es = Inr R \<longrightarrow>
      snap_community (snapshot R) = Some demo_community"
    using demo_resolve_set by (auto simp: demo_stored demo_resolution_def)
  have rest: "healthy ?w1" "events_table (database (demo_state ''t'') ?w1) = []"
    "''f'' \<noteq> join_path (state_directory (demo_state ''t'')) LOCK_FILE"
    "codec_lossless (cp_archive demo_cli)" "codec_lossless (cp_events demo_cli)"
    by (simp_all add: healthy_def demo_world_def exported_fs_def demo_fs_def database_def database_path_def demo_state_def
        join_path_def LOCK_FILE_def table_codec_lossless demo_json_lossless)
  have "\<exists>w2. command_import_community demo_cli import_options ?w1 = (Inr (), w2) \<and>
      stored demo_cli (demo_state ''t'') w2 = stored demo_cli (demo_state ''s'') demo_world \<and>
      whole_store (cp_crypto demo_cli) (cp_events demo_cli) demo_community (database (demo_state ''t'') w2)"
    by (rule community_transfer [OF _ demo_load_state opts(4,3) export rest(4,5) _ _ _ rest(1) load rest(2) opts(1,2) lock rest(3)])
      (use demo_whole_store free com in simp_all)
  then show ?thesis using export demo_stored by blast
qed

section \<open>Publishing\<close>

text \<open>C27: a sent message: when \<open>send-message\<close> succeeds, one new event of the user with this text in this
  channel has been added to the database, which stays complete, and whoever holds the same events
  resolves the community to one in which the message is accepted.\<close>

theorem message_published:
  assumes w: "whole_store (cp_crypto X) (cp_events X) c (database st w)"
    and "load_state X opts w = (Inr st, w)" and "codec_lossless (cp_payloads X)"
    and "res_bind (require_one opts ''--community'') (parse_community X) = Inr c"
    and "res_bind (require_one opts ''--channel'') (parse_hex_32 X) = Inr channel"
    and "require_one opts ''--text'' = Inr raw"
    and run: "command_send_message X clock opts w = (Inr (), w')"
  shows "\<exists>core e. node_open (cp_crypto X) (cp_events X) (database st w) (Some c) = Inr core \<and>
    local_event X st c core clock (MessageCreate channel (trim raw)) = Inr e \<and>
    decode (cp_payloads X) e = Inr (MessageCreate channel (trim raw)) \<and>
    author_id (cp_crypto X) e = Inr (identity_user_id (cp_crypto X) (state_user st)) \<and>
    (collision_free (cp_crypto X) (insert e (stored X st w)) \<longrightarrow>
       e \<notin> stored X st w \<and> stored X st w' = insert e (stored X st w) \<and>
       whole_store (cp_crypto X) (cp_events X) c (database st w') \<and>
       (\<forall>es. set es = stored X st w' \<longrightarrow>
          (\<exists>R. resolve (cp_crypto X) (cp_payloads X) es = Inr R \<and> event_id e \<in> snap_event_ids (snapshot R))))"
  by (rule send_message_publishes [OF assms]) blast

theorem message_published_witness:
  "\<exists>w. command_send_message talk_cli 0 talk_options talk_world = (Inr (), w) \<and>
     stored talk_cli (demo_state ''s'') w = {talk_message, demo_genesis, talk_channel}"
proof -
  obtain w where run: "command_send_message talk_cli 0 talk_options talk_world = (Inr (), w)" using talk_send by blast
  have lossless: "codec_lossless (cp_payloads talk_cli)" by (simp add: talk_lossless)
  show ?thesis
    using talk_free run message_published [OF talk_whole_store talk_load lossless talk_options_simps(3,4,2) run]
    by (auto simp: talk_database talk_open talk_trim talk_event talk_stored)
qed

section \<open>A running node\<close>

text \<open>C29: a running node guards its community: after every event it has handled, each authenticated peer
  belongs to a member of the community the stored events resolve to, to a user named on the command line
  or to the declared home server, and the invitations it serves are exactly the active ones.\<close>

theorem network_round_guarded:
  assumes "net_reachable (cp_network X) (ses_node s)" and "peer_order_ok X"
    and "network_round X G W ev s = (Inr (), s')"
  shows "net_reachable (cp_network X) (ses_node s') \<and>
    (\<exists>es R. all_events (cp_crypto X) (cp_events X) (peer_node (net_sync (ses_node s'))) = Inr es \<and>
       resolve (cp_crypto X) (cp_payloads X) es = Inr R \<and>
       (\<forall>p \<in> authenticated (ses_node s'). \<exists>d. authenticated_devices (ses_node s') p = Some d \<and>
          (auth_user d \<in> nc_explicit_users G \<union> snap_members (snapshot R) \<or>
           auth_device d \<in> infrastructure_devices X (snap_home_server (snapshot R)))) \<and>
       dom (bootstrap_grants (ses_node s')) = set (bt_keys (snap_active_invitations (snapshot R))))"
proof (rule network_round_Inr [OF assms])
  assume "net_reachable (cp_network X) (ses_node s')" and "guarded X (nc_explicit_users G) (ses_node s')"
  then show ?thesis unfolding guarded_def lets_in_def by blast
qed

theorem network_round_guarded_witness:
  "\<exists>s'. network_round demo_cli demo_config demo_swarm (ConnectedEvent guest_peer False)
       \<lparr>ses_world = demo_world, ses_node = owner_net_joined\<rparr> = (Inr (), s') \<and>
     (\<forall>p \<in> authenticated (ses_node s'). \<exists>d. authenticated_devices (ses_node s') p = Some d \<and>
        auth_user d \<in> {UserId 1, UserId 2})"
proof -
  let ?s = "\<lparr>ses_world = demo_world, ses_node = owner_net_joined\<rparr>" and ?ev = "ConnectedEvent guest_peer False"
  obtain w where "network_event_step demo_cli demo_swarm ?ev ?s = (Inr (), \<lparr>ses_world = w, ses_node = owner_net_joined\<rparr>)"
    and "w_flush w = None"
    by (simp add: say_def on_world_def op_return_def demo_world_def)
  then obtain s' where run: "network_round demo_cli demo_config demo_swarm ?ev ?s = (Inr (), s')"
    and node: "peer_node (net_sync (ses_node s')) = demo_full_node"
    using demo_round [of demo_swarm ?ev ?s] owner_net_joined_sync by (fastforce simp: demo_full_peer_def)
  have reach: "net_reachable (cp_network demo_cli) (ses_node ?s)" using owner_net_joined_reachable by simp
  have "resolve demo_crypto demo_payloads [demo_genesis, demo_invite, demo_accept] = Inr demo_resolution"
    by (rule demo_resolve_set) (auto simp: demo_events_def)
  then show ?thesis
    using run network_round_guarded [OF reach demo_peer_order run]
    by (auto simp: node demo_all_events demo_resolution_def infrastructure_devices_def demo_config_def)
qed

text \<open>C28: a newcomer's acceptance: when the community with the acceptance added accepts it, makes its user
  a member and uses up the invitation, the acceptance is stored and the newcomer's peer is authenticated
  also after the authorisation has been refreshed; otherwise nothing is stored.\<close>

theorem newcomer_admitted:
  assumes "net_reachable (cp_network X) (ses_node s)" and "peer_order_ok X"
    and "whole (cp_crypto X) (cp_events X) (peer_node (net_sync (ses_node s)))"
    and "all_events (cp_crypto X) (cp_events X) (peer_node (net_sync (ses_node s))) = Inr es"
    and "collision_free (cp_crypto X) (set (es @ [acceptance]))"
    and "pending_acceptances (ses_node s) peer = Some a" "auth_user (acceptance_device a) = user"
    and "network_round X G W (BootstrapAcceptanceEvent peer user invn acceptance) s = (Inr (), s')"
    and "all_events (cp_crypto X) (cp_events X) (peer_node (net_sync (ses_node s'))) = Inr es'"
    and "resolve (cp_crypto X) (cp_payloads X) (es @ [acceptance]) = Inr R"
  shows "if event_id acceptance \<in> snap_event_ids (snapshot R) \<and> user \<in> snap_members (snapshot R) \<and>
      \<not> bt_contains_key (snap_active_invitations (snapshot R)) invn
    then set es' = insert acceptance (set es) \<and> peer \<in> authenticated (ses_node s')
    else es' = es"
proof -
  let ?store = "\<lambda>s. store_abs (cp_events X) (node_store (peer_node (net_sync (ses_node s))))"
  have es: "set es = ran (?store s)" by (rule all_events_whole [OF assms(3,4)])
  have free: "collision_free (cp_crypto X) (insert acceptance (ran (?store s)))" using assms(5) es by simp
  note adm = round_admits [OF assms(1-3) free assms(4,6-8)]
  show ?thesis
  proof (cases "approves X es user invn acceptance")
    case True
    then have yes: "ran (?store s') = insert acceptance (set es)" "peer \<in> authenticated (ses_node s')"
      and whole: "whole (cp_crypto X) (cp_events X) (peer_node (net_sync (ses_node s')))"
      using adm(1) es by auto
    then show ?thesis using True assms(10) all_events_whole [OF whole assms(9)] by (simp add: approves_def)
  next
    case False
    then have "es' = es" using adm(2) assms(4,9) by simp
    then show ?thesis using False assms(10) by (auto simp: approves_def)
  qed
qed

theorem newcomer_admitted_witness:
  "\<exists>effects s'. network_round demo_cli demo_config demo_swarm
       (BootstrapAcceptanceEvent guest_peer (UserId 2) (EventId 247) demo_accept) (waiting_session effects) = (Inr (), s') \<and>
     guest_peer \<in> authenticated (ses_node s')"
proof -
  obtain effects where reach: "net_reachable (cp_network demo_cli) (ses_node (waiting_session effects))"
    using waiting_reachable by (auto simp: waiting_session_def)
  obtain s' where run: "network_round demo_cli demo_config demo_swarm
      (BootstrapAcceptanceEvent guest_peer (UserId 2) (EventId 247) demo_accept) (waiting_session effects) = (Inr (), s')"
    using waiting_round by blast
  have node: "peer_node (net_sync (ses_node (waiting_session effects))) = half_node"
    by (simp add: waiting_session_def waiting_net_def half_peer_def)
  let ?a = "\<lparr>acceptance_invitation = EventId 247, acceptance_device = guest_device, acceptance_channel = 0\<rparr>"
  have pending: "pending_acceptances (ses_node (waiting_session effects)) guest_peer = Some ?a"
    "auth_user (acceptance_device ?a) = UserId 2"
    by (simp_all add: waiting_session_def waiting_net_def guest_device_def)
  have free: "collision_free (cp_crypto demo_cli) (set ([demo_genesis, demo_invite] @ [demo_accept]))"
    using demo_collision_free by (simp add: demo_events_def insert_commute)
  have R: "resolve (cp_crypto demo_cli) (cp_payloads demo_cli) ([demo_genesis, demo_invite] @ [demo_accept]) = Inr demo_resolution"
    using demo_resolve_set [of "[demo_genesis, demo_invite, demo_accept]"] by (simp add: demo_events_def insert_commute)
  have whole: "whole (cp_crypto demo_cli) (cp_events demo_cli) (peer_node (net_sync (ses_node (waiting_session effects))))"
    "all_events (cp_crypto demo_cli) (cp_events demo_cli) (peer_node (net_sync (ses_node (waiting_session effects)))) =
      Inr [demo_genesis, demo_invite]"
    using half_whole half_events by (simp_all add: node)
  obtain es' where es': "all_events (cp_crypto demo_cli) (cp_events demo_cli) (peer_node (net_sync (ses_node s'))) = Inr es'"
    by (rule network_round_Inr [OF reach demo_peer_order run]) (auto simp: guarded_def)
  show ?thesis
    using run newcomer_admitted [OF reach demo_peer_order whole free pending run es' R]
    by (auto simp: demo_resolution_def bt_contains_key_def bt_keys_def)
qed

text \<open>C30: a joining client trusts nobody blindly: it changes what it stores only when the ancestry it
  received contains the invitation it was given, matching the invitation's capability, resolves to a
  community in which that invitation is active, and the endpoint that sent it is a member or the
  declared home server of that community.\<close>

theorem join_trusts_endpoint:
  "net_sync (ses_node (snd (join_event X st clock prepared ev s))) = net_sync (ses_node s) \<or>
   (\<exists>p peer invn events e v R user device. prepared = Some p \<and> ev = BootstrapAncestryEvent peer invn events \<and>
      e \<in> set events \<and> event_id e = invn \<and> prepared_validate (cp_crypto X) (cp_payloads X) p e = Inr v \<and>
      resolve (cp_crypto X) (cp_payloads X) events = Inr R \<and>
      bt_contains_key (snap_active_invitations (snapshot R)) invn \<and>
      provisional_user (ses_node s) peer = Some user \<and> provisional_device (ses_node s) peer = Some device \<and>
      (user \<in> snap_members (snapshot R) \<or>
       (\<exists>b. snap_home_server (snapshot R) = Some b \<and>
          device_from_public_key (cp_crypto X) (hs_server_public_key b) = device)))"
proof (cases "net_sync (ses_node (snd (join_event X st clock prepared ev s))) = net_sync (ses_node s)")
  case False
  from join_event_trusts [OF surjective_pairing False] show ?thesis
    by (auto simp: trusted_endpoint_def split: option.splits)
qed simp

end
