(* ===== verification/Relay.thy ===== *)
theory Relay
  imports Bootstrap
begin

text \<open>
  \<open>crates/relay/src/lib.rs\<close> and \<open>crates/cli/src/bin/chatcommons-relay.rs\<close>: the relay server.

  The relay protocol itself is libp2p's; the code configures its limits and reports the events of its
  swarm.  What the swarm answers is an argument of each call, what is asked of it is recorded in the node.
  The default configuration of the library is the argument of \<open>bounded_config\<close>.
\<close>

section \<open>Limits\<close>

definition RELAY_IDENTIFY_PROTOCOL :: string where
  "RELAY_IDENTIFY_PROTOCOL = ''/chatcommons/relay/1''"

definition MAX_RELAY_RESERVATIONS :: nat where
  "MAX_RELAY_RESERVATIONS = 128"

definition MAX_RELAY_CIRCUITS :: nat where
  "MAX_RELAY_CIRCUITS = 256"

definition MAX_RELAY_CIRCUIT_BYTES :: u64 where
  "MAX_RELAY_CIRCUIT_BYTES = 8 * 1024 * 1024"

text \<open>A rate limiter allows \<open>rate_count\<close> requests in \<open>rate_seconds\<close>, per peer or per IP address.\<close>

datatype rate_key = PerPeer | PerIp

record rate_limit =
  rate_key :: rate_key
  rate_count :: nat
  rate_seconds :: nat

record relay_config =
  max_reservations :: nat
  max_reservations_per_peer :: nat
  reservation_seconds :: nat
  reservation_rates :: "rate_limit list"
  max_circuits :: nat
  max_circuits_per_peer :: nat
  max_circuit_seconds :: nat
  max_circuit_bytes :: u64
  circuit_src_rates :: "rate_limit list"

definition bounded_config :: "relay_config \<Rightarrow> relay_config" where
  "bounded_config base =
     (let config = base\<lparr>max_reservations := MAX_RELAY_RESERVATIONS, max_reservations_per_peer := 1,
            reservation_seconds := 60 * 60, max_circuits := MAX_RELAY_CIRCUITS, max_circuits_per_peer := 4,
            max_circuit_seconds := 2 * 60, max_circuit_bytes := MAX_RELAY_CIRCUIT_BYTES\<rparr>;
          limit = (\<lambda>key count. \<lparr>rate_key = key, rate_count = count, rate_seconds = 60\<rparr>)
      in config\<lparr>reservation_rates := reservation_rates config @ [limit PerPeer 8, limit PerIp 8],
                circuit_src_rates := circuit_src_rates config @ [limit PerPeer 60, limit PerIp 60]\<rparr>)"

section \<open>The node\<close>

datatype relay_node_event =
    RelayListening multiaddr
  | RelayConnectionEstablished peer_id
  | RelayConnectionClosed peer_id
  | RelayActivity string

datatype relay_error =
    RelayTransport string
  | RelayBehaviour string
  | RelayListen string
  | RelayListener string

text \<open>The swarm's events; those of the relay behaviour come with their \<open>Debug\<close> text.\<close>

datatype relay_swarm_event =
    RsNewListenAddr multiaddr
  | RsConnectionEstablished peer_id
  | RsConnectionClosed peer_id
  | RsRelay string
  | RsIdentifyReceived multiaddr
  | RsListenerError string
  | RsOther

record relay_node =
  relay_peer :: peer_id
  relay_settings :: relay_config
  relay_listeners :: "multiaddr list"
  relay_external :: "multiaddr list"

text \<open>\<open>RelayNode::new\<close>: the arguments say how the transport and the behaviour fail, if they do.\<close>

definition relay_new ::
  "string option \<Rightarrow> string option \<Rightarrow> relay_config \<Rightarrow> peer_id \<Rightarrow> relay_error + relay_node" where
  "relay_new transport behaviour base peer =
     (case transport of
        Some err \<Rightarrow> Inl (RelayTransport err)
      | None \<Rightarrow>
          (case behaviour of
             Some err \<Rightarrow> Inl (RelayBehaviour err)
           | None \<Rightarrow>
               Inr \<lparr>relay_peer = peer, relay_settings = bounded_config base, relay_listeners = [],
                    relay_external = []\<rparr>))"

definition relay_listen :: "(multiaddr \<Rightarrow> string option) \<Rightarrow> multiaddr \<Rightarrow> (relay_error, relay_node, unit) op" where
  "relay_listen listen_on address node =
     (case listen_on address of
        Some err \<Rightarrow> (Inl (RelayListen err), node)
      | None \<Rightarrow> (Inr (), node\<lparr>relay_listeners := relay_listeners node @ [address]\<rparr>))"

text \<open>
  \<open>next_event\<close> on the events of the swarm that arrive while it waits; it returns the events not yet
  consumed, and \<open>None\<close> when it still waits.
\<close>

fun relay_next_event ::
  "relay_swarm_event list \<Rightarrow> relay_node \<Rightarrow>
     ((relay_error + relay_node_event) option \<times> relay_swarm_event list) \<times> relay_node" where
  "relay_next_event [] node = ((None, []), node)"
| "relay_next_event (RsNewListenAddr address # evs) node = ((Some (Inr (RelayListening address)), evs), node)"
| "relay_next_event (RsConnectionEstablished peer # evs) node =
     ((Some (Inr (RelayConnectionEstablished peer)), evs), node)"
| "relay_next_event (RsConnectionClosed peer # evs) node = ((Some (Inr (RelayConnectionClosed peer)), evs), node)"
| "relay_next_event (RsRelay activity # evs) node = ((Some (Inr (RelayActivity activity)), evs), node)"
| "relay_next_event (RsIdentifyReceived observed # evs) node =
     relay_next_event evs (node\<lparr>relay_external := relay_external node @ [observed]\<rparr>)"
| "relay_next_event (RsListenerError err # evs) node = ((Some (Inl (RelayListener err)), evs), node)"
| "relay_next_event (RsOther # evs) node = relay_next_event evs node"

section \<open>The relay command\<close>

datatype relay_command_error =
    RelayArguments string
  | RelayFailed relay_error

definition RELAY_USAGE :: string where
  "RELAY_USAGE =
     ''ChatCommons M2e diagnostic relay'' @ [CHR 0x0A] @ [CHR 0x0A] @
     ''Usage:'' @ [CHR 0x0A] @
     ''  chatcommons-relay --listen <multiaddr>'' @ [CHR 0x0A] @ [CHR 0x0A] @
     ''The relay identity is ephemeral. Do not deploy this binary as a public service.'' @ [CHR 0x0A]"

fun relay_line :: "bootstrap_codecs \<Rightarrow> relay_node_event \<Rightarrow> string" where
  "relay_line K (RelayListening address) = ''RELAY_LISTEN_ADDRESS='' @ address_to_string K address"
| "relay_line K (RelayConnectionEstablished peer) = ''RELAY_CONNECTED='' @ peer_to_string K peer"
| "relay_line K (RelayConnectionClosed peer) = ''RELAY_DISCONNECTED='' @ peer_to_string K peer"
| "relay_line K (RelayActivity activity) = ''RELAY_ACTIVITY='' @ activity"

text \<open>The arguments after the program's name: \<open>None\<close> asks for the usage text.\<close>

definition relay_arguments ::
  "bootstrap_codecs \<Rightarrow> string list \<Rightarrow> relay_command_error + multiaddr option" where
  "relay_arguments K arguments =
     (case arguments of
        [] \<Rightarrow> Inr None
      | first # rest \<Rightarrow>
          if first = ''--help'' then Inr None
          else if first \<noteq> ''--listen'' then Inl (RelayArguments ''expected --listen'')
          else
            (case rest of
               [] \<Rightarrow> Inl (RelayArguments ''missing value for --listen'')
             | v # rest' \<Rightarrow>
                 res_bind (ok_or (address_from_str K v) (RelayArguments ''invalid listen multiaddr'')) (\<lambda>address.
                 if rest' \<noteq> [] then Inl (RelayArguments ''unexpected extra arguments'') else Inr (Some address))))"

lemma relay_next_event_shorter: "relay_next_event evs node = ((Some r, rest), node') \<Longrightarrow> length rest < length evs"
  by (induction evs node rule: relay_next_event.induct) (auto simp: less_Suc_eq)

text \<open>The loop of the command: the lines it prints, and the error that ends it.\<close>

function relay_loop ::
  "bootstrap_codecs \<Rightarrow> relay_swarm_event list \<Rightarrow> relay_node \<Rightarrow> string list \<times> relay_error option" where
  "relay_loop K evs node =
     (case relay_next_event evs node of
        ((None, _), _) \<Rightarrow> ([], None)
      | ((Some (Inl err), _), _) \<Rightarrow> ([], Some err)
      | ((Some (Inr ev), rest), node') \<Rightarrow>
          (let (out, err) = relay_loop K rest node' in ((relay_line K ev @ [CHR 0x0A]) # out, err)))"
  by pat_completeness auto
termination
  by (relation "measure (\<lambda>(K, evs, node). length evs)") (auto dest: relay_next_event_shorter [OF sym])

declare relay_loop.simps [simp del]

definition relay_command ::
  "bootstrap_codecs \<Rightarrow> relay_error + relay_node \<Rightarrow> (multiaddr \<Rightarrow> string option) \<Rightarrow> relay_swarm_event list \<Rightarrow>
     string list \<Rightarrow> string list \<times> relay_command_error option" where
  "relay_command K started listen_on evs arguments =
     (case relay_arguments K arguments of
        Inl err \<Rightarrow> ([], Some err)
      | Inr None \<Rightarrow> ([RELAY_USAGE], None)
      | Inr (Some address) \<Rightarrow>
          (case started of
             Inl err \<Rightarrow> ([], Some (RelayFailed err))
           | Inr node \<Rightarrow>
               (let first = ''RELAY_PEER_ID='' @ peer_to_string K (relay_peer node) @ [CHR 0x0A] in
                case relay_listen listen_on address node of
                  (Inl err, _) \<Rightarrow> ([first], Some (RelayFailed err))
                | (Inr _, node') \<Rightarrow>
                    (let (out, err) = relay_loop K evs node' in (first # out, map_option RelayFailed err)))))"

section \<open>What the relay reports\<close>

fun observed_of :: "relay_swarm_event \<Rightarrow> multiaddr list" where
  "observed_of (RsIdentifyReceived observed) = [observed]"
| "observed_of _ = []"

fun silent :: "relay_swarm_event \<Rightarrow> bool" where
  "silent (RsIdentifyReceived _) = True"
| "silent RsOther = True"
| "silent _ = False"

fun report :: "relay_swarm_event \<Rightarrow> (relay_error + relay_node_event) option" where
  "report (RsNewListenAddr address) = Some (Inr (RelayListening address))"
| "report (RsConnectionEstablished peer) = Some (Inr (RelayConnectionEstablished peer))"
| "report (RsConnectionClosed peer) = Some (Inr (RelayConnectionClosed peer))"
| "report (RsRelay activity) = Some (Inr (RelayActivity activity))"
| "report (RsListenerError err) = Some (Inl (RelayListener err))"
| "report _ = None"

text \<open>
  \<open>next_event\<close> passes over the silent events, announcing the addresses they carry, and reports the
  first other one.
\<close>

lemma relay_next_event_eq:
  "relay_next_event evs node =
     ((case dropWhile silent evs of [] \<Rightarrow> (None, []) | ev # rest \<Rightarrow> (report ev, rest)),
      node\<lparr>relay_external := relay_external node @ concat (map observed_of (takeWhile silent evs))\<rparr>)"
  by (induction evs node rule: relay_next_event.induct) simp_all

text \<open>Until a listener fails, the command prints one line for every event that is not silent, in order.\<close>

lemma relay_loop_lines:
  assumes "\<forall>ev \<in> set evs. \<forall>err. ev \<noteq> RsListenerError err"
  shows "relay_loop K evs node =
    (List.map_filter (\<lambda>ev. case report ev of Some (Inr e) \<Rightarrow> Some (relay_line K e @ [CHR 0x0A]) | _ \<Rightarrow> None) evs, None)"
  using assms
proof (induction K evs node rule: relay_loop.induct)
  case (1 K evs node)
  let ?line = "\<lambda>ev. case report ev of Some (Inr e) \<Rightarrow> Some (relay_line K e @ [CHR 0x0A]) | _ \<Rightarrow> None"
  have quiet: "List.map_filter ?line (takeWhile silent evs) = []"
    by (induction evs) (auto simp: List.map_filter_simps elim!: silent.elims)
  have split: "List.map_filter ?line evs = List.map_filter ?line (dropWhile silent evs)"
    using quiet by (metis List.map_filter_def append_Nil filter_append map_append takeWhile_dropWhile_id)
  show ?case
  proof (cases "dropWhile silent evs")
    case Nil
    have "\<exists>node'. relay_next_event evs node = ((None, []), node')" unfolding relay_next_event_eq Nil by simp
    then show ?thesis
      using split unfolding Nil by (auto simp: relay_loop.simps [of K evs node] List.map_filter_simps)
  next
    case (Cons ev rest)
    then have loud: "\<not> silent ev" by (metis hd_dropWhile list.distinct(1) list.sel(1))
    have sub: "set (ev # rest) \<subseteq> set evs" using Cons set_dropWhileD by (metis subsetI)
    then obtain e where e: "report ev = Some (Inr e)" using loud 1(2) by (cases ev) auto
    have nx: "relay_next_event evs node = ((Some (Inr e), rest),
        node\<lparr>relay_external := relay_external node @ concat (map observed_of (takeWhile silent evs))\<rparr>)"
      by (simp add: relay_next_event_eq Cons e)
    show ?thesis
      using 1(1) [OF nx [symmetric] refl refl refl] 1(2) sub nx e split Cons
      by (simp add: relay_loop.simps [of K evs node] List.map_filter_simps subset_iff)
  qed
qed

end
