(* ===== verification/Desktop_Text.thy ===== *)
theory Desktop_Text
  imports Commands
begin

text \<open>
  \<open>apps/desktop/src/main.rs\<close>: the texts of the desktop client: reading the node's output, shortening
  identifiers, the clock, the two languages of the status line, and the redaction of diagnostics.

  A \<open>String\<close> is the list of its UTF-8 bytes.  All tests the code makes on characters are tests for ASCII
  characters or for whitespace, which bytes decide: the bytes of other characters are not ASCII.
\<close>

section \<open>Characters\<close>

text \<open>A character starts at a byte that is not a continuation byte.\<close>

definition is_continuation :: "char \<Rightarrow> bool" where
  "is_continuation c = (let n = (of_char c :: nat) in 128 \<le> n \<and> n < 192)"

fun take_chars :: "nat \<Rightarrow> string \<Rightarrow> string" where
  "take_chars n [] = []"
| "take_chars n (c # cs) =
     (if is_continuation c then c # take_chars n cs
      else case n of 0 \<Rightarrow> [] | Suc m \<Rightarrow> c # take_chars m cs)"

definition short_id :: "string \<Rightarrow> string" where
  "short_id s = take_chars 10 s"

definition is_digit :: "char \<Rightarrow> bool" where
  "is_digit c = (let n = (of_char c :: nat) in 48 \<le> n \<and> n \<le> 57)"

definition is_alpha :: "char \<Rightarrow> bool" where
  "is_alpha c = (let n = (of_char c :: nat) in 65 \<le> n \<and> n \<le> 90 \<or> 97 \<le> n \<and> n \<le> 122)"

definition is_alnum :: "char \<Rightarrow> bool" where
  "is_alnum c = (is_alpha c \<or> is_digit c)"

definition starts_with :: "string \<Rightarrow> string \<Rightarrow> bool" where
  "starts_with p s = (take (length p) s = p)"

section \<open>The node's output\<close>

text \<open>\<open>str::lines\<close>: lines end at a line feed, which may follow a carriage return.\<close>

fun split_lines :: "string \<Rightarrow> string \<Rightarrow> string list" where
  "split_lines acc [] = (if acc = [] then [] else [acc])"
| "split_lines acc (c # cs) =
     (if c = CHR 0x0A
      then (if acc \<noteq> [] \<and> last acc = CHR 0x0D then butlast acc else acc) # split_lines [] cs
      else split_lines (acc @ [c]) cs)"

definition zh_output_lacks :: string where  \<comment> \<open>the node's output lacks\<close>
  "zh_output_lacks =
     [CHR 0xE5, CHR 0x8D, CHR 0x8F, CHR 0xE8, CHR 0xAE, CHR 0xAE, CHR 0xE8, CHR 0xBE, CHR 0x93, CHR 0xE5,
     CHR 0x87, CHR 0xBA, CHR 0xE7, CHR 0xBC, CHR 0xBA, CHR 0xE5, CHR 0xB0, CHR 0x91] @ '' ''"

definition output_field :: "string \<Rightarrow> string \<Rightarrow> string + string" where
  "output_field output name =
     (let p = name @ ''='' in
      case find (starts_with p) (split_lines [] output) of
        Some line \<Rightarrow> Inr (drop (length p) line)
      | None \<Rightarrow> Inl (zh_output_lacks @ name))"

section \<open>The clock\<close>

definition two_digits :: "nat \<Rightarrow> string" where
  "two_digits n = (if n < 10 then ''0'' else []) @ show_nat n"

text \<open>Rust's \<open>/\<close> truncates towards zero, \<open>rem_euclid\<close> is not negative.\<close>

definition message_time :: "i64 \<Rightarrow> string" where
  "message_time t =
     (let quotient = (if sint t < 0 then - ((- sint t) div 1000) else sint t div 1000);
          seconds = nat (quotient mod 86400)
      in two_digits (seconds div 3600) @ '':'' @ two_digits ((seconds mod 3600) div 60) @ '' UTC'')"

section \<open>Two languages\<close>

definition zh_preparing :: string where  \<comment> \<open>preparing the local identity\<close>
  "zh_preparing =
     [CHR 0xE6, CHR 0xAD, CHR 0xA3, CHR 0xE5, CHR 0x9C, CHR 0xA8, CHR 0xE5, CHR 0x87, CHR 0x86, CHR 0xE5,
     CHR 0xA4, CHR 0x87, CHR 0xE6, CHR 0x9C, CHR 0xAC, CHR 0xE5, CHR 0x9C, CHR 0xB0, CHR 0xE8, CHR 0xBA,
     CHR 0xAB, CHR 0xE4, CHR 0xBB, CHR 0xBD, CHR 0xE2, CHR 0x80, CHR 0xA6, CHR 0xE2, CHR 0x80, CHR 0xA6]"

definition en_preparing :: string where
  "en_preparing =
     ''Preparing local identity'' @ [CHR 0xE2, CHR 0x80, CHR 0xA6]"

definition zh_unavailable :: string where  \<comment> \<open>home server unavailable\<close>
  "zh_unavailable =
     [CHR 0xE7, CHR 0xA4, CHR 0xBE, CHR 0xE5, CHR 0x8C, CHR 0xBA, CHR 0xE6, CHR 0x9C, CHR 0x8D, CHR 0xE5,
     CHR 0x8A, CHR 0xA1, CHR 0xE5, CHR 0x99, CHR 0xA8, CHR 0xE6, CHR 0x9A, CHR 0x82, CHR 0xE4, CHR 0xB8,
     CHR 0x8D, CHR 0xE5, CHR 0x8F, CHR 0xAF, CHR 0xE8, CHR 0xBE, CHR 0xBE]"

definition en_unavailable :: string where
  "en_unavailable = ''Home Server unavailable''"

definition zh_synchronized :: string where  \<comment> \<open>synchronised\<close>
  "zh_synchronized =
     [CHR 0xE5, CHR 0xB7, CHR 0xB2, CHR 0xE5, CHR 0x90, CHR 0x8C, CHR 0xE6, CHR 0xAD, CHR 0xA5]"

definition en_synchronized :: string where
  "en_synchronized = ''Synchronized''"

definition zh_saved :: string where  \<comment> \<open>shown locally, synchronising\<close>
  "zh_saved =
     [CHR 0xE5, CHR 0xB7, CHR 0xB2, CHR 0xE5, CHR 0x9C, CHR 0xA8, CHR 0xE6, CHR 0x9C, CHR 0xAC, CHR 0xE5,
     CHR 0x9C, CHR 0xB0, CHR 0xE6, CHR 0x98, CHR 0xBE, CHR 0xE7, CHR 0xA4, CHR 0xBA] @ '' '' @ [CHR 0xC2,
     CHR 0xB7] @ '' '' @ [CHR 0xE6, CHR 0xAD, CHR 0xA3, CHR 0xE5, CHR 0x9C, CHR 0xA8, CHR 0xE5, CHR 0x90,
     CHR 0x8C, CHR 0xE6, CHR 0xAD, CHR 0xA5, CHR 0xE2, CHR 0x80, CHR 0xA6, CHR 0xE2, CHR 0x80, CHR 0xA6]"

definition en_saved :: string where
  "en_saved =
     ''Saved locally '' @ [CHR 0xC2, CHR 0xB7] @ '' synchronizing'' @ [CHR 0xE2, CHR 0x80, CHR 0xA6]"

definition zh_synchronizing :: string where  \<comment> \<open>synchronising\<close>
  "zh_synchronizing =
     [CHR 0xE6, CHR 0xAD, CHR 0xA3, CHR 0xE5, CHR 0x9C, CHR 0xA8, CHR 0xE5, CHR 0x90, CHR 0x8C, CHR 0xE6,
     CHR 0xAD, CHR 0xA5, CHR 0xE2, CHR 0x80, CHR 0xA6, CHR 0xE2, CHR 0x80, CHR 0xA6]"

definition en_synchronizing :: string where
  "en_synchronizing =
     ''Synchronizing'' @ [CHR 0xE2, CHR 0x80, CHR 0xA6]"

definition zh_failed :: string where  \<comment> \<open>operation failed, see feedback\<close>
  "zh_failed =
     [CHR 0xE6, CHR 0x93, CHR 0x8D, CHR 0xE4, CHR 0xBD, CHR 0x9C, CHR 0xE5, CHR 0xA4, CHR 0xB1, CHR 0xE8,
     CHR 0xB4, CHR 0xA5] @ '' '' @ [CHR 0xC2, CHR 0xB7] @ '' '' @ [CHR 0xE5, CHR 0x8F, CHR 0xAF, CHR
     0xE5, CHR 0x9C, CHR 0xA8, CHR 0xE2, CHR 0x80, CHR 0x9C, CHR 0xE5, CHR 0x8F, CHR 0x8D, CHR 0xE9, CHR
     0xA6, CHR 0x88, CHR 0xE4, CHR 0xB8, CHR 0x8E, CHR 0xE9, CHR 0x97, CHR 0xAE, CHR 0xE9, CHR 0xA2, CHR
     0x98, CHR 0xE2, CHR 0x80, CHR 0x9D, CHR 0xE6, CHR 0x9F, CHR 0xA5, CHR 0xE7, CHR 0x9C, CHR 0x8B, CHR
     0xE8, CHR 0xAF, CHR 0xA6, CHR 0xE6, CHR 0x83, CHR 0x85]"

definition en_failed :: string where
  "en_failed =
     ''Operation failed '' @ [CHR 0xC2, CHR 0xB7] @ '' open Feedback for details''"

definition zh_paste :: string where  \<comment> \<open>paste an invitation first\<close>
  "zh_paste =
     [CHR 0xE8, CHR 0xAF, CHR 0xB7, CHR 0xE5, CHR 0x85, CHR 0x88, CHR 0xE7, CHR 0xB2, CHR 0x98, CHR 0xE8,
     CHR 0xB4, CHR 0xB4, CHR 0xE9, CHR 0x82, CHR 0x80, CHR 0xE8, CHR 0xAF, CHR 0xB7]"

definition en_paste :: string where
  "en_paste = ''Paste an invite first''"

definition zh_joining :: string where  \<comment> \<open>joining\<close>
  "zh_joining =
     [CHR 0xE6, CHR 0xAD, CHR 0xA3, CHR 0xE5, CHR 0x9C, CHR 0xA8, CHR 0xE5, CHR 0x8A, CHR 0xA0, CHR 0xE5,
     CHR 0x85, CHR 0xA5, CHR 0xE2, CHR 0x80, CHR 0xA6, CHR 0xE2, CHR 0x80, CHR 0xA6]"

definition en_joining :: string where
  "en_joining =
     ''Joining'' @ [CHR 0xE2, CHR 0x80, CHR 0xA6]"

definition zh_no_channel :: string where  \<comment> \<open>no channel is available\<close>
  "zh_no_channel =
     [CHR 0xE6, CHR 0xB2, CHR 0xA1, CHR 0xE6, CHR 0x9C, CHR 0x89, CHR 0xE5, CHR 0x8F, CHR 0xAF, CHR 0xE7,
     CHR 0x94, CHR 0xA8, CHR 0xE9, CHR 0xA2, CHR 0x91, CHR 0xE9, CHR 0x81, CHR 0x93]"

definition en_no_channel :: string where
  "en_no_channel = ''No channel is available''"

definition zh_saving :: string where  \<comment> \<open>saving the message\<close>
  "zh_saving =
     [CHR 0xE6, CHR 0xAD, CHR 0xA3, CHR 0xE5, CHR 0x9C, CHR 0xA8, CHR 0xE4, CHR 0xBF, CHR 0x9D, CHR 0xE5,
     CHR 0xAD, CHR 0x98, CHR 0xE6, CHR 0xB6, CHR 0x88, CHR 0xE6, CHR 0x81, CHR 0xAF, CHR 0xE2, CHR 0x80,
     CHR 0xA6, CHR 0xE2, CHR 0x80, CHR 0xA6]"

definition en_saving :: string where
  "en_saving =
     ''Saving message'' @ [CHR 0xE2, CHR 0x80, CHR 0xA6]"

definition STATUS_PAIRS :: "(string \<times> string) list" where
  "STATUS_PAIRS =
     [(zh_preparing, en_preparing), (zh_unavailable, en_unavailable), (zh_synchronized, en_synchronized),
      (zh_saved, en_saved), (zh_synchronizing, en_synchronizing), (zh_failed, en_failed), (zh_paste, en_paste),
      (zh_joining, en_joining), (zh_no_channel, en_no_channel), (zh_saving, en_saving)]"

definition localized_status :: "string \<Rightarrow> bool \<Rightarrow> string" where
  "localized_status status english =
     (case find (\<lambda>(chinese, english_text). status = chinese \<or> status = english_text) STATUS_PAIRS of
        Some (chinese, english_text) \<Rightarrow> if english then english_text else chinese
      | None \<Rightarrow> status)"

definition zh_pending :: string where  \<comment> \<open>to be confirmed\<close>
  "zh_pending =
     [CHR 0xE5, CHR 0xBE, CHR 0x85, CHR 0xE7, CHR 0xA1, CHR 0xAE, CHR 0xE8, CHR 0xAE, CHR 0xA4]"

definition zh_in_progress :: string where  \<comment> \<open>in progress\<close>
  "zh_in_progress =
     [CHR 0xE5, CHR 0xA4, CHR 0x84, CHR 0xE7, CHR 0x90, CHR 0x86, CHR 0xE4, CHR 0xB8, CHR 0xAD]"

definition zh_client_review :: string where  \<comment> \<open>ready for your review\<close>
  "zh_client_review =
     [CHR 0xE5, CHR 0xBE, CHR 0x85, CHR 0xE4, CHR 0xBD, CHR 0xA0, CHR 0xE9, CHR 0xAA, CHR 0x8C, CHR 0xE6,
     CHR 0x94, CHR 0xB6]"

definition zh_completed :: string where  \<comment> \<open>completed\<close>
  "zh_completed =
     [CHR 0xE5, CHR 0xB7, CHR 0xB2, CHR 0xE5, CHR 0xAE, CHR 0x8C, CHR 0xE6, CHR 0x88, CHR 0x90]"

definition zh_rejected :: string where  \<comment> \<open>not planned\<close>
  "zh_rejected =
     [CHR 0xE6, CHR 0x9A, CHR 0x82, CHR 0xE4, CHR 0xB8, CHR 0x8D, CHR 0xE5, CHR 0xA4, CHR 0x84, CHR 0xE7,
     CHR 0x90, CHR 0x86]"

definition zh_unknown_status :: string where  \<comment> \<open>unknown status\<close>
  "zh_unknown_status =
     [CHR 0xE7, CHR 0x8A, CHR 0xB6, CHR 0xE6, CHR 0x80, CHR 0x81, CHR 0xE6, CHR 0x9C, CHR 0xAA, CHR 0xE7,
     CHR 0x9F, CHR 0xA5]"

definition feedback_status_text :: "string \<Rightarrow> bool \<Rightarrow> string" where
  "feedback_status_text status english =
     (if status = ''pending'' then if english then ''Pending'' else zh_pending
      else if status = ''in_progress'' then if english then ''In progress'' else zh_in_progress
      else if status = ''client_review'' then if english then ''Ready for your review'' else zh_client_review
      else if status = ''completed'' then if english then ''Completed'' else zh_completed
      else if status = ''rejected'' then if english then ''Not planned'' else zh_rejected
      else if english then ''Unknown status'' else zh_unknown_status)"

section \<open>Redaction\<close>

text \<open>\<open>str::replace\<close> with a pattern that is not empty.\<close>

function replace_all :: "string \<Rightarrow> string \<Rightarrow> string \<Rightarrow> string" where
  "replace_all pat new s =
     (case s of
        [] \<Rightarrow> []
      | c # cs \<Rightarrow>
          if pat \<noteq> [] \<and> starts_with pat s then new @ replace_all pat new (drop (length pat) s)
          else c # replace_all pat new cs)"
  by pat_completeness auto
termination
  by (relation "measure (\<lambda>(pat, new, s). length s)") auto

declare replace_all.simps [simp del]

text \<open>The closure \<open>flush\<close> on one run of letters, digits and underscores.\<close>

definition redact_run :: "string \<Rightarrow> string" where
  "redact_run run =
     (if starts_with ''cc1_'' run then ''[redacted invite]''
      else if length run \<ge> 32 \<and> list_all is_alnum run then ''[redacted identifier]''
      else run)"

definition is_word :: "char \<Rightarrow> bool" where
  "is_word c = (is_alnum c \<or> c = CHR ''_'')"

fun redact_runs :: "string \<Rightarrow> string \<Rightarrow> string" where
  "redact_runs run [] = redact_run run"
| "redact_runs run (c # cs) =
     (if is_word c then redact_runs (run @ [c]) cs
      else redact_run run @ [c] @ redact_runs [] cs)"

text \<open>\<open>str::split_whitespace\<close>\<close>

definition leading_space :: "string \<Rightarrow> nat" where
  "leading_space s = (case find (\<lambda>w. starts_with w s) whitespace of None \<Rightarrow> 0 | Some w \<Rightarrow> length w)"

function split_whitespace :: "string \<Rightarrow> string \<Rightarrow> string list" where
  "split_whitespace acc s =
     (case s of
        [] \<Rightarrow> if acc = [] then [] else [acc]
      | c # cs \<Rightarrow>
          if leading_space s > 0
          then (if acc = [] then [] else [acc]) @ split_whitespace [] (drop (leading_space s) s)
          else split_whitespace (acc @ [c]) cs)"
  by pat_completeness auto
termination
  by (relation "measure (\<lambda>(acc, s). length s)") auto

declare split_whitespace.simps [simp del]

definition path_openers :: "char set" where
  "path_openers = {CHR 0x22, CHR 0x27, CHR ''('', CHR ''['', CHR ''{'', CHR ''='', CHR '':''}"

definition network_prefixes :: "string list" where
  "network_prefixes =
     [''/ip4/'', ''/ip6/'', ''/dns/'', ''/dns4/'', ''/dns6/'', ''/udp/'', ''/tcp/'', ''/p2p/'']"

definition looks_like_path :: "string \<Rightarrow> bool" where
  "looks_like_path token =
     (let candidate = dropWhile (\<lambda>c. c \<in> path_openers) token;
          is_network_multiaddr = list_ex (\<lambda>p. starts_with p candidate) network_prefixes;
          is_windows_path = length candidate \<ge> 3 \<and> candidate ! 1 = CHR '':'' \<and>
            (candidate ! 2 = CHR 0x5C \<or> candidate ! 2 = CHR ''/'')
      in starts_with ''$HOME'' candidate \<or> starts_with ''file://'' candidate \<or>
         starts_with ''/'' candidate \<and> \<not> is_network_multiaddr \<or> is_windows_path)"

definition redact_token :: "string \<Rightarrow> string" where
  "redact_token token = (if looks_like_path token then ''[redacted path]'' else token)"

fun join_words :: "string list \<Rightarrow> string" where
  "join_words [] = []"
| "join_words [w] = w"
| "join_words (w # ws) = w @ '' '' @ join_words ws"

text \<open>The value of the variable \<open>HOME\<close> is the first argument, empty when it is not set.\<close>

definition redact_diagnostic :: "string \<Rightarrow> string \<Rightarrow> string" where
  "redact_diagnostic home v =
     (let v' = (if home = [] then v else replace_all home ''$HOME'' v)
      in join_words (map redact_token (split_whitespace [] (redact_runs [] v'))))"

end
