(* ===== verification/Desktop_Node.thy ===== *)
theory Desktop_Node
  imports Desktop_Text Cli_Network Complex_Main "HOL-Library.Log_Nat"
begin

text \<open>
  \<open>apps/desktop/src/main.rs\<close>: the files of the desktop client, the node processes it runs and the work of
  its background threads.

  The desktop client starts one process of the command line client per operation (\<open>run_node\<close>): the world
  of the client is the world of the commands and the number of processes started so far.  What the
  \<open>n\<close>-th process finds (random values, clock, network) is \<open>dp_env D n\<close>; a process that waits for the network
  forever makes the calling thread \<open>Blocked\<close>.  Encoding and decoding of JSON, the texts of library errors,
  the JPEG encoder, base64 and the HTTP client are not part of the repository; they are fields of
  \<open>desktop_params\<close>.  Paths are strings with \<open>/\<close> as separator, so they and the texts a process prints are
  UTF-8.
\<close>

section \<open>Data\<close>

definition CONFIG_VERSION :: u16 where
  "CONFIG_VERSION = 1"

definition PRODUCT_VERSION :: string where
  "PRODUCT_VERSION = ''0.1.0-alpha.3''"

definition FEEDBACK_ENDPOINT :: string where
  "FEEDBACK_ENDPOINT = ''https://ttinker.net/chatcommons/api/app-feedback''"

record desktop_channel =
  channel_id :: string
  channel_name :: string

record desktop_message =
  message_event_id :: string
  message_channel_id :: string
  message_author_id :: string
  message_timestamp_ms :: i64
  message_text :: string

record client_config =
  config_version :: u16
  config_community_id :: "string option"

record feedback_receipt =
  receipt_public_id :: string
  receipt_edit_token :: string
  receipt_status :: string
  receipt_admin_reply :: string

record feedback_payload =
  payload_surface :: string
  payload_screen :: string
  payload_target_id :: string
  payload_target_text :: string
  payload_x :: rat
  payload_y :: rat
  payload_scroll_x :: rat
  payload_scroll_y :: rat
  payload_viewport_width :: nat
  payload_viewport_height :: nat
  payload_category :: string
  payload_priority :: string
  payload_message :: string
  payload_screenshot :: string

record feedback_created =
  created_public_id :: string
  created_edit_token :: string
  created_status :: string

record feedback_status =
  status_public_id :: string
  status_status :: string
  status_admin_reply :: string

record desktop_snapshot =
  shot_user_id :: string
  shot_community_id :: "string option"
  shot_channels :: "desktop_channel list"
  shot_messages :: "desktop_message list"
  shot_warning :: "string option"

definition snapshot_default :: desktop_snapshot where
  "snapshot_default =
     \<lparr>shot_user_id = [], shot_community_id = None, shot_channels = [], shot_messages = [], shot_warning = None\<rparr>"

record desktop_paths =
  path_state :: string
  path_config :: string
  path_feedback :: string
  path_node :: string

datatype job_result =
    Loaded desktop_snapshot
  | MessageSaved desktop_snapshot
  | Failed string

text \<open>A window's picture: width, height and the red, green and blue of its pixels, row by row.\<close>

record color_image =
  image_width :: nat
  image_height :: nat
  image_pixels :: "(byte \<times> byte \<times> byte) list"

record 'k desktop_params =
  dp_cli :: "'k cli_params"
  dp_env :: "nat \<Rightarrow> cli_env"
  dp_start :: "nat \<Rightarrow> string option"                       \<comment> \<open>why a process cannot be started\<close>
  dp_error_text :: "cli_error \<Rightarrow> string"
  dp_io_text :: "io_error \<Rightarrow> string"
  dp_config :: "client_config codec"
  dp_receipt :: "feedback_receipt codec"
  dp_encode_error :: string
  dp_config_error :: "bytes \<Rightarrow> string"
  dp_receipt_error :: "bytes \<Rightarrow> string"
  dp_channels_from :: "string \<Rightarrow> string + desktop_channel list"
  dp_messages_from :: "string \<Rightarrow> string + desktop_message list"
  dp_post :: "string \<Rightarrow> string \<Rightarrow> feedback_payload \<Rightarrow> string + bytes"   \<comment> \<open>address, user agent, body\<close>
  dp_get :: "string \<Rightarrow> string \<Rightarrow> string \<Rightarrow> string + bytes"             \<comment> \<open>address, token, user agent\<close>
  dp_created_from :: "bytes \<Rightarrow> string + feedback_created"
  dp_status_from :: "bytes \<Rightarrow> string + feedback_status"
  dp_jpeg :: "nat \<Rightarrow> byte list \<Rightarrow> nat \<Rightarrow> nat \<Rightarrow> string + bytes"           \<comment> \<open>quality, colours, width, height\<close>
  dp_base64 :: "bytes \<Rightarrow> string"
  dp_home :: string                                        \<comment> \<open>the variable \<open>HOME\<close>\<close>
  dp_os :: string
  dp_arch :: string

section \<open>Paths\<close>

text \<open>\<open>Path::parent\<close> of a path without a separator at its end.\<close>

definition parent_path :: "string \<Rightarrow> string option" where
  "parent_path path =
     (if path = [] \<or> path = ''/'' then None
      else case dropWhile (\<lambda>c. c \<noteq> CHR ''/'') (rev path) of
             [] \<Rightarrow> Some []
           | _ # front \<Rightarrow> Some (if front = [] then ''/'' else rev front))"

text \<open>The arguments are the local data directory, the variable for the node's path, the path of the running
  program and whether the system is Windows.\<close>

definition app_paths :: "string option \<Rightarrow> string option \<Rightarrow> string option \<Rightarrow> bool \<Rightarrow> desktop_paths" where
  "app_paths data_local_dir node_path current_exe windows =
     (let base = (case data_local_dir of Some dir \<Rightarrow> dir | None \<Rightarrow> ''.chatcommons-alpha'');
          beside = map_option (\<lambda>parent. join_path parent (if windows then ''chatcommons-node.exe'' else ''chatcommons-node''))
            (Option.bind current_exe parent_path);
          node = (case node_path of
                    Some p \<Rightarrow> p
                  | None \<Rightarrow> (case beside of Some p \<Rightarrow> p | None \<Rightarrow> ''chatcommons-node''))
      in \<lparr>path_state = join_path base ''node'', path_config = join_path base ''client.json'',
          path_feedback = join_path base ''feedback-receipt.json'', path_node = node\<rparr>)"

section \<open>The world of the client\<close>

record desktop_world =
  dw_cli :: cli_world
  dw_processes :: nat

datatype desktop_stop =
    Halted string
  | Blocked

type_synonym 'a desktop_op = "(desktop_stop, desktop_world, 'a) op"

definition desktop_lift :: "string + 'a \<Rightarrow> 'a desktop_op" where
  "desktop_lift r = op_lift (map_err Halted r)"

definition desktop_fs :: "(string, filesystem, 'a) op \<Rightarrow> 'a desktop_op" where
  "desktop_fs m s =
     (let (r, fs) = m (w_fs (dw_cli s)) in (map_err Halted r, s\<lparr>dw_cli := (dw_cli s)\<lparr>w_fs := fs\<rparr>\<rparr>))"

text \<open>\<open>.map_err(|error| format!("...{error}"))\<close> on an operation of the file system.\<close>

definition fs_context :: "'k desktop_params \<Rightarrow> string \<Rightarrow> (io_error, filesystem, 'a) op \<Rightarrow> (string, filesystem, 'a) op" where
  "fs_context D text m fs = (let (r, fs') = m fs in (map_err (\<lambda>err. text @ dp_io_text D err) r, fs'))"

fun io_of :: "state_error \<Rightarrow> io_error" where
  "io_of (StateIo err) = err"
| "io_of _ = OtherIo []"

text \<open>\<open>fs::create_dir_all\<close>, which does nothing for the empty path.\<close>

definition create_directories :: "string \<Rightarrow> (io_error, filesystem, unit) op" where
  "create_directories path fs =
     (if path = [] then (Inr (), fs)
      else let (r, fs') = create_dir_all path fs in (map_err io_of r, fs'))"

text \<open>\<open>Path::is_file\<close> follows links and reads an error as absence.\<close>

definition path_is_file :: "string \<Rightarrow> filesystem \<Rightarrow> bool" where
  "path_is_file path fs =
     (case symlink_metadata path fs of
        Inr (FsFile _ _) \<Rightarrow> True
      | Inr (FsSymlink (Some (Some _))) \<Rightarrow> True
      | _ \<Rightarrow> False)"

text \<open>\<open>fs::read\<close>\<close>

definition fs_read :: "string \<Rightarrow> filesystem \<Rightarrow> io_error + bytes" where
  "fs_read path fs =
     res_bind (fs_try (FsOpen path) fs) (\<lambda>_.
     case fs_entries fs path of
       Some (FsFile _ bs) \<Rightarrow> res_bind (fs_try (FsRead path) fs) (\<lambda>_. Inr bs)
     | Some (FsSymlink (Some (Some bs))) \<Rightarrow> res_bind (fs_try (FsRead path) fs) (\<lambda>_. Inr bs)
     | None \<Rightarrow> Inl NotFound
     | Some (FsSymlink None) \<Rightarrow> Inl NotFound
     | Some _ \<Rightarrow> Inl (OtherIo ''Is a directory''))"

text \<open>\<open>fs::write\<close> creates a missing file, empties an existing one and then writes.\<close>

definition fs_write :: "string \<Rightarrow> bytes \<Rightarrow> (io_error, filesystem, unit) op" where
  "fs_write path bs fs =
     (case fs_try (FsOpen path) fs of
        Inl err \<Rightarrow> (Inl err, fs)
      | Inr _ \<Rightarrow>
          (let written = (case fs_try (FsWrite path) fs of Inl _ \<Rightarrow> take (fs_partial fs path) bs | Inr _ \<Rightarrow> bs);
               r = fs_try (FsWrite path) fs
           in case fs_entries fs path of
                None \<Rightarrow> (r, put_entry path (FsFile (masked 438 fs) written) fs)
              | Some (FsFile mode _) \<Rightarrow> (r, put_entry path (FsFile mode written) fs)
              | Some (FsSymlink (Some None)) \<Rightarrow> (Inl (OtherIo ''Is a directory''), fs)
              | Some (FsSymlink _) \<Rightarrow> (r, put_entry path (FsSymlink (Some (Some written))) fs)
              | Some (FsDir _) \<Rightarrow> (Inl (OtherIo ''Is a directory''), fs)))"

text \<open>\<open>fs::set_permissions\<close> with mode \<open>0o600\<close>\<close>

definition set_private :: "string \<Rightarrow> (io_error, filesystem, unit) op" where
  "set_private path fs =
     (case fs_try (FsSetPermissions path) fs of
        Inl err \<Rightarrow> (Inl err, fs)
      | Inr _ \<Rightarrow>
          (case fs_entries fs path of
             None \<Rightarrow> (Inl NotFound, fs)
           | Some (FsFile _ bs) \<Rightarrow> (Inr (), put_entry path (FsFile 384 bs) fs)
           | Some (FsDir _) \<Rightarrow> (Inr (), put_entry path (FsDir 384) fs)
           | Some (FsSymlink None) \<Rightarrow> (Inl NotFound, fs)
           | Some (FsSymlink _) \<Rightarrow> (Inr (), fs)))"

section \<open>Configuration and receipts\<close>

definition zh_config_unreadable :: string where  \<comment> \<open>cannot read the configuration\<close>
  "zh_config_unreadable =
     [CHR 0xE6, CHR 0x97, CHR 0xA0, CHR 0xE6, CHR 0xB3, CHR 0x95, CHR 0xE8, CHR 0xAF, CHR 0xBB, CHR 0xE5,
     CHR 0x8F, CHR 0x96, CHR 0xE5, CHR 0xAE, CHR 0xA2, CHR 0xE6, CHR 0x88, CHR 0xB7, CHR 0xE7, CHR 0xAB,
     CHR 0xAF, CHR 0xE9, CHR 0x85, CHR 0x8D, CHR 0xE7, CHR 0xBD, CHR 0xAE, CHR 0xEF, CHR 0xBC, CHR 0x9A]"

definition zh_config_invalid :: string where  \<comment> \<open>invalid configuration\<close>
  "zh_config_invalid =
     [CHR 0xE5, CHR 0xAE, CHR 0xA2, CHR 0xE6, CHR 0x88, CHR 0xB7, CHR 0xE7, CHR 0xAB, CHR 0xAF, CHR 0xE9,
     CHR 0x85, CHR 0x8D, CHR 0xE7, CHR 0xBD, CHR 0xAE, CHR 0xE6, CHR 0x97, CHR 0xA0, CHR 0xE6, CHR 0x95,
     CHR 0x88, CHR 0xEF, CHR 0xBC, CHR 0x9A]"

definition zh_config_version :: string where  \<comment> \<open>unsupported version of the configuration\<close>
  "zh_config_version =
     [CHR 0xE5, CHR 0xAE, CHR 0xA2, CHR 0xE6, CHR 0x88, CHR 0xB7, CHR 0xE7, CHR 0xAB, CHR 0xAF, CHR 0xE9,
     CHR 0x85, CHR 0x8D, CHR 0xE7, CHR 0xBD, CHR 0xAE, CHR 0xE7, CHR 0x89, CHR 0x88, CHR 0xE6, CHR 0x9C,
     CHR 0xAC, CHR 0xE4, CHR 0xB8, CHR 0x8D, CHR 0xE5, CHR 0x8F, CHR 0x97, CHR 0xE6, CHR 0x94, CHR 0xAF,
     CHR 0xE6, CHR 0x8C, CHR 0x81]"

definition zh_config_directory :: string where  \<comment> \<open>invalid directory of the configuration\<close>
  "zh_config_directory =
     [CHR 0xE5, CHR 0xAE, CHR 0xA2, CHR 0xE6, CHR 0x88, CHR 0xB7, CHR 0xE7, CHR 0xAB, CHR 0xAF, CHR 0xE9,
     CHR 0x85, CHR 0x8D, CHR 0xE7, CHR 0xBD, CHR 0xAE, CHR 0xE7, CHR 0x9B, CHR 0xAE, CHR 0xE5, CHR 0xBD,
     CHR 0x95, CHR 0xE6, CHR 0x97, CHR 0xA0, CHR 0xE6, CHR 0x95, CHR 0x88]"

definition zh_config_no_directory :: string where  \<comment> \<open>cannot create the directory of the configuration\<close>
  "zh_config_no_directory =
     [CHR 0xE6, CHR 0x97, CHR 0xA0, CHR 0xE6, CHR 0xB3, CHR 0x95, CHR 0xE5, CHR 0x88, CHR 0x9B, CHR 0xE5,
     CHR 0xBB, CHR 0xBA, CHR 0xE5, CHR 0xAE, CHR 0xA2, CHR 0xE6, CHR 0x88, CHR 0xB7, CHR 0xE7, CHR 0xAB,
     CHR 0xAF, CHR 0xE9, CHR 0x85, CHR 0x8D, CHR 0xE7, CHR 0xBD, CHR 0xAE, CHR 0xE7, CHR 0x9B, CHR 0xAE,
     CHR 0xE5, CHR 0xBD, CHR 0x95, CHR 0xEF, CHR 0xBC, CHR 0x9A]"

definition zh_config_unencodable :: string where  \<comment> \<open>cannot encode the configuration\<close>
  "zh_config_unencodable =
     [CHR 0xE6, CHR 0x97, CHR 0xA0, CHR 0xE6, CHR 0xB3, CHR 0x95, CHR 0xE7, CHR 0xBC, CHR 0x96, CHR 0xE7,
     CHR 0xA0, CHR 0x81, CHR 0xE5, CHR 0xAE, CHR 0xA2, CHR 0xE6, CHR 0x88, CHR 0xB7, CHR 0xE7, CHR 0xAB,
     CHR 0xAF, CHR 0xE9, CHR 0x85, CHR 0x8D, CHR 0xE7, CHR 0xBD, CHR 0xAE, CHR 0xEF, CHR 0xBC, CHR 0x9A]"

definition zh_config_unsaved :: string where  \<comment> \<open>cannot save the configuration\<close>
  "zh_config_unsaved =
     [CHR 0xE6, CHR 0x97, CHR 0xA0, CHR 0xE6, CHR 0xB3, CHR 0x95, CHR 0xE4, CHR 0xBF, CHR 0x9D, CHR 0xE5,
     CHR 0xAD, CHR 0x98, CHR 0xE5, CHR 0xAE, CHR 0xA2, CHR 0xE6, CHR 0x88, CHR 0xB7, CHR 0xE7, CHR 0xAB,
     CHR 0xAF, CHR 0xE9, CHR 0x85, CHR 0x8D, CHR 0xE7, CHR 0xBD, CHR 0xAE, CHR 0xEF, CHR 0xBC, CHR 0x9A]"

definition zh_receipt_unreadable :: string where  \<comment> \<open>cannot read the receipt\<close>
  "zh_receipt_unreadable =
     [CHR 0xE6, CHR 0x97, CHR 0xA0, CHR 0xE6, CHR 0xB3, CHR 0x95, CHR 0xE8, CHR 0xAF, CHR 0xBB, CHR 0xE5,
     CHR 0x8F, CHR 0x96, CHR 0xE5, CHR 0x8F, CHR 0x8D, CHR 0xE9, CHR 0xA6, CHR 0x88, CHR 0xE5, CHR 0x9B,
     CHR 0x9E, CHR 0xE6, CHR 0x89, CHR 0xA7, CHR 0xEF, CHR 0xBC, CHR 0x9A]"

definition zh_receipt_invalid :: string where  \<comment> \<open>invalid receipt\<close>
  "zh_receipt_invalid =
     [CHR 0xE5, CHR 0x8F, CHR 0x8D, CHR 0xE9, CHR 0xA6, CHR 0x88, CHR 0xE5, CHR 0x9B, CHR 0x9E, CHR 0xE6,
     CHR 0x89, CHR 0xA7, CHR 0xE6, CHR 0x97, CHR 0xA0, CHR 0xE6, CHR 0x95, CHR 0x88, CHR 0xEF, CHR 0xBC,
     CHR 0x9A]"

definition zh_receipt_directory :: string where  \<comment> \<open>invalid directory of the receipt\<close>
  "zh_receipt_directory =
     [CHR 0xE5, CHR 0x8F, CHR 0x8D, CHR 0xE9, CHR 0xA6, CHR 0x88, CHR 0xE5, CHR 0x9B, CHR 0x9E, CHR 0xE6,
     CHR 0x89, CHR 0xA7, CHR 0xE7, CHR 0x9B, CHR 0xAE, CHR 0xE5, CHR 0xBD, CHR 0x95, CHR 0xE6, CHR 0x97,
     CHR 0xA0, CHR 0xE6, CHR 0x95, CHR 0x88]"

definition zh_receipt_no_directory :: string where  \<comment> \<open>cannot create the directory of the receipt\<close>
  "zh_receipt_no_directory =
     [CHR 0xE6, CHR 0x97, CHR 0xA0, CHR 0xE6, CHR 0xB3, CHR 0x95, CHR 0xE5, CHR 0x88, CHR 0x9B, CHR 0xE5,
     CHR 0xBB, CHR 0xBA, CHR 0xE5, CHR 0x8F, CHR 0x8D, CHR 0xE9, CHR 0xA6, CHR 0x88, CHR 0xE5, CHR 0x9B,
     CHR 0x9E, CHR 0xE6, CHR 0x89, CHR 0xA7, CHR 0xE7, CHR 0x9B, CHR 0xAE, CHR 0xE5, CHR 0xBD, CHR 0x95,
     CHR 0xEF, CHR 0xBC, CHR 0x9A]"

definition zh_receipt_unencodable :: string where  \<comment> \<open>cannot encode the receipt\<close>
  "zh_receipt_unencodable =
     [CHR 0xE6, CHR 0x97, CHR 0xA0, CHR 0xE6, CHR 0xB3, CHR 0x95, CHR 0xE7, CHR 0xBC, CHR 0x96, CHR 0xE7,
     CHR 0xA0, CHR 0x81, CHR 0xE5, CHR 0x8F, CHR 0x8D, CHR 0xE9, CHR 0xA6, CHR 0x88, CHR 0xE5, CHR 0x9B,
     CHR 0x9E, CHR 0xE6, CHR 0x89, CHR 0xA7, CHR 0xEF, CHR 0xBC, CHR 0x9A]"

definition zh_receipt_unsaved :: string where  \<comment> \<open>cannot save the receipt\<close>
  "zh_receipt_unsaved =
     [CHR 0xE6, CHR 0x97, CHR 0xA0, CHR 0xE6, CHR 0xB3, CHR 0x95, CHR 0xE4, CHR 0xBF, CHR 0x9D, CHR 0xE5,
     CHR 0xAD, CHR 0x98, CHR 0xE5, CHR 0x8F, CHR 0x8D, CHR 0xE9, CHR 0xA6, CHR 0x88, CHR 0xE5, CHR 0x9B,
     CHR 0x9E, CHR 0xE6, CHR 0x89, CHR 0xA7, CHR 0xEF, CHR 0xBC, CHR 0x9A]"

definition zh_receipt_unprotected :: string where  \<comment> \<open>cannot protect the receipt\<close>
  "zh_receipt_unprotected =
     [CHR 0xE6, CHR 0x97, CHR 0xA0, CHR 0xE6, CHR 0xB3, CHR 0x95, CHR 0xE4, CHR 0xBF, CHR 0x9D, CHR 0xE6,
     CHR 0x8A, CHR 0xA4, CHR 0xE5, CHR 0x8F, CHR 0x8D, CHR 0xE9, CHR 0xA6, CHR 0x88, CHR 0xE5, CHR 0x9B,
     CHR 0x9E, CHR 0xE6, CHR 0x89, CHR 0xA7, CHR 0xEF, CHR 0xBC, CHR 0x9A]"

definition load_config :: "'k desktop_params \<Rightarrow> string \<Rightarrow> filesystem \<Rightarrow> string + client_config" where
  "load_config D path fs =
     (if \<not> path_is_file path fs then Inr \<lparr>config_version = CONFIG_VERSION, config_community_id = None\<rparr>
      else
        res_bind (map_err (\<lambda>err. zh_config_unreadable @ dp_io_text D err) (fs_read path fs)) (\<lambda>bs.
        res_bind (ok_or (from_slice (dp_config D) bs) (zh_config_invalid @ dp_config_error D bs)) (\<lambda>config.
        if config_version config \<noteq> CONFIG_VERSION then Inl zh_config_version else Inr config)))"

definition save_config :: "'k desktop_params \<Rightarrow> string \<Rightarrow> string option \<Rightarrow> (string, filesystem, unit) op" where
  "save_config D path community =
     op_bind (op_lift (ok_or (parent_path path) zh_config_directory)) (\<lambda>parent.
     op_bind (fs_context D zh_config_no_directory (create_directories parent)) (\<lambda>_.
     op_bind (op_lift (ok_or
       (to_vec (dp_config D) \<lparr>config_version = CONFIG_VERSION, config_community_id = community\<rparr>)
       (zh_config_unencodable @ dp_encode_error D))) (\<lambda>bs.
     fs_context D zh_config_unsaved (fs_write path bs))))"

definition load_feedback_receipt ::
  "'k desktop_params \<Rightarrow> string \<Rightarrow> filesystem \<Rightarrow> string + feedback_receipt option" where
  "load_feedback_receipt D path fs =
     (if \<not> path_is_file path fs then Inr None
      else
        res_bind (map_err (\<lambda>err. zh_receipt_unreadable @ dp_io_text D err) (fs_read path fs)) (\<lambda>bs.
        res_bind (ok_or (from_slice (dp_receipt D) bs) (zh_receipt_invalid @ dp_receipt_error D bs)) (\<lambda>receipt.
        Inr (Some receipt))))"

definition save_feedback_receipt ::
  "'k desktop_params \<Rightarrow> string \<Rightarrow> feedback_receipt \<Rightarrow> (string, filesystem, unit) op" where
  "save_feedback_receipt D path receipt =
     op_bind (op_lift (ok_or (parent_path path) zh_receipt_directory)) (\<lambda>parent.
     op_bind (fs_context D zh_receipt_no_directory (create_directories parent)) (\<lambda>_.
     op_bind (op_lift (ok_or (to_vec (dp_receipt D) receipt) (zh_receipt_unencodable @ dp_encode_error D))) (\<lambda>bs.
     op_bind (fs_context D zh_receipt_unsaved (fs_write path bs)) (\<lambda>_.
     fs_context D zh_receipt_unprotected (set_private path)))))"

section \<open>Node processes\<close>

definition zh_cannot_start :: string where  \<comment> \<open>cannot start the node process\<close>
  "zh_cannot_start =
     [CHR 0xE6, CHR 0x97, CHR 0xA0, CHR 0xE6, CHR 0xB3, CHR 0x95, CHR 0xE5, CHR 0x90, CHR 0xAF, CHR 0xE5,
     CHR 0x8A, CHR 0xA8, CHR 0xE5, CHR 0x8D, CHR 0x8F, CHR 0xE8, CHR 0xAE, CHR 0xAE, CHR 0xE8, CHR 0xBF,
     CHR 0x9B, CHR 0xE7, CHR 0xA8, CHR 0x8B, CHR 0xEF, CHR 0xBC, CHR 0x9A]"

definition zh_operation_failed :: string where  \<comment> \<open>the node's operation failed\<close>
  "zh_operation_failed =
     [CHR 0xE5, CHR 0x8D, CHR 0x8F, CHR 0xE8, CHR 0xAE, CHR 0xAE, CHR 0xE6, CHR 0x93, CHR 0x8D, CHR 0xE4,
     CHR 0xBD, CHR 0x9C, CHR 0xE5, CHR 0xA4, CHR 0xB1, CHR 0xE8, CHR 0xB4, CHR 0xA5]"

definition zh_data_directory :: string where  \<comment> \<open>invalid data directory\<close>
  "zh_data_directory =
     [CHR 0xE5, CHR 0xBA, CHR 0x94, CHR 0xE7, CHR 0x94, CHR 0xA8, CHR 0xE6, CHR 0x95, CHR 0xB0, CHR 0xE6,
     CHR 0x8D, CHR 0xAE, CHR 0xE7, CHR 0x9B, CHR 0xAE, CHR 0xE5, CHR 0xBD, CHR 0x95, CHR 0xE6, CHR 0x97,
     CHR 0xA0, CHR 0xE6, CHR 0x95, CHR 0x88]"

definition zh_no_data_directory :: string where  \<comment> \<open>cannot create the data directory\<close>
  "zh_no_data_directory =
     [CHR 0xE6, CHR 0x97, CHR 0xA0, CHR 0xE6, CHR 0xB3, CHR 0x95, CHR 0xE5, CHR 0x88, CHR 0x9B, CHR 0xE5,
     CHR 0xBB, CHR 0xBA, CHR 0xE5, CHR 0xBA, CHR 0x94, CHR 0xE7, CHR 0x94, CHR 0xA8, CHR 0xE6, CHR 0x95,
     CHR 0xB0, CHR 0xE6, CHR 0x8D, CHR 0xAE, CHR 0xE7, CHR 0x9B, CHR 0xAE, CHR 0xE5, CHR 0xBD, CHR 0x95,
     CHR 0xEF, CHR 0xBC, CHR 0x9A]"

definition zh_channels_invalid :: string where  \<comment> \<open>invalid channels\<close>
  "zh_channels_invalid =
     [CHR 0xE9, CHR 0xA2, CHR 0x91, CHR 0xE9, CHR 0x81, CHR 0x93, CHR 0xE6, CHR 0x95, CHR 0xB0, CHR 0xE6,
     CHR 0x8D, CHR 0xAE, CHR 0xE6, CHR 0x97, CHR 0xA0, CHR 0xE6, CHR 0x95, CHR 0x88, CHR 0xEF, CHR 0xBC,
     CHR 0x9A]"

definition zh_messages_invalid :: string where  \<comment> \<open>invalid messages\<close>
  "zh_messages_invalid =
     [CHR 0xE6, CHR 0xB6, CHR 0x88, CHR 0xE6, CHR 0x81, CHR 0xAF, CHR 0xE6, CHR 0x95, CHR 0xB0, CHR 0xE6,
     CHR 0x8D, CHR 0xAE, CHR 0xE6, CHR 0x97, CHR 0xA0, CHR 0xE6, CHR 0x95, CHR 0x88, CHR 0xEF, CHR 0xBC,
     CHR 0x9A]"

text \<open>The node prints its error after \<open>error:\<close> and exits with a failure.\<close>

definition run_node :: "'k desktop_params \<Rightarrow> string list \<Rightarrow> string desktop_op" where
  "run_node D arguments s =
     (let n = dw_processes s; s1 = s\<lparr>dw_processes := n + 1\<rparr> in
      case dp_start D n of
        Some err \<Rightarrow> (Inl (Halted (zh_cannot_start @ err)), s1)
      | None \<Rightarrow>
          (let (r, w) = run (dp_cli D) (dp_env D n) arguments ((dw_cli s)\<lparr>w_output := []\<rparr>)
           in (case r of
                 Inl err \<Rightarrow>
                   (let text = trim (''error: '' @ dp_error_text D err @ [CHR 0x0A])
                    in Inl (Halted (if text = [] then zh_operation_failed else text)))
               | Inr None \<Rightarrow> Inl Blocked
               | Inr (Some _) \<Rightarrow> Inr (concat (w_output w)),
               s1\<lparr>dw_cli := w\<rparr>)))"

definition ensure_identity :: "'k desktop_params \<Rightarrow> desktop_paths \<Rightarrow> unit desktop_op" where
  "ensure_identity D P s =
     (if path_is_file (join_path (path_state P) IDENTITY_FILE) (w_fs (dw_cli s)) then (Inr (), s)
      else
        op_bind (desktop_lift (ok_or (parent_path (path_state P)) zh_data_directory)) (\<lambda>parent.
        op_bind (desktop_fs (fs_context D zh_no_data_directory (create_directories parent))) (\<lambda>_.
        op_bind (run_node D [''init'', ''--state'', path_state P]) (\<lambda>_.
        op_return ()))) s)"

text \<open>\<open>.err()\<close>: a failed synchronisation is a warning.\<close>

definition warning_of :: "'a desktop_op \<Rightarrow> string option desktop_op" where
  "warning_of m s =
     (case m s of
        (Inl (Halted err), s') \<Rightarrow> (Inr (Some err), s')
      | (Inl Blocked, s') \<Rightarrow> (Inl Blocked, s')
      | (Inr _, s') \<Rightarrow> (Inr None, s'))"

definition load_snapshot :: "'k desktop_params \<Rightarrow> desktop_paths \<Rightarrow> bool \<Rightarrow> desktop_snapshot desktop_op" where
  "load_snapshot D P synchronize =
     op_bind (ensure_identity D P) (\<lambda>_.
     op_bind (run_node D [''info'', ''--state'', path_state P]) (\<lambda>info.
     op_bind (desktop_lift (output_field info ''USER_ID'')) (\<lambda>user_id.
     op_bind (\<lambda>s. (map_err Halted (load_config D (path_config P) (w_fs (dw_cli s))), s)) (\<lambda>config.
     case config_community_id config of
       None \<Rightarrow> op_return (snapshot_default\<lparr>shot_user_id := user_id\<rparr>)
     | Some community \<Rightarrow>
         op_bind
           (if synchronize
            then warning_of (run_node D
              [''sync-home-server'', ''--state'', path_state P, ''--community'', community,
               ''--listen'', ''/ip4/0.0.0.0/udp/0/quic-v1'', ''--idle-timeout-ms'', ''1500''])
            else op_return None) (\<lambda>warning.
         op_bind (run_node D [''list-channels'', ''--state'', path_state P, ''--community'', community]) (\<lambda>channels.
         op_bind (run_node D [''list-messages'', ''--state'', path_state P, ''--community'', community]) (\<lambda>messages.
         op_bind (desktop_lift (map_err (\<lambda>err. zh_channels_invalid @ err) (dp_channels_from D channels))) (\<lambda>cs.
         op_bind (desktop_lift (map_err (\<lambda>err. zh_messages_invalid @ err) (dp_messages_from D messages))) (\<lambda>ms.
         op_return \<lparr>shot_user_id = user_id, shot_community_id = Some community, shot_channels = cs,
                    shot_messages = ms, shot_warning = warning\<rparr>)))))))))"

section \<open>Background work\<close>

text \<open>The closures that the client hands to its threads.\<close>

datatype job =
    LoadJob bool
  | JoinJob string
  | SendJob string string string

definition join_work :: "'k desktop_params \<Rightarrow> desktop_paths \<Rightarrow> string \<Rightarrow> desktop_snapshot desktop_op" where
  "join_work D P invite =
     op_bind (ensure_identity D P) (\<lambda>_.
     op_bind (run_node D [''join'', ''--state'', path_state P, ''--invite-code'', invite]) (\<lambda>output.
     op_bind (desktop_lift (output_field output ''COMMUNITY_ID'')) (\<lambda>community.
     op_bind (desktop_fs (save_config D (path_config P) (Some community))) (\<lambda>_.
     load_snapshot D P False))))"

definition send_work ::
  "'k desktop_params \<Rightarrow> desktop_paths \<Rightarrow> string \<Rightarrow> string \<Rightarrow> string \<Rightarrow> desktop_snapshot desktop_op" where
  "send_work D P community channel text =
     op_bind (run_node D [''send-message'', ''--state'', path_state P, ''--community'', community,
       ''--channel'', channel, ''--text'', text]) (\<lambda>_.
     load_snapshot D P False)"

text \<open>What a thread sends when it is done: nothing as long as it is blocked.\<close>

definition job_outcome :: "('a \<Rightarrow> job_result) \<Rightarrow> desktop_stop + 'a \<Rightarrow> job_result option" where
  "job_outcome f r =
     (case r of Inr x \<Rightarrow> Some (f x) | Inl (Halted err) \<Rightarrow> Some (Failed err) | Inl Blocked \<Rightarrow> None)"

fun run_job :: "'k desktop_params \<Rightarrow> desktop_paths \<Rightarrow> job \<Rightarrow> desktop_world \<Rightarrow> job_result option \<times> desktop_world" where
  "run_job D P (LoadJob synchronize) s =
     (let (r, s') = load_snapshot D P synchronize s in (job_outcome Loaded r, s'))"
| "run_job D P (JoinJob invite) s =
     (let (r, s') = join_work D P invite s in (job_outcome Loaded r, s'))"
| "run_job D P (SendJob community channel text) s =
     (let (r, s') = send_work D P community channel text s in (job_outcome MessageSaved r, s'))"

section \<open>Screenshots\<close>

text \<open>
  Arithmetic on \<open>f32\<close>: the exact result rounded to 24 significant bits, ties to even.  The sizes of an
  image keep all values of \<open>screenshot_data_url\<close> far from overflow and underflow.
\<close>

definition f32_exponent :: "rat \<Rightarrow> int" where
  "f32_exponent x =
     (let (p, q) = quotient_of x; k = int (floorlog 2 (nat p)) - int (floorlog 2 (nat q))
      in if x < 2 powi k then k - 1 else k)"

definition round_half_even :: "rat \<Rightarrow> int" where
  "round_half_even x =
     (let n = \<lfloor>x\<rfloor>; d = x - of_int n
      in if d < 1 / 2 \<or> d = 1 / 2 \<and> even n then n else n + 1)"

definition f32 :: "rat \<Rightarrow> rat" where
  "f32 x = (if x \<le> 0 then 0 else let ulp = 2 powi (f32_exponent x - 23) in of_int (round_half_even (x / ulp)) * ulp)"

text \<open>\<open>f32::round\<close> and \<open>as usize\<close>\<close>

definition f32_to_usize :: "rat \<Rightarrow> nat" where
  "f32_to_usize x = nat \<lfloor>x + 1 / 2\<rfloor>"

definition scaled_size :: "nat \<Rightarrow> nat \<Rightarrow> nat \<Rightarrow> nat" where
  "scaled_size max_width source_width n =
     (let scale = min (f32 (f32 (of_nat max_width) / f32 (of_nat source_width))) 1
      in max (f32_to_usize (f32 (f32 (of_nat n) * scale))) 1)"

text \<open>Indexing out of range panics: \<open>None\<close>.\<close>

definition sample_pixel :: "color_image \<Rightarrow> nat \<Rightarrow> nat \<Rightarrow> nat \<Rightarrow> nat \<Rightarrow> (byte \<times> byte \<times> byte) option" where
  "sample_pixel img width height y x =
     (let source_y = y * image_height img div height; source_x = x * image_width img div width;
          i = source_y * image_width img + source_x
      in if i < length (image_pixels img) then Some (image_pixels img ! i) else None)"

definition sample_rgb :: "color_image \<Rightarrow> nat \<Rightarrow> nat \<Rightarrow> byte list option" where
  "sample_rgb img width height =
     map_option (\<lambda>ps. concat (map (\<lambda>(r, g, b). [r, g, b]) ps))
       (those (map (\<lambda>(y, x). sample_pixel img width height y x)
         (List.product [0..<height] [0..<width])))"

definition zh_bad_screenshot :: string where  \<comment> \<open>invalid size of the screenshot\<close>
  "zh_bad_screenshot =
     [CHR 0xE6, CHR 0x88, CHR 0xAA, CHR 0xE5, CHR 0x9B, CHR 0xBE, CHR 0xE5, CHR 0xB0, CHR 0xBA, CHR 0xE5,
     CHR 0xAF, CHR 0xB8, CHR 0xE6, CHR 0x97, CHR 0xA0, CHR 0xE6, CHR 0x95, CHR 0x88]"

definition zh_screenshot_unencodable :: string where  \<comment> \<open>cannot encode the screenshot\<close>
  "zh_screenshot_unencodable =
     [CHR 0xE6, CHR 0x97, CHR 0xA0, CHR 0xE6, CHR 0xB3, CHR 0x95, CHR 0xE7, CHR 0xBC, CHR 0x96, CHR 0xE7,
     CHR 0xA0, CHR 0x81, CHR 0xE6, CHR 0x88, CHR 0xAA, CHR 0xE5, CHR 0x9B, CHR 0xBE, CHR 0xEF, CHR 0xBC,
     CHR 0x9A]"

definition zh_screenshot_too_large :: string where  \<comment> \<open>the screenshot is too large\<close>
  "zh_screenshot_too_large =
     [CHR 0xE6, CHR 0x88, CHR 0xAA, CHR 0xE5, CHR 0x9B, CHR 0xBE, CHR 0xE5, CHR 0x8E, CHR 0x8B, CHR 0xE7,
     CHR 0xBC, CHR 0xA9, CHR 0xE5, CHR 0x90, CHR 0x8E, CHR 0xE4, CHR 0xBB, CHR 0x8D, CHR 0xE7, CHR 0x84,
     CHR 0xB6, CHR 0xE8, CHR 0xBF, CHR 0x87, CHR 0xE5, CHR 0xA4, CHR 0xA7, CHR 0xEF, CHR 0xBC, CHR 0x8C,
     CHR 0xE8, CHR 0xAF, CHR 0xB7, CHR 0xE7, CHR 0xA7, CHR 0xBB, CHR 0xE9, CHR 0x99, CHR 0xA4, CHR 0xE6,
     CHR 0x88, CHR 0xAA, CHR 0xE5, CHR 0x9B, CHR 0xBE, CHR 0xE5, CHR 0x90, CHR 0x8E, CHR 0xE6, CHR 0x8F,
     CHR 0x90, CHR 0xE4, CHR 0xBA, CHR 0xA4]"

definition MAX_SCREENSHOT_BYTES :: nat where
  "MAX_SCREENSHOT_BYTES = 950000"

fun screenshot_attempts :: "'k desktop_params \<Rightarrow> color_image \<Rightarrow> (nat \<times> nat) list \<Rightarrow> (string + string) option" where
  "screenshot_attempts D img [] = Some (Inl zh_screenshot_too_large)"
| "screenshot_attempts D img ((max_width, quality) # rest) =
     (if image_width img = 0 \<or> image_height img = 0 then Some (Inl zh_bad_screenshot)
      else
        (let width = scaled_size max_width (image_width img) (image_width img);
             height = scaled_size max_width (image_width img) (image_height img)
         in case sample_rgb img width height of
              None \<Rightarrow> None
            | Some rgb \<Rightarrow>
                (case dp_jpeg D quality rgb width height of
                   Inl err \<Rightarrow> Some (Inl (zh_screenshot_unencodable @ err))
                 | Inr jpeg \<Rightarrow>
                     if length jpeg \<le> MAX_SCREENSHOT_BYTES
                     then Some (Inr (''data:image/jpeg;base64,'' @ dp_base64 D jpeg))
                     else screenshot_attempts D img rest)))"

definition screenshot_data_url :: "'k desktop_params \<Rightarrow> color_image \<Rightarrow> (string + string) option" where
  "screenshot_data_url D img = screenshot_attempts D img [(1280, 78), (960, 64), (720, 54)]"

section \<open>Feedback\<close>

definition zh_feedback_unsent :: string where  \<comment> \<open>sending the feedback failed\<close>
  "zh_feedback_unsent =
     [CHR 0xE5, CHR 0x8F, CHR 0x8D, CHR 0xE9, CHR 0xA6, CHR 0x88, CHR 0xE5, CHR 0x8F, CHR 0x91, CHR 0xE9,
     CHR 0x80, CHR 0x81, CHR 0xE5, CHR 0xA4, CHR 0xB1, CHR 0xE8, CHR 0xB4, CHR 0xA5, CHR 0xEF, CHR 0xBC,
     CHR 0x9A]"

definition zh_status_unchecked :: string where  \<comment> \<open>cannot check the status of the feedback\<close>
  "zh_status_unchecked =
     [CHR 0xE6, CHR 0x97, CHR 0xA0, CHR 0xE6, CHR 0xB3, CHR 0x95, CHR 0xE6, CHR 0xA3, CHR 0x80, CHR 0xE6,
     CHR 0x9F, CHR 0xA5, CHR 0xE5, CHR 0x8F, CHR 0x8D, CHR 0xE9, CHR 0xA6, CHR 0x88, CHR 0xE7, CHR 0x8A,
     CHR 0xB6, CHR 0xE6, CHR 0x80, CHR 0x81, CHR 0xEF, CHR 0xBC, CHR 0x9A]"

definition zh_status_invalid :: string where  \<comment> \<open>invalid status of the feedback\<close>
  "zh_status_invalid =
     [CHR 0xE5, CHR 0x8F, CHR 0x8D, CHR 0xE9, CHR 0xA6, CHR 0x88, CHR 0xE7, CHR 0x8A, CHR 0xB6, CHR 0xE6,
     CHR 0x80, CHR 0x81, CHR 0xE6, CHR 0x97, CHR 0xA0, CHR 0xE6, CHR 0x95, CHR 0x88, CHR 0xEF, CHR 0xBC,
     CHR 0x9A]"

definition zh_receipt_mismatch :: string where  \<comment> \<open>the number of the receipt differs\<close>
  "zh_receipt_mismatch =
     [CHR 0xE5, CHR 0x8F, CHR 0x8D, CHR 0xE9, CHR 0xA6, CHR 0x88, CHR 0xE5, CHR 0x9B, CHR 0x9E, CHR 0xE6,
     CHR 0x89, CHR 0xA7, CHR 0xE7, CHR 0xBC, CHR 0x96, CHR 0xE5, CHR 0x8F, CHR 0xB7, CHR 0xE4, CHR 0xB8,
     CHR 0x8D, CHR 0xE5, CHR 0x8C, CHR 0xB9, CHR 0xE9, CHR 0x85, CHR 0x8D]"

definition user_agent :: string where
  "user_agent = ''ChatCommonsDesktop/'' @ PRODUCT_VERSION"

definition clamp :: "nat \<Rightarrow> nat \<Rightarrow> nat \<Rightarrow> nat" where
  "clamp v low high = (if v < low then low else if v > high then high else v)"

text \<open>The screenshot, the width and the height of the payload; \<open>None\<close> when the thread panics.\<close>

definition screenshot_fields :: "'k desktop_params \<Rightarrow> color_image option \<Rightarrow> (string + string \<times> nat \<times> nat) option" where
  "screenshot_fields D screenshot =
     (case screenshot of
        None \<Rightarrow> Some (Inr ([], 1180, 760))
      | Some img \<Rightarrow>
          map_option (\<lambda>r. res_bind r (\<lambda>url.
            Inr (url, clamp (image_width img) 280 10000, clamp (image_height img) 300 10000)))
            (screenshot_data_url D img))"

definition submit_app_feedback ::
  "'k desktop_params \<Rightarrow> string \<Rightarrow> string \<Rightarrow> color_image option \<Rightarrow> (string + feedback_receipt) option" where
  "submit_app_feedback D report screen screenshot =
     map_option (\<lambda>fields.
       res_bind fields (\<lambda>(url, width, height).
       res_bind (map_err (\<lambda>err. zh_feedback_unsent @ err)
         (dp_post D FEEDBACK_ENDPOINT user_agent
           \<lparr>payload_surface = ''desktop'', payload_screen = screen, payload_target_id = ''chat-window'',
            payload_target_text = ''ChatCommons desktop feedback'', payload_x = 1 / 2, payload_y = 1 / 2,
            payload_scroll_x = 0, payload_scroll_y = 0, payload_viewport_width = width,
            payload_viewport_height = height, payload_category = ''feature'', payload_priority = ''normal'',
            payload_message = report, payload_screenshot = url\<rparr>)) (\<lambda>body.
       res_bind (map_err (\<lambda>err. zh_receipt_invalid @ err) (dp_created_from D body)) (\<lambda>created.
       Inr \<lparr>receipt_public_id = created_public_id created, receipt_edit_token = created_edit_token created,
            receipt_status = created_status created, receipt_admin_reply = []\<rparr>))))
       (screenshot_fields D screenshot)"

definition fetch_feedback_status :: "'k desktop_params \<Rightarrow> feedback_receipt \<Rightarrow> string + feedback_receipt" where
  "fetch_feedback_status D receipt =
     res_bind (map_err (\<lambda>err. zh_status_unchecked @ err)
       (dp_get D (FEEDBACK_ENDPOINT @ ''/'' @ receipt_public_id receipt) (receipt_edit_token receipt) user_agent)) (\<lambda>body.
     res_bind (map_err (\<lambda>err. zh_status_invalid @ err) (dp_status_from D body)) (\<lambda>status.
     if status_public_id status \<noteq> receipt_public_id receipt then Inl zh_receipt_mismatch
     else Inr (receipt\<lparr>receipt_status := status_status status, receipt_admin_reply := status_admin_reply status\<rparr>)))"

end
