(* ===== verification/Desktop_App.thy ===== *)
theory Desktop_App
  imports Desktop_Node
begin

text \<open>
  \<open>apps/desktop/src/main.rs\<close>: the state of the desktop client and what its window does to it.

  A background thread is a channel that is \<open>Running\<close> its work, has \<open>Sent\<close> its result or will stay \<open>Silent\<close>,
  because the work is blocked or has panicked.  A step of the
  system is the polling at the start of a frame, one action of the user on a control that the current
  screen shows and enables, or a thread that finishes its work.  The two threads share no file, so the
  work of one is taken as one step.  Layout, colours and fonts are left out; what the widgets show and
  which of them are enabled is kept.
\<close>

section \<open>State\<close>

datatype ('w, 'r) thread_channel =
    Running 'w
  | Sent 'r
  | Silent

datatype feedback_task =
    SubmitTask string string "color_image option"
  | StatusTask feedback_receipt

record desktop_app =
  app_paths_of :: desktop_paths
  app_snapshot :: desktop_snapshot
  selected_channel :: "string option"
  invite_code :: string
  draft :: string
  app_status :: string
  last_error :: "string option"
  app_english :: bool
  feedback_open :: bool
  feedback_what :: string
  feedback_expected :: string
  feedback_confirmed :: bool
  feedback_notice :: "string option"
  feedback_screenshot :: "color_image option"
  feedback_texture :: "color_image option"
  feedback_capture_pending :: bool
  feedback_job :: "(feedback_task, string + feedback_receipt) thread_channel option"
  app_receipt :: "feedback_receipt option"
  app_job :: "(job, job_result) thread_channel option"

definition app_text :: "desktop_app \<Rightarrow> string \<Rightarrow> string \<Rightarrow> string" where
  "app_text a chinese english = (if app_english a then english else chinese)"

definition start_job :: "string \<Rightarrow> job \<Rightarrow> desktop_app \<Rightarrow> desktop_app" where
  "start_job status operation a =
     (if app_job a \<noteq> None then a
      else a\<lparr>app_status := status, app_job := Some (Running operation)\<rparr>)"

definition app_new :: "'k desktop_params \<Rightarrow> desktop_paths \<Rightarrow> filesystem \<Rightarrow> desktop_app" where
  "app_new D P fs =
     start_job zh_preparing (LoadJob True)
       \<lparr>app_paths_of = P, app_snapshot = snapshot_default, selected_channel = None, invite_code = [], draft = [],
        app_status = zh_preparing, last_error = None, app_english = False, feedback_open = False,
        feedback_what = [], feedback_expected = [], feedback_confirmed = False, feedback_notice = None,
        feedback_screenshot = None, feedback_texture = None, feedback_capture_pending = False,
        feedback_job = None,
        app_receipt = (case load_feedback_receipt D (path_feedback P) fs of Inl _ \<Rightarrow> None | Inr r \<Rightarrow> r),
        app_job = None\<rparr>"

section \<open>Conversations\<close>

definition adopt_snapshot :: "desktop_snapshot \<Rightarrow> desktop_app \<Rightarrow> desktop_app" where
  "adopt_snapshot shot a =
     (let ids = map channel_id (shot_channels shot);
          first = (case ids of [] \<Rightarrow> None | i # _ \<Rightarrow> Some i)
      in a\<lparr>selected_channel :=
             (case selected_channel a of
                Some selected \<Rightarrow> if selected \<in> set ids then Some selected else first
              | None \<Rightarrow> first)\<rparr>)"

fun receive_result :: "job_result \<Rightarrow> desktop_app \<Rightarrow> desktop_app" where
  "receive_result (Loaded shot) a =
     (adopt_snapshot shot a)
       \<lparr>app_status := (if shot_warning shot \<noteq> None then app_text a zh_unavailable en_unavailable
                        else app_text a zh_synchronized en_synchronized),
        last_error := shot_warning shot, app_snapshot := shot\<rparr>"
| "receive_result (MessageSaved shot) a =
     start_job (app_text a zh_synchronizing en_synchronizing) (LoadJob True)
       ((adopt_snapshot shot a)
          \<lparr>app_snapshot := shot, app_status := app_text a zh_saved en_saved\<rparr>)"
| "receive_result (Failed err) a =
     a\<lparr>app_status := app_text a zh_failed en_failed, last_error := Some err\<rparr>"

definition poll_job :: "desktop_app \<Rightarrow> desktop_app" where
  "poll_job a =
     (case app_job a of
        Some (Sent result) \<Rightarrow> receive_result result (a\<lparr>app_job := None\<rparr>)
      | _ \<Rightarrow> a)"

definition app_join :: "desktop_app \<Rightarrow> desktop_app" where
  "app_join a =
     (let invite = trim (invite_code a) in
      if invite = [] then a\<lparr>app_status := app_text a zh_paste en_paste\<rparr>
      else start_job (app_text a zh_joining en_joining) (JoinJob invite) a)"

definition app_refresh :: "desktop_app \<Rightarrow> desktop_app" where
  "app_refresh a = start_job (app_text a zh_synchronizing en_synchronizing) (LoadJob True) a"

definition app_send :: "desktop_app \<Rightarrow> desktop_app" where
  "app_send a =
     (let text = trim (draft a) in
      case selected_channel a of
        None \<Rightarrow> a\<lparr>app_status := app_text a zh_no_channel en_no_channel\<rparr>
      | Some channel \<Rightarrow>
          (case shot_community_id (app_snapshot a) of
             None \<Rightarrow> a
           | Some community \<Rightarrow>
               if text = [] then a
               else if app_job a \<noteq> None then a
               else a\<lparr>draft := [], app_status := app_text a zh_saving en_saving,
                      app_job := Some (Running (SendJob community channel text))\<rparr>))"

section \<open>Feedback\<close>

definition zh_describe :: string where  \<comment> \<open>describe what happened and what you expected\<close>
  "zh_describe =
     [CHR 0xE8, CHR 0xAF, CHR 0xB7, CHR 0xE5, CHR 0x88, CHR 0x86, CHR 0xE5, CHR 0x88, CHR 0xAB, CHR 0xE8,
     CHR 0xAF, CHR 0xB4, CHR 0xE6, CHR 0x98, CHR 0x8E, CHR 0xE5, CHR 0x8F, CHR 0x91, CHR 0xE7, CHR 0x94,
     CHR 0x9F, CHR 0xE4, CHR 0xBA, CHR 0x86, CHR 0xE4, CHR 0xBB, CHR 0x80, CHR 0xE4, CHR 0xB9, CHR 0x88,
     CHR 0xEF, CHR 0xBC, CHR 0x8C, CHR 0xE4, CHR 0xBB, CHR 0xA5, CHR 0xE5, CHR 0x8F, CHR 0x8A, CHR 0xE4,
     CHR 0xBD, CHR 0xA0, CHR 0xE5, CHR 0x8E, CHR 0x9F, CHR 0xE6, CHR 0x9C, CHR 0xAC, CHR 0xE5, CHR 0xB8,
     CHR 0x8C, CHR 0xE6, CHR 0x9C, CHR 0x9B, CHR 0xE5, CHR 0x8F, CHR 0x91, CHR 0xE7, CHR 0x94, CHR 0x9F,
     CHR 0xE4, CHR 0xBB, CHR 0x80, CHR 0xE4, CHR 0xB9, CHR 0x88, CHR 0xE3, CHR 0x80, CHR 0x82]"

definition zh_confirm :: string where  \<comment> \<open>confirm that the preview contains no private content\<close>
  "zh_confirm =
     [CHR 0xE8, CHR 0xAF, CHR 0xB7, CHR 0xE5, CHR 0x85, CHR 0x88, CHR 0xE7, CHR 0xA1, CHR 0xAE, CHR 0xE8,
     CHR 0xAE, CHR 0xA4, CHR 0xE9, CHR 0xA2, CHR 0x84, CHR 0xE8, CHR 0xA7, CHR 0x88, CHR 0xE4, CHR 0xB8,
     CHR 0xAD, CHR 0xE6, CHR 0xB2, CHR 0xA1, CHR 0xE6, CHR 0x9C, CHR 0x89, CHR 0xE7, CHR 0xA7, CHR 0x81,
     CHR 0xE4, CHR 0xBA, CHR 0xBA, CHR 0xE5, CHR 0x86, CHR 0x85, CHR 0xE5, CHR 0xAE, CHR 0xB9, CHR 0xE3,
     CHR 0x80, CHR 0x82]"

definition zh_sending :: string where  \<comment> \<open>sending to the private feedback inbox\<close>
  "zh_sending =
     [CHR 0xE6, CHR 0xAD, CHR 0xA3, CHR 0xE5, CHR 0x9C, CHR 0xA8, CHR 0xE5, CHR 0x8F, CHR 0x91, CHR 0xE9,
     CHR 0x80, CHR 0x81, CHR 0xE5, CHR 0x88, CHR 0xB0, CHR 0xE7, CHR 0xA7, CHR 0x81, CHR 0xE6, CHR 0x9C,
     CHR 0x89, CHR 0xE5, CHR 0x8F, CHR 0x8D, CHR 0xE9, CHR 0xA6, CHR 0x88, CHR 0xE7, CHR 0xAE, CHR 0xB1,
     CHR 0xE2, CHR 0x80, CHR 0xA6, CHR 0xE2, CHR 0x80, CHR 0xA6]"

definition en_sending :: string where
  "en_sending =
     ''Sending to the private feedback inbox'' @ [CHR 0xE2, CHR 0x80, CHR 0xA6]"

definition zh_captured :: string where  \<comment> \<open>the window is captured, review before submitting\<close>
  "zh_captured =
     [CHR 0xE5, CHR 0xB7, CHR 0xB2, CHR 0xE6, CHR 0x88, CHR 0xAA, CHR 0xE5, CHR 0x8F, CHR 0x96, CHR 0xE5,
     CHR 0xBA, CHR 0x94, CHR 0xE7, CHR 0x94, CHR 0xA8, CHR 0xE7, CHR 0xAA, CHR 0x97, CHR 0xE5, CHR 0x8F,
     CHR 0xA3, CHR 0xE3, CHR 0x80, CHR 0x82, CHR 0xE8, CHR 0xAF, CHR 0xB7, CHR 0xE5, CHR 0x9C, CHR 0xA8,
     CHR 0xE6, CHR 0x8F, CHR 0x90, CHR 0xE4, CHR 0xBA, CHR 0xA4, CHR 0xE5, CHR 0x89, CHR 0x8D, CHR 0xE6,
     CHR 0xA3, CHR 0x80, CHR 0xE6, CHR 0x9F, CHR 0xA5, CHR 0xE9, CHR 0xA2, CHR 0x84, CHR 0xE8, CHR 0xA7,
     CHR 0x88, CHR 0xE3, CHR 0x80, CHR 0x82]"

definition zh_delivered :: string where  \<comment> \<open>feedback delivered, check the reply later\<close>
  "zh_delivered =
     [CHR 0xE5, CHR 0x8F, CHR 0x8D, CHR 0xE9, CHR 0xA6, CHR 0x88, CHR 0xE5, CHR 0xB7, CHR 0xB2, CHR 0xE9,
     CHR 0x80, CHR 0x81, CHR 0xE8, CHR 0xBE, CHR 0xBE, CHR 0xE3, CHR 0x80, CHR 0x82, CHR 0xE4, CHR 0xBD,
     CHR 0xA0, CHR 0xE5, CHR 0x8F, CHR 0xAF, CHR 0xE4, CHR 0xBB, CHR 0xA5, CHR 0xE7, CHR 0xA8, CHR 0x8D,
     CHR 0xE5, CHR 0x90, CHR 0x8E, CHR 0xE5, CHR 0x9C, CHR 0xA8, CHR 0xE8, CHR 0xBF, CHR 0x99, CHR 0xE9,
     CHR 0x87, CHR 0x8C, CHR 0xE6, CHR 0x9F, CHR 0xA5, CHR 0xE7, CHR 0x9C, CHR 0x8B, CHR 0xE5, CHR 0xA4,
     CHR 0x84, CHR 0xE7, CHR 0x90, CHR 0x86, CHR 0xE5, CHR 0x9B, CHR 0x9E, CHR 0xE5, CHR 0xA4, CHR 0x8D,
     CHR 0xE3, CHR 0x80, CHR 0x82]"

definition zh_checking :: string where  \<comment> \<open>checking for a reply\<close>
  "zh_checking =
     [CHR 0xE6, CHR 0xAD, CHR 0xA3, CHR 0xE5, CHR 0x9C, CHR 0xA8, CHR 0xE6, CHR 0xA3, CHR 0x80, CHR 0xE6,
     CHR 0x9F, CHR 0xA5, CHR 0xE5, CHR 0x9B, CHR 0x9E, CHR 0xE5, CHR 0xA4, CHR 0x8D, CHR 0xE2, CHR 0x80,
     CHR 0xA6, CHR 0xE2, CHR 0x80, CHR 0xA6]"

definition en_checking :: string where
  "en_checking =
     ''Checking for a reply'' @ [CHR 0xE2, CHR 0x80, CHR 0xA6]"

definition en_delivered :: string where
  "en_delivered = ''Feedback delivered. You can check the reply here later.''"

definition NL :: string where
  "NL = [CHR 0x0A]"

definition screen_name :: "desktop_app \<Rightarrow> string" where
  "screen_name a = (if shot_community_id (app_snapshot a) \<noteq> None then ''community'' else ''join'')"

definition quoted :: "string \<Rightarrow> string \<Rightarrow> string" where
  "quoted label v = ''- '' @ label @ '': `'' @ v @ ''`'' @ NL"

definition privacy_text :: string where
  "privacy_text =
     ''The reporter reviewed this text before submitting it to the private ChatCommons feedback inbox. '' @
     ''Chat messages, invite links, identity keys, full user/community IDs, and local paths are '' @
     ''intentionally excluded from diagnostics. An optional screenshot is submitted only after a separate '' @
     ''capture action and may contain visible app content.''"

definition open_feedback :: "desktop_app \<Rightarrow> desktop_app" where
  "open_feedback a = a\<lparr>feedback_open := True, feedback_confirmed := False, feedback_notice := None\<rparr>"

definition issue_body :: "'k desktop_params \<Rightarrow> desktop_app \<Rightarrow> string" where
  "issue_body D a =
     (let err = (case last_error a of
                   Some e \<Rightarrow> redact_diagnostic (dp_home D) e
                 | None \<Rightarrow> ''No captured runtime error'')
      in ''## What happened'' @ NL @ NL @ trim (feedback_what a) @ NL @ NL @
         ''## What did you expect?'' @ NL @ NL @ trim (feedback_expected a) @ NL @ NL @
         ''## App diagnostics'' @ NL @ NL @
         quoted ''Version'' PRODUCT_VERSION @ quoted ''OS'' (dp_os D) @ quoted ''Architecture'' (dp_arch D) @
         quoted ''Screen'' (screen_name a) @
         quoted ''Community configured'' (show_bool (shot_community_id (app_snapshot a) \<noteq> None)) @
         quoted ''Selected channel'' (show_bool (selected_channel a \<noteq> None)) @
         quoted ''Channels loaded'' (show_nat (length (shot_channels (app_snapshot a)))) @
         quoted ''Messages loaded'' (show_nat (length (shot_messages (app_snapshot a)))) @
         quoted ''Last error'' err @ NL @
         ''## Privacy confirmation'' @ NL @ NL @ privacy_text @ NL)"

definition submit_feedback :: "'k desktop_params \<Rightarrow> desktop_app \<Rightarrow> desktop_app" where
  "submit_feedback D a =
     (if feedback_job a \<noteq> None then a
      else if length (trim (feedback_what a)) < 3 \<or> length (trim (feedback_expected a)) < 3
      then a\<lparr>feedback_notice := Some (app_text a zh_describe ''Describe what happened and what you expected.'')\<rparr>
      else if \<not> feedback_confirmed a
      then a\<lparr>feedback_notice := Some (app_text a zh_confirm ''Confirm that the preview contains no private content.'')\<rparr>
      else a\<lparr>feedback_job := Some (Running (SubmitTask (issue_body D a) (screen_name a) (feedback_screenshot a))),
             feedback_notice := Some (app_text a zh_sending en_sending)\<rparr>)"

definition request_feedback_screenshot :: "desktop_app \<Rightarrow> desktop_app" where
  "request_feedback_screenshot a = a\<lparr>feedback_capture_pending := True, feedback_open := False\<rparr>"

text \<open>The argument is the picture that this frame's events deliver for the request, if any.\<close>

definition poll_feedback_screenshot :: "color_image option \<Rightarrow> desktop_app \<Rightarrow> desktop_app" where
  "poll_feedback_screenshot captured a =
     (if \<not> feedback_capture_pending a then a
      else case captured of
             None \<Rightarrow> a
           | Some img \<Rightarrow>
               a\<lparr>feedback_texture := Some img, feedback_screenshot := Some img, feedback_capture_pending := False,
                 feedback_open := True,
                 feedback_notice := Some (app_text a zh_captured ''App window captured. Review the preview before submitting.'')\<rparr>)"

definition poll_feedback_job :: "'k desktop_params \<Rightarrow> desktop_app \<Rightarrow> filesystem \<Rightarrow> desktop_app \<times> filesystem" where
  "poll_feedback_job D a fs =
     (case feedback_job a of
        Some (Sent (Inr receipt)) \<Rightarrow>
          (let (r, fs') = save_feedback_receipt D (path_feedback (app_paths_of a)) receipt fs;
               notice = (case r of Inl err \<Rightarrow> err | Inr _ \<Rightarrow> app_text a zh_delivered en_delivered)
           in (a\<lparr>feedback_job := None, feedback_notice := Some notice, app_receipt := Some receipt,
                 feedback_what := [], feedback_expected := [], feedback_screenshot := None,
                 feedback_texture := None, feedback_confirmed := False\<rparr>, fs'))
      | Some (Sent (Inl err)) \<Rightarrow> (a\<lparr>feedback_job := None, feedback_notice := Some err\<rparr>, fs)
      | _ \<Rightarrow> (a, fs))"

definition refresh_feedback_status :: "desktop_app \<Rightarrow> desktop_app" where
  "refresh_feedback_status a =
     (if feedback_job a \<noteq> None then a
      else case app_receipt a of
             None \<Rightarrow> a
           | Some receipt \<Rightarrow>
               a\<lparr>feedback_job := Some (Running (StatusTask receipt)),
                 feedback_notice := Some (app_text a zh_checking en_checking)\<rparr>)"

section \<open>The window\<close>

definition on_join_screen :: "desktop_app \<Rightarrow> bool" where
  "on_join_screen a = (shot_community_id (app_snapshot a) = None)"

text \<open>The conversation: the messages of the selected channel and how their authors are named.\<close>

definition visible_messages :: "desktop_app \<Rightarrow> desktop_message list" where
  "visible_messages a =
     filter (\<lambda>m. Some (message_channel_id m) = selected_channel a) (shot_messages (app_snapshot a))"

definition zh_you :: string where  \<comment> \<open>you\<close>
  "zh_you =
     [CHR 0xE4, CHR 0xBD, CHR 0xA0]"

definition zh_messages :: string where  \<comment> \<open>messages\<close>
  "zh_messages =
     [CHR 0xE6, CHR 0xB6, CHR 0x88, CHR 0xE6, CHR 0x81, CHR 0xAF]"

definition author_label :: "desktop_app \<Rightarrow> desktop_message \<Rightarrow> string" where
  "author_label a m =
     (if message_author_id m = shot_user_id (app_snapshot a) then app_text a zh_you ''You''
      else ''member '' @ short_id (message_author_id m))"

definition channel_title :: "desktop_app \<Rightarrow> string" where
  "channel_title a =
     (case find (\<lambda>c. Some (channel_id c) = selected_channel a) (shot_channels (app_snapshot a)) of
        Some c \<Rightarrow> channel_name c
      | None \<Rightarrow> app_text a zh_messages ''Messages'')"

datatype ui_action =
    ToggleLanguage
  | EditInvite string
  | ClickJoin
  | ClickChannel nat
  | ClickSync
  | EditDraft string
  | ClickSend
  | ClickFeedback
  | EditWhat string
  | EditExpected string
  | SetConfirmed bool
  | ClickCapture
  | ClickRemove
  | ClickCheckReply
  | ClickSubmit
  | CloseFeedback

definition toggle_language :: "desktop_app \<Rightarrow> desktop_app" where
  "toggle_language a =
     (let english = \<not> app_english a
      in a\<lparr>app_english := english, app_status := localized_status (app_status a) english\<rparr>)"

text \<open>\<open>show_join\<close>: the invitation and its button.\<close>

fun show_join :: "ui_action \<Rightarrow> desktop_app \<Rightarrow> desktop_app" where
  "show_join (EditInvite s) a = a\<lparr>invite_code := s\<rparr>"
| "show_join ClickJoin a = (if app_job a = None then app_join a else a)"
| "show_join ClickFeedback a = open_feedback a"
| "show_join _ a = a"

text \<open>\<open>show_sidebar\<close>: channels, feedback and synchronisation.\<close>

fun show_sidebar :: "ui_action \<Rightarrow> desktop_app \<Rightarrow> desktop_app" where
  "show_sidebar (ClickChannel i) a =
     (if i < length (shot_channels (app_snapshot a))
      then a\<lparr>selected_channel := Some (channel_id (shot_channels (app_snapshot a) ! i))\<rparr> else a)"
| "show_sidebar ClickFeedback a = open_feedback a"
| "show_sidebar ClickSync a = (if app_job a = None then app_refresh a else a)"
| "show_sidebar _ a = a"

text \<open>\<open>show_conversation\<close>: the draft, sent with the button or the enter key.\<close>

fun show_conversation :: "ui_action \<Rightarrow> desktop_app \<Rightarrow> desktop_app" where
  "show_conversation (EditDraft s) a = a\<lparr>draft := s\<rparr>"
| "show_conversation ClickSend a = (if app_job a = None then app_send a else a)"
| "show_conversation _ a = a"

definition show_chat :: "ui_action \<Rightarrow> desktop_app \<Rightarrow> desktop_app" where
  "show_chat act a = show_conversation act (show_sidebar act a)"

fun feedback_window :: "'k desktop_params \<Rightarrow> ui_action \<Rightarrow> desktop_app \<Rightarrow> desktop_app" where
  "feedback_window D (EditWhat s) a = a\<lparr>feedback_what := s\<rparr>"
| "feedback_window D (EditExpected s) a = a\<lparr>feedback_expected := s\<rparr>"
| "feedback_window D (SetConfirmed b) a = a\<lparr>feedback_confirmed := b\<rparr>"
| "feedback_window D ClickCapture a = (if feedback_screenshot a = None then request_feedback_screenshot a else a)"
| "feedback_window D ClickRemove a =
     (if feedback_screenshot a \<noteq> None then a\<lparr>feedback_screenshot := None, feedback_texture := None\<rparr> else a)"
| "feedback_window D ClickCheckReply a =
     (if app_receipt a \<noteq> None \<and> feedback_job a = None then refresh_feedback_status a else a)"
| "feedback_window D ClickSubmit a =
     (if feedback_confirmed a \<and> feedback_job a = None then submit_feedback D a else a)"
| "feedback_window D CloseFeedback a = a\<lparr>feedback_open := False\<rparr>"
| "feedback_window D _ a = a"

definition show_feedback :: "'k desktop_params \<Rightarrow> ui_action \<Rightarrow> desktop_app \<Rightarrow> desktop_app" where
  "show_feedback D act a = (if feedback_open a then feedback_window D act a else a)"

text \<open>The panels of a frame: the header, the screen and the feedback window.\<close>

definition ui_panels :: "'k desktop_params \<Rightarrow> ui_action \<Rightarrow> desktop_app \<Rightarrow> desktop_app" where
  "ui_panels D act a =
     (let a1 = (if act = ToggleLanguage then toggle_language a else a);
          a2 = (if on_join_screen a1 then show_join act a1 else show_chat act a1)
      in show_feedback D act a2)"

section \<open>The running client\<close>

record desktop_system =
  sys_app :: desktop_app
  sys_world :: desktop_world

datatype desktop_input =
    Poll "color_image option"
  | Act ui_action
  | JobFinishes
  | FeedbackFinishes

definition run_feedback :: "'k desktop_params \<Rightarrow> feedback_task \<Rightarrow> (string + feedback_receipt) option" where
  "run_feedback D task =
     (case task of
        SubmitTask report screen screenshot \<Rightarrow> submit_app_feedback D report screen screenshot
      | StatusTask receipt \<Rightarrow> Some (fetch_feedback_status D receipt))"

text \<open>\<open>ui\<close> polls first.\<close>

definition ui_poll :: "'k desktop_params \<Rightarrow> color_image option \<Rightarrow> desktop_system \<Rightarrow> desktop_system" where
  "ui_poll D captured y =
     (let w = sys_world y;
          (a, fs) = poll_feedback_job D (poll_job (sys_app y)) (w_fs (dw_cli w))
      in \<lparr>sys_app = poll_feedback_screenshot captured a,
          sys_world = w\<lparr>dw_cli := (dw_cli w)\<lparr>w_fs := fs\<rparr>\<rparr>\<rparr>)"

fun desktop_step :: "'k desktop_params \<Rightarrow> desktop_input \<Rightarrow> desktop_system \<Rightarrow> desktop_system" where
  "desktop_step D (Poll captured) y = ui_poll D captured y"
| "desktop_step D (Act act) y = y\<lparr>sys_app := ui_panels D act (sys_app y)\<rparr>"
| "desktop_step D JobFinishes y =
     (case app_job (sys_app y) of
        Some (Running job) \<Rightarrow>
          (case run_job D (app_paths_of (sys_app y)) job (sys_world y) of
             (Some result, w) \<Rightarrow> y\<lparr>sys_app := (sys_app y)\<lparr>app_job := Some (Sent result)\<rparr>, sys_world := w\<rparr>
           | (None, w) \<Rightarrow> y\<lparr>sys_app := (sys_app y)\<lparr>app_job := Some Silent\<rparr>, sys_world := w\<rparr>)
      | _ \<Rightarrow> y)"
| "desktop_step D FeedbackFinishes y =
     (case feedback_job (sys_app y) of
        Some (Running task) \<Rightarrow>
          (case run_feedback D task of
             Some result \<Rightarrow> y\<lparr>sys_app := (sys_app y)\<lparr>feedback_job := Some (Sent result)\<rparr>\<rparr>
           | None \<Rightarrow> y\<lparr>sys_app := (sys_app y)\<lparr>feedback_job := Some Silent\<rparr>\<rparr>)
      | _ \<Rightarrow> y)"

inductive desktop_reachable :: "'k desktop_params \<Rightarrow> desktop_system \<Rightarrow> bool" for D where
  start: "desktop_reachable D \<lparr>sys_app = app_new D P (w_fs (dw_cli w)), sys_world = w\<rparr>"
| step: "desktop_reachable D y \<Longrightarrow> desktop_reachable D (desktop_step D input y)"

end
