(* ===== verification/Desktop_Correct.thy ===== *)
theory Desktop_Correct
  imports Desktop_App Listing
begin

text \<open>
  What the node processes of the desktop client do to its world: the files of the client, the snapshot it
  reads back, and the message it has sent.
\<close>

section \<open>Files of the client\<close>

definition holds_file :: "string \<Rightarrow> bytes \<Rightarrow> filesystem \<Rightarrow> bool" where
  "holds_file path bs fs \<longleftrightarrow>
     (\<exists>mode. fs_entries fs path = Some (FsFile mode bs)) \<or> fs_entries fs path = Some (FsSymlink (Some (Some bs)))"

lemma holds_file_read:
  assumes "holds_file path bs fs" and "\<And>call. fs_fault fs call = None"
  shows "path_is_file path fs" and "fs_read path fs = Inr bs"
  using assms by (auto simp: holds_file_def path_is_file_def symlink_metadata_def fs_read_def fs_try_def)

lemma fs_write_Inr: "fs_write path bs fs = (Inr (), fs') \<Longrightarrow> holds_file path bs fs'"
  by (auto simp: fs_write_def holds_file_def Let_def split: sum.splits option.splits fs_entry.splits)

lemma set_private_Inr:
  assumes "set_private path fs = (Inr (), fs')" and "holds_file path bs fs"
  shows "holds_file path bs fs'" and "fs_entries fs' path = Some (FsFile mode bs') \<Longrightarrow> mode = 384"
  using assms by (auto simp: set_private_def holds_file_def split: sum.splits option.splits fs_entry.splits)

lemma fs_context_Inr [simp]: "fs_context D text m fs = (Inr x, fs') \<longleftrightarrow> m fs = (Inr x, fs')"
  by (auto simp: fs_context_def map_err_Inr_iff split: prod.splits)

lemma desktop_fs_Inr:
  "desktop_fs m s = (Inr x, s') \<longleftrightarrow>
     (\<exists>fs. m (w_fs (dw_cli s)) = (Inr x, fs) \<and> s' = s\<lparr>dw_cli := (dw_cli s)\<lparr>w_fs := fs\<rparr>\<rparr>)"
  by (cases "m (w_fs (dw_cli s))") (auto simp: desktop_fs_def map_err_Inr_iff)

lemma save_config_Inr:
  assumes "save_config D path community fs = (Inr (), fs')"
  obtains bs where "to_vec (dp_config D) \<lparr>config_version = CONFIG_VERSION, config_community_id = community\<rparr> = Some bs"
    and "holds_file path bs fs'"
  using assms by (auto simp: save_config_def op_bind_Inr_iff op_lift_def ok_or_Inr_iff dest: fs_write_Inr)

lemma saved_config_loads:
  assumes "codec_lossless (dp_config D)" and "save_config D path community fs = (Inr (), fs')"
    and "\<And>call. fs_fault fs' call = None"
  shows "load_config D path fs' = Inr \<lparr>config_version = CONFIG_VERSION, config_community_id = community\<rparr>"
proof (rule save_config_Inr [OF assms(2)])
  fix bs
  assume bs: "to_vec (dp_config D) \<lparr>config_version = CONFIG_VERSION, config_community_id = community\<rparr> = Some bs"
    and "holds_file path bs fs'"
  then show ?thesis
    using holds_file_read [of path bs fs'] assms(3) codec_losslessD [OF assms(1) bs] by (simp add: load_config_def)
qed

lemma save_receipt_Inr:
  assumes "save_feedback_receipt D path receipt fs = (Inr (), fs')"
  obtains bs where "to_vec (dp_receipt D) receipt = Some bs" and "holds_file path bs fs'"
    and "\<And>mode bs'. fs_entries fs' path = Some (FsFile mode bs') \<Longrightarrow> mode = 384"
proof -
  obtain bs fs1 fs2 where bs: "to_vec (dp_receipt D) receipt = Some bs" and w: "fs_write path bs fs1 = (Inr (), fs2)"
    and p: "set_private path fs2 = (Inr (), fs')"
    using assms by (auto simp: save_feedback_receipt_def op_bind_Inr_iff op_lift_def ok_or_Inr_iff)
  show thesis by (rule that [OF bs]) (use set_private_Inr [OF p fs_write_Inr [OF w]] in auto)
qed

section \<open>Unlocked paths\<close>

lemma unlocked_last: "last path \<noteq> CHR ''k'' \<Longrightarrow> unlocked path"
proof -
  have "last (join_path d LOCK_FILE) = CHR ''k''" for d by (simp add: join_path_def LOCK_FILE_def)
  then show "last path \<noteq> CHR ''k'' \<Longrightarrow> unlocked path" unfolding unlocked_def by metis
qed

lemma unlocked_join: "name \<noteq> [] \<Longrightarrow> last name \<noteq> CHR ''k'' \<Longrightarrow> unlocked (join_path directory name)"
  by (rule unlocked_last) (simp add: join_path_def)

lemma identity_unlocked: "unlocked (join_path directory IDENTITY_FILE)"
  by (rule unlocked_join) (simp_all add: IDENTITY_FILE_def)

text \<open>The paths the client works with are not lock files.\<close>

lemma app_paths_unlocked:
  "unlocked (path_state (app_paths base node exe windows))" "unlocked (path_config (app_paths base node exe windows))"
  "unlocked (path_feedback (app_paths base node exe windows))"
  by (simp_all add: app_paths_def Let_def unlocked_join)

lemma fs_try_kept: "keeps_file path w w' \<Longrightarrow> fs_try call (w_fs w') = fs_try call (w_fs w)"
  by (simp add: keeps_file_def fs_try_def)

lemma fs_entries_kept: "keeps_file path w w' \<Longrightarrow> fs_entries (w_fs w') path = fs_entries (w_fs w) path"
  by (simp add: keeps_file_def)

lemma reads_kept:
  assumes "keeps_file path w w'"
  shows "read_limited path limit (w_fs w') = read_limited path limit (w_fs w)" and "fs_read path (w_fs w') = fs_read path (w_fs w)"
    and "symlink_metadata path (w_fs w') = symlink_metadata path (w_fs w)"
  by (simp_all add: fs_entries_kept [OF assms] fs_try_kept [OF assms] read_limited_def fs_read_def symlink_metadata_def
      split: option.split fs_entry.split)

lemma state_load_kept:
  assumes "unlocked directory" and "\<And>path. unlocked path \<Longrightarrow> keeps_file path w w'"
  shows "state_load L K directory (w_fs w') = state_load L K directory (w_fs w)"
proof -
  note kept = assms(2) [OF assms(1)] assms(2) [OF identity_unlocked [of directory]]
  show ?thesis
    unfolding state_load_def validate_directory_def Let_def kept [THEN reads_kept(1)] kept [THEN reads_kept(3)] ..
qed

lemma load_config_kept:
  assumes "keeps_file path w w'"
  shows "load_config D path (w_fs w') = load_config D path (w_fs w)"
  by (simp add: reads_kept [OF assms] load_config_def path_is_file_def)

section \<open>Node processes\<close>

lemma run_node_Inr:
  assumes "dp_start D (dw_processes s) = None"
    and "run (dp_cli D) (dp_env D (dw_processes s)) arguments ((dw_cli s)\<lparr>w_output := []\<rparr>) = (Inr (Some u), w)"
  shows "run_node D arguments s = (Inr (concat (w_output w)), s\<lparr>dw_processes := dw_processes s + 1, dw_cli := w\<rparr>)"
  using assms by (simp add: run_node_def Let_def)

lemma finished_Inr: "m w = (Inr (), w') \<Longrightarrow> finished m w = (Inr (Some ()), w')"
  by (simp add: finished_def op_return_def)

definition send_options :: "string \<Rightarrow> string \<Rightarrow> string \<Rightarrow> string \<Rightarrow> options" where
  "send_options directory community channel text =
     [(''--channel'', [channel]), (''--community'', [community]), (''--state'', [directory]), (''--text'', [text])]"

definition list_options :: "string \<Rightarrow> string \<Rightarrow> options" where
  "list_options directory community = [(''--community'', [community]), (''--state'', [directory])]"

lemma node_commands:
  "run X env [''info'', ''--state'', d] = finished (command_info X [(''--state'', [d])])"
  "run X env [''list-channels'', ''--state'', d, ''--community'', c] = finished (command_list_channels X (list_options d c))"
  "run X env [''list-messages'', ''--state'', d, ''--community'', c] = finished (command_list_messages X (list_options d c))"
  "run X env [''send-message'', ''--state'', d, ''--community'', c, ''--channel'', ch, ''--text'', t] =
     finished (command_send_message X (env_clock env) (send_options d c ch t))"
  by (simp_all add: run_def options_parse_def run_options_def op_lift_def op_bind_def fun_eq_iff bt_get_def
      list_options_def send_options_def)

section \<open>Reading the node's output\<close>

text \<open>A text without line breaks.\<close>

definition line_text :: "string \<Rightarrow> bool" where
  "line_text s \<longleftrightarrow> CHR 0x0A \<notin> set s \<and> CHR 0x0D \<notin> set s"

lemma split_lines_first:
  assumes "CHR 0x0A \<notin> set l" and "CHR 0x0D \<notin> set (acc @ l)"
  shows "split_lines acc (l @ CHR 0x0A # rest) = (acc @ l) # split_lines [] rest"
  using assms
proof (induction l arbitrary: acc)
  case Nil
  have "last acc \<noteq> CHR 0x0D" if "acc \<noteq> []" using last_in_set [OF that] Nil by auto
  then show ?case by auto
qed auto

lemma output_field_first:
  assumes "line_text h" and "line_text name"
  shows "output_field ((name @ ''='' @ h @ [CHR 0x0A]) @ rest) name = Inr h"
proof -
  have "split_lines [] ((name @ ''='' @ h) @ CHR 0x0A # rest) = (name @ ''='' @ h) # split_lines [] rest"
    using split_lines_first [of "name @ ''='' @ h" "[]" rest] assms by (simp add: line_text_def)
  then show ?thesis by (simp add: output_field_def starts_with_def Let_def)
qed

text \<open>The desktop client reads the listings the node prints.\<close>

definition channel_of_view :: "channel_view \<Rightarrow> desktop_channel" where
  "channel_of_view v = \<lparr>channel_id = cv_channel_id v, channel_name = cv_name v\<rparr>"

definition message_of_view :: "message_view \<Rightarrow> desktop_message" where
  "message_of_view v =
     \<lparr>message_event_id = mv_event_id v, message_channel_id = mv_channel_id v, message_author_id = mv_author_id v,
      message_timestamp_ms = mv_timestamp_ms v, message_text = mv_text v\<rparr>"

definition listings_ok :: "'k desktop_params \<Rightarrow> bool" where
  "listings_ok D \<longleftrightarrow>
     (\<forall>vs. \<exists>json. cp_channels_json (dp_cli D) vs = Some json \<and> dp_channels_from D (json @ NL) = Inr (map channel_of_view vs)) \<and>
     (\<forall>vs. \<exists>json. cp_messages_json (dp_cli D) vs = Some json \<and> dp_messages_from D (json @ NL) = Inr (map message_of_view vs))"

section \<open>Snapshots\<close>

lemma state_load_is_file:
  assumes "state_load L K directory fs = Inr st"
  shows "path_is_file (join_path directory IDENTITY_FILE) fs"
  using assms
  by (auto simp: state_load_def path_is_file_def read_limited_def symlink_metadata_def res_simps Let_def
      split: if_splits option.splits fs_entry.splits)

lemma load_state_eq:
  "require_one opts ''--state'' = Inr d \<Longrightarrow>
     load_state X opts w = (map_err CliState (state_load (cp_libp2p X) (cp_persisted X) d (w_fs w)), w)"
  by (simp add: load_state_def op_lift_def)

lemma list_options_simps:
  "require_one (list_options d c) ''--state'' = Inr d" "require_one (list_options d c) ''--community'' = Inr c"
  "optional_one (list_options d c) ''--channel'' = Inr None"
  "allow_only (list_options d c) [''--state'', ''--community''] = Inr ()"
  "allow_only (list_options d c) [''--state'', ''--community'', ''--channel''] = Inr ()"
  by (simp_all add: list_options_def require_one_def optional_one_def allow_only_def bt_get_def bt_keys_def)

lemma send_options_simps:
  "require_one (send_options d c ch t) ''--state'' = Inr d" "require_one (send_options d c ch t) ''--community'' = Inr c"
  "require_one (send_options d c ch t) ''--channel'' = Inr ch" "require_one (send_options d c ch t) ''--text'' = Inr t"
  by (simp_all add: send_options_def require_one_def bt_get_def)

abbreviation user_hex :: "'k cli_params \<Rightarrow> 'k node_state \<Rightarrow> string" where
  "user_hex X st \<equiv> cp_hex_encode X (user_bytes (identity_user_id (cp_crypto X) (state_user st)))"

lemma info_run:
  assumes "healthy w" and "state_load (cp_libp2p X) (cp_persisted X) d (w_fs w) = Inr st"
  shows "\<exists>rest. command_info X [(''--state'', [d])] (w\<lparr>w_output := []\<rparr>) =
    (Inr (), w\<lparr>w_output := (''USER_ID='' @ user_hex X st @ [CHR 0x0A]) # rest\<rparr>)"
proof -
  have "require_one [(''--state'', [d])] ''--state'' = Inr d" "allow_only [(''--state'', [d])] [''--state''] = Inr ()"
    by (simp_all add: require_one_def allow_only_def bt_get_def bt_keys_def)
  then show ?thesis
    using assms(2) healthyD(3) [OF assms(1)]
    by (simp add: command_info_def load_state_eq print_identity_def op_lift_def flush_def) (rule exI, rule refl)
qed

lemma snapshot_accepted:
  assumes "resolve C P es = Inr R" and "ids_unique (set es)"
  shows "snap_event_ids (snapshot R) = set (accepted_in_order R)"
  by (rule resolve_sound [OF assms]) (simp add: snapshot_of_def)

text \<open>A snapshot taken without synchronisation: it succeeds, names the user, and shows an accepted message.\<close>

definition shows_message :: "desktop_snapshot \<Rightarrow> string \<Rightarrow> string \<Rightarrow> bool" where
  "shows_message shot channel text \<longleftrightarrow>
     channel \<in> channel_id ` set (shot_channels shot) \<and>
     (\<exists>m \<in> set (shot_messages shot). message_channel_id m = channel \<and> message_text m = text \<and>
        message_author_id m = shot_user_id shot)"

text \<open>A world in which the client can work: storage and processes work, the identity loads, the configured
  community is the one the database holds.\<close>

definition working ::
  "'k desktop_params \<Rightarrow> desktop_paths \<Rightarrow> 'k node_state \<Rightarrow> string \<Rightarrow> community_id \<Rightarrow> cli_world \<Rightarrow> bool" where
  "working D P st community c w \<longleftrightarrow>
     healthy w \<and> (\<forall>n. dp_start D n = None) \<and> listings_ok D \<and> line_text (user_hex (dp_cli D) st) \<and>
     state_load (cp_libp2p (dp_cli D)) (cp_persisted (dp_cli D)) (path_state P) (w_fs w) = Inr st \<and>
     (\<exists>config. load_config D (path_config P) (w_fs w) = Inr config \<and> config_community_id config = Some community) \<and>
     parse_community (dp_cli D) community = Inr c \<and>
     whole_store (cp_crypto (dp_cli D)) (cp_events (dp_cli D)) c (database st w)"

lemma healthy_output [simp]: "healthy (w\<lparr>w_output := out\<rparr>) = healthy w"
  by (simp add: healthy_def)

lemma working_output [simp]: "working D P st community c (w\<lparr>w_output := out\<rparr>) = working D P st community c w"
  by (simp add: working_def healthy_def)

lemma working_save [simp]: "working D P st community c (save_table st (database st w) w) = working D P st community c w"
  by (simp add: working_def healthy_def)

lemma working_list:
  assumes "working D P st community c w" and "stored (dp_cli D) st w \<noteq> {}" and "w_output w = []"
  obtains es R vs cj mj where "set es = stored (dp_cli D) st w"
    and "resolve (cp_crypto (dp_cli D)) (cp_payloads (dp_cli D)) es = Inr R"
    and "\<And>e channel text author. e \<in> stored (dp_cli D) st w \<Longrightarrow> event_id e \<in> set (accepted_in_order R) \<Longrightarrow>
       decode (cp_payloads (dp_cli D)) e = Inr (MessageCreate channel text) \<Longrightarrow>
       author_id (cp_crypto (dp_cli D)) e = Inr author \<Longrightarrow> view_of (dp_cli D) e channel author text \<in> set vs"
    and "\<And>env. run (dp_cli D) env [''list-channels'', ''--state'', path_state P, ''--community'', community] w =
       (Inr (Some ()), (save_table st (database st w) w)\<lparr>w_output := [cj @ NL]\<rparr>)"
    and "\<And>env. run (dp_cli D) env [''list-messages'', ''--state'', path_state P, ''--community'', community] w =
       (Inr (Some ()), (save_table st (database st w) w)\<lparr>w_output := [mj @ NL]\<rparr>)"
    and "dp_channels_from D (cj @ NL) =
       Inr (map channel_of_view (channel_views (dp_cli D) (snap_event_ids (snapshot R)) es))"
    and "dp_messages_from D (mj @ NL) = Inr (map message_of_view vs)"
proof -
  let ?X = "dp_cli D" and ?opts = "list_options (path_state P) community"
  have h: "healthy w" and l: "listings_ok D" and c: "parse_community ?X community = Inr c"
    and whole: "whole_store (cp_crypto ?X) (cp_events ?X) c (database st w)"
    and load: "load_state ?X ?opts w = (Inr st, w)"
    using assms(1) by (simp_all add: working_def load_state_eq list_options_simps)
  have com: "res_bind (require_one ?opts ''--community'') (parse_community ?X) = Inr c" using c by (simp add: list_options_simps)
  obtain es R vs where es: "set es = stored ?X st w" "resolve (cp_crypto ?X) (cp_payloads ?X) es = Inr R"
    and "message_views ?X None es (accepted_in_order R) = Inr vs"
    and mem: "\<And>e channel text author. e \<in> stored ?X st w \<Longrightarrow> event_id e \<in> set (accepted_in_order R) \<Longrightarrow>
       decode (cp_payloads ?X) e = Inr (MessageCreate channel text) \<Longrightarrow> author_id (cp_crypto ?X) e = Inr author \<Longrightarrow>
       view_of ?X e channel author text \<in> set vs"
    and cr: "\<And>json. cp_channels_json ?X (channel_views ?X (snap_event_ids (snapshot R)) es) = Some json \<Longrightarrow>
       command_list_channels ?X ?opts w = (Inr (), (save_table st (database st w) w)\<lparr>w_output := w_output w @ [json @ [CHR 0x0A]]\<rparr>)"
    and mr: "\<And>json. cp_messages_json ?X vs = Some json \<Longrightarrow>
       command_list_messages ?X ?opts w = (Inr (), (save_table st (database st w) w)\<lparr>w_output := w_output w @ [json @ [CHR 0x0A]]\<rparr>)"
    by (rule list_commands [OF h load whole assms(2) com list_options_simps(3-5)]) blast
  obtain cj mj where cj: "cp_channels_json ?X (channel_views ?X (snap_event_ids (snapshot R)) es) = Some cj"
      "dp_channels_from D (cj @ NL) = Inr (map channel_of_view (channel_views ?X (snap_event_ids (snapshot R)) es))"
    and mj: "cp_messages_json ?X vs = Some mj" "dp_messages_from D (mj @ NL) = Inr (map message_of_view vs)"
    using l unfolding listings_ok_def by blast
  show thesis
    by (rule that [OF es mem _ _ cj(2) mj(2)])
      (use cr [OF cj(1)] mr [OF mj(1)] assms(3) in \<open>simp_all add: node_commands finished_Inr NL_def\<close>)
qed

lemma node_info:
  assumes "working D P st community c (dw_cli s)"
  obtains out s' where "run_node D [''info'', ''--state'', path_state P] s = (Inr out, s')"
    and "output_field out ''USER_ID'' = Inr (user_hex (dp_cli D) st)"
    and "working D P st community c (dw_cli s')" and "w_fs (dw_cli s') = w_fs (dw_cli s)"
    and "stored (dp_cli D) st (dw_cli s') = stored (dp_cli D) st (dw_cli s)"
proof -
  let ?X = "dp_cli D" and ?first = "''USER_ID='' @ user_hex (dp_cli D) st @ [CHR 0x0A]"
  have start: "dp_start D n = None" and line: "line_text (user_hex ?X st)" and h: "healthy (dw_cli s)"
    and load: "state_load (cp_libp2p ?X) (cp_persisted ?X) (path_state P) (w_fs (dw_cli s)) = Inr st" for n
    using assms by (simp_all add: working_def)
  obtain rest where info: "\<And>env. run ?X env [''info'', ''--state'', path_state P] ((dw_cli s)\<lparr>w_output := []\<rparr>) =
      (Inr (Some ()), (dw_cli s)\<lparr>w_output := ?first # rest\<rparr>)"
    using info_run [OF h load] by (auto simp: node_commands finished_Inr)
  have "output_field (concat (?first # rest)) ''USER_ID'' = Inr (user_hex ?X st)"
    using output_field_first [OF line, of "''USER_ID''" "concat rest"] by (simp add: line_text_def)
  then show thesis
    using that [OF run_node_Inr [OF start info]] assms by simp
qed

text \<open>One listing: the process, its output and the world after it.\<close>

lemma list_node:
  assumes w: "working D P st community c (dw_cli s)"
    and run: "\<And>env. run (dp_cli D) env arguments ((dw_cli s)\<lparr>w_output := []\<rparr>) =
       (Inr (Some ()), (save_table st (database st (dw_cli s)) ((dw_cli s)\<lparr>w_output := []\<rparr>))\<lparr>w_output := [out]\<rparr>)"
  obtains s' where "run_node D arguments s = (Inr out, s')" and "working D P st community c (dw_cli s')"
    and "stored (dp_cli D) st (dw_cli s') = stored (dp_cli D) st (dw_cli s)"
proof -
  let ?w0 = "(dw_cli s)\<lparr>w_output := []\<rparr>"
  have "dp_start D (dw_processes s) = None" using w by (simp add: working_def)
  note node = run_node_Inr [OF this run]
  have "working D P st community c (save_table st (database st ?w0) ?w0)" using w working_save [of D P st community c ?w0] by simp
  moreover have "stored (dp_cli D) st (save_table st (database st ?w0) ?w0) = stored (dp_cli D) st (dw_cli s)"
    by (simp only: stored_simps(3)) (simp add: stored_def)
  ultimately show thesis using that [of "s\<lparr>dw_processes := _, dw_cli := _\<rparr>"] node by simp
qed

lemma node_channels:
  assumes w: "working D P st community c (dw_cli s)" and "stored (dp_cli D) st (dw_cli s) \<noteq> {}"
  obtains out s' es R where "run_node D [''list-channels'', ''--state'', path_state P, ''--community'', community] s = (Inr out, s')"
    and "working D P st community c (dw_cli s')" and "stored (dp_cli D) st (dw_cli s') = stored (dp_cli D) st (dw_cli s)"
    and "set es = stored (dp_cli D) st (dw_cli s)" and "resolve (cp_crypto (dp_cli D)) (cp_payloads (dp_cli D)) es = Inr R"
    and "dp_channels_from D out = Inr (map channel_of_view (channel_views (dp_cli D) (snap_event_ids (snapshot R)) es))"
proof (rule working_list [of D P st community c "(dw_cli s)\<lparr>w_output := []\<rparr>"])
  fix es R cj
  assume es: "set es = stored (dp_cli D) st ((dw_cli s)\<lparr>w_output := []\<rparr>)"
      "resolve (cp_crypto (dp_cli D)) (cp_payloads (dp_cli D)) es = Inr R"
    and run: "\<And>env. run (dp_cli D) env [''list-channels'', ''--state'', path_state P, ''--community'', community]
       ((dw_cli s)\<lparr>w_output := []\<rparr>) = (Inr (Some ()), (save_table st (database st ((dw_cli s)\<lparr>w_output := []\<rparr>))
         ((dw_cli s)\<lparr>w_output := []\<rparr>))\<lparr>w_output := [cj @ NL]\<rparr>)"
    and cs: "dp_channels_from D (cj @ NL) =
       Inr (map channel_of_view (channel_views (dp_cli D) (snap_event_ids (snapshot R)) es))"
  show thesis
    by (rule list_node [OF w run [simplified]]) (use that [OF _ _ _ _ es(2) cs] es(1) in simp)
qed (use assms in simp_all)

lemma node_messages:
  assumes w: "working D P st community c (dw_cli s)" and "stored (dp_cli D) st (dw_cli s) \<noteq> {}"
  obtains out s' R vs where "run_node D [''list-messages'', ''--state'', path_state P, ''--community'', community] s = (Inr out, s')"
    and "\<exists>es. set es = stored (dp_cli D) st (dw_cli s) \<and> resolve (cp_crypto (dp_cli D)) (cp_payloads (dp_cli D)) es = Inr R"
    and "\<And>e channel text author. e \<in> stored (dp_cli D) st (dw_cli s) \<Longrightarrow> event_id e \<in> snap_event_ids (snapshot R) \<Longrightarrow>
       decode (cp_payloads (dp_cli D)) e = Inr (MessageCreate channel text) \<Longrightarrow>
       author_id (cp_crypto (dp_cli D)) e = Inr author \<Longrightarrow> view_of (dp_cli D) e channel author text \<in> set vs"
    and "dp_messages_from D out = Inr (map message_of_view vs)"
proof (rule working_list [of D P st community c "(dw_cli s)\<lparr>w_output := []\<rparr>"])
  fix es R vs mj
  assume es: "set es = stored (dp_cli D) st ((dw_cli s)\<lparr>w_output := []\<rparr>)"
      "resolve (cp_crypto (dp_cli D)) (cp_payloads (dp_cli D)) es = Inr R"
    and mem: "\<And>e channel text author. e \<in> stored (dp_cli D) st ((dw_cli s)\<lparr>w_output := []\<rparr>) \<Longrightarrow>
       event_id e \<in> set (accepted_in_order R) \<Longrightarrow> decode (cp_payloads (dp_cli D)) e = Inr (MessageCreate channel text) \<Longrightarrow>
       author_id (cp_crypto (dp_cli D)) e = Inr author \<Longrightarrow> view_of (dp_cli D) e channel author text \<in> set vs"
    and run: "\<And>env. run (dp_cli D) env [''list-messages'', ''--state'', path_state P, ''--community'', community]
       ((dw_cli s)\<lparr>w_output := []\<rparr>) = (Inr (Some ()), (save_table st (database st ((dw_cli s)\<lparr>w_output := []\<rparr>))
         ((dw_cli s)\<lparr>w_output := []\<rparr>))\<lparr>w_output := [mj @ NL]\<rparr>)"
    and ms: "dp_messages_from D (mj @ NL) = Inr (map message_of_view vs)"
  have "ids_unique (set es)" using stored_unique(1) w es(1) unfolding working_def by (metis stored_simps(2))
  note mem' = mem [folded snapshot_accepted [OF es(2) this], simplified]
  show thesis
    by (rule list_node [OF w run [simplified]]) (use that [OF _ _ mem' ms] es in fastforce)
qed (use assms in simp_all)

lemma working_identity: "working D P st community c (dw_cli s) \<Longrightarrow> ensure_identity D P s = (Inr (), s)"
  using state_load_is_file unfolding working_def ensure_identity_def by metis

lemma shot_shows:
  assumes R: "resolve (cp_crypto X) (cp_payloads X) es = Inr R" and uniq: "ids_unique (set es)" and "e \<in> set es"
    and e: "decode (cp_payloads X) e = Inr (MessageCreate channel text)" "author_id (cp_crypto X) e = Inr author"
    and acc: "event_id e \<in> snap_event_ids (snapshot R)" and view: "view_of X e channel author text \<in> set vs"
  shows "shows_message \<lparr>shot_user_id = cp_hex_encode X (user_bytes author), shot_community_id = community,
      shot_channels = map channel_of_view (channel_views X (snap_event_ids (snapshot R)) es),
      shot_messages = map message_of_view vs, shot_warning = warning\<rparr>
    (cp_hex_encode X (arr32_bytes channel)) text"
proof -
  note ids = snapshot_accepted [OF R uniq]
  have "opens (cp_payloads X) (set es) (snap_event_ids (snapshot R)) channel"
    using accepted_message_channel [OF R uniq assms(3) _ e(1)] acc by (simp add: ids)
  then have "cp_hex_encode X (arr32_bytes channel) \<in> cv_channel_id ` set (channel_views X (snap_event_ids (snapshot R)) es)"
    by (rule channel_views_opens)
  moreover have "message_of_view (view_of X e channel author text) \<in> message_of_view ` set vs" using view by blast
  ultimately show ?thesis
    unfolding shows_message_def by (force simp: channel_of_view_def message_of_view_def view_of_def image_image)
qed

lemma load_snapshot_shows:
  assumes w: "working D P st community c (dw_cli s)"
    and e: "e \<in> stored (dp_cli D) st (dw_cli s)"
      "decode (cp_payloads (dp_cli D)) e = Inr (MessageCreate channel text)"
      "author_id (cp_crypto (dp_cli D)) e = Inr (identity_user_id (cp_crypto (dp_cli D)) (state_user st))"
    and acc: "\<And>es R. set es = stored (dp_cli D) st (dw_cli s) \<Longrightarrow>
      resolve (cp_crypto (dp_cli D)) (cp_payloads (dp_cli D)) es = Inr R \<Longrightarrow> event_id e \<in> snap_event_ids (snapshot R)"
  shows "\<exists>shot s'. load_snapshot D P False s = (Inr shot, s') \<and>
    shows_message shot (cp_hex_encode (dp_cli D) (arr32_bytes channel)) text"
proof -
  let ?X = "dp_cli D" and ?E = "stored (dp_cli D) st (dw_cli s)"
  obtain out1 s1 where info: "run_node D [''info'', ''--state'', path_state P] s = (Inr out1, s1)"
      "output_field out1 ''USER_ID'' = Inr (user_hex ?X st)"
    and s1: "working D P st community c (dw_cli s1)" "w_fs (dw_cli s1) = w_fs (dw_cli s)" "stored ?X st (dw_cli s1) = ?E"
    by (rule node_info [OF w])
  have ne: "stored ?X st (dw_cli s1) \<noteq> {}" using e(1) s1(3) by auto
  obtain out2 s2 es R where channels: "run_node D [''list-channels'', ''--state'', path_state P, ''--community'', community] s1 = (Inr out2, s2)"
    and s2: "working D P st community c (dw_cli s2)" "stored ?X st (dw_cli s2) = stored ?X st (dw_cli s1)"
    and es: "set es = stored ?X st (dw_cli s1)" "resolve (cp_crypto ?X) (cp_payloads ?X) es = Inr R"
    and cs: "dp_channels_from D out2 = Inr (map channel_of_view (channel_views ?X (snap_event_ids (snapshot R)) es))"
    by (rule node_channels [OF s1(1) ne])
  have ne2: "stored ?X st (dw_cli s2) \<noteq> {}" using ne s2(2) by simp
  obtain out3 s3 R' vs where messages: "run_node D [''list-messages'', ''--state'', path_state P, ''--community'', community] s2 = (Inr out3, s3)"
    and R': "\<exists>es. set es = stored ?X st (dw_cli s2) \<and> resolve (cp_crypto ?X) (cp_payloads ?X) es = Inr R'"
    and mem: "\<And>e channel text author. e \<in> stored ?X st (dw_cli s2) \<Longrightarrow> event_id e \<in> snap_event_ids (snapshot R') \<Longrightarrow>
       decode (cp_payloads ?X) e = Inr (MessageCreate channel text) \<Longrightarrow>
       author_id (cp_crypto ?X) e = Inr author \<Longrightarrow> view_of ?X e channel author text \<in> set vs"
    and ms: "dp_messages_from D out3 = Inr (map message_of_view vs)"
    by (rule node_messages [OF s2(1) ne2]) blast
  obtain config where cfg: "load_config D (path_config P) (w_fs (dw_cli s1)) = Inr config" "config_community_id config = Some community"
    using s1(1) by (auto simp: working_def)
  have ens: "ensure_identity D P s = (Inr (), s)" by (rule working_identity [OF w])
  let ?shot = "\<lparr>shot_user_id = user_hex ?X st, shot_community_id = Some community,
    shot_channels = map channel_of_view (channel_views ?X (snap_event_ids (snapshot R)) es),
    shot_messages = map message_of_view vs, shot_warning = None\<rparr>"
  have run: "load_snapshot D P False s = (Inr ?shot, s3)"
    using ens info cfg channels messages cs ms by (simp add: load_snapshot_def desktop_lift_def op_lift_def op_return_def)
  have ids: "ids_unique (set es)" using stored_unique(1) s1(1) es(1) unfolding working_def by metis
  have "event_id e \<in> snap_event_ids (snapshot R)" "event_id e \<in> snap_event_ids (snapshot R')"
    using acc es R' s1(3) s2(2) by auto
  then have "shows_message ?shot (cp_hex_encode ?X (arr32_bytes channel)) text"
    using shot_shows [OF es(2) ids _ e(2,3)] mem [OF _ _ e(2,3)] es(1) s1(3) s2(2) e(1) by simp
  then show ?thesis using run by blast
qed

section \<open>Sending\<close>

lemma working_kept:
  assumes w: "working D P st community c w" and "unlocked (path_state P)" and "unlocked (path_config P)"
    and kept: "\<And>path. unlocked path \<Longrightarrow> keeps_file path w w'"
    and whole: "whole_store (cp_crypto (dp_cli D)) (cp_events (dp_cli D)) c (database st w')"
  shows "working D P st community c w'"
proof -
  have "healthy w'" using w kept [OF assms(2)] by (simp add: working_def keeps_file_def healthy_def)
  then show ?thesis
    using w whole
    by (simp add: working_def state_load_kept [OF assms(2) kept] load_config_kept [OF kept [OF assms(3)]])
qed

lemma send_work_shows:
  assumes w: "working D P st community c (dw_cli s)" and paths: "unlocked (path_state P)" "unlocked (path_config P)"
    and codec: "codec_lossless (cp_payloads (dp_cli D))" and ch: "parse_hex_32 (dp_cli D) channel = Inr ch"
    and send: "command_send_message (dp_cli D) (env_clock (dp_env D (dw_processes s)))
       (send_options (path_state P) community channel text) ((dw_cli s)\<lparr>w_output := []\<rparr>) = (Inr (), w1)"
    and core: "node_open (cp_crypto (dp_cli D)) (cp_events (dp_cli D)) (database st (dw_cli s)) (Some c) = Inr core"
      "local_event (dp_cli D) st c core (env_clock (dp_env D (dw_processes s))) (MessageCreate ch (trim text)) = Inr e"
    and free: "collision_free (cp_crypto (dp_cli D)) (insert e (stored (dp_cli D) st (dw_cli s)))"
  shows "\<exists>shot s'. send_work D P community channel text s = (Inr shot, s') \<and>
    shows_message shot (cp_hex_encode (dp_cli D) (arr32_bytes ch)) (trim text)"
proof -
  let ?X = "dp_cli D" and ?w = "(dw_cli s)\<lparr>w_output := []\<rparr>"
  let ?opts = "send_options (path_state P) community channel text"
  have w0: "working D P st community c ?w" and start: "dp_start D (dw_processes s) = None" using w by (simp_all add: working_def)
  then have whole: "whole_store (cp_crypto ?X) (cp_events ?X) c (database st ?w)" and load: "load_state ?X ?opts ?w = (Inr st, ?w)"
    and com: "res_bind (require_one ?opts ''--community'') (parse_community ?X) = Inr c"
    and chn: "res_bind (require_one ?opts ''--channel'') (parse_hex_32 ?X) = Inr ch"
    using ch by (simp_all add: working_def load_state_eq send_options_simps)
  have e: "decode (cp_payloads ?X) e = Inr (MessageCreate ch (trim text))"
      "author_id (cp_crypto ?X) e = Inr (identity_user_id (cp_crypto ?X) (state_user st))"
    and pub: "stored ?X st w1 = insert e (stored ?X st ?w)" "whole_store (cp_crypto ?X) (cp_events ?X) c (database st w1)"
      "\<forall>es. set es = stored ?X st w1 \<longrightarrow>
        (\<exists>R. resolve (cp_crypto ?X) (cp_payloads ?X) es = Inr R \<and> event_id e \<in> snap_event_ids (snapshot R))"
    by (rule send_message_publishes [OF whole load codec com chn send_options_simps(4) send]; use core free in simp)+
  have kept: "keeps_file path ?w w1" if "unlocked path" for path
    using commands_keep_file(4) [OF that, of ?w ?X _ ?opts] send by (metis snd_conv)
  let ?s1 = "s\<lparr>dw_processes := dw_processes s + 1, dw_cli := w1\<rparr>"
  have run: "run_node D [''send-message'', ''--state'', path_state P, ''--community'', community, ''--channel'', channel,
      ''--text'', text] s = (Inr (concat (w_output w1)), ?s1)"
    by (rule run_node_Inr [OF start]) (simp add: node_commands finished_Inr send)
  have w1: "working D P st community c (dw_cli ?s1)" using working_kept [OF w0 paths kept pub(2)] by simp
  have "\<exists>shot s'. load_snapshot D P False ?s1 = (Inr shot, s') \<and>
      shows_message shot (cp_hex_encode ?X (arr32_bytes ch)) (trim text)"
    by (rule load_snapshot_shows [OF w1 _ e]) (use pub in fastforce)+
  then show ?thesis using run by (simp add: send_work_def)
qed

end
