(* ===== verification/Desktop_Join.thy ===== *)
theory Desktop_Join
  imports Desktop_Correct
begin

text \<open>
  Joining a community from the desktop client: the configuration changes only after the node has joined,
  and then names the community the node has joined.
\<close>

section \<open>The configuration file is left alone\<close>

text \<open>The configuration lies beside the state directory.\<close>

definition beside :: "desktop_paths \<Rightarrow> bool" where
  "beside P \<longleftrightarrow> length (path_state P) < length (path_config P) \<and> unlocked (path_config P) \<and>
     path_config P \<noteq> join_path (path_state P) IDENTITY_FILE"

lemma app_paths_beside: "beside (app_paths base node exe windows)"
  using app_paths_unlocked(2)
  by (auto simp: beside_def app_paths_def Let_def join_path_def IDENTITY_FILE_def)

lemma parent_path_length: "parent_path path = Some parent \<Longrightarrow> length parent \<le> length path"
proof -
  assume p: "parent_path path = Some parent"
  have "length (dropWhile (\<lambda>c. c \<noteq> CHR ''/'') (rev path)) \<le> length (rev path)" by (rule length_dropWhile_le)
  then show ?thesis using p by (auto simp: parent_path_def split: if_splits list.splits)
qed

lemma create_directories_frame:
  assumes "length parent < length path"
  shows "fs_entries (snd (create_directories parent fs)) path = fs_entries fs path"
    and "fs_fault (snd (create_directories parent fs)) = fs_fault fs"
proof -
  have "path \<notin> set (path_prefixes [] parent)" using path_prefixes_length [of path "[]" parent] assms by auto
  then show "fs_entries (snd (create_directories parent fs)) path = fs_entries fs path"
    and "fs_fault (snd (create_directories parent fs)) = fs_fault fs"
    using make_dirs_frame(1) [of path "path_prefixes [] parent" fs] make_dirs_frame(2) [of "path_prefixes [] parent" fs]
    by (auto simp: create_directories_def create_dir_all_def split: prod.split)
qed

lemma write_private_file_frame:
  "path \<noteq> p \<Longrightarrow> fs_entries (snd (write_private_file p bs fs)) path = fs_entries fs path"
  "fs_fault (snd (write_private_file p bs fs)) = fs_fault fs"
  by (auto simp: write_private_file_def Let_def split: sum.split)

definition keeps_entry :: "string \<Rightarrow> filesystem \<Rightarrow> filesystem \<Rightarrow> bool" where
  "keeps_entry path fs fs' \<longleftrightarrow> fs_entries fs' path = fs_entries fs path \<and> fs_fault fs' = fs_fault fs"

interpretation entry: op_preorder "keeps_entry path" for path
  by unfold_locales (simp_all add: keeps_entry_def)

lemma state_initialize_frame:
  assumes "length directory < length path" and "path \<noteq> join_path directory IDENTITY_FILE"
  shows "keeps_entry path fs (snd (state_initialize L K directory user_seed device_seed clock fs))"
proof -
  have "keeps_entry path fs (snd (prepare_directory directory fs))" for fs
    using prepare_directory_frame(1) [OF assms(1)] prepare_directory_frame(2) by (simp add: keeps_entry_def)
  moreover have "keeps_entry path fs (snd (write_private_file (join_path directory IDENTITY_FILE) bs fs))" for fs bs
    using write_private_file_frame(1) [OF assms(2)] write_private_file_frame(2) by (simp add: keeps_entry_def)
  ultimately show ?thesis
    unfolding state_initialize_def Let_def
    by (intro entry.op_bind entry.op_lift) (auto intro!: entry.op_bind entry.op_lift simp: entry.refl)
qed

lemma command_init_keeps:
  assumes "length directory < length path" and "path \<noteq> join_path directory IDENTITY_FILE"
  shows "keeps_file path w (snd (command_init X user_seed device_seed clock [(''--state'', [directory])] w))"
proof -
  have req: "require_one [(''--state'', [directory])] ''--state'' = Inr directory"
    by (simp add: require_one_def bt_get_def)
  have "keeps_file path w (snd (on_fs (state_initialize L K directory user_seed device_seed clock) w))" for w L K
    using state_initialize_frame [OF assms, of "w_fs w" L K user_seed device_seed clock]
    by (auto simp: on_fs_def keeps_file_def keeps_entry_def split: prod.split)
  moreover have "op_bind (op_lift (Inr directory)) f = f directory" for f :: "string \<Rightarrow> unit cli_op"
    by (simp add: op_bind_def op_lift_def fun_eq_iff)
  ultimately show ?thesis unfolding command_init_def req print_identity_def by (simp only:) (intro file_intros)
qed

section \<open>Steps of the client\<close>

definition keeps_config :: "desktop_paths \<Rightarrow> desktop_world \<Rightarrow> desktop_world \<Rightarrow> bool" where
  "keeps_config P s s' \<longleftrightarrow> keeps_file (path_config P) (dw_cli s) (dw_cli s')"

interpretation config: op_preorder "keeps_config P" for P
  by unfold_locales (auto simp: keeps_config_def intro: files.refl files.trans)

named_theorems config_intros

lemmas [config_intros] = config.op_bind config.op_return config.op_fail config.op_lift config.op_option

lemma config_lift [config_intros]: "keeps_config P s (snd (desktop_lift r s))"
  unfolding desktop_lift_def by (rule config.op_lift)

lemma config_read [config_intros]: "keeps_config P s (snd ((\<lambda>s. (r s, s)) s))"
  by (simp add: config.refl)

lemma run_node_keeps:
  assumes "\<And>env w. keeps_file (path_config P) w (snd (run (dp_cli D) env arguments w))"
  shows "keeps_config P s (snd (run_node D arguments s))"
  using assms [of "(dw_cli s)\<lparr>w_output := []\<rparr>" "dp_env D (dw_processes s)"] files.refl
  by (auto simp: run_node_def keeps_config_def keeps_file_def Let_def split: option.split prod.split)

lemma finished_keeps: "keeps_file path w (snd (m w)) \<Longrightarrow> keeps_file path w (snd (finished m w))"
  unfolding finished_def by (rule files.op_bind) (auto intro: file_intros)

lemma client_commands:
  "run X env [''init'', ''--state'', d] =
     finished (command_init X (env_user_seed env) (env_device_seed env) (env_clock env) [(''--state'', [d])])"
  "run X env [''join'', ''--state'', d, ''--invite-code'', i] =
     command_join X (env_surroundings env) (env_events env) [(''--invite-code'', [i]), (''--state'', [d])]"
  by (simp_all add: run_def options_parse_def run_options_def op_lift_def op_bind_def fun_eq_iff bt_get_def)

lemma node_keeps:
  assumes "beside P"
  shows "keeps_config P s (snd (run_node D [''init'', ''--state'', path_state P] s))"
    and "keeps_config P s (snd (run_node D [''info'', ''--state'', path_state P] s))"
    and "keeps_config P s (snd (run_node D [''list-channels'', ''--state'', path_state P, ''--community'', c] s))"
    and "keeps_config P s (snd (run_node D [''list-messages'', ''--state'', path_state P, ''--community'', c] s))"
    and "keeps_config P s (snd (run_node D [''join'', ''--state'', path_state P, ''--invite-code'', i] s))"
  using assms unfolding beside_def
  by (auto intro!: run_node_keeps finished_keeps commands_keep_file command_init_keeps
      simp: node_commands client_commands)

lemma ensure_identity_keeps:
  assumes "beside P"
  shows "keeps_config P s (snd (ensure_identity D P s))"
proof -
  have "keeps_config P t (snd (desktop_fs (fs_context D msg (create_directories parent)) t))"
    if "parent_path (path_state P) = Some parent" for parent t msg
  proof -
    have "length parent < length (path_config P)" using parent_path_length [OF that] assms by (simp add: beside_def)
    then show ?thesis
      using create_directories_frame [of parent "path_config P" "w_fs (dw_cli t)"]
      by (auto simp: desktop_fs_def fs_context_def keeps_config_def keeps_file_def split: prod.split)
  qed
  note create = this
  let ?rest = "\<lambda>parent. op_bind (desktop_fs (fs_context D zh_no_data_directory (create_directories parent))) (\<lambda>_.
        op_bind (run_node D [''init'', ''--state'', path_state P]) (\<lambda>_. op_return ()))"
  show ?thesis
  proof (cases "parent_path (path_state P)")
    case None
    then show ?thesis by (simp add: ensure_identity_def desktop_lift_def op_lift_def op_bind_def config.refl)
  next
    case (Some parent)
    have "keeps_config P s (snd (?rest parent s))" by (intro config_intros create [OF Some] node_keeps(1) [OF assms])
    then show ?thesis using Some by (simp add: ensure_identity_def desktop_lift_def op_lift_def config.refl)
  qed
qed

lemma load_snapshot_keeps:
  assumes "beside P"
  shows "keeps_config P s (snd (load_snapshot D P False s))"
  unfolding load_snapshot_def
  by (simp only: if_False) (intro config_intros ensure_identity_keeps node_keeps assms)

section \<open>Joining\<close>

text \<open>A snapshot is of the configured community.\<close>

lemma load_snapshot_community:
  assumes "beside P" and "load_snapshot D P False s = (Inr shot, s')"
  shows "\<exists>config. load_config D (path_config P) (w_fs (dw_cli s)) = Inr config \<and>
    load_config D (path_config P) (w_fs (dw_cli s')) = Inr config \<and> shot_community_id shot = config_community_id config"
proof -
  obtain s1 out s2 config where s1: "ensure_identity D P s = (Inr (), s1)"
    and s2: "run_node D [''info'', ''--state'', path_state P] s1 = (Inr out, s2)"
    and config: "load_config D (path_config P) (w_fs (dw_cli s2)) = Inr config"
    and shot: "shot_community_id shot = config_community_id config"
    using assms(2)
    by (auto simp: load_snapshot_def op_bind_Inr_iff desktop_lift_def op_lift_def op_return_def map_err_Inr_iff
        snapshot_default_def split: option.splits)
  have "keeps_config P s s1" using ensure_identity_keeps [OF assms(1), of s D] s1 by simp
  moreover have "keeps_config P s1 s2" using node_keeps(2) [OF assms(1), of s1 D] s2 by simp
  ultimately have "keeps_config P s s2" by (rule config.trans)
  moreover have "keeps_config P s s'" using load_snapshot_keeps [OF assms(1), of s D] assms(2) by simp
  ultimately have "load_config D (path_config P) (w_fs (dw_cli s2)) = load_config D (path_config P) (w_fs (dw_cli s))"
    "load_config D (path_config P) (w_fs (dw_cli s')) = load_config D (path_config P) (w_fs (dw_cli s))"
    by (simp_all add: keeps_config_def load_config_kept)
  then show ?thesis using config shot by (intro exI [of _ config]) simp
qed

end
