(* ===== verification/Desktop_Redact.thy ===== *)
theory Desktop_Redact
  imports Desktop_Text "HOL-Library.Sublist"
begin

text \<open>
  What the redaction of a diagnostic makes of one word of it: the runs of letters, digits and underscores
  of the word, the words that the blanks separate, and the rule by which a word stands for another in the
  redacted text.
\<close>

section \<open>Runs\<close>

text \<open>The maximal runs of word characters of a text (an empty run between two other characters).\<close>

fun word_runs :: "string \<Rightarrow> string \<Rightarrow> string list" where
  "word_runs run [] = [run]"
| "word_runs run (c # cs) = (if is_word c then word_runs (run @ [c]) cs else run # word_runs [] cs)"

definition secret_run :: "string \<Rightarrow> bool" where
  "secret_run run \<longleftrightarrow> starts_with ''cc1_'' run \<or> length run \<ge> 32 \<and> list_all is_alnum run"

definition clean :: "string \<Rightarrow> bool" where
  "clean s \<longleftrightarrow> (\<forall>run \<in> set (word_runs [] s). \<not> secret_run run)"

lemma secret_run_Nil [simp]: "\<not> secret_run []"
  by (simp add: secret_run_def starts_with_def)

lemma word_runs_word: "list_all is_word s \<Longrightarrow> word_runs run s = [run @ s]"
  by (induction s arbitrary: run) auto

lemma word_runs_split:
  "\<not> is_word c \<Longrightarrow> word_runs run (s @ c # t) = word_runs run s @ word_runs [] t"
  by (induction run s rule: word_runs.induct) auto

lemma clean_split: "\<not> is_word c \<Longrightarrow> clean (s @ c # t) \<longleftrightarrow> clean s \<and> clean t"
  by (auto simp: clean_def word_runs_split)

lemma clean_word: "list_all is_word s \<Longrightarrow> clean s \<longleftrightarrow> \<not> secret_run s"
  by (simp add: clean_def word_runs_word)

lemma clean_Nil [simp]: "clean []"
  by (simp add: clean_def)

lemma is_alnum_word: "is_alnum c \<Longrightarrow> is_word c"
  by (simp add: is_word_def)

text \<open>A clean text is left as it is.\<close>

lemma clean_redact_id: "list_all is_word run \<Longrightarrow> clean (run @ s) \<Longrightarrow> redact_runs run s = run @ s"
proof (induction run s rule: redact_runs.induct)
  case (1 run)
  then show ?case by (auto simp: redact_run_def clean_word secret_run_def)
next
  case (2 run c cs)
  then show ?case
    by (cases "is_word c") (auto simp: clean_split redact_run_def clean_word secret_run_def)
qed

section \<open>Words\<close>

lemma whitespace_no_word: "w \<in> set whitespace \<Longrightarrow> w \<noteq> [] \<and> (\<forall>c \<in> set w. \<not> is_word c)"
  by (auto simp: whitespace_def is_word_def is_alnum_def is_alpha_def is_digit_def)

lemma whitespace_blank: "w \<in> set whitespace \<Longrightarrow> CHR '' '' \<in> set w \<Longrightarrow> w = '' ''"
  by (auto simp: whitespace_def)

lemma starts_with_iff: "starts_with p s \<longleftrightarrow> (\<exists>t. s = p @ t)"
  by (metis append_eq_conv_conj append_take_drop_id starts_with_def)

lemma leading_space_cases:
  obtains "leading_space s = 0" "\<And>w. w \<in> set whitespace \<Longrightarrow> \<not> starts_with w s"
  | w rest where "w \<in> set whitespace" "s = w @ rest" "leading_space s = length w" "length w > 0"
proof (cases "find (\<lambda>w. starts_with w s) whitespace")
  case None
  show thesis by (rule that(1)) (use None in \<open>simp add: leading_space_def\<close>, use None in \<open>auto simp: find_None_iff\<close>)
next
  case (Some w)
  then have "w \<in> set whitespace" "starts_with w s" by (auto simp: find_Some_iff)
  then show thesis using that(2) [of w] Some whitespace_no_word by (auto simp: leading_space_def starts_with_iff)
qed

lemma leading_space_pos:
  assumes "leading_space s > 0"
  obtains w rest where "w \<in> set whitespace" "s = w @ rest" "leading_space s = length w"
  using assms by (cases s rule: leading_space_cases) auto

lemma leading_space_0: "leading_space s = 0 \<longleftrightarrow> (\<forall>w \<in> set whitespace. \<not> starts_with w s)"
  by (cases s rule: leading_space_cases) (auto simp: starts_with_iff)

text \<open>No whitespace starts anywhere in the text.\<close>

definition solid :: "string \<Rightarrow> bool" where
  "solid t \<longleftrightarrow> (\<forall>u v. t = u @ v \<longrightarrow> leading_space v = 0)"

lemma leading_space_blank: "leading_space ('' '' @ s) = 1"
  by (simp add: leading_space_def whitespace_def starts_with_def)

lemma solid_suffix: "solid (u @ v) \<Longrightarrow> solid v"
  by (metis append_assoc solid_def)

text \<open>A blank after a solid text does not complete an encoding of whitespace.\<close>

lemma solid_blank:
  assumes "solid v" and "v \<noteq> []" and "s = [] \<or> hd s = CHR '' ''"
  shows "leading_space (v @ s) = 0"
proof (rule ccontr)
  assume "leading_space (v @ s) \<noteq> 0"
  then obtain w rest where w: "w \<in> set whitespace" "v @ s = w @ rest" by (auto elim: leading_space_pos)
  have "leading_space v = 0" using assms(1) by (metis append_Nil solid_def)
  then have no: "\<not> starts_with w v" using w(1) by (simp add: leading_space_0)
  from w(2) obtain us where "v = w @ us \<and> us @ s = rest \<or> v @ us = w \<and> s = us @ rest" by (auto simp: append_eq_append_conv2)
  then have us: "v @ us = w" "s = us @ rest" using no by (auto simp: starts_with_iff)
  then have "us \<noteq> []" using no by (auto simp: starts_with_iff)
  then have "CHR '' '' \<in> set w" using assms(3) us by (cases us) auto
  then show False using whitespace_blank [OF w(1)] us \<open>us \<noteq> []\<close> assms(2) by (cases v; cases us) auto
qed

lemma leading_space_Nil [simp]: "leading_space [] = 0"
  using whitespace_no_word by (auto simp: leading_space_0 starts_with_iff)

lemma split_whitespace_simps:
  "split_whitespace acc [] = (if acc = [] then [] else [acc])"
  "leading_space s > 0 \<Longrightarrow>
     split_whitespace acc s = (if acc = [] then [] else [acc]) @ split_whitespace [] (drop (leading_space s) s)"
  "leading_space (c # cs) = 0 \<Longrightarrow> split_whitespace acc (c # cs) = split_whitespace (acc @ [c]) cs"
  by (cases s; simp add: split_whitespace.simps)+

lemma split_solid:
  assumes "solid v" and "s = [] \<or> hd s = CHR '' ''"
  shows "split_whitespace acc (v @ s) = split_whitespace (acc @ v) s"
  using assms(1)
proof (induction v arbitrary: acc)
  case (Cons c v)
  have "leading_space ((c # v) @ s) = 0" by (rule solid_blank [OF Cons(2) _ assms(2)]) simp
  moreover have "solid v" using solid_suffix [of "[c]" v] Cons(2) by simp
  ultimately show ?case using Cons(1) [of "acc @ [c]"] by (simp add: split_whitespace_simps)
qed simp

lemma split_join_words:
  "(\<And>t. t \<in> set ts \<Longrightarrow> t \<noteq> [] \<and> solid t) \<Longrightarrow> split_whitespace [] (join_words ts) = ts"
proof (induction ts rule: join_words.induct)
  case 1
  show ?case by (simp add: split_whitespace_simps)
next
  case (2 w)
  then show ?case using split_solid [of w "[]" "[]"] by (simp add: split_whitespace_simps)
next
  case (3 w w' ws)
  let ?s = "join_words (w' # ws)"
  have "split_whitespace [] (w @ '' '' @ ?s) = split_whitespace w ('' '' @ ?s)"
    using split_solid [of w "'' '' @ ?s" "[]"] 3(2) [of w] by simp
  also have "\<dots> = w # split_whitespace [] ?s"
    using 3(2) [of w] leading_space_blank [of ?s] by (simp add: split_whitespace_simps(2))
  finally show ?case using 3 by simp
qed

lemma join_words_append:
  "xs \<noteq> [] \<Longrightarrow> ys \<noteq> [] \<Longrightarrow> join_words (xs @ ys) = join_words xs @ '' '' @ join_words ys"
proof (induction xs rule: join_words.induct)
  case (2 w)
  then show ?case by (cases ys) simp_all
qed simp_all

lemma solid_plain: "(\<And>c w. c \<in> set t \<Longrightarrow> w \<in> set whitespace \<Longrightarrow> hd w \<noteq> c) \<Longrightarrow> solid t"
proof (unfold solid_def leading_space_0, intro allI impI ballI notI)
  fix u v w
  assume plain: "\<And>c w. c \<in> set t \<Longrightarrow> w \<in> set whitespace \<Longrightarrow> hd w \<noteq> c"
    and "t = u @ v" "w \<in> set whitespace" "starts_with w v"
  then show False using whitespace_no_word [of w] plain [of "hd w" w] by (cases w) (auto simp: starts_with_iff)
qed

lemma join_words_flat:
  assumes "ms \<noteq> []"
  shows "join_words (ws @ join_words ms # vs) = join_words (ws @ ms @ vs)"
proof -
  have "join_words (join_words ms # vs) = join_words (ms @ vs)" using assms by (cases vs) (simp_all add: join_words_append)
  then show ?thesis using assms by (cases "ws = []") (simp_all add: join_words_append)
qed

section \<open>One word of a diagnostic\<close>

text \<open>The words around it: letters, and not too many.\<close>

definition plain_word :: "string \<Rightarrow> bool" where
  "plain_word w \<longleftrightarrow> w \<noteq> [] \<and> length w < 32 \<and> list_all is_alpha w"

text \<open>Printable ASCII without the blank.\<close>

definition graphic :: "char \<Rightarrow> bool" where
  "graphic c \<longleftrightarrow> 33 \<le> (of_char c :: nat) \<and> (of_char c :: nat) \<le> 126"

text \<open>Between the words \<open>before\<close> and \<open>after\<close>, the redaction shows \<open>v\<close> for \<open>w\<close>, unless the name of the home
  directory occurs in the text.\<close>

definition shown_as :: "string \<Rightarrow> string list \<Rightarrow> string list \<Rightarrow> string \<Rightarrow> string \<Rightarrow> bool" where
  "shown_as home before after w v \<longleftrightarrow>
     (home = [] \<or> \<not> sublist home (join_words (before @ [w] @ after)) \<longrightarrow>
      redact_diagnostic home (join_words (before @ [w] @ after)) = join_words (before @ [v] @ after))"

lemma replace_absent: "\<not> sublist pat s \<Longrightarrow> replace_all pat new s = s"
proof (induction s)
  case (Cons c cs)
  then have "\<not> starts_with pat (c # cs)" by (auto simp: starts_with_iff)
  moreover have "\<not> sublist pat cs" using Cons(2) by (auto simp: sublist_Cons_right)
  ultimately show ?case using Cons(1) by (simp add: replace_all.simps)
qed (simp add: replace_all.simps)

lemma redact_runs_split:
  "\<not> is_word c \<Longrightarrow> redact_runs run (s @ c # t) = redact_runs run s @ c # redact_runs [] t"
  by (induction run s rule: redact_runs.induct) auto

lemma redact_runs_word: "list_all is_word s \<Longrightarrow> redact_runs run s = redact_run (run @ s)"
  by (induction s arbitrary: run) auto

lemma redact_runs_join: "redact_runs [] (join_words ts) = join_words (map (redact_runs []) ts)"
proof (induction ts rule: join_words.induct)
  case (3 w w' ws)
  have "\<not> is_word (CHR '' '')" by (simp add: is_word_def is_alnum_def is_alpha_def is_digit_def)
  then show ?case using 3 by (simp add: redact_runs_split)
qed (simp_all add: redact_run_def starts_with_def)

lemma graphic_word: "is_word c \<Longrightarrow> graphic c"
  by (auto simp: is_word_def is_alnum_def is_alpha_def is_digit_def graphic_def Let_def)

lemma list_all_weaken: "list_all P s \<Longrightarrow> (\<And>c. P c \<Longrightarrow> Q c) \<Longrightarrow> list_all Q s"
  by (auto simp: list_all_iff)

lemma solid_graphic: "list_all graphic t \<Longrightarrow> solid t"
proof (rule solid_plain)
  fix c w
  assume "list_all graphic t" "c \<in> set t" "w \<in> set whitespace"
  moreover have "\<not> graphic (hd w)" if "w \<in> set whitespace" using that by (auto simp: whitespace_def graphic_def)
  ultimately show "hd w \<noteq> c" by (auto simp: list_all_iff)
qed

text \<open>What starts with a run and ends there, or goes on with an equals sign, is not taken for a path.\<close>

lemma named_not_path:
  assumes "n \<noteq> []" "list_all is_word n" "r = [] \<or> hd r = CHR ''=''"
  shows "\<not> looks_like_path (n @ r)"
proof -
  have no: "\<not> starts_with p (n @ r)" if p: "CHR ''='' \<notin> set p" "\<not> list_all is_word p" for p
  proof
    assume "starts_with p (n @ r)"
    then obtain t us where "n = p @ us \<or> (n @ us = p \<and> r = us @ t)"
      by (auto simp: starts_with_iff append_eq_append_conv2)
    then show False using p assms by (cases us) auto
  qed
  obtain c n' where n: "n = c # n'" using assms(1) by (cases n) auto
  then have c: "is_word c" using assms(2) by simp
  then have cand: "dropWhile (\<lambda>c. c \<in> path_openers) (n @ r) = n @ r"
    by (auto simp: n path_openers_def is_word_def is_alnum_def is_alpha_def is_digit_def)
  have marks: "\<not> is_word (CHR ''/'')" "\<not> is_word (CHR '':'')" "\<not> is_word (CHR ''$'')"
    by (simp_all add: is_word_def is_alnum_def is_alpha_def is_digit_def)
  have colon: "(n @ r) ! 1 \<noteq> CHR '':''" if "length (n @ r) \<ge> 3"
    using assms(2,3) marks that by (cases n'; cases r) (auto simp: n)
  then show ?thesis
    using colon no [of "''$HOME''"] no [of "''file://''"] no [of "''/''"] marks
    by (auto simp: looks_like_path_def cand Let_def)
qed

lemma plain_word_ok:
  assumes "plain_word w"
  shows "redact_runs [] w = w" "w \<noteq> []" "solid w" "redact_token w = w"
proof -
  have w: "w \<noteq> []" "length w < 32" "list_all is_alpha w" using assms by (simp_all add: plain_word_def)
  have word: "list_all is_word w" using w(3) by (rule list_all_weaken) (simp add: is_word_def is_alnum_def)
  have "\<not> is_alpha (CHR ''1'')" by (simp add: is_alpha_def)
  then have "\<not> starts_with ''cc1_'' w" using w(3) by (auto simp: starts_with_iff)
  then show "redact_runs [] w = w" using w(2) by (simp add: redact_runs_word [OF word] redact_run_def)
  show "w \<noteq> []" by (rule w(1))
  show "solid w" using word by (intro solid_graphic) (blast intro: list_all_weaken graphic_word)
  show "redact_token w = w" using named_not_path [OF w(1) word, of "[]"] by (simp add: redact_token_def)
qed

lemma shown_asI:
  assumes ctx: "list_all plain_word before" "list_all plain_word after"
    and w: "redact_runs [] w = join_words ms" "ms \<noteq> []" "\<And>m. m \<in> set ms \<Longrightarrow> m \<noteq> [] \<and> solid m"
    and v: "v = join_words (map redact_token ms)"
  shows "shown_as home before after w v"
proof -
  have plain: "map (redact_runs []) us = us" "map redact_token us = us" if "list_all plain_word us" for us
    using that by (auto simp: list_all_iff plain_word_ok intro!: map_idI)
  let ?ws = "before @ ms @ after"
  have ok: "t \<noteq> [] \<and> solid t" if "t \<in> set ?ws" for t
    using that ctx w(3) plain_word_ok(2,3) [of t] by (auto simp: list_all_iff)
  have "redact_runs [] (join_words (before @ [w] @ after)) = join_words ?ws"
    using plain(1) ctx w(1) join_words_flat [OF w(2), of before after] by (simp add: redact_runs_join)
  moreover have "join_words (map redact_token ?ws) = join_words (before @ [v] @ after)"
    using plain(2) ctx v w(2) join_words_flat [of "map redact_token ms" before after] by simp
  ultimately have "join_words (map redact_token (split_whitespace [] (redact_runs [] (join_words (before @ [w] @ after))))) =
      join_words (before @ [v] @ after)"
    using split_join_words [of ?ws] ok by simp
  then show ?thesis by (auto simp: shown_as_def redact_diagnostic_def replace_absent)
qed

lemma redact_runs_append: "list_all is_word x \<Longrightarrow> redact_runs run (x @ s) = redact_runs (run @ x) s"
  by (induction x arbitrary: run) auto

text \<open>Parts joined by hyphens: each is a run of its own.\<close>

definition hyphened :: "string list \<Rightarrow> string" where
  "hyphened ps = concat (map ((#) (CHR ''-'')) ps)"

definition open_part :: "string \<Rightarrow> bool" where
  "open_part p \<longleftrightarrow> list_all is_word p \<and> length p < 32 \<and> \<not> prefix ''cc1_'' p"

lemma redact_hyphened: "list_all open_part ps \<Longrightarrow> redact_runs run (hyphened ps) = redact_run run @ hyphened ps"
proof (induction ps arbitrary: run)
  case (Cons p ps)
  have "\<not> is_word (CHR ''-'')" by (simp add: is_word_def is_alnum_def is_alpha_def is_digit_def)
  then show ?case
    using Cons by (simp add: hyphened_def redact_runs_append open_part_def redact_run_def [of p] starts_with_iff prefix_def)
qed (simp add: hyphened_def)

lemma hyphened_graphic: "list_all open_part ps \<Longrightarrow> list_all graphic (hyphened ps)"
proof (induction ps)
  case (Cons p ps)
  then have "list_all graphic p" by (auto simp: open_part_def intro: list_all_weaken graphic_word)
  then show ?case using Cons by (simp add: hyphened_def graphic_def [of "CHR ''-''"])
qed (simp add: hyphened_def)

lemma mark_words:
  "redact_token ''[redacted'' = ''[redacted''" "redact_token (''invite]'' @ s) = ''invite]'' @ s"
  "redact_token ''identifier]'' = ''identifier]''"
  "solid ''[redacted''" "list_all graphic s \<Longrightarrow> solid (''invite]'' @ s)" "solid ''identifier]''"
  by (simp_all add: redact_token_def looks_like_path_def path_openers_def starts_with_def network_prefixes_def
      solid_graphic graphic_def)

lemma starts_with_prefix: "starts_with p s \<longleftrightarrow> prefix p s"
  by (simp add: starts_with_iff prefix_def)

lemma open_part_clean: "open_part n \<Longrightarrow> clean n"
  by (simp add: open_part_def clean_word secret_run_def starts_with_prefix)

lemma slash_not_word: "\<not> is_word (CHR ''/'')" "\<not> is_word (CHR ''='')"
  by (simp_all add: is_word_def is_alnum_def is_alpha_def is_digit_def)

lemma slash_clean: "clean p \<Longrightarrow> clean (CHR ''/'' # p)"
  using clean_split [of "CHR ''/''" "[]" p] slash_not_word by simp

lemma slash_path:
  "redact_token (CHR ''/'' # p) =
     (if list_ex (\<lambda>q. prefix q (CHR ''/'' # p)) network_prefixes then CHR ''/'' # p else ''[redacted path]'')"
proof (cases "list_ex (\<lambda>q. prefix q (CHR ''/'' # p)) network_prefixes")
  case True
  then have "p \<noteq> []" "hd p \<noteq> CHR '':''" by (auto simp: network_prefixes_def prefix_def)
  then show ?thesis using True
    by (cases p) (auto simp: redact_token_def looks_like_path_def path_openers_def starts_with_prefix)
next
  case False
  then have "looks_like_path (CHR ''/'' # p)"
    by (simp add: looks_like_path_def path_openers_def starts_with_prefix Let_def)
  then show ?thesis using False by (simp add: redact_token_def)
qed

end
