(* ===== verification/Desktop_Properties.thy ===== *)
theory Desktop_Properties
  imports Desktop_Join Desktop_Redact Cli_Demo
begin

text \<open>
  The properties of the desktop client: what a user sees after sending and joining, the files it keeps, and
  what leaves the computer with a feedback report.
\<close>

section \<open>Steps of the client\<close>

lemmas ui_defs = ui_panels_def show_chat_def show_feedback_def toggle_language_def app_join_def app_refresh_def app_send_def
  start_job_def open_feedback_def request_feedback_screenshot_def refresh_feedback_status_def submit_feedback_def Let_def

lemma poll_frame [simp]:
  "app_snapshot (poll_feedback_screenshot captured a) = app_snapshot a"
  "selected_channel (poll_feedback_screenshot captured a) = selected_channel a"
  "app_english (poll_feedback_screenshot captured a) = app_english a"
  "app_job (poll_feedback_screenshot captured a) = app_job a"
  "app_snapshot (fst (poll_feedback_job D a fs)) = app_snapshot a"
  "selected_channel (fst (poll_feedback_job D a fs)) = selected_channel a"
  "app_english (fst (poll_feedback_job D a fs)) = app_english a"
  "app_job (fst (poll_feedback_job D a fs)) = app_job a"
  by (auto simp: poll_feedback_screenshot_def poll_feedback_job_def Let_def
      split: option.split thread_channel.split sum.split prod.split)

lemma ui_poll_app:
  "sys_app (ui_poll D captured y) =
     poll_feedback_screenshot captured (fst (poll_feedback_job D (poll_job (sys_app y)) (w_fs (dw_cli (sys_world y)))))"
  by (simp add: ui_poll_def Let_def split: prod.split)

text \<open>What the polling does with a saved message.\<close>

lemma message_saved_visible:
  assumes "shows_message shot channel text" and "selected_channel a = Some channel"
    and "app_job a = Some (Sent (MessageSaved shot))"
  shows "\<exists>m \<in> set (visible_messages (poll_job a)). message_text m = text \<and> message_author_id m = shot_user_id shot"
    and "app_snapshot (poll_job a) = shot" and "selected_channel (poll_job a) = Some channel"
proof -
  have "channel \<in> channel_id ` set (shot_channels shot)" using assms(1) by (simp add: shows_message_def)
  then have sel: "selected_channel (poll_job a) = Some channel" and shot: "app_snapshot (poll_job a) = shot"
    using assms(2,3) by (simp_all add: poll_job_def start_job_def adopt_snapshot_def Let_def)
  then show "app_snapshot (poll_job a) = shot" "selected_channel (poll_job a) = Some channel" by simp_all
  show "\<exists>m \<in> set (visible_messages (poll_job a)). message_text m = text \<and> message_author_id m = shot_user_id shot"
    using assms(1) by (auto simp: visible_messages_def sel shot shows_message_def)
qed

section \<open>Conversations\<close>

text \<open>C34: a message appears: in a client that works, when the node accepts the message that a send has
  started, the thread ends, and the next frame shows the message in the selected channel under the name
  of the user.\<close>

theorem desktop_message_shown:
  assumes app: "app_job (sys_app y) = Some (Running (SendJob community channel text))"
      "selected_channel (sys_app y) = Some channel" "app_paths_of (sys_app y) = P"
    and paths: "unlocked (path_state P)" "unlocked (path_config P)"
    and w: "working D P st community c (dw_cli (sys_world y))"
    and codec: "codec_lossless (cp_payloads (dp_cli D))"
    and ch: "parse_hex_32 (dp_cli D) channel = Inr ch" "cp_hex_encode (dp_cli D) (arr32_bytes ch) = channel"
    and send: "command_send_message (dp_cli D) (env_clock (dp_env D (dw_processes (sys_world y))))
       (send_options (path_state P) community channel text)
       ((dw_cli (sys_world y))\<lparr>w_output := []\<rparr>) = (Inr (), w1)"
    and core: "node_open (cp_crypto (dp_cli D)) (cp_events (dp_cli D)) (database st (dw_cli (sys_world y))) (Some c) = Inr core"
      "local_event (dp_cli D) st c core (env_clock (dp_env D (dw_processes (sys_world y)))) (MessageCreate ch (trim text)) = Inr e"
    and free: "collision_free (cp_crypto (dp_cli D)) (insert e (stored (dp_cli D) st (dw_cli (sys_world y))))"
  shows "let a = sys_app (desktop_step D (Poll captured) (desktop_step D JobFinishes y)) in
    \<exists>m \<in> set (visible_messages a). message_text m = trim text \<and> author_label a m = app_text a zh_you ''You''"
proof -
  obtain shot s' where job: "send_work D P community channel text (sys_world y) = (Inr shot, s')"
    and shot: "shows_message shot channel (trim text)"
    using send_work_shows [OF w paths codec ch(1) send core free] ch(2) by auto
  let ?a = "(sys_app y)\<lparr>app_job := Some (Sent (MessageSaved shot))\<rparr>"
  have y1: "desktop_step D JobFinishes y = y\<lparr>sys_app := ?a, sys_world := s'\<rparr>"
    using app job by (simp add: job_outcome_def)
  obtain m where m: "m \<in> set (visible_messages (poll_job ?a))" "message_text m = trim text"
      "message_author_id m = shot_user_id shot" and snap: "app_snapshot (poll_job ?a) = shot"
    using message_saved_visible [OF shot, of ?a] app(2) by auto
  define b where "b = sys_app (desktop_step D (Poll captured) (desktop_step D JobFinishes y))"
  have "b = poll_feedback_screenshot captured (fst (poll_feedback_job D (poll_job ?a) (w_fs (dw_cli s'))))"
    unfolding b_def y1 by (simp add: ui_poll_app)
  then have b: "app_snapshot b = shot" "visible_messages b = visible_messages (poll_job ?a)"
    using snap by (simp_all add: visible_messages_def)
  have "author_label b m = app_text b zh_you ''You''" by (simp add: author_label_def b(1) m(3))
  then have "\<exists>m \<in> set (visible_messages b). message_text m = trim text \<and> author_label b m = app_text b zh_you ''You''"
    using m(1,2) b(2) by auto
  then show ?thesis by (simp only: Let_def b_def)
qed

section \<open>A demo client\<close>

definition demo_paths :: desktop_paths where
  "demo_paths = \<lparr>path_state = ''s'', path_config = ''client.json'', path_feedback = ''feedback.json'', path_node = ''node''\<rparr>"

definition channel_from_numbers :: "nat list \<times> nat list \<Rightarrow> desktop_channel" where
  "channel_from_numbers = (\<lambda>(i, n). \<lparr>channel_id = map char_of i, channel_name = map char_of n\<rparr>)"

definition message_from_numbers :: "nat list \<times> nat list \<times> nat list \<times> nat \<times> nat list \<Rightarrow> desktop_message" where
  "message_from_numbers = (\<lambda>(i, c, a, t, s).
     \<lparr>message_event_id = map char_of i, message_channel_id = map char_of c, message_author_id = map char_of a,
      message_timestamp_ms = word_of_nat t, message_text = map char_of s\<rparr>)"

definition demo_receipt :: feedback_receipt where
  "demo_receipt = \<lparr>receipt_public_id = ''RV'', receipt_edit_token = ''token'', receipt_status = ''pending'', receipt_admin_reply = []\<rparr>"

definition demo_answered :: feedback_receipt where
  "demo_answered = demo_receipt\<lparr>receipt_status := ''completed'', receipt_admin_reply := ''ok''\<rparr>"

definition demo_desktop :: "arr32 desktop_params" where
  "demo_desktop =
     \<lparr>dp_cli = talk_cli,
      dp_env = (\<lambda>_. \<lparr>env_user_seed = 1, env_device_seed = 11, env_channel = 9, env_capability = 0, env_clock = 0,
        env_surroundings = \<lparr>sur_clock = (\<lambda>_. 0), sur_swarm = (\<lambda>_. demo_swarm), sur_idle = (\<lambda>_. None)\<rparr>, env_events = []\<rparr>),
      dp_start = (\<lambda>_. None), dp_error_text = (\<lambda>_. []), dp_io_text = (\<lambda>_. []),
      dp_config = table_codec [(\<lparr>config_version = 1, config_community_id = Some demo_hex\<rparr>, [6])],
      dp_receipt = table_codec [(demo_receipt, [8]), (demo_answered, [9])], dp_encode_error = [], dp_config_error = (\<lambda>_. []),
      dp_receipt_error = (\<lambda>_. []),
      dp_channels_from = (\<lambda>s. Inr (map channel_from_numbers (from_nat (length s - 1)))),
      dp_messages_from = (\<lambda>s. Inr (map message_from_numbers (from_nat (length s - 1)))),
      dp_post = (\<lambda>_ _ _. Inr []), dp_get = (\<lambda>_ _ _. Inr []),
      dp_created_from = (\<lambda>_. Inr \<lparr>created_public_id = ''RV'', created_edit_token = ''token'', created_status = ''pending''\<rparr>),
      dp_status_from = (\<lambda>_. Inr \<lparr>status_public_id = ''RV'', status_status = ''completed'', status_admin_reply = ''ok''\<rparr>),
      dp_jpeg = (\<lambda>_ _ _ _. Inr [1]), dp_base64 = (\<lambda>_. ''AQ==''), dp_home = ''/home/u'', dp_os = ''linux'', dp_arch = ''x86_64''\<rparr>"

lemma demo_desktop_simps [simp]:
  "dp_cli demo_desktop = talk_cli" "env_clock (dp_env demo_desktop n) = 0" "dp_start demo_desktop n = None"
  by (simp_all add: demo_desktop_def)

lemma demo_listings: "listings_ok demo_desktop"
proof -
  have c: "channel_from_numbers (channel_numbers v) = channel_of_view v" for v
    by (simp add: channel_from_numbers_def channel_numbers_def channel_of_view_def map_idI)
  have m: "message_from_numbers (message_numbers v) = message_of_view v" for v
    by (simp add: message_from_numbers_def message_numbers_def message_of_view_def map_idI)
  show ?thesis
    by (simp add: listings_ok_def demo_desktop_def talk_cli_def demo_cli_def number_text_def NL_def c m)
qed

lemma demo_user_line: "line_text (user_hex talk_cli (demo_state ''s''))"
proof -
  have small: "set (be_bytes k 1) \<subseteq> {0, 1}" for k
  proof (induction k)
    case (Suc k)
    have "(1 :: nat) div 256 ^ k = (if k = 0 then 1 else 0)"
      using one_less_power [of "256 :: nat" k] by (cases "k = 0") simp_all
    then show ?case using Suc by simp
  qed simp
  have ok: "char_of (unat b) \<noteq> CHR 0x0A \<and> char_of (unat b) \<noteq> CHR 0x0D" if "b \<in> set (user_bytes (UserId 1))" for b
  proof -
    have "b = 0 \<or> b = 1" using small [of 32] that by (auto simp: user_bytes_def arr32_bytes_def)
    then show ?thesis by (auto simp: char_of_def)
  qed
  show ?thesis
    by (auto simp: line_text_def demo_state_def demo_users talk_cli_def demo_cli_def text_of_bytes_def)
      (metis ok)+
qed

lemma demo_healthy: "healthy talk_world"
  by (simp add: healthy_def talk_world_def demo_world_def demo_fs_def)

lemma demo_config_loads:
  "load_config demo_desktop ''client.json'' (w_fs talk_world) =
     Inr \<lparr>config_version = 1, config_community_id = Some demo_hex\<rparr>"
  by (simp add: load_config_def path_is_file_def symlink_metadata_def fs_read_def fs_try_def talk_world_def demo_world_def
      demo_fs_def demo_desktop_def table_codec_def CONFIG_VERSION_def)

lemma demo_working: "working demo_desktop demo_paths (demo_state ''s'') demo_hex demo_community talk_world"
proof -
  have whole: "whole_store demo_crypto talk_json demo_community (database (demo_state ''s'') talk_world)"
    using whole_store_of_node [OF talk_whole, of demo_community] by (simp add: talk_database talk_node_def)
  have load: "state_load demo_libp2p (table_codec [(demo_persisted, [5])]) ''s'' (w_fs talk_world) = Inr (demo_state ''s'')"
    by (simp add: demo_load talk_world_def demo_world_def demo_fs_def join_path_def IDENTITY_FILE_def)
  have user: "line_text (cp_hex_encode talk_cli (user_bytes (identity_user_id demo_crypto (state_user (demo_state ''s'')))))"
    using demo_user_line by simp
  show ?thesis
    unfolding working_def
    using whole load user demo_healthy demo_listings demo_config_loads by (simp add: demo_paths_def)
qed

definition demo_system :: desktop_system where
  "demo_system =
     \<lparr>sys_app = (app_new demo_desktop demo_paths demo_fs)
        \<lparr>selected_channel := Some talk_hex, app_job := Some (Running (SendJob demo_hex talk_hex ''m''))\<rparr>,
      sys_world = \<lparr>dw_cli = talk_world, dw_processes = 0\<rparr>\<rparr>"

lemma demo_system_simps [simp]:
  "sys_world demo_system = \<lparr>dw_cli = talk_world, dw_processes = 0\<rparr>"
  "app_job (sys_app demo_system) = Some (Running (SendJob demo_hex talk_hex ''m''))"
  "selected_channel (sys_app demo_system) = Some talk_hex" "app_paths_of (sys_app demo_system) = demo_paths"
  by (simp_all add: demo_system_def app_new_def start_job_def)

theorem desktop_message_shown_witness:
  "let a = sys_app (desktop_step demo_desktop (Poll None) (desktop_step demo_desktop JobFinishes demo_system)) in
     \<exists>m \<in> set (visible_messages a). message_text m = ''m'' \<and> author_label a m = app_text a zh_you ''You''"
proof -
  obtain w where send: "command_send_message talk_cli 0 talk_options talk_world = (Inr (), w)" using talk_send by blast
  have w: "working demo_desktop demo_paths (demo_state ''s'') demo_hex demo_community (dw_cli (sys_world demo_system))"
    using demo_working by simp
  have paths: "unlocked (path_state demo_paths)" "unlocked (path_config demo_paths)"
    by (rule unlocked_last; simp add: demo_paths_def)+
  have "talk_world\<lparr>w_output := []\<rparr> = talk_world" by (simp add: talk_world_def demo_world_def)
  then have run: "command_send_message (dp_cli demo_desktop) (env_clock (dp_env demo_desktop (dw_processes (sys_world demo_system))))
      (send_options (path_state demo_paths) demo_hex talk_hex ''m'') ((dw_cli (sys_world demo_system))\<lparr>w_output := []\<rparr>) = (Inr (), w)"
    using send by (simp add: send_options_def talk_options_def demo_paths_def)
  have hex: "cp_hex_encode (dp_cli demo_desktop) (arr32_bytes 9) = talk_hex" "parse_hex_32 (dp_cli demo_desktop) talk_hex = Inr 9"
    by (simp add: talk_cli_def demo_cli_def talk_hex_def) simp
  have core: "node_open (cp_crypto (dp_cli demo_desktop)) (cp_events (dp_cli demo_desktop))
      (database (demo_state ''s'') (dw_cli (sys_world demo_system))) (Some demo_community) = Inr talk_node"
    "local_event (dp_cli demo_desktop) (demo_state ''s'') demo_community talk_node
      (env_clock (dp_env demo_desktop (dw_processes (sys_world demo_system)))) (MessageCreate 9 (trim ''m'')) = Inr talk_message"
    using talk_open talk_event by (simp_all add: talk_database talk_trim)
  have "collision_free demo_crypto {talk_message, demo_genesis, talk_channel}"
    using valid_event_id [OF demo_valid(1)] valid_event_id [OF talk_valid(1)] valid_event_id [OF talk_valid(2)]
    by (auto simp: collision_free_def)
  then have free: "collision_free (cp_crypto (dp_cli demo_desktop))
      (insert talk_message (stored (dp_cli demo_desktop) (demo_state ''s'') (dw_cli (sys_world demo_system))))"
    by (simp add: talk_stored)
  have codec: "codec_lossless (cp_payloads (dp_cli demo_desktop))" by (simp add: talk_lossless)
  show ?thesis
    using desktop_message_shown [OF demo_system_simps(2,3,4) paths w codec hex(2,1) run core free] by (simp only: talk_trim)
qed

section \<open>Joining and files\<close>

lemma save_config_fault: "fs_fault (snd (save_config D path community fs)) = fs_fault fs"
proof -
  let ?R = "\<lambda>a b :: filesystem. fs_fault b = fs_fault a"
  have "?R fs (snd (create_directories parent fs))" for fs parent
    using make_dirs_frame(2) [of "path_prefixes [] parent" fs]
    by (auto simp: create_directories_def create_dir_all_def split: prod.split)
  moreover have "?R fs (snd (fs_write path bs fs))" for fs bs
    by (auto simp: fs_write_def Let_def split: sum.split option.split fs_entry.split)
  ultimately show ?thesis
    by (auto simp: save_config_def op_bind_def op_lift_def fs_context_def split: prod.split sum.split)
      (metis snd_conv)+
qed

text \<open>C35: joining is remembered exactly when it has succeeded: when the node cannot join, the client reports
  the node's error and its configuration stays as it was; when the client shows a snapshot after joining,
  that snapshot and the configuration are of the community the node has joined.\<close>

theorem join_configures:
  assumes P: "beside P" and codec: "codec_lossless (dp_config D)" and faults: "fs_fault (w_fs (dw_cli s)) = (\<lambda>_. None)"
    and s1: "ensure_identity D P s = (Inr (), s1)"
    and s2: "run_node D [''join'', ''--state'', path_state P, ''--invite-code'', invite] s1 = (q, s2)"
    and r: "join_work D P invite s = (r, s')"
  shows "case q of
      Inl err \<Rightarrow> r = Inl err \<and> load_config D (path_config P) (w_fs (dw_cli s')) = load_config D (path_config P) (w_fs (dw_cli s))
    | Inr out \<Rightarrow> \<forall>shot. r = Inr shot \<longrightarrow> (\<exists>community. output_field out ''COMMUNITY_ID'' = Inr community \<and>
        shot_community_id shot = Some community \<and>
        load_config D (path_config P) (w_fs (dw_cli s')) =
          Inr \<lparr>config_version = CONFIG_VERSION, config_community_id = Some community\<rparr>)"
proof -
  have "keeps_config P s s1" "keeps_config P s1 s2"
    using ensure_identity_keeps [OF P, of s D] node_keeps(5) [OF P, of s1 D invite] s1 s2 by simp_all
  then have kept: "keeps_config P s s2" by (rule config.trans)
  show ?thesis
  proof (cases q)
    case (Inl err)
    then have "r = Inl err" "s' = s2" using r s1 s2 by (simp_all add: join_work_def op_bind_def)
    then show ?thesis using Inl kept by (simp add: keeps_config_def load_config_kept)
  next
    case (Inr out)
    have "\<exists>community. output_field out ''COMMUNITY_ID'' = Inr community \<and> shot_community_id shot = Some community \<and>
        load_config D (path_config P) (w_fs (dw_cli s')) =
          Inr \<lparr>config_version = CONFIG_VERSION, config_community_id = Some community\<rparr>" if shot: "r = Inr shot" for shot
    proof -
      obtain community fs where com: "output_field out ''COMMUNITY_ID'' = Inr community"
        and save: "save_config D (path_config P) (Some community) (w_fs (dw_cli s2)) = (Inr (), fs)"
        and load: "load_snapshot D P False (s2\<lparr>dw_cli := (dw_cli s2)\<lparr>w_fs := fs\<rparr>\<rparr>) = (Inr shot, s')"
        using r s1 s2 Inr shot
        by (auto simp: join_work_def op_bind_Inr_iff desktop_lift_def op_lift_def map_err_Inr_iff desktop_fs_Inr)
      have "fs_fault fs = (\<lambda>_. None)"
        using save_config_fault [of D "path_config P" "Some community" "w_fs (dw_cli s2)"] save kept faults
        by (simp add: keeps_config_def keeps_file_def)
      then have "load_config D (path_config P) fs = Inr \<lparr>config_version = CONFIG_VERSION, config_community_id = Some community\<rparr>"
        by (intro saved_config_loads [OF codec save]) simp
      then show ?thesis using load_snapshot_community [OF P load] com by auto
    qed
    then show ?thesis using Inr by simp
  qed
qed

theorem join_configures_witness:
  "\<exists>s' s2 err. run_node (demo_desktop\<lparr>dp_start := \<lambda>_. Some ''gone''\<rparr>) [''join'', ''--state'', ''s'', ''--invite-code'', ''i'']
       \<lparr>dw_cli = talk_world, dw_processes = 0\<rparr> = (Inl err, s2) \<and>
     join_work (demo_desktop\<lparr>dp_start := \<lambda>_. Some ''gone''\<rparr>) demo_paths ''i'' \<lparr>dw_cli = talk_world, dw_processes = 0\<rparr> = (Inl err, s') \<and>
     load_config demo_desktop ''client.json'' (w_fs (dw_cli s')) = load_config demo_desktop ''client.json'' (w_fs talk_world)"
proof -
  let ?D = "demo_desktop\<lparr>dp_start := \<lambda>_. Some ''gone''\<rparr>" and ?s = "\<lparr>dw_cli = talk_world, dw_processes = 0\<rparr>"
  have P: "beside demo_paths"
    by (auto simp: beside_def demo_paths_def join_path_def IDENTITY_FILE_def intro: unlocked_last)
  have codec: "codec_lossless (dp_config ?D)" by (simp add: demo_desktop_def table_codec_lossless)
  have faults: "fs_fault (w_fs (dw_cli ?s)) = (\<lambda>_. None)" by (simp add: talk_world_def demo_world_def demo_fs_def)
  have ens: "ensure_identity ?D demo_paths ?s = (Inr (), ?s)"
    by (simp add: ensure_identity_def demo_paths_def path_is_file_def symlink_metadata_def fs_try_def talk_world_def
        demo_world_def demo_fs_def join_path_def IDENTITY_FILE_def)
  obtain err s2 where run: "run_node ?D [''join'', ''--state'', path_state demo_paths, ''--invite-code'', ''i''] ?s = (Inl err, s2)"
    by (simp add: run_node_def)
  obtain r s' where work: "join_work ?D demo_paths ''i'' ?s = (r, s')" by fastforce
  have cfg: "load_config ?D p fs = load_config demo_desktop p fs" for p fs
    by (simp add: load_config_def demo_desktop_def)
  show ?thesis
    using join_configures [OF P codec faults ens run work] run work by (simp add: cfg demo_paths_def)
qed

text \<open>What the client saves it reads back: the configuration, and the receipt of a report, which is left
  readable by its owner only.\<close>

theorem client_files_roundtrip:
  assumes "codec_lossless (dp_config D)" and "codec_lossless (dp_receipt D)"
    and "save_config D config_path community fs = (Inr (), fs1)" and "\<forall>call. fs_fault fs1 call = None"
    and "save_feedback_receipt D receipt_path receipt fs1 = (Inr (), fs2)" and "\<forall>call. fs_fault fs2 call = None"
  shows "load_config D config_path fs1 = Inr \<lparr>config_version = CONFIG_VERSION, config_community_id = community\<rparr> \<and>
    load_feedback_receipt D receipt_path fs2 = Inr (Some receipt) \<and>
    (\<forall>mode bs. fs_entries fs2 receipt_path = Some (FsFile mode bs) \<longrightarrow> and mode 63 = 0)"
proof (rule save_receipt_Inr [OF assms(5)])
  fix bs
  assume bs: "to_vec (dp_receipt D) receipt = Some bs" and held: "holds_file receipt_path bs fs2"
    and mode: "\<And>mode bs'. fs_entries fs2 receipt_path = Some (FsFile mode bs') \<Longrightarrow> mode = 384"
  have "load_feedback_receipt D receipt_path fs2 = Inr (Some receipt)"
    using holds_file_read [OF held] assms(6) codec_losslessD [OF assms(2) bs] by (simp add: load_feedback_receipt_def)
  moreover have "and mode 63 = 0" if "fs_entries fs2 receipt_path = Some (FsFile mode bs')" for mode bs'
    using mode [OF that] by simp
  moreover have "load_config D config_path fs1 = Inr \<lparr>config_version = CONFIG_VERSION, config_community_id = community\<rparr>"
    using assms(4) by (intro saved_config_loads [OF assms(1,3)]) simp
  ultimately show ?thesis by blast
qed

theorem client_files_roundtrip_witness:
  "\<exists>fs1 fs2. save_config demo_desktop ''client.json'' (Some demo_hex) (w_fs talk_world) = (Inr (), fs1) \<and>
     save_feedback_receipt demo_desktop ''feedback.json'' demo_receipt fs1 = (Inr (), fs2) \<and>
     load_feedback_receipt demo_desktop ''feedback.json'' fs2 = Inr (Some demo_receipt)"
proof -
  have paths: "parent_path ''client.json'' = Some []" "parent_path ''feedback.json'' = Some []" by (simp_all add: parent_path_def)
  obtain fs1 where save: "save_config demo_desktop ''client.json'' (Some demo_hex) (w_fs talk_world) = (Inr (), fs1)"
    and f1: "\<forall>call. fs_fault fs1 call = None" and e1: "fs_entries fs1 ''feedback.json'' = None"
    by (simp add: save_config_def paths op_lift_def create_directories_def fs_context_def fs_write_def fs_try_def demo_desktop_def
        table_codec_def CONFIG_VERSION_def talk_world_def demo_world_def demo_fs_def Let_def)
  obtain fs2 where receipt: "save_feedback_receipt demo_desktop ''feedback.json'' demo_receipt fs1 = (Inr (), fs2)"
    and f2: "\<forall>call. fs_fault fs2 call = None"
    using f1 e1 by (simp add: save_feedback_receipt_def paths op_lift_def create_directories_def fs_context_def fs_write_def fs_try_def
        demo_desktop_def table_codec_def set_private_def Let_def)
  have codecs: "codec_lossless (dp_config demo_desktop)" "codec_lossless (dp_receipt demo_desktop)"
    by (simp_all add: demo_desktop_def table_codec_lossless)
  show ?thesis using save receipt client_files_roundtrip [OF codecs save f1 receipt f2] by blast
qed

section \<open>The selected channel\<close>

text \<open>The selected channel is one of those shown, and a message being sent goes to a channel and a community
  that are shown.\<close>

definition selection_ok :: "desktop_app \<Rightarrow> bool" where
  "selection_ok a \<longleftrightarrow>
     (selected_channel a = None \<longleftrightarrow> shot_channels (app_snapshot a) = []) \<and>
     (\<forall>i. selected_channel a = Some i \<longrightarrow> i \<in> channel_id ` set (shot_channels (app_snapshot a))) \<and>
     (\<forall>community i text. app_job a = Some (Running (SendJob community i text)) \<longrightarrow>
        shot_community_id (app_snapshot a) = Some community \<and> i \<in> channel_id ` set (shot_channels (app_snapshot a)) \<and>
        text \<noteq> [])"

lemma adopt_selection:
  "selected_channel (adopt_snapshot shot a) = None \<longleftrightarrow> shot_channels shot = []"
  "selected_channel (adopt_snapshot shot a) = Some i \<Longrightarrow> i \<in> channel_id ` set (shot_channels shot)"
  by (cases "shot_channels shot"; auto simp: adopt_snapshot_def Let_def split: option.splits if_splits)+

lemma adopt_frame [simp]: "app_job (adopt_snapshot shot a) = app_job a"
  by (simp add: adopt_snapshot_def Let_def)

lemma poll_job_selection:
  assumes "selection_ok a"
  shows "selection_ok (poll_job a)"
proof (cases "\<exists>result. app_job a = Some (Sent result)")
  case True
  then obtain result where result: "app_job a = Some (Sent result)" by blast
  show ?thesis
  proof (cases result)
    case (Failed err)
    then show ?thesis using assms result by (simp add: poll_job_def selection_ok_def)
  qed (use result adopt_selection in \<open>auto simp: poll_job_def selection_ok_def start_job_def\<close>)
next
  case False
  then show ?thesis using assms by (auto simp: poll_job_def split: option.split thread_channel.split)
qed

lemma ui_selection:
  assumes "selection_ok a"
  shows "selection_ok (ui_panels D act a)"
proof -
  have feedback: "selection_ok (show_feedback D act b)" if "selection_ok b" for b
    using that by (cases act) (auto simp: selection_ok_def ui_defs split: option.split)
  have join: "selection_ok (show_join act b)" if "selection_ok b" for b
    using that by (cases act) (auto simp: selection_ok_def ui_defs)
  have sidebar: "selection_ok (show_sidebar act b)" if "selection_ok b" for b
    using that by (cases act) (auto simp: selection_ok_def ui_defs)
  have conversation: "selection_ok (show_conversation act b)" if "selection_ok b" for b
    using that by (cases act) (auto simp: selection_ok_def ui_defs split: option.split)
  have toggle: "selection_ok (toggle_language a)" using assms by (simp add: selection_ok_def ui_defs)
  show ?thesis
    unfolding ui_panels_def Let_def show_chat_def
    by (rule feedback) (use assms toggle join sidebar conversation in auto)
qed

lemma selection_frame:
  assumes "app_snapshot b = app_snapshot a" and "selected_channel b = selected_channel a" and "app_job b = app_job a"
  shows "selection_ok b = selection_ok a"
  using assms by (simp add: selection_ok_def)

text \<open>C36: in every state of the client a channel is selected unless there is none, the selected channel is one
  of those shown, and a send that is under way is for the community and a channel that are shown and has
  a text.\<close>

theorem desktop_selection:
  assumes "desktop_reachable D y"
  shows "selection_ok (sys_app y)"
  using assms
proof (induction rule: desktop_reachable.induct)
  case (start P w)
  then show ?case by (simp add: selection_ok_def app_new_def start_job_def snapshot_default_def)
next
  case (step y input)
  show ?case
  proof (cases input)
    case (Poll captured)
    have "selection_ok (sys_app (ui_poll D captured y)) = selection_ok (poll_job (sys_app y))"
      by (rule selection_frame) (simp_all add: ui_poll_app)
    then show ?thesis using Poll poll_job_selection [OF step.IH] by simp
  next
    case (Act act)
    then show ?thesis using ui_selection [OF step.IH] by simp
  next
    case JobFinishes
    then show ?thesis
      using step.IH by (auto simp: selection_ok_def split: option.split thread_channel.split prod.split)
  next
    case FeedbackFinishes
    then show ?thesis
      using step.IH by (auto simp: selection_ok_def split: option.split thread_channel.split)
  qed
qed

theorem desktop_selection_witness:
  "selection_ok (sys_app (desktop_step demo_desktop (Poll None)
     \<lparr>sys_app = app_new demo_desktop demo_paths (w_fs talk_world), sys_world = \<lparr>dw_cli = talk_world, dw_processes = 0\<rparr>\<rparr>))"
proof -
  have "desktop_reachable demo_desktop (desktop_step demo_desktop (Poll None)
     \<lparr>sys_app = app_new demo_desktop demo_paths (w_fs talk_world), sys_world = \<lparr>dw_cli = talk_world, dw_processes = 0\<rparr>\<rparr>)"
    using desktop_reachable.step [OF desktop_reachable.start [of demo_desktop demo_paths "\<lparr>dw_cli = talk_world, dw_processes = 0\<rparr>"]]
    by (simp del: desktop_step.simps)
  then show ?thesis by (rule desktop_selection)
qed

section \<open>Feedback\<close>

lemma feedback_job_frame:
  "feedback_job (poll_job a) = feedback_job a" "feedback_job (toggle_language a) = feedback_job a"
  "feedback_job (show_join act a) = feedback_job a" "feedback_job (show_chat act a) = feedback_job a"
  "feedback_job (poll_feedback_screenshot captured a) = feedback_job a"
proof -
  show "feedback_job (poll_job a) = feedback_job a"
  proof (cases "\<exists>result. app_job a = Some (Sent result)")
    case True
    then obtain result where "app_job a = Some (Sent result)" by blast
    then show ?thesis by (cases result) (simp_all add: poll_job_def start_job_def adopt_snapshot_def Let_def)
  qed (auto simp: poll_job_def split: option.split thread_channel.split)
  show "feedback_job (show_join act a) = feedback_job a" "feedback_job (show_chat act a) = feedback_job a"
    by (cases act; simp add: ui_defs split: option.split)+
qed (simp_all add: toggle_language_def poll_feedback_screenshot_def Let_def split: option.split)

text \<open>Only the button of the feedback window starts a submission.\<close>

lemma feedback_window_submits:
  assumes "feedback_job (feedback_window D act a) = Some (Running (SubmitTask report screen shot))"
    and "feedback_job a \<noteq> Some (Running (SubmitTask report screen shot))"
  shows "act = ClickSubmit \<and> feedback_confirmed a \<and> 3 \<le> length (trim (feedback_what a)) \<and>
    3 \<le> length (trim (feedback_expected a)) \<and> report = issue_body D a \<and> shot = feedback_screenshot a"
  using assms
  by (cases act) (auto simp: request_feedback_screenshot_def refresh_feedback_status_def submit_feedback_def
      split: if_splits option.splits)

text \<open>C37: nothing is uploaded automatically: a report is sent only when the user clicks the button of the open
  feedback window, after describing what happened and what was expected and ticking the confirmation;
  what is sent is the report that the window shows, with the screenshot that it shows.\<close>

theorem feedback_consent:
  assumes "feedback_job (sys_app (desktop_step D input y)) = Some (Running (SubmitTask report screen shot))"
    and "feedback_job (sys_app y) \<noteq> Some (Running (SubmitTask report screen shot))"
  shows "input = Act ClickSubmit \<and> feedback_open (sys_app y) \<and> feedback_confirmed (sys_app y) \<and>
    3 \<le> length (trim (feedback_what (sys_app y))) \<and> 3 \<le> length (trim (feedback_expected (sys_app y))) \<and>
    report = issue_body D (sys_app y) \<and> shot = feedback_screenshot (sys_app y)"
proof (cases input)
  case (Poll captured)
  then show ?thesis
    using assms by (auto simp: ui_poll_app feedback_job_frame poll_feedback_job_def Let_def
        split: option.splits thread_channel.splits sum.splits prod.splits)
next
  case (Act act)
  define a1 where "a1 = (if act = ToggleLanguage then toggle_language (sys_app y) else sys_app y)"
  define b where "b = (if on_join_screen a1 then show_join act a1 else show_chat act a1)"
  have same: "feedback_job b = feedback_job (sys_app y)" by (simp add: b_def a1_def feedback_job_frame)
  have "ui_panels D act (sys_app y) = show_feedback D act b" by (simp only: ui_panels_def b_def a1_def Let_def)
  then have "feedback_job (show_feedback D act b) = Some (Running (SubmitTask report screen shot))"
    using assms(1) Act by simp
  then have open_b: "feedback_open b" and sub: "act = ClickSubmit \<and> feedback_confirmed b \<and> 3 \<le> length (trim (feedback_what b)) \<and>
      3 \<le> length (trim (feedback_expected b)) \<and> report = issue_body D b \<and> shot = feedback_screenshot b"
    using assms(2) same feedback_window_submits [of D act b] by (auto simp: show_feedback_def split: if_splits)
  have "b = sys_app y" using sub by (simp add: b_def a1_def show_chat_def)
  then show ?thesis using Act open_b sub by simp
qed (use assms in \<open>auto split: option.splits thread_channel.splits prod.splits\<close>)

definition demo_reporter :: desktop_app where
  "demo_reporter = (app_new demo_desktop demo_paths (w_fs talk_world))
     \<lparr>feedback_open := True, feedback_what := ''crash'', feedback_expected := ''none'', feedback_confirmed := True\<rparr>"

theorem feedback_consent_witness:
  "\<exists>report screen shot. feedback_job (sys_app (desktop_step demo_desktop (Act ClickSubmit)
       \<lparr>sys_app = demo_reporter, sys_world = \<lparr>dw_cli = talk_world, dw_processes = 0\<rparr>\<rparr>)) =
       Some (Running (SubmitTask report screen shot)) \<and> report = issue_body demo_desktop demo_reporter"
proof -
  let ?y = "\<lparr>sys_app = demo_reporter, sys_world = \<lparr>dw_cli = talk_world, dw_processes = 0\<rparr>\<rparr>"
  have "trim ''crash'' = ''crash''" "trim ''none'' = ''none''" by (simp_all add: trim_def whitespace_def strip_any.simps)
  then obtain report screen shot where job: "feedback_job (sys_app (desktop_step demo_desktop (Act ClickSubmit) ?y)) =
      Some (Running (SubmitTask report screen shot))"
    by (simp add: ui_panels_def show_feedback_def show_chat_def submit_feedback_def demo_reporter_def app_new_def start_job_def
        on_join_screen_def snapshot_default_def Let_def)
  have "feedback_job demo_reporter = None" by (simp add: demo_reporter_def app_new_def start_job_def)
  then show ?thesis using job feedback_consent [OF job] by auto
qed

text \<open>C38: what the redaction of a diagnostic hides, and what it leaves, of one word among plain words, for
  every text in which the home directory does not occur.  Of an invitation code it hides the part before
  the first hyphen: the parts after it stay, though they are part of the code, whose alphabet has
  the hyphen.  A run of 32 letters and digits or more is hidden; one that an underscore joins to something
  is not.  An absolute path is hidden and a network address is not; a path after a name and an equals
  sign stays.\<close>

theorem redaction_reach:
  assumes "list_all plain_word before" and "list_all plain_word after"
  shows
    "(list_all is_word b \<and> list_all open_part ps \<longrightarrow>
        shown_as home before after (''cc1_'' @ b @ hyphened ps) (''[redacted invite]'' @ hyphened ps)) \<and>
     (list_all is_alnum k \<and> 32 \<le> length k \<longrightarrow> shown_as home before after k ''[redacted identifier]'') \<and>
     (list_all is_word k \<and> CHR ''_'' \<in> set k \<and> \<not> prefix ''cc1_'' k \<longrightarrow> shown_as home before after k k) \<and>
     (list_all graphic p \<and> clean p \<longrightarrow>
        shown_as home before after (''/'' @ p)
          (if list_ex (\<lambda>q. prefix q (''/'' @ p)) network_prefixes then ''/'' @ p else ''[redacted path]'')) \<and>
     (n \<noteq> [] \<and> open_part n \<and> list_all graphic p \<and> clean p \<longrightarrow>
        shown_as home before after (n @ ''=/'' @ p) (n @ ''=/'' @ p))"
proof (intro conjI impI; elim conjE)
  assume b: "list_all is_word b" "list_all open_part ps"
  have "list_all is_word ''cc1_''" by (simp add: is_word_def is_alnum_def is_alpha_def is_digit_def)
  then have "redact_runs [] (''cc1_'' @ b @ hyphened ps) = redact_run (''cc1_'' @ b) @ hyphened ps"
    using b by (simp only: redact_runs_append redact_hyphened append_Nil)
  then have run: "redact_runs [] (''cc1_'' @ b @ hyphened ps) = join_words [''[redacted'', ''invite]'' @ hyphened ps]"
    by (simp add: redact_run_def starts_with_def)
  show "shown_as home before after (''cc1_'' @ b @ hyphened ps) (''[redacted invite]'' @ hyphened ps)"
    by (rule shown_asI [OF assms run]) (use mark_words hyphened_graphic [OF b(2)] in auto)
next
  assume k: "list_all is_alnum k" "32 \<le> length k"
  have "\<not> is_alnum (CHR ''_'')" by (simp add: is_alnum_def is_alpha_def is_digit_def)
  then have "\<not> starts_with ''cc1_'' k" using k(1) by (auto simp: starts_with_iff)
  moreover have "list_all is_word k" using k(1) by (rule list_all_weaken) (simp add: is_alnum_word)
  ultimately have run: "redact_runs [] k = join_words [''[redacted'', ''identifier]'']"
    using k by (simp add: redact_runs_word redact_run_def)
  show "shown_as home before after k ''[redacted identifier]''"
    by (rule shown_asI [OF assms run]) (use mark_words in auto)
next
  assume k: "list_all is_word k" "CHR ''_'' \<in> set k" "\<not> prefix ''cc1_'' k"
  have "\<not> is_alnum (CHR ''_'')" by (simp add: is_alnum_def is_alpha_def is_digit_def)
  then have run: "redact_runs [] k = join_words [k]"
    using k by (auto simp: redact_runs_word redact_run_def starts_with_prefix list_all_iff)
  have "list_all graphic k" using k(1) by (rule list_all_weaken) (rule graphic_word)
  moreover have "k \<noteq> []" using k(2) by auto
  ultimately show "shown_as home before after k k"
    using named_not_path [of k "[]"] k(1)
    by (intro shown_asI [OF assms run]) (auto simp: redact_token_def solid_graphic)
next
  let ?v = "if list_ex (\<lambda>q. prefix q (''/'' @ p)) network_prefixes then ''/'' @ p else ''[redacted path]''"
  assume p: "list_all graphic p" "clean p"
  have run: "redact_runs [] (''/'' @ p) = join_words [''/'' @ p]"
    using clean_redact_id [of "[]" "''/'' @ p"] slash_clean [OF p(2)] by simp
  have "list_all graphic (''/'' @ p)" using p(1) by (simp add: graphic_def)
  then show "shown_as home before after (''/'' @ p) ?v"
    using solid_graphic slash_path [of p] by (intro shown_asI [OF assms run]) auto
next
  assume n: "n \<noteq> []" "open_part n" and p: "list_all graphic p" "clean p"
  have clean: "clean (n @ ''=/'' @ p)"
    using clean_split [of "CHR ''=''" n "CHR ''/'' # p"] slash_not_word open_part_clean [OF n(2)] slash_clean [OF p(2)] by simp
  have run: "redact_runs [] (n @ ''=/'' @ p) = join_words [n @ ''=/'' @ p]"
    using clean_redact_id [of "[]" "n @ ''=/'' @ p"] clean by simp
  have word: "list_all is_word n" using n(2) by (simp add: open_part_def)
  then have "list_all graphic n" by (rule list_all_weaken) (rule graphic_word)
  then have "list_all graphic (n @ ''=/'' @ p)" using p(1) by (simp add: graphic_def)
  then show "shown_as home before after (n @ ''=/'' @ p) (n @ ''=/'' @ p)"
    using named_not_path [OF n(1) word, of "''=/'' @ p"] solid_graphic n(1)
    by (intro shown_asI [OF assms run]) (auto simp: redact_token_def)
qed

text \<open>The witness: two parts of a code of three, in a text of a user with a home directory.\<close>

theorem redaction_reach_witness:
  "redact_diagnostic ''/home/u'' ''joining cc1_AbCd-EfGh_token-9'' = ''joining [redacted invite]-EfGh_token-9''"
proof -
  have "shown_as ''/home/u'' [''joining''] [] (''cc1_'' @ ''AbCd'' @ hyphened [''EfGh_token'', ''9''])
      (''[redacted invite]'' @ hyphened [''EfGh_token'', ''9''])"
    using redaction_reach [of "[''joining'']" "[]" "''AbCd''" "[''EfGh_token'', ''9'']" "''/home/u''"]
    by (simp add: plain_word_def open_part_def is_word_def is_alnum_def is_alpha_def is_digit_def)
  moreover have "\<not> sublist ''/home/u'' (join_words [''joining'', ''cc1_AbCd-EfGh_token-9''])"
    by (simp add: sublist_Cons_right)
  ultimately show ?thesis by (simp add: shown_as_def hyphened_def)
qed

section \<open>Screenshots\<close>

lemma those_total: "(\<And>x. x \<in> set xs \<Longrightarrow> \<exists>y. f x = Some y) \<Longrightarrow> \<exists>ys. those (map f xs) = Some ys \<and> length ys = length xs"
proof (induction xs)
  case (Cons x xs)
  then obtain y ys where "f x = Some y" "those (map f xs) = Some ys" "length ys = length xs" by force
  then show ?case by simp
qed simp

lemma sample_pixel_total:
  assumes "length (image_pixels img) = image_width img * image_height img" and "0 < image_width img" "0 < image_height img"
    and "y < height" "x < width"
  shows "\<exists>p. sample_pixel img width height y x = Some p"
proof -
  let ?y = "y * image_height img div height" and ?x = "x * image_width img div width"
  have "?y < image_height img" using assms(3,4) by (intro less_mult_imp_div_less) (simp add: mult.commute)
  then have "Suc ?y * image_width img \<le> image_height img * image_width img" by (intro mult_le_mono1) simp
  moreover have "?x < image_width img" using assms(2,5) by (intro less_mult_imp_div_less) (simp add: mult.commute)
  ultimately have "?y * image_width img + ?x < length (image_pixels img)" by (simp add: assms(1) mult.commute)
  then show ?thesis unfolding sample_pixel_def Let_def by (metis (full_types))
qed

lemma concat_rgb_length: "length (concat (map (\<lambda>(r, g, b). [r, g, b]) ps)) = 3 * length ps"
  by (induction ps) auto

lemma sample_rgb_total:
  assumes "length (image_pixels img) = image_width img * image_height img" and "0 < image_width img" "0 < image_height img"
  shows "\<exists>rgb. sample_rgb img width height = Some rgb \<and> length rgb = 3 * (width * height)"
proof -
  let ?points = "List.product [0..<height] [0..<width]" and ?f = "\<lambda>(y, x). sample_pixel img width height y x"
  have "\<exists>p. ?f q = Some p" if "q \<in> set ?points" for q
  proof -
    obtain y x where q: "q = (y, x)" by fastforce
    then have "y < height" "x < width" using that by auto
    then show ?thesis using sample_pixel_total [OF assms] by (simp only: q prod.case)
  qed
  then obtain ps where "those (map ?f ?points) = Some ps" "length ps = length ?points"
    using those_total [of ?points ?f] by blast
  then show ?thesis by (simp add: sample_rgb_def concat_rgb_length length_product mult.commute)
qed

text \<open>C39: taking a screenshot cannot crash: every pixel read for a smaller picture of any size is in the image,
  the buffer has three bytes per pixel, an encoding is always returned or refused, and a returned picture is
  within its limit.\<close>

theorem screenshot_in_bounds:
  assumes "length (image_pixels img) = image_width img * image_height img"
  shows "\<exists>r. screenshot_data_url D img = Some r \<and>
    (\<forall>url. r = Inr url \<longrightarrow> (\<exists>quality rgb width height jpeg. sample_rgb img width height = Some rgb \<and>
       length rgb = 3 * (width * height) \<and> 0 < width \<and> 0 < height \<and> dp_jpeg D quality rgb width height = Inr jpeg \<and>
       length jpeg \<le> MAX_SCREENSHOT_BYTES \<and> url = ''data:image/jpeg;base64,'' @ dp_base64 D jpeg))"
proof -
  let ?good = "\<lambda>url. \<exists>quality rgb width height jpeg. sample_rgb img width height = Some rgb \<and>
       length rgb = 3 * (width * height) \<and> 0 < width \<and> 0 < height \<and> dp_jpeg D quality rgb width height = Inr jpeg \<and>
       length jpeg \<le> MAX_SCREENSHOT_BYTES \<and> url = ''data:image/jpeg;base64,'' @ dp_base64 D jpeg"
  have "\<exists>r. screenshot_attempts D img sizes = Some r \<and> (\<forall>url. r = Inr url \<longrightarrow> ?good url)" for sizes
  proof (induction sizes)
    case (Cons m sizes)
    obtain max_width quality where m: "m = (max_width, quality)" by fastforce
    show ?case
    proof (cases "image_width img = 0 \<or> image_height img = 0")
      case False
      define width height where "width = scaled_size max_width (image_width img) (image_width img)"
        and "height = scaled_size max_width (image_width img) (image_height img)"
      have pos: "0 < width" "0 < height" by (simp_all add: width_def height_def scaled_size_def Let_def)
      obtain rgb where rgb: "sample_rgb img width height = Some rgb" "length rgb = 3 * (width * height)"
        using sample_rgb_total [OF assms] False by blast
      show ?thesis
      proof (cases "dp_jpeg D quality rgb width height")
        case (Inl err)
        then show ?thesis using False rgb(1) by (simp add: m width_def height_def Let_def)
      next
        case (Inr jpeg)
        then have "?good (''data:image/jpeg;base64,'' @ dp_base64 D jpeg)" if "length jpeg \<le> MAX_SCREENSHOT_BYTES"
          using that pos rgb by blast
        then show ?thesis
          using False rgb(1) Inr Cons.IH by (cases "length jpeg \<le> MAX_SCREENSHOT_BYTES")
            (simp_all add: m width_def height_def Let_def del: append.simps)
      qed
    qed (simp add: m)
  qed simp
  then show ?thesis unfolding screenshot_data_url_def by blast
qed

theorem screenshot_in_bounds_witness:
  "\<exists>r. screenshot_data_url demo_desktop \<lparr>image_width = 1, image_height = 1, image_pixels = [(10, 20, 30)]\<rparr> = Some r"
  using screenshot_in_bounds [of "\<lparr>image_width = 1, image_height = 1, image_pixels = [(10, 20, 30)]\<rparr>" demo_desktop]
  by auto

section \<open>A reply and an unsent report\<close>

text \<open>C40: asking for a reply to an earlier report ends like a submission: the report that the user was writing
  and the screenshot are discarded, and the window says that feedback was delivered.\<close>

theorem check_reply_discards_draft:
  assumes "feedback_open (sys_app y)" and "feedback_job (sys_app y) = None" and "app_receipt (sys_app y) = Some receipt"
    and "fetch_feedback_status D receipt = Inr receipt'"
    and "save_feedback_receipt D (path_feedback (app_paths_of (sys_app y))) receipt' (w_fs (dw_cli (sys_world y))) = (Inr (), fs)"
    and "app_job (sys_app y) = None"
  shows "let a = sys_app (desktop_step D (Poll None) (desktop_step D FeedbackFinishes (desktop_step D (Act ClickCheckReply) y)))
    in feedback_what a = [] \<and> feedback_expected a = [] \<and> feedback_screenshot a = None \<and>
       feedback_notice a = Some (app_text a zh_delivered en_delivered)"
proof -
  have "ui_panels D ClickCheckReply (sys_app y) =
      (sys_app y)\<lparr>feedback_job := Some (Running (StatusTask receipt)),
        feedback_notice := Some (app_text (sys_app y) zh_checking en_checking)\<rparr>"
    using assms(1-3) by (simp add: ui_panels_def show_feedback_def show_chat_def refresh_feedback_status_def Let_def)
  then show ?thesis
    using assms(4-6)
    by (simp add: run_feedback_def ui_poll_app poll_job_def poll_feedback_job_def poll_feedback_screenshot_def app_text_def Let_def)
qed

theorem check_reply_discards_draft_witness:
  "let y = \<lparr>sys_app = demo_reporter\<lparr>app_job := None, app_receipt := Some demo_receipt\<rparr>,
             sys_world = \<lparr>dw_cli = talk_world, dw_processes = 0\<rparr>\<rparr>;
       a = sys_app (desktop_step demo_desktop (Poll None) (desktop_step demo_desktop FeedbackFinishes
             (desktop_step demo_desktop (Act ClickCheckReply) y)))
   in feedback_what (sys_app y) = ''crash'' \<and> feedback_what a = [] \<and>
      feedback_notice a = Some (app_text a zh_delivered en_delivered)"
proof -
  let ?a = "demo_reporter\<lparr>app_job := None, app_receipt := Some demo_receipt\<rparr>"
  let ?y = "\<lparr>sys_app = ?a, sys_world = \<lparr>dw_cli = talk_world, dw_processes = 0\<rparr>\<rparr>"
  have app: "feedback_open ?a" "feedback_job ?a = None" "feedback_what ?a = ''crash''"
    "path_feedback (app_paths_of ?a) = ''feedback.json''"
    by (simp_all add: demo_reporter_def app_new_def start_job_def demo_paths_def)
  have "fetch_feedback_status demo_desktop demo_receipt = Inr demo_answered"
    by (simp add: fetch_feedback_status_def demo_desktop_def demo_receipt_def demo_answered_def)
  moreover obtain fs where "save_feedback_receipt demo_desktop ''feedback.json'' demo_answered (w_fs talk_world) = (Inr (), fs)"
    by (simp add: save_feedback_receipt_def parent_path_def op_lift_def create_directories_def fs_context_def fs_write_def
        fs_try_def demo_desktop_def table_codec_def set_private_def talk_world_def demo_world_def demo_fs_def
        demo_answered_def demo_receipt_def Let_def)
  ultimately show ?thesis
    using check_reply_discards_draft [of ?y demo_receipt demo_desktop demo_answered] app
    by (simp add: Let_def del: desktop_step.simps)
qed

end
