(* ===== verification/Spec2Isabelle.thy ===== *)
theory Spec2Isabelle
  imports Core_Properties Chat_Properties Sync_Properties Network_Properties Cli_Properties Relay
    Desktop_Properties
begin

text \<open>
  ChatCommons: a verification library.

  \<^bold>\<open>The program.\<close>  ChatCommons is a peer-to-peer community chat in Rust.  Every action is a signed
  event that names its parents by hash; the events of a community form a DAG.  A node stores the events
  whose ancestry it has (node-core on the SQLite store), a profile turns the set of events into members,
  channels and rights (profile-chat), and peers exchange what they miss (sync).  Peers are devices: a
  user signs certificates for device keys, a network node lets in the devices of the community's
  members, and an invitation travels as a bootstrap code to a newcomer who proves to hold it.  A command
  line client runs all this on a state directory; a desktop client shows the community in a window and
  starts the command line client for every operation; a relay server forwards connections.

  \<^bold>\<open>Theories\<close>, in the order of the code's dependencies:

  \<^item> \<open>Prelude\<close>: results, bytes, fixed arrays, ordered maps, codecs, and the collections
    \<open>res_simps\<close>, \<open>bt_simps\<close>, \<open>inv_intros\<close>.
  \<^item> \<open>Crypto\<close> (\<open>crates/crypto/src/lib.rs\<close>): identities, user identifiers, \<open>verify\<close>.
  \<^item> \<open>Protocol\<close> (\<open>crates/protocol/src/lib.rs\<close>): \<open>EventContent\<close>, \<open>SignedEvent\<close>, the canonical
    encoding, \<open>create_signed\<close>, \<open>validate_event\<close>.
  \<^item> \<open>Storage\<close> (\<open>crates/storage/src/lib.rs\<close>): \<open>EventStore\<close> as a table; its contract is the locale
    \<open>event_log\<close>, interpreted on the store as \<open>log\<close>.
  \<^item> \<open>Archive\<close> (\<open>crates/storage/src/archive.rs\<close>): portable archives.
  \<^item> \<open>Node_Core\<close> (\<open>crates/node-core/src/lib.rs\<close>): \<open>CoreNode\<close>, ingestion, ancestry, heads.
  \<^item> \<open>Chat_Profile\<close>, \<open>Chat_Resolve\<close> (\<open>crates/profile-chat/src/lib.rs\<close>): payloads, invitations,
    and \<open>resolve\<close> with its authorisation rules and effects.
  \<^item> \<open>Chat_Run\<close>: the specification \<open>chat_run\<close> of a community and the proof that \<open>resolve\<close>
    implements it.
  \<^item> \<open>Sync\<close>, \<open>Sync_Peer\<close> (\<open>crates/sync/src/lib.rs\<close>): messages, \<open>SyncPeer\<close>, its invariant,
    quota and sessions.
  \<^item> \<open>Auth\<close> (\<open>crates/sync/src/auth.rs\<close>): device certificates and revocations.
  \<^item> \<open>Bootstrap\<close> (\<open>crates/sync/src/bootstrap.rs\<close>): bootstrap codes, addresses, possession proofs.
  \<^item> \<open>Network\<close> (\<open>crates/sync/src/network.rs\<close>): \<open>NetworkNode\<close>, its operations and handlers.
  \<^item> \<open>Network_Gate\<close>, \<open>Network_Refine\<close>, \<open>Network_Flow\<close>, \<open>Network_Sends\<close>: the authorisation state machine
    \<open>gate_move\<close>, the proof that the node refines it, what flows into the node, and what it sends in every
    call (the policy \<open>proper\<close> over \<open>may_ask\<close> and \<open>may_answer\<close>); the interfaces are the locales
    \<open>op_preorder\<close>, \<open>node_preorder\<close>, \<open>relay_preorder\<close> and \<open>sync_preorder\<close>, interpreted as \<open>quiet\<close>,
    \<open>same_sync\<close>, \<open>same_peers\<close>, \<open>same_self\<close> and \<open>logs\<close>.
  \<^item> \<open>Demo\<close>: a concrete community with a toy hash and toy codecs on which the properties are
    instantiated.
  \<^item> \<open>State_Files\<close> (\<open>crates/cli/src/state.rs\<close>): the private state directory on a file system whose
    calls may fail, and its lock.
  \<^item> \<open>Cli_Base\<close>, \<open>Import\<close>, \<open>Commands\<close>, \<open>Cli_Network\<close> (\<open>crates/cli/src/main.rs\<close>): options and their
    parsing; the batched, topologically sorted import of an archive; the commands that work on the local
    database; the commands that run a node (\<open>join\<close>, \<open>run\<close>, \<open>serve-community\<close>, \<open>sync-home-server\<close>) and
    the dispatch \<open>run\<close>.  \<open>cli_world\<close> is what a command can touch (files, databases, output), and
    \<open>cli_session\<close> adds the running node.  The field \<open>w_changes\<close> is a history that no operation reads:
    each change of a database, with the locks held when it was made.
  \<^item> \<open>Import_Sort\<close>, \<open>Import_Correct\<close>: the sort orders every complete archive and every batch is taken.
  \<^item> \<open>Commands_Correct\<close>, \<open>Archive_Transfer\<close>: databases stay whole, publishing, export and import.
  \<^item> \<open>Cli_Guard\<close>, \<open>Cli_Admission\<close>: the authorisation a running node derives from its community, the
    admission of newcomers and whom a joining client trusts.
  \<^item> \<open>Cli_Frame\<close>: which changes a command makes to databases, and under which locks; \<open>op_preorder\<close> is
    interpreted on worlds, file systems and sessions as \<open>changes\<close>, \<open>same_locks\<close> and \<open>session\<close>.
  \<^item> \<open>Relay\<close> (\<open>crates/relay/src/lib.rs\<close>, \<open>crates/cli/src/bin/chatcommons-relay.rs\<close>): the relay's limits,
    node and command.
  \<^item> \<open>Cli_Files\<close>, \<open>Listing\<close>: which files a command leaves alone (\<open>op_preorder\<close> interpreted as \<open>files\<close>); the
    listings of a whole database succeed and show a published message.
  \<^item> \<open>Cli_Demo\<close>: demo state directories, worlds and sessions.
  \<^item> \<open>Desktop_Text\<close>, \<open>Desktop_Node\<close>, \<open>Desktop_App\<close> (\<open>apps/desktop/src/main.rs\<close>): texts and the redaction of
    diagnostics; files, node processes, snapshots, the work of the threads, screenshots and the feedback
    service; the state of the application, what every panel does with a user's action, and the steps of
    the running client.
  \<^item> \<open>Desktop_Redact\<close>, \<open>Desktop_Correct\<close>, \<open>Desktop_Join\<close>: what the redaction makes of a word; files that load back and snapshots of
    a working client; what joining changes (\<open>op_preorder\<close> interpreted as \<open>entry\<close> and \<open>config\<close>).
  \<^item> \<open>Core_Properties\<close>, \<open>Chat_Properties\<close>, \<open>Sync_Properties\<close>, \<open>Network_Properties\<close>, \<open>Cli_Properties\<close>,
    \<open>Desktop_Properties\<close> and this theory: the properties.

  \<^bold>\<open>How state and operations correspond.\<close>  A struct is a record, an enum a datatype, a \<open>Result\<close> the
  sum \<open>'e + 'a\<close> with \<open>Inl\<close> for \<open>Err\<close>.  A method that takes \<open>&mut self\<close> and may fail after it
  changed something (\<open>ingest\<close>, \<open>accept\<close>, \<open>receive\<close>, every operation of \<open>NetworkNode\<close>) returns its
  result and the state it leaves behind.
  A \<open>BTreeMap\<close> is an association list with strictly increasing keys, a \<open>BTreeSet\<close> a set iterated in
  order, \<open>[u8; 32]\<close> a 256-bit word ordered like its bytes.  The panics of map indexing in \<open>resolve\<close>
  are the error \<open>IndexPanic\<close>, which is shown never to occur.
  The desktop client's world is the command line client's world and the number of processes started so
  far; \<open>run_node\<close> is \<open>run\<close> of the command line client on it, so that the two programs compose as they do
  on a computer.  A thread with its channel is \<open>Running\<close> its work, has \<open>Sent\<close> its result, or is \<open>Silent\<close>
  when it panicked or waits for ever; \<open>desktop_step\<close> interleaves frames, the user's actions and the ends
  of threads in any order, and \<open>desktop_reachable\<close> are the states that result.

  \<^bold>\<open>Loops.\<close>  All loops are total functions with termination proofs; there is no fuel.  The ready-loops
  of \<open>ingest\<close> and \<open>resolve\<close> shrink the pending collection in every round, and the ancestry walk either
  discovers one of at most \<open>limit\<close> identifiers or shortens its stack.  The loops of the client and the
  relay that wait for the network consume the list of events that arrive; when it is used up they return
  \<open>None\<close>, which reads as still waiting.

  \<^bold>\<open>Parameters.\<close>  Ed25519 and BLAKE3 are the fields of the record \<open>crypto\<close>; \<open>serde_json\<close> is one
  \<open>codec\<close> per encoded type; SQLite may fail on any statement (\<open>sql_fails\<close>).  The hypotheses about them
  are named: \<open>ed25519_correct\<close> (signatures of a key verify under it), \<open>codec_lossless\<close> and
  \<open>codec_total\<close>, \<open>small_ids_fit\<close> (64 identifiers fit a message), and \<open>ids_unique\<close>, which follows from
  \<open>collision_free\<close>: BLAKE3 does not collide on the events at hand.  \<open>wf (parent_relation E)\<close> says that
  parents do not run in a circle.  libp2p keys and peer identifiers are the record \<open>libp2p\<close> with
  \<open>libp2p_keys\<close>; base64 and the textual forms of peers and addresses are \<open>bootstrap_codecs\<close> with
  \<open>bootstrap_codecs_ok\<close>; the libp2p swarm is the argument \<open>swarm\<close> of each operation, and what the node
  asks of it is the list \<open>swarm_effects\<close>.  The client adds \<open>cli_params\<close> (hex, textual forms, the JSON of
  its listings, the order of peers with \<open>peer_order_ok\<close>), the file system's faults \<open>fs_fault\<close>, and the
  \<open>surroundings\<close> of a running command (clock, swarm and idle timer).  The desktop client adds
  \<open>desktop_params\<close>: JSON, HTTP, JPEG, base64, the texts of errors, the home directory and the surroundings
  of each process; \<open>listings_ok\<close> says that it reads the JSON of the listings as the command line client
  writes it, and \<open>working\<close> collects what a healthy installation has.

  \<^bold>\<open>What is shown.\<close>  Node: ingestion computes the least parent-closed extension, keeps the node
  well-formed through errors, does not depend on order, survives reopening; ancestry and heads are exact.
  Envelope: the encoding is injective, created events validate, identifiers identify.  Store and archive:
  lookup after insert, exact selection, exact validation, round trip.  Chat: \<open>resolve\<close> is total,
  convergent, and a run of the specification; governance, causal order, foundation, single use of
  invitations, provenance of members, authority of every accepted event, and for every rejection the one
  condition its reason stands for, from a table of refusals that is stated apart from the code.  Sync:
  invariant, exact acceptance, progress, quota, valid answers, convergence of sessions.  Network: the node
  refines the gate, authenticated peers are vouched for, only their messages reach the synchronisation
  peer and only they receive events, every request and response of every call is one the policy
  allows, a replaced authorisation takes effect at once, an honest newcomer
  gets in; certificates bind devices to users, bootstrap codes read back.  Client: a state directory
  loads back and is never overwritten; a command changes only the database it names, each time under the
  directory's lock, and the listings, which take no lock, at most create an empty one; an import stores exactly a complete archive and refuses an incomplete one untouched; an exported
  community is restored; a sent message is one new accepted event; a running node lets in exactly whom
  its community lets in, and admits a newcomer exactly when the community does; a joining client stores
  only what a trusted endpoint sent.  Relay: one line per reported event, in order.  Desktop: a sent
  message appears in its channel, a join is remembered exactly when it succeeded, files load back, the
  selection is always valid, a report leaves the computer only with the user's consent, and
  screenshots are encoded within bounds.  Checking for a reply, however, discards an unsent report, and
  the redaction of the diagnostics does not reach all it is meant for: the parts of an invitation code
  after its first hyphen stay, as do an identifier joined to something by an underscore and a path
  after a name and an equals sign.

  \<^bold>\<open>Not modelled.\<close>  The configuration of the libp2p transport and the relay protocol, which are the
  library's; the state directory on platforms other than Unix, which works there without the
  permission checks; the
  texts of library errors; the drawing of the desktop window (layout, colours, fonts, labels, avatars),
  which changes no state; node output that is not UTF-8, since texts are byte strings here.
\<close>

section \<open>From the node to the resolved community\<close>

lemma node_events_valid:
  assumes "node_ok C J node" and "all_events C J node = Inr es"
  shows "\<forall>e \<in> set es. validate_event C e = Inr ()" and "event_id ` set es = node_known node"
    and "\<forall>e \<in> set es. set (parents (content e)) \<subseteq> event_id ` set es"
proof -
  have ok: "store_ok C J (node_store node)" and fin: "finite (node_known node)"
    using assms(1) by (simp_all add: node_ok_def)
  note ev = all_events_Inr [OF assms]
  show "\<forall>e \<in> set es. validate_event C e = Inr ()" using ev(1) store_abs_Some [OF ok] by auto
  show ids: "event_id ` set es = node_known node"
    using arg_cong [where f = set, OF ev(2)] fin by simp
  show "\<forall>e \<in> set es. set (parents (content e)) \<subseteq> event_id ` set es"
    unfolding ids using ev(1) assms(1) by (fastforce simp: node_ok_def)
qed

lemma validate_payload_reasons: "validate_payload C st e u pl \<noteq> Inl MissingParent"
proof -
  have eps: "validate_endpoints S eps \<noteq> Inl MissingParent" for S eps
    by (induction eps arbitrary: S) auto
  have home: "validate_home_server key eps \<noteq> Inl MissingParent" for key eps
    using eps by (simp add: validate_home_server_def)
  have req: "require_admin st u \<noteq> Inl MissingParent" "require_owner st u \<noteq> Inl MissingParent"
    by (simp_all add: require_admin_def require_owner_def)
  have other: "ok_or v r = Inl MissingParent \<longleftrightarrow> v = None \<and> r = MissingParent"
    "map_err (\<lambda>_. InvalidInvitation) m \<noteq> Inl MissingParent" for v :: "'b option" and r and m :: "'d + 'c"
    by (auto simp: ok_or_Inl_iff map_err_Inl_iff)
  show ?thesis
    by (cases pl) (simp_all add: req home other res_bind_Inl_iff split: if_split)
qed

lemma never_refused_missing: "\<not> refused_by C P E ids e MissingParent"
  using validate_payload_reasons by (simp add: refused_by_def validate_context_def)

text \<open>A node's history always resolves: the events of a well-formed node are valid, so \<open>resolve\<close>
  succeeds on them, and since the node only stores events with their ancestry, no event is ever rejected
  for a missing parent.\<close>

theorem node_history_resolves:
  assumes "node_ok C J node" and "all_events C J node = Inr es" and "wf (parent_relation (set es))"
  shows "\<exists>R. resolve C P es = Inr R \<and> (\<forall>i. bt_get (rejected R) i \<noteq> Some MissingParent)"
proof -
  note ev = node_events_valid [OF assms(1,2)]
  obtain R where R: "resolve C P es = Inr R" using resolve_succeeds [of C P es] ev(1) by blast
  have uniq: "ids_unique (set es)"
    unfolding ids_unique_def all_events_Inr(1) [OF assms(1,2)] by (metis (mono_tags, lifting) mem_Collect_eq option.inject)
  have "bt_get (rejected R) i \<noteq> Some MissingParent" for i
  proof
    assume rej: "bt_get (rejected R) i = Some MissingParent"
    show False
    proof (rule resolve_sound [OF R uniq])
      fix stuck
      assume part: "set (accepted_in_order R) \<union> set (bt_keys (rejected R)) = event_id ` set es"
        and stuck: "stuck_set (set es) stuck" "stuck \<subseteq> event_id ` set es"
        and cause: "\<forall>e \<in> set es. \<forall>x. bt_get (rejected R) (event_id e) = Some x \<longrightarrow>
          (if event_id e \<in> stuck then x = MissingParent
           else reject_cause C P (set es) (accepted_in_order R) (set (bt_keys (rejected R))) e x)"
      have "i \<in> event_id ` set es" using part rej by (auto simp: bt_keys_iff_get)
      then obtain e where e: "e \<in> set es" "event_id e = i" by auto
      have "stuck = {}" by (rule stuck_set_empty [OF stuck assms(3)])
      then have "reject_cause C P (set es) (accepted_in_order R) (set (bt_keys (rejected R))) e MissingParent"
        using cause e rej by auto
      then obtain q where "q \<in> set (parents (content e))" "q \<notin> event_id ` set es"
        using never_refused_missing by (auto simp: reject_cause_def)
      then show False using ev(3) e(1) by blast
    qed
  qed
  then show ?thesis using R by blast
qed

theorem node_history_resolves_witness:
  "\<exists>es. all_events demo_crypto demo_json demo_full_node = Inr es \<and>
     (\<exists>R. resolve demo_crypto demo_payloads es = Inr R)"
proof -
  have "wf {(EventId 185, EventId 247), (EventId 247, EventId 248)}"
    by (auto simp: wf_insert rtrancl_insert)
  then have "wf (parent_relation (set [demo_genesis, demo_invite, demo_accept]))"
    by (rule wf_subset) (auto simp: parent_relation_def)
  then show ?thesis using node_history_resolves [OF demo_full_ok demo_all_events] demo_all_events by blast
qed

lemma ingest_stored:
  assumes "node_ok C J node" and "ids_unique (universe J node es)" and "ingest C J node es = (Inr r, node')"
  shows "ran (store_abs J (node_store node')) \<subseteq> universe J node es"
proof -
  obtain c where "ingest_check C node es = Inr c" by (rule ingest_Inr_loop [OF assms(3)])
  then show ?thesis using ingest_frame [OF assms(1,2) _ assms(3)] by blast
qed

lemma same_ids_same_events:
  assumes "ids_unique (A \<union> B)" and "event_id ` A \<subseteq> event_id ` B"
  shows "A \<subseteq> B"
proof
  fix e assume e: "e \<in> A"
  then obtain d where "d \<in> B" "event_id d = event_id e" using assms(2) by (metis imageE imageI subsetD)
  then show "e \<in> B" using ids_uniqueD [OF assms(1), of d e] e by simp
qed

text \<open>C18: replicas agree: two nodes that knew the same events and have each ingested the same events,
  in whatever order and with whatever repetitions, resolve to the same community.\<close>

theorem replicas_agree:
  assumes "node_ok C J a" and "node_ok C J b" and "node_known a = node_known b" and "set xs = set ys"
    and "ids_unique (universe J a xs \<union> universe J b ys)"
    and "ingest C J a xs = (Inr r, a')" and "ingest C J b ys = (Inr s, b')"
    and "all_events C J a' = Inr es" and "all_events C J b' = Inr fs"
  shows "resolve C P es = resolve C P fs"
proof -
  have ua: "ids_unique (universe J a xs)" and ub: "ids_unique (universe J b ys)" and ux: "ids_unique (set xs)"
    using assms(5) by (auto intro: ids_unique_subset simp: universe_def)
  have oka: "node_ok C J a'" and okb: "node_ok C J b'"
    using ingest_preserves [OF assms(1) ua assms(6)] ingest_preserves [OF assms(2) ub assms(7)] by auto
  have "node_known a' = node_known b'"
    using ingest_computes_closure(1) [OF assms(1) ua assms(6)] ingest_computes_closure(1) [OF assms(2) ub assms(7)]
      batch_map_cong [OF ux assms(4)] assms(3) by simp
  then have ids: "event_id ` set es = event_id ` set fs"
    using node_events_valid(2) [OF oka assms(8)] node_events_valid(2) [OF okb assms(9)] by simp
  have "set es \<subseteq> universe J a xs" "set fs \<subseteq> universe J b ys"
    using all_events_Inr(1) [OF oka assms(8)] all_events_Inr(1) [OF okb assms(9)]
      ingest_stored [OF assms(1) ua assms(6)] ingest_stored [OF assms(2) ub assms(7)] by (auto intro: ranI)
  then have uniq: "ids_unique (set es \<union> set fs)" "ids_unique (set fs \<union> set es)" "ids_unique (set es)"
    by (auto intro!: ids_unique_subset [OF assms(5)])
  then have "set es = set fs"
    using same_ids_same_events [OF uniq(1)] same_ids_same_events [OF uniq(2)] ids by auto
  then show ?thesis using resolve_same_set [OF _ uniq(3)] node_events_valid(1) [OF oka assms(8)] by blast
qed

theorem replicas_agree_witness:
  "\<exists>es fs. all_events demo_crypto demo_json (snd (ingest demo_crypto demo_json demo_node demo_events)) = Inr es \<and>
     all_events demo_crypto demo_json (snd (ingest demo_crypto demo_json demo_node demo_shuffled)) = Inr fs \<and>
     resolve demo_crypto demo_payloads es = resolve demo_crypto demo_payloads fs"
proof -
  have same: "set demo_events = set demo_shuffled" by (auto simp: demo_events_def demo_shuffled_def)
  have "universe demo_json demo_node demo_shuffled = set demo_events"
    using demo_universe same by (simp add: universe_def)
  then show ?thesis
    using replicas_agree [OF demo_node_ok demo_node_ok refl same _ demo_ingest
        trans [OF demo_shuffled_ingest demo_ingest] demo_all_events demo_all_events]
      demo_universe demo_ids_unique demo_shuffled_ingest demo_ingest demo_all_events by simp
qed

end
